(* ===== verification/Go_Prelude.thy ===== *)
theory Go_Prelude
  imports Main "HOL-Library.Sublist" "HOL-Library.List_Lexorder" "HOL-Library.Char_ord"
begin

text \<open>
  What the components share. The Go language and the parts of its standard library that the
  sources under src/internal use are modelled here:
  \<^item> a result \<open>'e + 'a\<close> for a pair \<open>(value, error)\<close>, sequenced by \<open>rbind\<close>; a validator that
    returns only an \<open>error\<close> has type \<open>'e + unit\<close>;
  \<^item> strings as byte lists (\<^typ>\<open>string\<close>), ordered bytewise as Go orders them (List\_Lexorder over
    Char\_ord), with \<open>strings.TrimSpace\<close>, \<open>strings.Split\<close>, \<open>strings.HasPrefix\<close> and their kin;
  \<^item> \<open>int64\<close> as \<^typ>\<open>int\<close> with the wrap-around written out (\<open>wrap64\<close>) and division truncating
    towards zero (\<open>go_div\<close>) where the code's arithmetic can leave the 64-bit range;
  \<^item> \<open>time.Time\<close> as the nanoseconds since the zero time 0001-01-01T00:00:00Z, so that \<open>IsZero\<close>
    is \<open>t = 0\<close> and \<open>UTC\<close> changes nothing; \<open>time.Duration\<close> as nanoseconds.
\<close>

named_theorems go_eval \<open>evaluation of string operations on concrete arguments\<close>
named_theorems result_simps \<open>inversion of successful results\<close>

section \<open>Results\<close>

type_synonym time = int
type_synonym duration = int

abbreviation ok :: "'e + unit" where
  "ok \<equiv> Inr ()"

definition rbind :: "'e + 'a \<Rightarrow> ('a \<Rightarrow> 'e + 'b) \<Rightarrow> 'e + 'b" where
  "rbind m f = (case m of Inl e \<Rightarrow> Inl e | Inr x \<Rightarrow> f x)"

lemma rbind_Inl [simp]: "rbind (Inl e) f = Inl e"
  by (simp add: rbind_def)

lemma rbind_Inr [simp]: "rbind (Inr x) f = f x"
  by (simp add: rbind_def)

lemma rbind_eq_Inr [result_simps]:
  "rbind m f = Inr y \<longleftrightarrow> (\<exists>x. m = Inr x \<and> f x = Inr y)"
  by (cases m) simp_all

lemma rbind_eq_Inl [result_simps]:
  "rbind m f = Inl e \<longleftrightarrow> m = Inl e \<or> (\<exists>x. m = Inr x \<and> f x = Inl e)"
  by (cases m) simp_all

lemma if_Inl_eq_Inr [result_simps]:
  "(if b then Inl e else r) = Inr y \<longleftrightarrow> \<not> b \<and> r = Inr y"
  by simp

lemma rbind_cong [fundef_cong]:
  "m = m' \<Longrightarrow> (\<And>x. m' = Inr x \<Longrightarrow> f x = g x) \<Longrightarrow> rbind m f = rbind m' g"
  by (cases m') simp_all

definition is_ok :: "'e + 'a \<Rightarrow> bool" where
  "is_ok r = (case r of Inl _ \<Rightarrow> False | Inr _ \<Rightarrow> True)"

lemma is_ok_simps [simp]: "is_ok (Inr x)" "\<not> is_ok (Inl e)"
  by (simp_all add: is_ok_def)

lemma is_ok_iff: "is_ok r \<longleftrightarrow> (\<exists>x. r = Inr x)"
  by (cases r) simp_all

lemma unit_result: "(r :: 'e + unit) = ok \<longleftrightarrow> is_ok r"
  by (cases r) simp_all

text \<open>A loop that validates each element and returns the first error.\<close>

fun check_all :: "('a \<Rightarrow> 'e + unit) \<Rightarrow> 'a list \<Rightarrow> 'e + unit" where
  "check_all f [] = ok"
| "check_all f (x # xs) = rbind (f x) (\<lambda>_. check_all f xs)"

lemma check_all_ok [result_simps]: "check_all f xs = ok \<longleftrightarrow> (\<forall>x\<in>set xs. f x = ok)"
  by (induction xs) (auto simp: rbind_eq_Inr)

text \<open>A loop that fails on a key it has already seen.\<close>

fun check_distinct :: "('a \<Rightarrow> 'k) \<Rightarrow> ('a \<Rightarrow> 'e) \<Rightarrow> 'k list \<Rightarrow> 'a list \<Rightarrow> 'e + unit" where
  "check_distinct key err seen [] = ok"
| "check_distinct key err seen (x # xs) =
     (if key x \<in> set seen then Inl (err x) else check_distinct key err (key x # seen) xs)"

lemma check_distinct_ok:
  "check_distinct key err seen xs = ok \<longleftrightarrow>
     distinct (map key xs) \<and> set seen \<inter> key ` set xs = {}"
  by (induction xs arbitrary: seen) auto

section \<open>Integers\<close>

definition wrap64 :: "int \<Rightarrow> int" where
  "wrap64 x = (x + 2 ^ 63) mod 2 ^ 64 - 2 ^ 63"

definition int64_range :: "int \<Rightarrow> bool" where
  "int64_range x \<longleftrightarrow> - (2 ^ 63) \<le> x \<and> x < 2 ^ 63"

lemma wrap64_id: "int64_range x \<Longrightarrow> wrap64 x = x"
  by (simp add: int64_range_def wrap64_def)

lemma wrap64_range: "int64_range (wrap64 x)"
proof -
  have "0 \<le> (x + 2 ^ 63) mod 2 ^ 64" and "(x + 2 ^ 63) mod 2 ^ 64 < (2 :: int) ^ 64"
    by (rule pos_mod_sign pos_mod_bound, simp)+
  then show ?thesis by (simp add: wrap64_def int64_range_def)
qed

lemma wrap64_above: "2 ^ 63 \<le> x \<Longrightarrow> x < 2 ^ 64 + 2 ^ 63 \<Longrightarrow> wrap64 x = x - 2 ^ 64"
proof -
  assume lo: "2 ^ 63 \<le> x" and hi: "x < 2 ^ 64 + 2 ^ 63"
  have "(x + 2 ^ 63) mod 2 ^ 64 = (x + 2 ^ 63 - 2 ^ 64) mod 2 ^ 64"
    by (metis minus_mod_self2)
  also have "\<dots> = x + 2 ^ 63 - 2 ^ 64"
    using lo hi by (intro mod_pos_pos_trivial) simp_all
  finally show ?thesis by (simp add: wrap64_def)
qed

definition go_div :: "int \<Rightarrow> int \<Rightarrow> int" where
  "go_div a b = sgn a * sgn b * (\<bar>a\<bar> div \<bar>b\<bar>)"

lemma go_div_nonneg: "0 \<le> a \<Longrightarrow> 0 < b \<Longrightarrow> go_div a b = a div b"
  by (cases "a = 0") (simp_all add: go_div_def)

section \<open>Strings\<close>

text \<open>
  The encodings of the white space runes (\<open>unicode.IsSpace\<close>): the six ASCII ones, U+0085, U+00A0,
  U+1680, U+2000 to U+200A, U+2028, U+2029, U+202F, U+205F and U+3000. \<open>strings.TrimSpace\<close> strips
  runes from this set from both ends; no encoding is a proper prefix or suffix of another, so
  that stripping bytes that spell one of them is the same.
\<close>

definition go_spaces :: "string list" where
  "go_spaces =
     [[CHR 0x09], [CHR 0x0A], [CHR 0x0B], [CHR 0x0C], [CHR 0x0D], [CHR 0x20],
      [CHR 0xC2, CHR 0x85], [CHR 0xC2, CHR 0xA0], [CHR 0xE1, CHR 0x9A, CHR 0x80],
      [CHR 0xE2, CHR 0x80, CHR 0x80], [CHR 0xE2, CHR 0x80, CHR 0x81],
      [CHR 0xE2, CHR 0x80, CHR 0x82], [CHR 0xE2, CHR 0x80, CHR 0x83],
      [CHR 0xE2, CHR 0x80, CHR 0x84], [CHR 0xE2, CHR 0x80, CHR 0x85],
      [CHR 0xE2, CHR 0x80, CHR 0x86], [CHR 0xE2, CHR 0x80, CHR 0x87],
      [CHR 0xE2, CHR 0x80, CHR 0x88], [CHR 0xE2, CHR 0x80, CHR 0x89],
      [CHR 0xE2, CHR 0x80, CHR 0x8A], [CHR 0xE2, CHR 0x80, CHR 0xA8],
      [CHR 0xE2, CHR 0x80, CHR 0xA9], [CHR 0xE2, CHR 0x80, CHR 0xAF],
      [CHR 0xE2, CHR 0x81, CHR 0x9F], [CHR 0xE3, CHR 0x80, CHR 0x80]]"

fun strip_one :: "string list \<Rightarrow> string \<Rightarrow> string option" where
  "strip_one [] s = None"
| "strip_one (p # ps) s =
     (if p \<noteq> [] \<and> take (length p) s = p then Some (drop (length p) s) else strip_one ps s)"

lemma strip_one_shorter: "strip_one ps s = Some r \<Longrightarrow> length r < length s"
proof (induction ps)
  case (Cons p ps)
  show ?case
  proof (cases "p \<noteq> [] \<and> take (length p) s = p")
    case True
    then have "s \<noteq> []" by auto
    with True Cons.prems show ?thesis by auto
  next
    case False
    with Cons show ?thesis by simp
  qed
qed simp

function trim_with :: "string list \<Rightarrow> string \<Rightarrow> string" where
  "trim_with ps s = (case strip_one ps s of None \<Rightarrow> s | Some r \<Rightarrow> trim_with ps r)"
  by pat_completeness auto
termination
  by (relation "measure (\<lambda>(ps, s). length s)") (auto dest: strip_one_shorter)

declare trim_with.simps [simp del]

definition trim_left :: "string \<Rightarrow> string" where
  "trim_left s = trim_with go_spaces s"

definition trim_right :: "string \<Rightarrow> string" where
  "trim_right s = rev (trim_with (map rev go_spaces) (rev s))"

definition TrimSpace :: "string \<Rightarrow> string" where
  "TrimSpace s = trim_right (trim_left s)"

lemma strip_one_None: "strip_one ps s = None \<longleftrightarrow> (\<forall>p\<in>set ps. p \<noteq> [] \<longrightarrow> \<not> prefix p s)"
  by (induction ps) (auto simp: prefix_def, metis append_take_drop_id)

lemma strip_one_Some: "strip_one ps s = Some r \<Longrightarrow> suffix r s"
  by (induction ps) (auto split: if_splits intro: suffix_drop)

lemma trim_with_stuck: "strip_one ps (trim_with ps s) = None"
proof (induction ps s rule: trim_with.induct)
  case (1 ps s)
  then show ?case by (subst trim_with.simps) (auto split: option.splits)
qed

lemma trim_with_id: "strip_one ps s = None \<Longrightarrow> trim_with ps s = s"
  by (simp add: trim_with.simps)

lemma trim_with_suffix: "suffix (trim_with ps s) s"
proof (induction ps s rule: trim_with.induct)
  case (1 ps s)
  then show ?case
    by (subst trim_with.simps)
      (auto split: option.splits dest: strip_one_Some intro: suffix_order.trans)
qed

lemma trim_right_prefix: "prefix (trim_right s) s"
  using trim_with_suffix [of "map rev go_spaces" "rev s"]
  by (simp add: trim_right_def suffix_to_prefix)

lemma trim_right_id: "strip_one (map rev go_spaces) (rev s) = None \<Longrightarrow> trim_right s = s"
  by (simp add: trim_right_def trim_with_id)

lemma trim_right_stuck: "strip_one (map rev go_spaces) (rev (trim_right s)) = None"
  by (simp add: trim_right_def trim_with_stuck)

lemma strip_one_None_prefix: "strip_one ps s = None \<Longrightarrow> prefix t s \<Longrightarrow> strip_one ps t = None"
  by (meson strip_one_None prefix_order.trans)

lemma TrimSpace_stuck:
  "strip_one go_spaces (TrimSpace s) = None"
  "strip_one (map rev go_spaces) (rev (TrimSpace s)) = None"
  unfolding TrimSpace_def trim_left_def
  by (rule strip_one_None_prefix [OF trim_with_stuck trim_right_prefix], rule trim_right_stuck)

lemma TrimSpace_idI:
  "strip_one go_spaces s = None \<Longrightarrow> strip_one (map rev go_spaces) (rev s) = None \<Longrightarrow> TrimSpace s = s"
  by (simp add: TrimSpace_def trim_left_def trim_with_id trim_right_id)

lemma TrimSpace_idem [simp]: "TrimSpace (TrimSpace s) = TrimSpace s"
  by (rule TrimSpace_idI) (rule TrimSpace_stuck)+

lemma TrimSpace_empty [simp]: "TrimSpace [] = []"
  by (rule TrimSpace_idI) (auto simp: strip_one_None)

lemma TrimSpace_blank: "TrimSpace (CHR '' '' # s) = TrimSpace s"
proof -
  have "strip_one go_spaces (CHR '' '' # s) = Some s" by (simp add: go_spaces_def)
  then show ?thesis by (simp add: TrimSpace_def trim_left_def trim_with.simps [of _ "CHR '' '' # s"])
qed

text \<open>A string that starts and ends with a printable ASCII byte is trimmed already.\<close>

definition graphic :: "char \<Rightarrow> bool" where
  "graphic c \<longleftrightarrow> (of_char c :: nat) \<in> {0x21..0x7E}"

lemma TrimSpace_graphic [go_eval]: "s \<noteq> [] \<Longrightarrow> graphic (hd s) \<Longrightarrow> graphic (last s) \<Longrightarrow> TrimSpace s = s"
proof (rule TrimSpace_idI)
  assume s: "s \<noteq> []" and h: "graphic (hd s)" and l: "graphic (last s)"
  have none: "strip_one ps t = None"
    if "t \<noteq> []" "graphic (hd t)" "\<forall>p\<in>set ps. p \<noteq> [] \<and> \<not> graphic (hd p)" for ps t
    using that unfolding strip_one_None prefix_def by (metis hd_append2)
  show "strip_one go_spaces s = None"
    by (rule none [OF s h]) (simp add: go_spaces_def graphic_def)
  show "strip_one (map rev go_spaces) (rev s) = None"
    by (rule none) (use s l in \<open>simp_all add: hd_rev go_spaces_def graphic_def\<close>)
qed

declare graphic_def [go_eval]

text \<open>\<open>strings.Split(s, sep)\<close> for a one-byte separator, and \<open>strings.Join\<close>.\<close>

fun split_on :: "char \<Rightarrow> string \<Rightarrow> string list" where
  "split_on c [] = [[]]"
| "split_on c (x # xs) =
     (if x = c then [] # split_on c xs
      else (case split_on c xs of [] \<Rightarrow> [[x]] | y # ys \<Rightarrow> (x # y) # ys))"

fun join_with :: "string \<Rightarrow> string list \<Rightarrow> string" where
  "join_with sep [] = []"
| "join_with sep [x] = x"
| "join_with sep (x # y # ys) = x @ sep @ join_with sep (y # ys)"

lemma split_on_nonempty [simp]: "split_on c s \<noteq> []"
  by (induction s) (auto split: list.splits)

lemma split_on_parts: "p \<in> set (split_on c s) \<Longrightarrow> c \<notin> set p"
  by (induction s arbitrary: p) (auto split: list.splits if_splits)

lemma split_on_plain: "c \<notin> set s \<Longrightarrow> split_on c s = [s]"
  by (induction s) auto

lemma split_on_append: "c \<notin> set p \<Longrightarrow> split_on c (p @ c # s) = p # split_on c s"
  by (induction p) auto

lemma split_join:
  "ps \<noteq> [] \<Longrightarrow> \<forall>p\<in>set ps. c \<notin> set p \<Longrightarrow> split_on c (join_with [c] ps) = ps"
  by (induction "[c]" ps rule: join_with.induct) (auto simp: split_on_plain split_on_append)

lemma join_with_Cons: "ps \<noteq> [] \<Longrightarrow> join_with sep (p # ps) = p @ sep @ join_with sep ps"
  by (cases ps) simp_all

lemma join_split: "join_with [c] (split_on c s) = s"
proof (induction s)
  case (Cons x xs)
  show ?case
  proof (cases "split_on c xs")
    case Nil
    then show ?thesis by simp
  next
    case (Cons y ys)
    with Cons.IH show ?thesis
      by (cases ys) (auto simp: join_with_Cons)
  qed
qed simp

text \<open>\<open>strings.Contains\<close> of a one-byte string, \<open>strings.HasPrefix\<close> and \<open>strings.HasSuffix\<close>.\<close>

definition HasPrefix :: "string \<Rightarrow> string \<Rightarrow> bool" where
  "HasPrefix s p \<longleftrightarrow> take (length p) s = p"

definition HasSuffix :: "string \<Rightarrow> string \<Rightarrow> bool" where
  "HasSuffix s p \<longleftrightarrow> length p \<le> length s \<and> drop (length s - length p) s = p"

lemma HasPrefix_prefix: "HasPrefix s p \<longleftrightarrow> prefix p s"
  by (auto simp: HasPrefix_def prefix_def) (metis append_take_drop_id)

lemma HasSuffix_suffix: "HasSuffix s p \<longleftrightarrow> suffix p s"
  by (auto simp: HasSuffix_def suffix_def) (metis append_take_drop_id)

text \<open>The ASCII part of \<open>strings.ToUpper\<close> and \<open>strings.ToLower\<close>.\<close>

definition byte_in :: "nat \<Rightarrow> nat \<Rightarrow> char \<Rightarrow> bool" where
  "byte_in lo hi c \<longleftrightarrow> lo \<le> of_char c \<and> of_char c \<le> hi"

definition letters :: "(char \<times> char) list" where
  "letters = zip ''abcdefghijklmnopqrstuvwxyz'' ''ABCDEFGHIJKLMNOPQRSTUVWXYZ''"

definition upper_byte :: "char \<Rightarrow> char" where
  "upper_byte c = (case map_of letters c of Some u \<Rightarrow> u | None \<Rightarrow> c)"

definition lower_byte :: "char \<Rightarrow> char" where
  "lower_byte c = (case map_of (map prod.swap letters) c of Some l \<Rightarrow> l | None \<Rightarrow> c)"

definition is_lower_hex :: "char \<Rightarrow> bool" where
  "is_lower_hex c \<longleftrightarrow> byte_in 48 57 c \<or> byte_in 97 102 c"

definition is_hex :: "char \<Rightarrow> bool" where
  "is_hex c \<longleftrightarrow> is_lower_hex c \<or> byte_in 65 70 c"

declare byte_in_def [go_eval] letters_def [go_eval] upper_byte_def [go_eval] lower_byte_def [go_eval]

end
