(* ===== verification/Core_Model.thy ===== *)
theory Core_Model
  imports Go_Prelude
begin

text \<open>
  The data of src/internal/core and the share modes of src/internal/storage/models.go. Each Go
  string type with constants is a datatype with those constants and one constructor for any other
  string, since a value read from the wire or the database may be any string; each struct is a
  record. A Go zero value is written out where the code relies on it.
\<close>

type_synonym DeviceID = string
type_synonym ShareID = string
type_synonym RevisionID = string
type_synonym TombstoneID = string
type_synonym TransferID = string

datatype EntryType =
  EntryFile | EntryDirectory | EntrySymlinkUnsupported | EntryDeleted | EntryOther string

datatype Capability =
  CapabilityList | CapabilityRead | CapabilityUpload | CapabilityModify | CapabilityRename
| CapabilityDelete | CapabilityAccessHistory | CapabilityRestore | CapabilitySync
| CapabilityRemoteAccess | CapabilityOther string

definition ShareCapabilities :: "Capability list" where
  "ShareCapabilities =
     [CapabilityList, CapabilityRead, CapabilityUpload, CapabilityModify, CapabilityRename,
      CapabilityDelete, CapabilityAccessHistory, CapabilityRestore, CapabilitySync]"

definition IsShareCapability :: "Capability \<Rightarrow> bool" where
  "IsShareCapability candidate = list_ex (\<lambda>capability. candidate = capability) ShareCapabilities"

record Revision =
  rev_ID :: RevisionID
  rev_ShareID :: ShareID
  rev_RelativePath :: string
  rev_EntryType :: EntryType
  rev_Size :: int
  rev_ContentHash :: string
  rev_HashAlgorithm :: string
  rev_ParentRevisionID :: RevisionID
  rev_OriginDeviceID :: DeviceID
  rev_Sequence :: int
  rev_IsDeleted :: bool
  rev_CreatedAt :: time

record FileIndexEntry =
  fie_ShareID :: ShareID
  fie_RelativePath :: string
  fie_EntryType :: EntryType
  fie_Size :: int
  fie_ModifiedTime :: time
  fie_CreationTime :: time
  fie_FileIdentity :: string
  fie_ContentHash :: string
  fie_HashAlgorithm :: string
  fie_CurrentRevisionID :: RevisionID
  fie_IsDeleted :: bool
  fie_DeletedAt :: time
  fie_LastScannedAt :: time

definition zero_FileIndexEntry :: FileIndexEntry where
  "zero_FileIndexEntry =
     \<lparr> fie_ShareID = [], fie_RelativePath = [], fie_EntryType = EntryOther [], fie_Size = 0,
       fie_ModifiedTime = 0, fie_CreationTime = 0, fie_FileIdentity = [], fie_ContentHash = [],
       fie_HashAlgorithm = [], fie_CurrentRevisionID = [], fie_IsDeleted = False,
       fie_DeletedAt = 0, fie_LastScannedAt = 0 \<rparr>"

text \<open>
  The capability map of a permission is a Go map with distinct keys: looking up an absent key
  gives \<open>false\<close>, and a loop over the map also visits keys whose value is \<open>false\<close>.
\<close>

record SharePermission =
  perm_ShareID :: ShareID
  perm_DeviceID :: DeviceID
  perm_Capabilities :: "(Capability \<times> bool) list"
  perm_LANOnly :: bool

definition perm_has :: "SharePermission \<Rightarrow> Capability \<Rightarrow> bool" where
  "perm_has p c = (map_of (perm_Capabilities p) c = Some True)"

datatype TransferState =
  TransferQueued | TransferAuthorizing | TransferOffered | TransferNegotiatingChunks
| TransferTransferring | TransferPaused | TransferVerifying | TransferCommitting
| TransferCompleted | TransferFailed | TransferCanceled | TransferStateOther string

datatype TransferDirection = TransferSend | TransferReceive | TransferDirectionOther string

record Transfer =
  tr_ID :: TransferID
  tr_Direction :: TransferDirection
  tr_PeerDeviceID :: DeviceID
  tr_ShareID :: ShareID
  tr_RelativePath :: string
  tr_State :: TransferState
  tr_Size :: int
  tr_ChunkSize :: int
  tr_ContentHash :: string
  tr_HashAlgorithm :: string
  tr_BytesVerified :: int
  tr_RetryCount :: int
  tr_CreatedAt :: time
  tr_UpdatedAt :: time
  tr_CompletedAt :: time
  tr_LastError :: string

datatype ChunkState =
  ChunkPending | ChunkReceived | ChunkVerified | ChunkRejected | ChunkStateOther string

record TransferChunk =
  tc_TransferID :: TransferID
  tc_Index :: int
  tc_Offset :: int
  tc_Size :: int
  tc_Hash :: string
  tc_State :: ChunkState
  tc_VerifiedAt :: time

datatype OneWayJobState =
  OneWayJobQueued | OneWayJobRunning | OneWayJobRetryWait | OneWayJobPaused
| OneWayJobCompleted | OneWayJobFailed | OneWayJobStateOther string

record OneWayJob =
  job_ID :: string
  job_TransferID :: TransferID
  job_PeerDeviceID :: DeviceID
  job_ShareID :: ShareID
  job_RevisionID :: RevisionID
  job_RelativePath :: string
  job_RequiredCapability :: Capability
  job_Remote :: bool
  job_State :: OneWayJobState
  job_RetryCount :: int
  job_NextAttemptAt :: time
  job_LastError :: string
  job_CreatedAt :: time
  job_UpdatedAt :: time

datatype ShareMode =
  ShareSendOnce | ShareOneWaySource | ShareOneWayTarget | ShareUploadOnly | ShareReadOnly
| ShareTwoWayPlanned | ShareModeOther string

text \<open>The remote access capability is the one named capability that no share grants.\<close>

lemma IsShareCapability_iff:
  "IsShareCapability c \<longleftrightarrow> c \<noteq> CapabilityRemoteAccess \<and> (\<forall>s. c \<noteq> CapabilityOther s)"
  by (cases c) (simp_all add: IsShareCapability_def ShareCapabilities_def)

end
