(* ===== verification/Go_OS.thy ===== *)
theory Go_OS
  imports Go_Prelude
begin

text \<open>
  What the sources use of the packages \<open>os\<close> and \<open>io/fs\<close>. A file system maps the clean paths it
  holds to nodes; a symbolic link holds the clean path it points to, and \<open>FDenied\<close> is a path whose
  inspection fails with an error other than \<open>ErrNotExist\<close>. The remaining fields are the refusals of
  the operating system: paths at which it creates nothing, the largest size of a file, files that
  fail to flush or to close, and the time it stamps on what it writes. A call that follows links
  follows those of the last path component, at most forty of them as Linux does; the components
  before it are checked by the code to be real directories.
\<close>

datatype fnode = FDir | FFile string time | FSymlink string | FSpecial | FDenied

record FS =
  fs_nodes :: "string \<rightharpoonup> fnode"
  fs_refuse :: "string \<Rightarrow> bool"
  fs_capacity :: "string \<Rightarrow> nat option"
  fs_sync_fails :: "string \<Rightarrow> bool"
  fs_close_fails :: "string \<Rightarrow> bool"
  fs_now :: time

definition plain_fs :: "(string \<rightharpoonup> fnode) \<Rightarrow> FS" where
  "plain_fs nodes =
     \<lparr> fs_nodes = nodes, fs_refuse = (\<lambda>_. False), fs_capacity = (\<lambda>_. None),
       fs_sync_fails = (\<lambda>_. False), fs_close_fails = (\<lambda>_. False), fs_now = 0 \<rparr>"

datatype os_error = ErrNotExist | ErrExist | ErrOther

definition is_symlink :: "fnode \<Rightarrow> bool" where
  "is_symlink node = (case node of FSymlink _ \<Rightarrow> True | _ \<Rightarrow> False)"

definition is_regular :: "fnode \<Rightarrow> bool" where
  "is_regular node = (case node of FFile _ _ \<Rightarrow> True | _ \<Rightarrow> False)"

definition set_node :: "string \<Rightarrow> fnode \<Rightarrow> FS \<Rightarrow> FS" where
  "set_node path node fs = fs\<lparr>fs_nodes := (fs_nodes fs)(path \<mapsto> node)\<rparr>"

definition Lstat :: "FS \<Rightarrow> string \<Rightarrow> os_error + fnode" where
  "Lstat fs path =
     (case fs_nodes fs path of
        None \<Rightarrow> Inl ErrNotExist | Some FDenied \<Rightarrow> Inl ErrOther | Some node \<Rightarrow> Inr node)"

fun follow :: "FS \<Rightarrow> nat \<Rightarrow> string \<Rightarrow> string option" where
  "follow fs 0 path = None"
| "follow fs (Suc n) path =
     (case fs_nodes fs path of Some (FSymlink target) \<Rightarrow> follow fs n target | _ \<Rightarrow> Some path)"

definition Stat :: "FS \<Rightarrow> string \<Rightarrow> os_error + fnode" where
  "Stat fs path = (case follow fs 41 path of None \<Rightarrow> Inl ErrOther | Some p \<Rightarrow> Lstat fs p)"

definition Mkdir :: "FS \<Rightarrow> string \<Rightarrow> FS \<times> (os_error + unit)" where
  "Mkdir fs path =
     (if fs_refuse fs path then (fs, Inl ErrOther)
      else if fs_nodes fs path \<noteq> None then (fs, Inl ErrExist)
      else (set_node path FDir fs, ok))"

text \<open>\<open>OpenFile(path, O_CREATE|O_TRUNC|O_WRONLY)\<close>: the path of the opened file, now empty.\<close>

definition OpenTrunc :: "FS \<Rightarrow> string \<Rightarrow> FS \<times> (os_error + string)" where
  "OpenTrunc fs path =
     (case follow fs 41 path of
        None \<Rightarrow> (fs, Inl ErrOther)
      | Some p \<Rightarrow>
          (case fs_nodes fs p of
             None \<Rightarrow> if fs_refuse fs p then (fs, Inl ErrOther)
                     else (set_node p (FFile [] (fs_now fs)) fs, Inr p)
           | Some (FFile _ _) \<Rightarrow>
               if fs_refuse fs p then (fs, Inl ErrOther)
               else (set_node p (FFile [] (fs_now fs)) fs, Inr p)
           | Some _ \<Rightarrow> (fs, Inl ErrOther)))"

text \<open>A write appends what fits and fails when something did not fit.\<close>

definition WriteAt_end :: "FS \<Rightarrow> string \<Rightarrow> string \<Rightarrow> FS \<times> nat \<times> (os_error + unit)" where
  "WriteAt_end fs p data =
     (case fs_nodes fs p of
        Some (FFile content _) \<Rightarrow>
          (let n = (case fs_capacity fs p of
                      None \<Rightarrow> length data | Some k \<Rightarrow> min (length data) (k - length content)) in
           (set_node p (FFile (content @ take n data) (fs_now fs)) fs, n,
            if n < length data then Inl ErrOther else ok))
      | _ \<Rightarrow> (fs, 0, Inl ErrOther))"

text \<open>
  \<open>Rename\<close> replaces a file or a symbolic link, never a directory; renaming a directory moves what
  is below it.
\<close>

definition moved :: "string \<Rightarrow> string \<Rightarrow> (string \<rightharpoonup> fnode) \<Rightarrow> string \<rightharpoonup> fnode" where
  "moved old new nodes q =
     (if q = new then nodes old
      else if nodes old = Some FDir \<and> HasPrefix q (new @ ''/'') then nodes (old @ drop (length new) q)
      else if q = old \<or> nodes old = Some FDir \<and> HasPrefix q (old @ ''/'') then None
      else nodes q)"

definition Rename :: "FS \<Rightarrow> string \<Rightarrow> string \<Rightarrow> FS \<times> (os_error + unit)" where
  "Rename fs old new =
     (if fs_nodes fs old = None then (fs, Inl ErrNotExist)
      else if old = new then (fs, ok)
      else if fs_refuse fs new \<or> fs_nodes fs new = Some FDir \<or>
        (fs_nodes fs old = Some FDir \<and> (fs_nodes fs new \<noteq> None \<or> HasPrefix new (old @ ''/'')))
      then (fs, Inl ErrOther)
      else (fs\<lparr>fs_nodes := moved old new (fs_nodes fs)\<rparr>, ok))"

text \<open>Two states of a file system that differ in nodes alone.\<close>

definition same_env :: "FS \<Rightarrow> FS \<Rightarrow> bool" where
  "same_env fs fs' \<longleftrightarrow>
     fs_refuse fs' = fs_refuse fs \<and> fs_capacity fs' = fs_capacity fs \<and>
     fs_sync_fails fs' = fs_sync_fails fs \<and> fs_close_fails fs' = fs_close_fails fs \<and>
     fs_now fs' = fs_now fs"

section \<open>Lemmas\<close>

lemma same_env_refl [simp]: "same_env fs fs"
  by (simp add: same_env_def)

lemma same_env_trans: "same_env a b \<Longrightarrow> same_env b c \<Longrightarrow> same_env a c"
  by (simp add: same_env_def)

lemma same_env_Mkdir: "same_env fs (fst (Mkdir fs p))"
  by (simp add: same_env_def Mkdir_def set_node_def)

lemma set_node_nodes [simp]: "fs_nodes (set_node p node fs) = (fs_nodes fs)(p \<mapsto> node)"
  by (simp add: set_node_def)

lemma set_node_other [simp]:
  "fs_refuse (set_node p node fs) = fs_refuse fs" "fs_capacity (set_node p node fs) = fs_capacity fs"
  "fs_sync_fails (set_node p node fs) = fs_sync_fails fs"
  "fs_close_fails (set_node p node fs) = fs_close_fails fs" "fs_now (set_node p node fs) = fs_now fs"
  by (simp_all add: set_node_def)

lemma plain_fs_simps [simp]:
  "fs_nodes (plain_fs nodes) = nodes" "fs_refuse (plain_fs nodes) p = False"
  "fs_capacity (plain_fs nodes) p = None" "fs_sync_fails (plain_fs nodes) p = False"
  "fs_close_fails (plain_fs nodes) p = False" "fs_now (plain_fs nodes) = 0"
  by (simp_all add: plain_fs_def)

lemma is_symlink_simps [simp]:
  "\<not> is_symlink FDir" "\<not> is_symlink (FFile c t)" "is_symlink (FSymlink s)" "\<not> is_symlink FSpecial"
  "\<not> is_symlink FDenied"
  by (simp_all add: is_symlink_def)

lemma is_regular_simps [simp]:
  "\<not> is_regular FDir" "is_regular (FFile c t)" "\<not> is_regular (FSymlink s)" "\<not> is_regular FSpecial"
  "\<not> is_regular FDenied"
  by (simp_all add: is_regular_def)

lemma Lstat_dir: "Lstat fs p = Inr FDir \<longleftrightarrow> fs_nodes fs p = Some FDir"
  by (auto simp: Lstat_def split: option.splits fnode.splits)

lemma Lstat_node: "Lstat fs p = Inr node \<Longrightarrow> fs_nodes fs p = Some node \<and> node \<noteq> FDenied"
  by (auto simp: Lstat_def split: option.splits fnode.splits)

lemma Lstat_missing: "Lstat fs p = Inl ErrNotExist \<longleftrightarrow> fs_nodes fs p = None"
  by (auto simp: Lstat_def split: option.splits fnode.splits)

lemma follow_id: "0 < n \<Longrightarrow> \<forall>t. fs_nodes fs p \<noteq> Some (FSymlink t) \<Longrightarrow> follow fs n p = Some p"
  by (cases n) (auto split: option.splits fnode.splits)

end
