(* ===== verification/Paths.thy ===== *)
theory Paths
  imports Go_OS
begin

text \<open>
  src/internal/filesystem: normalisation of share-relative paths and their resolution below a share
  root, with the checks of every path component against symbolic links. \<open>path/filepath\<close> is
  modelled as on a slash-separated system, where \<open>ToSlash\<close> and \<open>FromSlash\<close> change nothing,
  \<open>VolumeName\<close> is empty and \<open>IsAbs\<close> tests for a leading slash. The file system is a map from
  clean paths to nodes.
\<close>

section \<open>path/filepath\<close>

fun clean_segs :: "bool \<Rightarrow> string list \<Rightarrow> string list \<Rightarrow> string list" where
  "clean_segs rooted acc [] = rev acc"
| "clean_segs rooted acc (s # ss) =
     (if s = [] \<or> s = ''.'' then clean_segs rooted acc ss
      else if s = ''..'' then
        (case acc of
           [] \<Rightarrow> if rooted then clean_segs rooted [] ss else clean_segs rooted [''..''] ss
         | a # as \<Rightarrow>
             if a = ''..'' then clean_segs rooted (''..'' # acc) ss else clean_segs rooted as ss)
      else clean_segs rooted (s # acc) ss)"

definition is_rooted :: "string \<Rightarrow> bool" where
  "is_rooted path = HasPrefix path ''/''"

definition segs :: "string \<Rightarrow> string list" where
  "segs path = clean_segs (is_rooted path) [] (split_on (CHR ''/'') path)"

definition unsegs :: "bool \<Rightarrow> string list \<Rightarrow> string" where
  "unsegs rooted ss =
     (if rooted then CHR ''/'' # join_with ''/'' ss
      else if ss = [] then ''.'' else join_with ''/'' ss)"

definition Clean :: "string \<Rightarrow> string" where
  "Clean path = (if path = [] then ''.'' else unsegs (is_rooted path) (segs path))"

definition Join2 :: "string \<Rightarrow> string \<Rightarrow> string" where
  "Join2 a b =
     (if a = [] \<and> b = [] then [] else if a = [] then Clean b else if b = [] then Clean a
      else Clean (a @ ''/'' @ b))"

fun strip_common :: "string list \<Rightarrow> string list \<Rightarrow> string list \<times> string list" where
  "strip_common (b # bs) (t # ts) = (if b = t then strip_common bs ts else (b # bs, t # ts))"
| "strip_common bs ts = (bs, ts)"

definition Rel :: "string \<Rightarrow> string \<Rightarrow> string option" where
  "Rel basepath targpath =
     (let base = Clean basepath; targ = Clean targpath in
      if targ = base then Some ''.''
      else if is_rooted base \<noteq> is_rooted targ then None
      else
        (case strip_common (segs base) (if targ = ''.'' then [''.''] else segs targ) of
           ([], ts) \<Rightarrow> Some (join_with ''/'' ts)
         | (b # bs, ts) \<Rightarrow>
             if b = ''..'' then None
             else Some (join_with ''/'' (map (\<lambda>_. ''..'') (b # bs) @ ts))))"

section \<open>src/internal/filesystem/paths.go\<close>

datatype segment_error =
  SegmentTraversal | SegmentTrailing | SegmentColon | SegmentReserved

datatype path_error =
  PathRequired | PathNUL | PathAbsolute string | PathCurrentDir | PathEscapes string
| PathSegment string segment_error | ShareRootRequired | ShareContainment
| ShareEscapes string | RootInspect string | RootNotDirectory string
| ComponentInspect string | ComponentSymlink string | ComponentNotDirectory string
| ParentCreate string | ParentInspect string | ParentNotDirectory string

definition reservedWindowsNames :: "string list" where
  "reservedWindowsNames =
     [''CON'', ''PRN'', ''AUX'', ''NUL'',
      ''COM1'', ''COM2'', ''COM3'', ''COM4'', ''COM5'', ''COM6'', ''COM7'', ''COM8'', ''COM9'',
      ''LPT1'', ''LPT2'', ''LPT3'', ''LPT4'', ''LPT5'', ''LPT6'', ''LPT7'', ''LPT8'', ''LPT9'']"

text \<open>
  The name before the first dot, in upper case. No reserved name has an \<open>I\<close> or an \<open>S\<close>, the only
  ASCII letters that are the upper case of a rune outside ASCII, so mapping the ASCII letters
  alone finds the same reserved names.
\<close>

definition device_name :: "string \<Rightarrow> string" where
  "device_name part = takeWhile (\<lambda>c. c \<noteq> CHR ''.'') (map upper_byte part)"

definition validatePathPart :: "string \<Rightarrow> segment_error + unit" where
  "validatePathPart part =
     (if part = [] \<or> part = ''.'' \<or> part = ''..'' then Inl SegmentTraversal
      else if HasSuffix part '' '' \<or> HasSuffix part ''.'' then Inl SegmentTrailing
      else if CHR '':'' \<in> set part then Inl SegmentColon
      else if device_name part \<in> set reservedWindowsNames then Inl SegmentReserved
      else ok)"

definition looksAbsolute :: "string \<Rightarrow> bool" where
  "looksAbsolute path =
     (HasPrefix path ''/'' \<or> HasPrefix path [CHR 0x5C] \<or> HasPrefix path ''//'' \<or>
      HasPrefix path [CHR 0x5C, CHR 0x5C] \<or> (2 \<le> length path \<and> path ! 1 = CHR '':''))"

definition slashed :: "string \<Rightarrow> string" where
  "slashed path = map (\<lambda>c. if c = CHR 0x5C then CHR ''/'' else c) path"

definition NormalizeRelativePath :: "string \<Rightarrow> path_error + string" where
  "NormalizeRelativePath raw =
     (let path = TrimSpace raw in
      if path = [] then Inl PathRequired
      else if CHR 0x00 \<in> set path then Inl PathNUL
      else if looksAbsolute path then Inl (PathAbsolute raw)
      else
        let cleaned = Clean (slashed path) in
        if cleaned = ''.'' \<or> cleaned = [] then Inl PathCurrentDir
        else if cleaned = ''..'' \<or> HasPrefix cleaned ''../'' then Inl (PathEscapes raw)
        else
          rbind
            (check_all
               (\<lambda>part. case validatePathPart part of
                  Inl e \<Rightarrow> Inl (PathSegment part e) | Inr _ \<Rightarrow> ok)
               (split_on (CHR ''/'') cleaned))
            (\<lambda>_. Inr cleaned))"

definition ResolveInsideShare :: "string \<Rightarrow> string \<Rightarrow> path_error + string" where
  "ResolveInsideShare rootPath relativePath =
     (if TrimSpace rootPath = [] then Inl ShareRootRequired
      else
        rbind (NormalizeRelativePath relativePath) (\<lambda>normalized.
          let root = Clean rootPath; target = Clean (Join2 root normalized) in
          case Rel root target of
            None \<Rightarrow> Inl ShareContainment
          | Some rel \<Rightarrow>
              if rel = ''..'' \<or> HasPrefix rel ''../'' then Inl (ShareEscapes relativePath)
              else Inr target))"

section \<open>src/internal/filesystem/safe\_paths.go\<close>

definition check_root :: "FS \<Rightarrow> string \<Rightarrow> path_error + unit" where
  "check_root fs root =
     (case Lstat fs root of
        Inl _ \<Rightarrow> Inl (RootInspect root)
      | Inr node \<Rightarrow> if node \<noteq> FDir then Inl (RootNotDirectory root) else ok)"

fun inspect_parts ::
  "FS \<Rightarrow> string \<Rightarrow> string \<Rightarrow> string list \<Rightarrow> path_error + string \<times> fnode option \<times> bool" where
  "inspect_parts fs resolved current [] = Inr (resolved, None, False)"
| "inspect_parts fs resolved current (part # parts) =
     (let current = Join2 current part in
      case Lstat fs current of
        Inl ErrNotExist \<Rightarrow> Inr (resolved, None, False)
      | Inl _ \<Rightarrow> Inl (ComponentInspect current)
      | Inr node \<Rightarrow>
          if is_symlink node then Inl (ComponentSymlink current)
          else if parts \<noteq> [] \<and> node \<noteq> FDir then Inl (ComponentNotDirectory current)
          else if parts = [] then Inr (resolved, Some node, True)
          else inspect_parts fs resolved current parts)"

definition InspectInsideShare ::
  "FS \<Rightarrow> string \<Rightarrow> string \<Rightarrow> path_error + string \<times> fnode option \<times> bool" where
  "InspectInsideShare fs rootPath relativePath =
     rbind (NormalizeRelativePath relativePath) (\<lambda>normalized.
     rbind (ResolveInsideShare rootPath normalized) (\<lambda>resolved.
     rbind (check_root fs (Clean rootPath)) (\<lambda>_.
     inspect_parts fs resolved (Clean rootPath) (split_on (CHR ''/'') normalized))))"

fun ensure_parts :: "FS \<Rightarrow> string \<Rightarrow> string list \<Rightarrow> FS \<times> (path_error + unit)" where
  "ensure_parts fs current [] = (fs, ok)"
| "ensure_parts fs current (part # parts) =
     (let current = Join2 current part;
          (fs, created) =
            (if Lstat fs current = Inl ErrNotExist then Mkdir fs current else (fs, ok)) in
      if created = Inl ErrOther \<or> created = Inl ErrNotExist then (fs, Inl (ParentCreate current))
      else
        (case Lstat fs current of
           Inl _ \<Rightarrow> (fs, Inl (ParentInspect current))
         | Inr node \<Rightarrow>
             if node \<noteq> FDir then (fs, Inl (ParentNotDirectory current))
             else ensure_parts fs current parts))"

definition EnsureParentDirectoriesInsideShare ::
  "FS \<Rightarrow> string \<Rightarrow> string \<Rightarrow> FS \<times> (path_error + string)" where
  "EnsureParentDirectoriesInsideShare fs rootPath relativePath =
     (case rbind (NormalizeRelativePath relativePath) (\<lambda>normalized.
           rbind (ResolveInsideShare rootPath normalized) (\<lambda>resolved.
           rbind (check_root fs (Clean rootPath)) (\<lambda>_. Inr (normalized, resolved)))) of
        Inl e \<Rightarrow> (fs, Inl e)
      | Inr (normalized, resolved) \<Rightarrow>
          (case ensure_parts fs (Clean rootPath) (butlast (split_on (CHR ''/'') normalized)) of
             (fs', Inl e) \<Rightarrow> (fs', Inl e)
           | (fs', Inr _) \<Rightarrow> (fs', Inr resolved)))"

section \<open>Lemmas on clean paths\<close>

definition plain_seg :: "string \<Rightarrow> bool" where
  "plain_seg s \<longleftrightarrow> s \<noteq> [] \<and> s \<noteq> ''.'' \<and> s \<noteq> ''..''"

definition clean_form :: "bool \<Rightarrow> string list \<Rightarrow> bool" where
  "clean_form rooted xs \<longleftrightarrow>
     (\<exists>k ys. xs = replicate k ''..'' @ ys \<and> (\<forall>y\<in>set ys. plain_seg y) \<and> (rooted \<longrightarrow> k = 0))"

lemma clean_segs_plain:
  "\<forall>s\<in>set ss. plain_seg s \<Longrightarrow> clean_segs r acc ss = rev acc @ ss"
  by (induction ss arbitrary: acc) (auto simp: plain_seg_def)

lemma clean_segs_append:
  "clean_segs r acc (xs @ ys) = clean_segs r (rev (clean_segs r acc xs)) ys"
  by (induction r acc xs rule: clean_segs.induct) (auto split: list.splits)

lemma clean_form_snoc_plain: "clean_form r xs \<Longrightarrow> plain_seg s \<Longrightarrow> clean_form r (xs @ [s])"
proof -
  assume "clean_form r xs" and s: "plain_seg s"
  then obtain k ys where "xs = replicate k ''..'' @ ys" "\<forall>y\<in>set ys. plain_seg y" "r \<longrightarrow> k = 0"
    by (auto simp: clean_form_def)
  with s have "xs @ [s] = replicate k ''..'' @ (ys @ [s]) \<and> (\<forall>y\<in>set (ys @ [s]). plain_seg y) \<and>
    (r \<longrightarrow> k = 0)" by auto
  then show ?thesis unfolding clean_form_def by blast
qed

lemma clean_form_butlast: "clean_form r (xs @ [a]) \<Longrightarrow> a \<noteq> ''..'' \<Longrightarrow> clean_form r xs"
proof -
  assume "clean_form r (xs @ [a])" and ne: "a \<noteq> ''..''"
  then obtain k ys where eq: "xs @ [a] = replicate k ''..'' @ ys"
    and ys: "\<forall>y\<in>set ys. plain_seg y" and r: "r \<longrightarrow> k = 0"
    by (auto simp: clean_form_def)
  have "ys \<noteq> []"
  proof
    assume "ys = []"
    with eq have "set (xs @ [a]) \<subseteq> {''..''}" by (simp add: set_replicate_conv_if)
    with ne show False by simp
  qed
  then obtain zs z where zs: "ys = zs @ [z]" by (cases ys rule: rev_cases) auto
  with eq ys r have "xs = replicate k ''..'' @ zs \<and> (\<forall>y\<in>set zs. plain_seg y) \<and> (r \<longrightarrow> k = 0)"
    by simp
  then show ?thesis unfolding clean_form_def by blast
qed

lemma clean_form_dotdots:
  "clean_form False (xs @ [''..'']) \<Longrightarrow> clean_form False (xs @ [''..'', ''..''])"
proof -
  assume "clean_form False (xs @ [''..''])"
  then obtain k ys where eq: "xs @ [''..''] = replicate k ''..'' @ ys"
    and ys: "\<forall>y\<in>set ys. plain_seg y"
    by (auto simp: clean_form_def)
  have "ys = []"
    using eq ys by (cases ys rule: rev_cases) (auto simp: plain_seg_def)
  with eq have "(xs @ [''..'']) @ [''..''] = replicate (Suc k) ''..'' @ []"
    by (simp add: replicate_append_same)
  then have "xs @ [''..'', ''..''] = replicate (Suc k) ''..'' @ [] \<and>
    (\<forall>y\<in>set []. plain_seg y) \<and> (False \<longrightarrow> Suc k = 0)" by simp
  then show ?thesis unfolding clean_form_def by blast
qed

lemma clean_form_rooted_no_dotdot: "clean_form True (xs @ [''..'']) \<Longrightarrow> False"
  by (auto simp: clean_form_def plain_seg_def)

lemma clean_form_dotdot [simp]: "clean_form False [''..'']"
  unfolding clean_form_def by (rule exI [of _ 1], rule exI [of _ "[]"]) simp

lemma clean_form_Nil [simp]: "clean_form r []"
  by (auto simp: clean_form_def)

lemma clean_segs_form: "clean_form r (rev acc) \<Longrightarrow> clean_form r (clean_segs r acc ss)"
proof (induction r acc ss rule: clean_segs.induct)
  case (1 rooted acc)
  then show ?case by simp
next
  case (2 rooted acc s ss)
  consider (skip) "s = [] \<or> s = ''.''" | (up) "s = ''..''" | (down) "plain_seg s"
    by (auto simp: plain_seg_def)
  then show ?case
  proof cases
    case skip
    with 2 show ?thesis by auto
  next
    case up
    show ?thesis
    proof (cases acc)
      case Nil
      with 2 up show ?thesis by (cases rooted) auto
    next
      case (Cons a as)
      show ?thesis
      proof (cases "a = ''..''")
        case True
        have "\<not> rooted" using "2.prems" Cons True clean_form_rooted_no_dotdot by (cases rooted) auto
        with 2 up Cons True show ?thesis by (auto dest: clean_form_dotdots)
      next
        case False
        with 2 up Cons show ?thesis by (auto dest: clean_form_butlast)
      qed
    qed
  next
    case down
    with 2 show ?thesis by (auto simp: plain_seg_def dest: clean_form_snoc_plain)
  qed
qed

lemma clean_segs_dotdots:
  "clean_segs False (replicate j ''..'') (replicate k ''..'' @ ys) =
   clean_segs False (replicate (j + k) ''..'') ys"
proof (induction k arbitrary: j)
  case (Suc k)
  have "clean_segs False (replicate j ''..'') (replicate (Suc k) ''..'' @ ys) =
        clean_segs False (replicate (Suc j) ''..'') (replicate k ''..'' @ ys)"
    by (cases j) simp_all
  also have "\<dots> = clean_segs False (replicate (Suc j + k) ''..'') ys"
    by (rule Suc.IH)
  finally show ?case by simp
qed simp

lemma clean_segs_fix: "clean_form r xs \<Longrightarrow> clean_segs r [] xs = xs"
proof -
  assume "clean_form r xs"
  then obtain k ys where xs: "xs = replicate k ''..'' @ ys" "\<forall>y\<in>set ys. plain_seg y"
    and k: "r \<longrightarrow> k = 0" by (auto simp: clean_form_def)
  show ?thesis
  proof (cases r)
    case True
    with xs k show ?thesis by (simp add: clean_segs_plain)
  next
    case False
    have "clean_segs False (replicate 0 ''..'') (replicate k ''..'' @ ys) =
          clean_segs False (replicate (0 + k) ''..'') ys"
      by (rule clean_segs_dotdots)
    with False xs show ?thesis by (simp add: clean_segs_plain)
  qed
qed

lemma split_on_append_gen: "split_on c (p @ c # s) = split_on c p @ split_on c s"
  by (induction p) (auto split: list.splits)

lemma clean_segs_subset: "set (clean_segs r acc ss) \<subseteq> set acc \<union> set ss \<union> {''..''}"
proof (induction r acc ss rule: clean_segs.induct)
  case (2 rooted acc s ss)
  then show ?case by (cases acc) (auto split: if_splits)
qed auto

lemma segs_no_slash: "x \<in> set (segs p) \<Longrightarrow> CHR ''/'' \<notin> set x"
  using clean_segs_subset [of "is_rooted p" "[]" "split_on (CHR ''/'') p"]
  by (auto simp: segs_def dest: split_on_parts)

lemma segs_form: "clean_form (is_rooted p) (segs p)"
  by (simp add: segs_def clean_segs_form)

lemma clean_form_nonempty: "clean_form r xs \<Longrightarrow> x \<in> set xs \<Longrightarrow> x \<noteq> []"
proof -
  assume "clean_form r xs" and x: "x \<in> set xs"
  then obtain k ys where "xs = replicate k ''..'' @ ys" and ys: "\<forall>y\<in>set ys. plain_seg y"
    unfolding clean_form_def by blast
  with x consider "x = ''..''" | "x \<in> set ys" by (auto simp: set_replicate_conv_if split: if_splits)
  then show ?thesis using ys by cases (auto simp: plain_seg_def)
qed

lemma is_rooted_simps [simp]:
  "is_rooted (CHR ''/'' # s)" "\<not> is_rooted []" "is_rooted (c # s) = (c = CHR ''/'')"
  by (auto simp: is_rooted_def HasPrefix_def)

lemma is_rooted_append [simp]: "a \<noteq> [] \<Longrightarrow> is_rooted (a @ b) = is_rooted a"
  by (cases a) auto

lemma split_segs: "segs p \<noteq> [] \<Longrightarrow> split_on (CHR ''/'') (join_with ''/'' (segs p)) = segs p"
  by (rule split_join) (auto dest: segs_no_slash)

lemma is_rooted_join_segs: "\<not> is_rooted p \<Longrightarrow> \<not> is_rooted (join_with ''/'' (segs p))"
proof (cases "segs p")
  case (Cons a as)
  then have a: "a \<in> set (segs p)" by simp
  then have "a \<noteq> []" by (rule clean_form_nonempty [OF segs_form])
  moreover have "CHR ''/'' \<notin> set a" using a by (rule segs_no_slash)
  ultimately have "\<not> is_rooted (a @ b)" for b by (cases a) auto
  from this [of "[]"] this [of "''/'' @ join_with ''/'' as"] Cons show ?thesis
    by (cases as) simp_all
qed simp

lemma is_rooted_Clean [simp]: "is_rooted (Clean p) = is_rooted p"
  by (auto simp: Clean_def unsegs_def is_rooted_join_segs)

lemma segs_simps [simp]: "segs [] = []" "segs ''.'' = []"
  by (simp_all add: segs_def)

lemma Clean_nonempty [simp]: "Clean p \<noteq> []"
proof (cases "segs p")
  case (Cons a as)
  then have "a \<in> set (segs p)" by simp
  then have "a \<noteq> []" by (rule clean_form_nonempty [OF segs_form])
  with Cons show ?thesis by (cases as) (auto simp: Clean_def unsegs_def)
qed (auto simp: Clean_def unsegs_def)

lemma segs_Clean [simp]: "segs (Clean p) = segs p"
proof (cases "p = []")
  case False
  have "segs (unsegs (is_rooted p) (segs p)) = segs p"
  proof (cases "is_rooted p")
    case True
    have "split_on (CHR ''/'') (join_with ''/'' (segs p)) = (if segs p = [] then [[]] else segs p)"
      using split_segs [of p] by auto
    with True segs_form [of p] show ?thesis
      by (auto simp: unsegs_def segs_def [of "CHR ''/'' # _"] clean_segs_fix)
  next
    case nr: False
    show ?thesis
    proof (cases "segs p = []")
      case True
      with nr show ?thesis by (simp add: unsegs_def)
    next
      case ne: False
      have "segs (join_with ''/'' (segs p)) =
        clean_segs (is_rooted (join_with ''/'' (segs p))) [] (segs p)"
        by (simp add: segs_def [of "join_with _ _"] split_segs [OF ne])
      with nr ne segs_form [of p] show ?thesis
        by (simp add: unsegs_def is_rooted_join_segs clean_segs_fix)
    qed
  qed
  with False show ?thesis by (simp add: Clean_def)
qed (simp add: Clean_def)

lemma Clean_eqI: "is_rooted p = is_rooted q \<Longrightarrow> segs p = segs q \<Longrightarrow> Clean p = Clean q"
  by (auto simp: Clean_def unsegs_def)

lemma Clean_idem [simp]: "Clean (Clean p) = Clean p"
  by (rule Clean_eqI) simp_all

lemma Clean_segs_neq: "segs p \<noteq> segs q \<Longrightarrow> Clean p \<noteq> Clean q"
  by (metis segs_Clean)

lemma segs_append_slash:
  "a \<noteq> [] \<Longrightarrow> \<forall>s\<in>set (split_on (CHR ''/'') b). plain_seg s \<Longrightarrow>
   segs (a @ CHR ''/'' # b) = segs a @ split_on (CHR ''/'') b"
  by (simp add: segs_def split_on_append_gen clean_segs_append clean_segs_plain)

lemma Clean_of_segs: "\<not> is_rooted p \<Longrightarrow> segs p \<noteq> [] \<Longrightarrow> Clean p = join_with ''/'' (segs p)"
  by (auto simp: Clean_def unsegs_def)

lemma strip_common_prefix: "strip_common bs (bs @ ts) = ([], ts)"
  by (induction bs) auto

section \<open>Normalisation\<close>

text \<open>The segments of a path that the validator accepts.\<close>

definition valid_segments :: "string \<Rightarrow> bool" where
  "valid_segments p \<longleftrightarrow> (\<forall>part\<in>set (split_on (CHR ''/'') p). is_ok (validatePathPart part))"

lemma validatePathPart_plain: "is_ok (validatePathPart part) \<Longrightarrow> plain_seg part"
  by (auto simp: validatePathPart_def plain_seg_def split: if_splits)

lemma check_parts:
  "check_all (\<lambda>part. case validatePathPart part of Inl e \<Rightarrow> Inl (PathSegment part e) | Inr _ \<Rightarrow> ok)
     (split_on (CHR ''/'') p) = Inr u \<longleftrightarrow> valid_segments p"
proof -
  have "(case validatePathPart part of Inl e \<Rightarrow> Inl (PathSegment part e) | Inr _ \<Rightarrow> ok) = ok \<longleftrightarrow>
      is_ok (validatePathPart part)" for part
    by (cases "validatePathPart part") simp_all
  then show ?thesis by (cases u) (simp add: check_all_ok valid_segments_def)
qed

lemma NormalizeRelativePath_Inr_iff:
  "NormalizeRelativePath raw = Inr p \<longleftrightarrow>
     TrimSpace raw \<noteq> [] \<and> CHR 0x00 \<notin> set (TrimSpace raw) \<and> \<not> looksAbsolute (TrimSpace raw) \<and>
     p = Clean (slashed (TrimSpace raw)) \<and> p \<noteq> ''.'' \<and> p \<noteq> ''..'' \<and> \<not> HasPrefix p ''../'' \<and>
     valid_segments p"
  unfolding NormalizeRelativePath_def Let_def if_Inl_eq_Inr rbind_eq_Inr check_parts
  using Clean_nonempty [of "slashed (TrimSpace raw)"] by blast

lemma normalize_valid: "NormalizeRelativePath raw = Inr p \<Longrightarrow> valid_segments p"
  unfolding NormalizeRelativePath_Inr_iff by blast

lemma plain_segments: "valid_segments p \<Longrightarrow> \<forall>s\<in>set (split_on (CHR ''/'') p). plain_seg s"
  by (auto simp: valid_segments_def validatePathPart_plain)

lemma valid_segments_not_rooted: "valid_segments p \<Longrightarrow> \<not> is_rooted p"
  by (cases p) (auto simp: valid_segments_def validatePathPart_def)

lemma segs_valid: "valid_segments p \<Longrightarrow> segs p = split_on (CHR ''/'') p"
  by (simp add: segs_def clean_segs_plain plain_segments)

lemma Clean_valid: "valid_segments p \<Longrightarrow> Clean p = p"
  by (simp add: Clean_of_segs valid_segments_not_rooted segs_valid join_split)

lemma valid_segments_nonempty: "valid_segments p \<Longrightarrow> p \<noteq> []"
  by (auto simp: valid_segments_def validatePathPart_def)

lemma split_on_dotdot: "HasPrefix p ''../'' \<Longrightarrow> ''..'' \<in> set (split_on (CHR ''/'') p)"
proof -
  assume "HasPrefix p ''../''"
  then obtain q where "p = ''..'' @ CHR ''/'' # q" by (auto simp: HasPrefix_prefix prefix_def)
  then show ?thesis by (simp only: split_on_append_gen) simp
qed

lemma valid_segments_no_escape:
  "valid_segments p \<Longrightarrow> p \<noteq> ''..'' \<and> p \<noteq> ''.'' \<and> \<not> HasPrefix p ''../''"
proof -
  assume "valid_segments p"
  then have *: "s \<in> set (split_on (CHR ''/'') p) \<Longrightarrow> plain_seg s" for s
    using plain_segments by blast
  have "\<not> HasPrefix p ''../''"
    using * [of "''..''"] split_on_dotdot [of p] by (metis plain_seg_def)
  moreover have "p \<noteq> ''..''" using * [of "''..''"] by (auto simp: plain_seg_def)
  moreover have "p \<noteq> ''.''" using * [of "''.''"] by (auto simp: plain_seg_def)
  ultimately show ?thesis by blast
qed

lemma ResolveInsideShare_total:
  assumes root: "TrimSpace root \<noteq> []" and norm: "NormalizeRelativePath rel = Inr p"
  shows "ResolveInsideShare root rel = Inr (Clean (Clean root @ CHR ''/'' # p))"
    and "segs (Clean (Clean root @ CHR ''/'' # p)) = segs root @ split_on (CHR ''/'') p"
    and "Rel (Clean root) (Clean (Clean root @ CHR ''/'' # p)) = Some p"
proof -
  let ?t = "Clean (Clean root @ CHR ''/'' # p)"
  have v: "valid_segments p" and ne: "p \<noteq> []"
    using norm by (auto simp: NormalizeRelativePath_Inr_iff)
  have st': "segs (Clean root @ CHR ''/'' # p) = segs root @ split_on (CHR ''/'') p"
    using segs_append_slash [of "Clean root" p] plain_segments [OF v] by simp
  show st: "segs ?t = segs root @ split_on (CHR ''/'') p"
    using st' by simp
  have neq: "?t \<noteq> Clean root" and "?t \<noteq> ''.''"
    using st by (metis append_self_conv segs_Clean split_on_nonempty,
        metis append_is_Nil_conv segs_simps(2) split_on_nonempty)
  then show rel: "Rel (Clean root) ?t = Some p"
    by (simp add: Rel_def Let_def st' strip_common_prefix join_split)
  have "Clean (Join2 (Clean root) p) = ?t" using ne by (simp add: Join2_def)
  with root norm rel valid_segments_no_escape [OF v]
  show "ResolveInsideShare root rel = Inr ?t"
    by (simp add: ResolveInsideShare_def Let_def)
qed

section \<open>Normalised paths\<close>

lemma set_join_with: "set (join_with sep xs) \<subseteq> set sep \<union> (\<Union>x\<in>set xs. set x)"
  by (induction sep xs rule: join_with.induct) auto

lemma split_on_set: "x \<in> set (split_on c s) \<Longrightarrow> set x \<subseteq> set s"
  by (induction s arbitrary: x) (fastforce split: list.splits if_splits)+

lemma set_segs: "x \<in> set (segs p) \<Longrightarrow> set x \<subseteq> insert (CHR ''.'') (set p)"
  using clean_segs_subset [of "is_rooted p" "[]" "split_on (CHR ''/'') p"]
  by (auto simp: segs_def dest!: split_on_set)

lemma set_Clean: "set (Clean p) \<subseteq> {CHR ''.'', CHR ''/''} \<union> set p"
  using set_join_with [of "''/''" "segs p"] by (auto simp: Clean_def unsegs_def dest!: set_segs)

lemma slashed_id: "CHR 0x5C \<notin> set p \<Longrightarrow> slashed p = p"
  unfolding slashed_def by (induction p) auto

lemma set_slashed: "CHR 0x5C \<notin> set (slashed p)" "CHR 0x00 \<notin> set p \<Longrightarrow> CHR 0x00 \<notin> set (slashed p)"
  by (auto simp: slashed_def)

lemma normalize_chars:
  assumes "NormalizeRelativePath raw = Inr p"
  shows "CHR 0x5C \<notin> set p" and "CHR 0x00 \<notin> set p"
proof -
  have p: "p = Clean (slashed (TrimSpace raw))" and n: "CHR 0x00 \<notin> set (TrimSpace raw)"
    using assms by (simp_all add: NormalizeRelativePath_Inr_iff)
  have sub: "set p \<subseteq> {CHR ''.'', CHR ''/''} \<union> set (slashed (TrimSpace raw))"
    unfolding p by (rule set_Clean)
  show "CHR 0x5C \<notin> set p" using subsetD [OF sub, of "CHR 0x5C"] set_slashed(1) by auto
  show "CHR 0x00 \<notin> set p" using subsetD [OF sub, of "CHR 0x00"] set_slashed(2) [OF n] by auto
qed

lemma split_on_chars: "d \<noteq> c \<Longrightarrow> d \<in> set s \<Longrightarrow> \<exists>x\<in>set (split_on c s). d \<in> set x"
  by (induction s) (auto split: list.splits)

lemma valid_segments_no_colon: "valid_segments p \<Longrightarrow> CHR '':'' \<notin> set p"
  using split_on_chars [of "CHR '':''" "CHR ''/''" p]
  by (auto simp: valid_segments_def validatePathPart_def split: if_splits)

lemma looksAbsolute_valid: "valid_segments p \<Longrightarrow> CHR 0x5C \<notin> set p \<Longrightarrow> \<not> looksAbsolute p"
proof -
  assume v: "valid_segments p" and b: "CHR 0x5C \<notin> set p"
  have "p ! 1 \<noteq> CHR '':''" if "2 \<le> length p"
  proof -
    have "p ! 1 \<in> set p" using that by (intro nth_mem) linarith
    then show ?thesis using valid_segments_no_colon [OF v] by metis
  qed
  moreover have "\<not> HasPrefix p [CHR 0x5C]" "\<not> HasPrefix p [CHR 0x5C, CHR 0x5C]"
    using b by (auto simp: HasPrefix_prefix prefix_def)
  moreover have "\<not> HasPrefix p ''/''" "\<not> HasPrefix p ''//''"
    using valid_segments_not_rooted [OF v] by (auto simp: HasPrefix_prefix prefix_def)
  ultimately show ?thesis by (simp add: looksAbsolute_def)
qed

lemma normalize_again:
  assumes n: "NormalizeRelativePath raw = Inr p" and t: "TrimSpace p = p"
  shows "NormalizeRelativePath p = Inr p"
proof -
  have v: "valid_segments p" using n by (rule normalize_valid)
  note b = normalize_chars [OF n]
  show ?thesis
    using v b t valid_segments_no_escape [OF v] valid_segments_nonempty [OF v]
      looksAbsolute_valid [OF v b(1)]
    by (simp add: NormalizeRelativePath_Inr_iff slashed_id Clean_valid)
qed

section \<open>Paths below a share root\<close>

text \<open>The path reached from a root by joining segments one by one, as the inspecting loops do.\<close>

definition below :: "string \<Rightarrow> string list \<Rightarrow> string" where
  "below root parts = foldl Join2 root parts"

lemma below_simps [simp]:
  "below root [] = root" "below root (q # qs) = below (Join2 root q) qs"
  by (simp_all add: below_def)

lemma below_join:
  assumes "qs \<noteq> []" and "\<forall>q\<in>set qs. plain_seg q \<and> CHR ''/'' \<notin> set q"
  shows "below (Clean root) qs = Clean (Clean root @ CHR ''/'' # join_with ''/'' qs)"
  using assms
proof (induction qs rule: rev_induct)
  case (snoc q qs)
  have join: "segs (Clean root @ CHR ''/'' # join_with ''/'' ps) = segs root @ ps"
    if "ps \<noteq> []" "\<forall>q\<in>set ps. plain_seg q \<and> CHR ''/'' \<notin> set q" for ps
    using segs_append_slash [of "Clean root" "join_with ''/'' ps"] that by (simp add: split_join)
  have q: "q \<noteq> []" "split_on (CHR ''/'') q = [q]" "plain_seg q"
    using snoc.prems by (auto simp: plain_seg_def split_on_plain)
  show ?case
  proof (cases "qs = []")
    case True
    with q show ?thesis by (simp add: Join2_def)
  next
    case False
    let ?b = "Clean (Clean root @ CHR ''/'' # join_with ''/'' qs)"
    have "below (Clean root) (qs @ [q]) = Join2 ?b q"
      using snoc False by (simp add: below_def)
    also have "\<dots> = Clean (?b @ CHR ''/'' # q)" using q by (simp add: Join2_def)
    also have "\<dots> = Clean (Clean root @ CHR ''/'' # join_with ''/'' (qs @ [q]))"
    proof (rule Clean_eqI)
      show "segs (?b @ CHR ''/'' # q) = segs (Clean root @ CHR ''/'' # join_with ''/'' (qs @ [q]))"
        using join [of qs] join [of "qs @ [q]"] snoc.prems False q
        by (simp add: segs_append_slash)
    qed simp
    finally show ?thesis .
  qed
qed simp

lemma below_valid:
  "valid_segments p \<Longrightarrow>
   below (Clean root) (split_on (CHR ''/'') p) = Clean (Clean root @ CHR ''/'' # p)"
  using below_join [of "split_on (CHR ''/'') p" root] plain_segments [of p]
  by (auto simp: join_split dest: split_on_parts)

lemma inspect_parts_found:
  "inspect_parts fs r cur parts = Inr (r', info, True) \<Longrightarrow>
   r' = r \<and> parts \<noteq> [] \<and>
   (\<forall>k. 0 < k \<longrightarrow> k < length parts \<longrightarrow> fs_nodes fs (below cur (take k parts)) = Some FDir) \<and>
   (\<exists>node. info = Some node \<and> \<not> is_symlink node \<and> fs_nodes fs (below cur parts) = Some node)"
proof (induction parts arbitrary: cur)
  case (Cons part parts)
  obtain node where node: "Lstat fs (Join2 cur part) = Inr node" "\<not> is_symlink node"
    using Cons.prems by (auto simp: Let_def split: sum.splits os_error.splits if_splits)
  show ?case
  proof (cases "parts = []")
    case True
    with Cons.prems node show ?thesis by (auto dest: Lstat_node)
  next
    case False
    with Cons.prems node have dir: "fs_nodes fs (Join2 cur part) = Some FDir"
      and rest: "inspect_parts fs r (Join2 cur part) parts = Inr (r', info, True)"
      by (auto simp: Let_def Lstat_dir split: if_splits)
    note IH = Cons.IH [OF rest]
    have "fs_nodes fs (below cur (take k (part # parts))) = Some FDir"
      if "0 < k" "k < length (part # parts)" for k
    proof (cases "k = 1")
      case False
      with that obtain j where "k = Suc j" "0 < j" "j < length parts" by (cases k) auto
      with IH show ?thesis by simp
    qed (simp add: dir)
    with IH show ?thesis by simp
  qed
qed simp

lemma check_root_ok: "check_root fs root = Inr u \<longleftrightarrow> fs_nodes fs root = Some FDir"
  by (auto simp: check_root_def Lstat_def split: option.splits fnode.splits)

definition only_adds_dirs :: "FS \<Rightarrow> FS \<Rightarrow> string set \<Rightarrow> bool" where
  "only_adds_dirs fs fs' ps \<longleftrightarrow>
     (\<forall>q. fs_nodes fs' q = fs_nodes fs q \<or>
          (q \<in> ps \<and> fs_nodes fs q = None \<and> fs_nodes fs' q = Some FDir))"

lemma only_adds_dirs_refl [simp]: "only_adds_dirs fs fs ps"
  by (simp add: only_adds_dirs_def)

lemma only_adds_dirs_trans:
  "only_adds_dirs f g ps \<Longrightarrow> only_adds_dirs g h qs \<Longrightarrow> only_adds_dirs f h (ps \<union> qs)"
  unfolding only_adds_dirs_def by (metis Un_iff)

lemma only_adds_dirs_keeps:
  "only_adds_dirs f g ps \<Longrightarrow> fs_nodes f q = Some node \<Longrightarrow> fs_nodes g q = Some node"
  unfolding only_adds_dirs_def by (metis option.discI)

lemma only_adds_dirs_mono: "only_adds_dirs f g ps \<Longrightarrow> ps \<subseteq> qs \<Longrightarrow> only_adds_dirs f g qs"
  unfolding only_adds_dirs_def by blast

definition parents_of :: "string \<Rightarrow> string list \<Rightarrow> string set" where
  "parents_of cur parts = (\<lambda>k. below cur (take (Suc k) parts)) ` {..<length parts}"

lemma parents_of_Cons:
  "parents_of cur (q # qs) = insert (Join2 cur q) (parents_of (Join2 cur q) qs)"
  by (auto simp: parents_of_def lessThan_Suc_eq_insert_0 image_image)

lemma ensure_parts_effect:
  "ensure_parts fs cur parts = (fs', res) \<Longrightarrow>
   only_adds_dirs fs fs' (parents_of cur parts) \<and>
   (res = ok \<longrightarrow> (\<forall>q\<in>parents_of cur parts. fs_nodes fs' q = Some FDir))"
proof (induction parts arbitrary: fs cur)
  case (Cons part parts)
  let ?c = "Join2 cur part"
  obtain fs1 created where made:
    "(if Lstat fs ?c = Inl ErrNotExist then Mkdir fs ?c else (fs, ok)) = (fs1, created)"
    by (meson surj_pair)
  then have add: "only_adds_dirs fs fs1 {?c}"
    by (auto simp: Mkdir_def only_adds_dirs_def Lstat_def split: if_splits option.splits fnode.splits)
  show ?case
  proof (cases "created \<noteq> Inl ErrOther \<and> created \<noteq> Inl ErrNotExist \<and> Lstat fs1 ?c = Inr FDir")
    case True
    with Cons.prems made have rest: "ensure_parts fs1 ?c parts = (fs', res)"
      by (auto simp: Let_def)
    note IH = Cons.IH [OF this]
    from True have "fs_nodes fs1 ?c = Some FDir" by (simp add: Lstat_dir)
    with IH have "fs_nodes fs' ?c = Some FDir" by (blast intro: only_adds_dirs_keeps)
    moreover have "only_adds_dirs fs fs' ({?c} \<union> parents_of ?c parts)"
      using add IH by (blast intro: only_adds_dirs_trans)
    ultimately show ?thesis using IH by (simp add: parents_of_Cons)
  next
    case False
    then have "fs' = fs1 \<and> res \<noteq> ok"
      using Cons.prems made
      by (cases created; cases "Lstat fs1 ?c")
        (auto simp: Let_def split: if_splits os_error.splits)
    moreover have "only_adds_dirs fs fs1 (parents_of cur (part # parts))"
      by (rule only_adds_dirs_mono [OF add]) (simp add: parents_of_Cons)
    ultimately show ?thesis by simp
  qed
qed (simp add: parents_of_def)

lemma ensure_effect:
  assumes "EnsureParentDirectoriesInsideShare fs root rel = (fs', res)"
    and "NormalizeRelativePath rel = Inr p"
  shows "only_adds_dirs fs fs' (parents_of (Clean root) (butlast (split_on (CHR ''/'') p))) \<and>
    (is_ok res \<longrightarrow>
       (\<forall>q\<in>insert (Clean root) (parents_of (Clean root) (butlast (split_on (CHR ''/'') p))).
          fs_nodes fs' q = Some FDir))"
proof (cases "rbind (ResolveInsideShare root p) (\<lambda>resolved.
           rbind (check_root fs (Clean root)) (\<lambda>_. Inr (p, resolved)))")
  case (Inl e)
  with assms show ?thesis by (auto simp: EnsureParentDirectoriesInsideShare_def)
next
  case (Inr pr)
  then have root: "fs_nodes fs (Clean root) = Some FDir"
    by (auto simp: rbind_eq_Inr check_root_ok)
  obtain fs1 res1 where e:
    "ensure_parts fs (Clean root) (butlast (split_on (CHR ''/'') p)) = (fs1, res1)"
    by (meson surj_pair)
  note eff = ensure_parts_effect [OF this]
  from Inr have "fst pr = p" by (auto simp: rbind_eq_Inr)
  with assms Inr e have "fs' = fs1 \<and> is_ok res = is_ok res1"
    by (cases pr; cases res1) (auto simp: EnsureParentDirectoriesInsideShare_def)
  with eff root show ?thesis
    by (auto simp: unit_result only_adds_dirs_keeps)
qed

lemma ensure_parts_env: "same_env fs (fst (ensure_parts fs cur parts))"
proof (induction parts arbitrary: fs cur)
  case (Cons part parts)
  let ?c = "Join2 cur part"
  obtain fs1 created where made:
    "(if Lstat fs ?c = Inl ErrNotExist then Mkdir fs ?c else (fs, ok)) = (fs1, created)"
    by (meson surj_pair)
  then have "same_env fs fs1" using same_env_Mkdir [of fs ?c] by (auto split: if_splits)
  then show ?case using made Cons.IH [of fs1 ?c]
    by (auto simp: Let_def split: sum.splits intro: same_env_trans)
qed simp

lemma ensure_Inr:
  assumes "EnsureParentDirectoriesInsideShare fs root rel = (fs', Inr target)"
  shows "\<exists>p. valid_segments p \<and> target = below (Clean root) (split_on (CHR ''/'') p)"
proof -
  obtain p where r: "ResolveInsideShare root p = Inr target"
    using assms
    by (auto simp: EnsureParentDirectoriesInsideShare_def rbind_eq_Inr split: sum.splits prod.splits)
  then have root: "TrimSpace root \<noteq> []" by (auto simp: ResolveInsideShare_def)
  obtain q where q: "NormalizeRelativePath p = Inr q"
    using r root by (auto simp: ResolveInsideShare_def rbind_eq_Inr)
  have "target = below (Clean root) (split_on (CHR ''/'') q)"
    using ResolveInsideShare_total(1) [OF root q] r below_valid [OF normalize_valid [OF q]] by simp
  with normalize_valid [OF q] show ?thesis by blast
qed

lemma ensure_adds:
  assumes "EnsureParentDirectoriesInsideShare fs root rel = (fs', res)"
  shows "only_adds_dirs fs fs' UNIV" and "same_env fs fs'"
proof -
  show "only_adds_dirs fs fs' UNIV"
  proof (cases "NormalizeRelativePath rel")
    case (Inl e)
    with assms show ?thesis by (simp add: EnsureParentDirectoriesInsideShare_def)
  next
    case (Inr p)
    then show ?thesis using ensure_effect [OF assms Inr] only_adds_dirs_mono by blast
  qed
  show "same_env fs fs'"
  proof (cases "rbind (NormalizeRelativePath rel) (\<lambda>normalized.
           rbind (ResolveInsideShare root normalized) (\<lambda>resolved.
           rbind (check_root fs (Clean root)) (\<lambda>_. Inr (normalized, resolved))))")
    case (Inr pr)
    then have "fs' = fst (ensure_parts fs (Clean root) (butlast (split_on (CHR ''/'') (fst pr))))"
      using assms
      by (cases pr)
        (auto simp: EnsureParentDirectoriesInsideShare_def split: sum.splits prod.splits)
    then show ?thesis using ensure_parts_env by simp
  qed (use assms in \<open>simp add: EnsureParentDirectoriesInsideShare_def\<close>)
qed

lemmas path_eval [go_eval] =
  Clean_def unsegs_def segs_def Join2_def HasPrefix_def HasSuffix_def device_name_def
  reservedWindowsNames_def validatePathPart_def looksAbsolute_def slashed_def Rel_def Let_def
  NormalizeRelativePath_def ResolveInsideShare_def

section \<open>Properties\<close>

text \<open>
  C29. A path that \<open>NormalizeRelativePath\<close> accepts is relative, non-empty and lexically clean, and
  each of its segments is neither empty nor \<open>.\<close> nor \<open>..\<close>, holds no colon, backslash or NUL
  byte and is no reserved device name. A result without surrounding white space is a fixed point:
  normalising it again returns it unchanged.
\<close>

theorem NormalizeRelativePath_safe:
  assumes "NormalizeRelativePath raw = Inr p"
  shows "p \<noteq> [] \<and> \<not> is_rooted p \<and> Clean p = p \<and>
    (\<forall>part\<in>set (split_on (CHR ''/'') p).
       part \<noteq> [] \<and> part \<noteq> ''.'' \<and> part \<noteq> ''..'' \<and> CHR '':'' \<notin> set part \<and>
       CHR 0x5C \<notin> set part \<and> CHR 0x00 \<notin> set part \<and>
       device_name part \<notin> set reservedWindowsNames) \<and>
    (TrimSpace p = p \<longrightarrow> NormalizeRelativePath p = Inr p)"
proof -
  have v: "valid_segments p" using assms by (rule normalize_valid)
  have "CHR 0x5C \<notin> set part \<and> CHR 0x00 \<notin> set part"
    if "part \<in> set (split_on (CHR ''/'') p)" for part
    using normalize_chars [OF assms] split_on_set [OF that] by blast
  moreover have "part \<noteq> [] \<and> part \<noteq> ''.'' \<and> part \<noteq> ''..'' \<and> CHR '':'' \<notin> set part \<and>
       device_name part \<notin> set reservedWindowsNames"
    if "part \<in> set (split_on (CHR ''/'') p)" for part
  proof -
    from v that have "is_ok (validatePathPart part)" by (simp add: valid_segments_def)
    then show ?thesis by (simp add: validatePathPart_def split: if_splits)
  qed
  ultimately show ?thesis
    using valid_segments_nonempty [OF v] valid_segments_not_rooted [OF v] Clean_valid [OF v]
      normalize_again [OF assms] by blast
qed

theorem NormalizeRelativePath_safe_witness:
  "NormalizeRelativePath ''a/../b/./c'' = Inr ''b/c'' \<and>
   NormalizeRelativePath ''b/c'' = Inr ''b/c''"
proof -
  have "NormalizeRelativePath ''a/../b/./c'' = Inr ''b/c''" by (simp add: go_eval)
  moreover have "TrimSpace ''b/c'' = ''b/c''" by (simp add: go_eval)
  ultimately show ?thesis using NormalizeRelativePath_safe [of "''a/../b/./c''"] by blast
qed

text \<open>
  C28. Containment: for a non-blank share root, \<open>ResolveInsideShare\<close> accepts exactly the paths that
  \<open>NormalizeRelativePath\<close> accepts, and the target it returns has the segments of the root followed
  by the segments of the normalised path; \<open>filepath.Rel\<close> recovers the normalised path from it. So
  no accepted path leaves the root, and its own escape checks never fire.
\<close>

theorem ResolveInsideShare_contained:
  assumes "TrimSpace root \<noteq> []"
  shows "case NormalizeRelativePath rel of
     Inl e \<Rightarrow> ResolveInsideShare root rel = Inl e
   | Inr p \<Rightarrow> \<exists>target. ResolveInsideShare root rel = Inr target \<and>
       is_rooted target = is_rooted root \<and>
       segs target = segs root @ split_on (CHR ''/'') p \<and> Rel (Clean root) target = Some p"
proof (cases "NormalizeRelativePath rel")
  case (Inr p)
  then show ?thesis using ResolveInsideShare_total [OF assms Inr] by simp
qed (simp add: ResolveInsideShare_def assms)

theorem ResolveInsideShare_contained_witness:
  "TrimSpace ''/srv/share'' \<noteq> [] \<and>
   (\<exists>target. ResolveInsideShare ''/srv/share'' ''a/../b/c'' = Inr target \<and>
      segs target = [''srv'', ''share'', ''b'', ''c''])"
proof -
  have ne: "TrimSpace ''/srv/share'' \<noteq> []" by (simp add: go_eval)
  have "NormalizeRelativePath ''a/../b/c'' = Inr ''b/c''" by (simp add: go_eval)
  moreover have "segs ''/srv/share'' = [''srv'', ''share'']" by (simp add: go_eval)
  moreover have "split_on (CHR ''/'') ''b/c'' = [''b'', ''c'']" by (simp add: go_eval)
  ultimately show ?thesis
    using ResolveInsideShare_contained [OF ne, of "''a/../b/c''"] ne by auto
qed



text \<open>
  C31. \<open>EnsureParentDirectoriesInsideShare\<close> changes nothing of the file system but missing parents of
  the path, which it creates as directories, on success and on failure alike; when it succeeds, the
  share root and every parent of the path are real directories.
\<close>

theorem EnsureParentDirectoriesInsideShare_effect:
  assumes "EnsureParentDirectoriesInsideShare fs root rel = (fs', res)"
    and "NormalizeRelativePath rel = Inr p"
  shows "only_adds_dirs fs fs' (parents_of (Clean root) (butlast (split_on (CHR ''/'') p))) \<and>
    (is_ok res \<longrightarrow>
       (\<forall>q\<in>insert (Clean root) (parents_of (Clean root) (butlast (split_on (CHR ''/'') p))).
          fs_nodes fs' q = Some FDir))"
  using assms by (rule ensure_effect)

theorem EnsureParentDirectoriesInsideShare_effect_witness:
  "\<exists>fs' res. EnsureParentDirectoriesInsideShare
     (plain_fs [''/s'' \<mapsto> FDir]) ''/s'' ''d/f'' = (fs', res) \<and>
     is_ok res \<and> fs_nodes fs' ''/s/d'' = Some FDir"
proof -
  let ?fs = "plain_fs [''/s'' \<mapsto> FDir]"
  obtain fs' res where e: "EnsureParentDirectoriesInsideShare ?fs ''/s'' ''d/f'' = (fs', res)"
    by (meson surj_pair)
  have n: "NormalizeRelativePath ''d/f'' = Inr ''d/f''" by (simp add: go_eval)
  have eqs: "ResolveInsideShare ''/s'' ''d/f'' = Inr ''/s/d/f''" "Clean ''/s'' = ''/s''"
    "butlast (split_on (CHR ''/'') ''d/f'') = [''d'']" "Join2 ''/s'' ''d'' = ''/s/d''" by (simp_all add: go_eval)
  have "is_ok (snd (EnsureParentDirectoriesInsideShare ?fs ''/s'' ''d/f''))"
    by (simp add: EnsureParentDirectoriesInsideShare_def n eqs check_root_def Lstat_def Mkdir_def Let_def)
  with e have "is_ok res" by simp
  moreover from eqs have "''/s/d'' \<in> parents_of (Clean ''/s'') (butlast (split_on (CHR ''/'') ''d/f''))"
    by (simp add: parents_of_Cons)
  ultimately show ?thesis
    using EnsureParentDirectoriesInsideShare_effect [OF e n] e by blast
qed


end
