(* ===== verification/Transfer_Plan.thy ===== *)
theory Transfer_Plan
  imports Core_Model
begin

text \<open>
  src/internal/transfer: the fixed-size chunk plan (chunker.go), the chunks a resumed transfer still
  needs (resume.go) and the transfer state machine (state.go). Chunk arithmetic is int64 arithmetic
  with its wrap-around.
\<close>

section \<open>src/internal/transfer/chunker.go\<close>

record Chunk =
  ch_Index :: int
  ch_Offset :: int
  ch_Size :: int

datatype plan_error = NegativeFileSize int | NonPositiveChunkSize int | NegativeCapacityPanic

definition plan_chunk :: "int \<Rightarrow> int \<Rightarrow> int \<Rightarrow> Chunk" where
  "plan_chunk fileSize chunkSize i =
     (let offset = wrap64 (i * chunkSize); remaining = wrap64 (fileSize - offset) in
      \<lparr> ch_Index = i, ch_Offset = offset,
        ch_Size = (if remaining < chunkSize then remaining else chunkSize) \<rparr>)"

text \<open>
  \<open>make\<close> panics on a negative capacity. The loop counts from zero while the index is below \<open>count\<close>.
\<close>

definition PlanFixedChunks :: "int \<Rightarrow> int \<Rightarrow> plan_error + Chunk list" where
  "PlanFixedChunks fileSize chunkSize =
     (if fileSize < 0 then Inl (NegativeFileSize fileSize)
      else if chunkSize \<le> 0 then Inl (NonPositiveChunkSize chunkSize)
      else if fileSize = 0 then Inr [\<lparr> ch_Index = 0, ch_Offset = 0, ch_Size = 0 \<rparr>]
      else
        let count = go_div (wrap64 (fileSize + chunkSize - 1)) chunkSize in
        if count < 0 then Inl NegativeCapacityPanic
        else Inr (map (\<lambda>i. plan_chunk fileSize chunkSize (int i)) [0..<nat count]))"

section \<open>src/internal/transfer/resume.go and the manifest of manifest.go\<close>

record ChunkManifest =
  cm_Index :: int
  cm_Offset :: int
  cm_Size :: int
  cm_Hash :: string

record FileManifest =
  fm_RelativePath :: string
  fm_Size :: int
  fm_ModifiedTime :: time
  fm_HashAlgorithm :: string
  fm_ContentHash :: string
  fm_ChunkSize :: int
  fm_Chunks :: "ChunkManifest list"

text \<open>The map of the verified chunks by index; a later chunk replaces an earlier one.\<close>

definition verified_by_index :: "TransferChunk list \<Rightarrow> int \<Rightarrow> TransferChunk option" where
  "verified_by_index verified index =
     map_of (rev (map (\<lambda>chunk. (tc_Index chunk, chunk))
       (filter (\<lambda>chunk. tc_State chunk = ChunkVerified) verified))) index"

definition chunk_matches :: "TransferChunk \<Rightarrow> ChunkManifest \<Rightarrow> bool" where
  "chunk_matches v chunk \<longleftrightarrow>
     tc_Offset v = cm_Offset chunk \<and> tc_Size v = cm_Size chunk \<and> tc_Hash v = cm_Hash chunk"

fun missing_loop ::
  "(int \<Rightarrow> TransferChunk option) \<Rightarrow> ChunkManifest list \<Rightarrow> int + ChunkManifest list" where
  "missing_loop verified [] = Inr []"
| "missing_loop verified (chunk # chunks) =
     (case verified (cm_Index chunk) of
        None \<Rightarrow> rbind (missing_loop verified chunks) (\<lambda>missing. Inr (chunk # missing))
      | Some v \<Rightarrow>
          if chunk_matches v chunk then missing_loop verified chunks else Inl (cm_Index chunk))"

definition MissingChunks :: "FileManifest \<Rightarrow> TransferChunk list \<Rightarrow> int + ChunkManifest list" where
  "MissingChunks manifest verified = missing_loop (verified_by_index verified) (fm_Chunks manifest)"

section \<open>src/internal/transfer/state.go\<close>

fun allowedTransitions :: "TransferState \<Rightarrow> TransferState list" where
  "allowedTransitions TransferQueued = [TransferAuthorizing, TransferCanceled]"
| "allowedTransitions TransferAuthorizing = [TransferOffered, TransferFailed, TransferCanceled]"
| "allowedTransitions TransferOffered =
     [TransferNegotiatingChunks, TransferFailed, TransferCanceled]"
| "allowedTransitions TransferNegotiatingChunks =
     [TransferTransferring, TransferFailed, TransferCanceled]"
| "allowedTransitions TransferTransferring =
     [TransferPaused, TransferVerifying, TransferFailed, TransferCanceled]"
| "allowedTransitions TransferPaused = [TransferTransferring, TransferCanceled]"
| "allowedTransitions TransferVerifying = [TransferCommitting, TransferFailed, TransferCanceled]"
| "allowedTransitions TransferCommitting = [TransferCompleted, TransferFailed]"
| "allowedTransitions TransferFailed = [TransferQueued, TransferCanceled]"
| "allowedTransitions _ = []"

definition CanTransition :: "TransferState \<Rightarrow> TransferState \<Rightarrow> bool" where
  "CanTransition from to \<longleftrightarrow> to \<in> set (allowedTransitions from)"

definition ValidateTransition ::
  "TransferState \<Rightarrow> TransferState \<Rightarrow> (TransferState \<times> TransferState) + unit" where
  "ValidateTransition from to = (if CanTransition from to then ok else Inl (from, to))"

section \<open>The chunk plan\<close>

definition chunk_bytes :: "string \<Rightarrow> Chunk \<Rightarrow> string" where
  "chunk_bytes content chunk = take (nat (ch_Size chunk)) (drop (nat (ch_Offset chunk)) content)"

definition chunk_count :: "int \<Rightarrow> int \<Rightarrow> nat" where
  "chunk_count fileSize chunkSize = nat ((fileSize + chunkSize - 1) div chunkSize)"

text \<open>Chunks that start at an offset, follow one another and are numbered in order.\<close>

fun contiguous :: "int \<Rightarrow> int \<Rightarrow> Chunk list \<Rightarrow> bool" where
  "contiguous index offset [] = True"
| "contiguous index offset (chunk # chunks) \<longleftrightarrow>
     ch_Index chunk = index \<and> ch_Offset chunk = offset \<and>
     contiguous (index + 1) (offset + ch_Size chunk) chunks"

lemma contiguous_append:
  "contiguous i off (xs @ ys) \<longleftrightarrow>
   contiguous i off xs \<and> contiguous (i + int (length xs)) (off + sum_list (map ch_Size xs)) ys"
  by (induction xs arbitrary: i off) (simp_all add: algebra_simps)

lemma contiguous_bytes:
  "contiguous i (int off) chunks \<Longrightarrow> \<forall>c\<in>set chunks. 0 \<le> ch_Size c \<Longrightarrow>
   concat (map (chunk_bytes content) chunks) =
   take (nat (sum_list (map ch_Size chunks))) (drop off content)"
proof (induction chunks arbitrary: i off)
  case (Cons c cs)
  let ?n = "nat (ch_Size c)"
  have c: "ch_Offset c = int off" "0 \<le> ch_Size c" and s: "0 \<le> sum_list (map ch_Size cs)"
    using Cons.prems sum_list_nonneg [of "map ch_Size cs"] by auto
  then have "contiguous (i + 1) (int (off + ?n)) cs" using Cons.prems by simp
  from Cons.IH [OF this] Cons.prems have
    "concat (map (chunk_bytes content) cs) =
     take (nat (sum_list (map ch_Size cs))) (drop (off + ?n) content)" by simp
  moreover have "take (?n + k) (drop off content) =
    take ?n (drop off content) @ take k (drop (off + ?n) content)" for k
    by (metis take_add drop_drop add.commute)
  ultimately show ?case using c s by (simp add: chunk_bytes_def [of content c] nat_add_distrib)
qed simp

lemma chunk_count_bounds:
  assumes "0 < fileSize" and "0 < chunkSize"
  shows "fileSize \<le> int (chunk_count fileSize chunkSize) * chunkSize"
    and "i < chunk_count fileSize chunkSize \<Longrightarrow> int i * chunkSize < fileSize"
proof -
  let ?q = "(fileSize + chunkSize - 1) div chunkSize"
  have q: "0 \<le> ?q" using assms by (simp add: pos_imp_zdiv_nonneg_iff)
  have m: "?q * chunkSize + (fileSize + chunkSize - 1) mod chunkSize = fileSize + chunkSize - 1"
    by (rule div_mult_mod_eq)
  have b: "0 \<le> (fileSize + chunkSize - 1) mod chunkSize" "(fileSize + chunkSize - 1) mod chunkSize < chunkSize"
    using assms by simp_all
  show "fileSize \<le> int (chunk_count fileSize chunkSize) * chunkSize"
  proof -
    have "fileSize \<le> ?q * chunkSize" using m b by linarith
    with q show ?thesis by (simp add: chunk_count_def)
  qed
  assume "i < chunk_count fileSize chunkSize"
  then have "int i + 1 \<le> ?q" using q by (simp add: chunk_count_def)
  then have "(int i + 1) * chunkSize \<le> ?q * chunkSize" using assms by (intro mult_right_mono) auto
  then have "int i * chunkSize + chunkSize \<le> ?q * chunkSize" by (simp add: distrib_right)
  then show "int i * chunkSize < fileSize" using m b by linarith
qed

lemma plan_chunk_exact:
  assumes "0 < fileSize" "0 < chunkSize" "fileSize < 2 ^ 63" "int i * chunkSize < fileSize"
  shows "plan_chunk fileSize chunkSize (int i) =
    \<lparr> ch_Index = int i, ch_Offset = int i * chunkSize,
      ch_Size = min chunkSize (fileSize - int i * chunkSize) \<rparr>"
proof -
  have "0 \<le> int i * chunkSize" using assms by simp
  then have "int64_range (int i * chunkSize)" "int64_range (fileSize - int i * chunkSize)"
    using assms unfolding int64_range_def by linarith+
  then have "wrap64 (int i * chunkSize) = int i * chunkSize"
    "wrap64 (fileSize - int i * chunkSize) = fileSize - int i * chunkSize"
    by (simp_all add: wrap64_id)
  then show ?thesis by (simp add: plan_chunk_def Let_def min_def)
qed

lemma plan_prefix:
  assumes "0 < fileSize" "0 < chunkSize" "fileSize < 2 ^ 63"
  shows "k \<le> chunk_count fileSize chunkSize \<Longrightarrow>
    contiguous 0 0 (map (\<lambda>i. plan_chunk fileSize chunkSize (int i)) [0..<k]) \<and>
    sum_list (map ch_Size (map (\<lambda>i. plan_chunk fileSize chunkSize (int i)) [0..<k])) =
      min fileSize (int k * chunkSize)"
proof (induction k)
  case (Suc k)
  then have k: "int k * chunkSize < fileSize"
    using chunk_count_bounds(2) [OF assms(1,2)] by simp
  note e = plan_chunk_exact [OF assms k]
  show ?case using Suc k assms by (auto simp: contiguous_append e algebra_simps min_def)
qed (use assms in simp)

lemma PlanFixedChunks_exact:
  assumes "0 < fileSize" "0 < chunkSize" "fileSize + chunkSize \<le> 2 ^ 63"
  shows "PlanFixedChunks fileSize chunkSize =
    Inr (map (\<lambda>i. plan_chunk fileSize chunkSize (int i)) [0..<chunk_count fileSize chunkSize])"
proof -
  have "wrap64 (fileSize + chunkSize - 1) = fileSize + chunkSize - 1"
    using assms by (intro wrap64_id) (simp add: int64_range_def)
  moreover have "0 \<le> (fileSize + chunkSize - 1) div chunkSize"
    using assms by (simp add: pos_imp_zdiv_nonneg_iff)
  ultimately show ?thesis
    using assms by (simp add: PlanFixedChunks_def go_div_nonneg chunk_count_def)
qed

lemma PlanFixedChunks_parts:
  assumes "0 \<le> fileSize" "0 < chunkSize" "fileSize + chunkSize \<le> 2 ^ 63"
    and "PlanFixedChunks fileSize chunkSize = Inr chunks"
  shows "contiguous 0 0 chunks" and "sum_list (map ch_Size chunks) = fileSize"
    and "\<forall>c\<in>set chunks. 0 \<le> ch_Size c \<and> ch_Size c \<le> chunkSize"
    and "0 < fileSize \<Longrightarrow> \<forall>c\<in>set chunks. 0 < ch_Size c"
proof -
  have "contiguous 0 0 chunks \<and> sum_list (map ch_Size chunks) = fileSize \<and>
    (\<forall>c\<in>set chunks. 0 \<le> ch_Size c \<and> ch_Size c \<le> chunkSize \<and> (0 < fileSize \<longrightarrow> 0 < ch_Size c))"
  proof (cases "fileSize = 0")
    case True
    then have "chunks = [\<lparr> ch_Index = 0, ch_Offset = 0, ch_Size = 0 \<rparr>]"
      using assms by (simp add: PlanFixedChunks_def)
    with True assms show ?thesis by simp
  next
    case False
    then have pos: "0 < fileSize" "fileSize < 2 ^ 63" using assms by auto
    have eq: "chunks = map (\<lambda>i. plan_chunk fileSize chunkSize (int i))
        [0..<chunk_count fileSize chunkSize]"
      using assms pos PlanFixedChunks_exact by simp
    have "0 < ch_Size c \<and> ch_Size c \<le> chunkSize" if c: "c \<in> set chunks" for c
    proof -
      obtain i where "i < chunk_count fileSize chunkSize" "c = plan_chunk fileSize chunkSize (int i)"
        using c unfolding eq by auto
      then show ?thesis
        using plan_chunk_exact [OF pos(1) assms(2) pos(2) chunk_count_bounds(2) [OF pos(1) assms(2)]]
          chunk_count_bounds(2) [OF pos(1) assms(2)] assms(2) by simp
    qed
    moreover have "contiguous 0 0 chunks \<and> sum_list (map ch_Size chunks) = fileSize"
      using plan_prefix [OF pos(1) assms(2) pos(2) le_refl] chunk_count_bounds(1) [OF pos(1) assms(2)]
      unfolding eq by simp
    ultimately show ?thesis by (auto simp: less_imp_le)
  qed
  then show "contiguous 0 0 chunks" "sum_list (map ch_Size chunks) = fileSize"
    "\<forall>c\<in>set chunks. 0 \<le> ch_Size c \<and> ch_Size c \<le> chunkSize"
    "0 < fileSize \<Longrightarrow> \<forall>c\<in>set chunks. 0 < ch_Size c" by auto
qed

lemma PlanFixedChunks_bytes:
  assumes "0 < chunkSize" "int (length content) + chunkSize \<le> 2 ^ 63"
    and "PlanFixedChunks (int (length content)) chunkSize = Inr chunks"
  shows "concat (map (chunk_bytes content) chunks) = content"
  using contiguous_bytes [of 0 0 chunks content] PlanFixedChunks_parts [OF _ assms] by simp

section \<open>Resuming\<close>

lemma missing_loop_Inr:
  "missing_loop verified chunks = Inr missing \<longleftrightarrow>
     missing = filter (\<lambda>c. verified (cm_Index c) = None) chunks \<and>
     (\<forall>c\<in>set chunks. \<forall>v. verified (cm_Index c) = Some v \<longrightarrow> chunk_matches v c)"
  by (induction chunks arbitrary: missing) (auto simp: rbind_eq_Inr split: option.splits)

lemma verified_by_index_None:
  "verified_by_index verified i = None \<longleftrightarrow>
     (\<forall>v\<in>set verified. tc_State v = ChunkVerified \<longrightarrow> tc_Index v \<noteq> i)"
  by (force simp: verified_by_index_def map_of_eq_None_iff)

lemma verified_by_index_Some:
  "verified_by_index verified i = Some v \<Longrightarrow>
     v \<in> set verified \<and> tc_State v = ChunkVerified \<and> tc_Index v = i"
  by (auto simp: verified_by_index_def dest!: map_of_SomeD)

section \<open>Histories of a transfer\<close>

text \<open>A history is a list of states whose neighbours are allowed transitions.\<close>

fun history :: "TransferState list \<Rightarrow> bool" where
  "history [] = False"
| "history [s] = True"
| "history (s # t # ts) \<longleftrightarrow> CanTransition s t \<and> history (t # ts)"

text \<open>The stages a transfer has gone through when it is in a state.\<close>

definition main_path :: "TransferState list" where
  "main_path = [TransferQueued, TransferAuthorizing, TransferOffered, TransferNegotiatingChunks,
     TransferTransferring, TransferVerifying, TransferCommitting, TransferCompleted]"

fun stages :: "TransferState \<Rightarrow> TransferState list" where
  "stages TransferAuthorizing = take 2 main_path"
| "stages TransferOffered = take 3 main_path"
| "stages TransferNegotiatingChunks = take 4 main_path"
| "stages TransferTransferring = take 5 main_path"
| "stages TransferPaused = take 5 main_path"
| "stages TransferVerifying = take 6 main_path"
| "stages TransferCommitting = take 7 main_path"
| "stages TransferCompleted = main_path"
| "stages _ = take 1 main_path"

lemma history_snoc:
  "ts \<noteq> [] \<Longrightarrow> history (ts @ [t]) \<longleftrightarrow> history ts \<and> CanTransition (last ts) t"
  by (induction ts rule: history.induct) auto

lemma stages_step:
  assumes "CanTransition s t"
  shows "subseq (stages t) (stages s @ [t]) \<or> subseq (stages t) (stages s) \<or> stages t = [TransferQueued]"
  using assms by (cases s) (auto simp: CanTransition_def main_path_def)

lemma history_stages:
  "history ts \<Longrightarrow> hd ts = TransferQueued \<Longrightarrow> subseq (stages (last ts)) ts"
proof (induction ts rule: rev_induct)
  case (snoc t ts)
  show ?case
  proof (cases "ts = []")
    case False
    then have ih: "subseq (stages (last ts)) ts" and step: "CanTransition (last ts) t"
      using snoc by (simp_all add: history_snoc)
    have one: "subseq [TransferQueued] (ts @ [t])"
      using False snoc.prems by (cases ts) auto
    have "subseq (stages (last ts)) (ts @ [t])" using ih by (rule list_emb_prefix)
    moreover have "subseq (stages (last ts) @ [t]) (ts @ [t])"
      using ih by (intro list_emb_append_mono) auto
    ultimately show ?thesis
      using stages_step [OF step] one by (auto intro: subseq_order.trans)
  qed (use snoc in \<open>simp add: main_path_def\<close>)
qed simp

section \<open>Properties\<close>

text \<open>
  C32. The chunk plan is a partition: for a file whose size plus the chunk size is at most two to the
  sixty-third, \<open>PlanFixedChunks\<close> succeeds, its chunks are numbered from zero, follow one another from
  offset zero, are no larger than the chunk size and none is empty unless the file is, and reading
  them in order gives back the bytes of the file.
\<close>

theorem PlanFixedChunks_partition:
  assumes "0 < chunkSize" and "int (length content) + chunkSize \<le> 2 ^ 63"
  shows "\<exists>chunks. PlanFixedChunks (int (length content)) chunkSize = Inr chunks \<and>
    contiguous 0 0 chunks \<and> concat (map (chunk_bytes content) chunks) = content \<and>
    sum_list (map ch_Size chunks) = int (length content) \<and>
    (\<forall>c\<in>set chunks. ch_Size c \<le> chunkSize \<and> (content \<noteq> [] \<longrightarrow> 0 < ch_Size c))"
proof -
  obtain chunks where eq: "PlanFixedChunks (int (length content)) chunkSize = Inr chunks"
    using assms PlanFixedChunks_exact [of "int (length content)" chunkSize]
    by (cases "content = []") (auto simp: PlanFixedChunks_def)
  show ?thesis
    using eq PlanFixedChunks_parts [OF _ assms eq] PlanFixedChunks_bytes [OF assms eq] by auto
qed

theorem PlanFixedChunks_partition_witness:
  "\<exists>chunks. PlanFixedChunks 5 2 = Inr chunks \<and> concat (map (chunk_bytes ''hello'') chunks) = ''hello''"
  using PlanFixedChunks_partition [of 2 "''hello''"] by auto

text \<open>
  C38. Beyond that bound the sum overflows: no plan covers the file. Either the plan is empty or the
  allocation panics on a negative capacity.
\<close>

theorem PlanFixedChunks_overflow:
  assumes "0 < fileSize" "fileSize < 2 ^ 63" "0 < chunkSize" "chunkSize < 2 ^ 63"
    and "2 ^ 63 < fileSize + chunkSize"
  shows "PlanFixedChunks fileSize chunkSize =
    (if 2 ^ 64 + 1 < fileSize + 2 * chunkSize then Inr [] else Inl NegativeCapacityPanic)"
proof -
  let ?s = "fileSize + chunkSize - 1 - 2 ^ 64"
  have w: "wrap64 (fileSize + chunkSize - 1) = ?s" using assms by (intro wrap64_above) simp_all
  have "?s < 0" using assms by simp
  then have d: "go_div ?s chunkSize = - (\<bar>?s\<bar> div chunkSize)"
    using assms by (simp add: go_div_def)
  have "\<bar>?s\<bar> div chunkSize = 0 \<longleftrightarrow> \<bar>?s\<bar> < chunkSize"
    using assms by (metis abs_ge_zero div_pos_pos_trivial pos_imp_zdiv_pos_iff not_less order_less_irrefl)
  moreover have "0 \<le> \<bar>?s\<bar> div chunkSize" using assms by (simp add: pos_imp_zdiv_nonneg_iff)
  moreover have "\<bar>?s\<bar> < chunkSize \<longleftrightarrow> 2 ^ 64 + 1 < fileSize + 2 * chunkSize" using assms by auto
  ultimately show ?thesis
    using assms unfolding PlanFixedChunks_def w d Let_def by auto
qed

theorem PlanFixedChunks_overflow_witness:
  "PlanFixedChunks 2 (2 ^ 63 - 1) = Inl NegativeCapacityPanic \<and>
   PlanFixedChunks (2 ^ 63 - 1) (2 ^ 63 - 1) = Inr []"
  using PlanFixedChunks_overflow [of 2 "2 ^ 63 - 1"]
    PlanFixedChunks_overflow [of "2 ^ 63 - 1" "2 ^ 63 - 1"] by simp

text \<open>
  \<open>MissingChunks\<close> returns, in order, exactly the chunks of the manifest that no verified record
  names, and it succeeds exactly when every record it uses agrees with the manifest; so a chunk it
  leaves out is recorded as verified with the offset, the size and the hash of the manifest.
\<close>

theorem MissingChunks_correct:
  "(\<forall>missing. MissingChunks manifest verified = Inr missing \<longleftrightarrow>
      missing = filter (\<lambda>c. \<forall>v\<in>set verified. tc_State v = ChunkVerified \<longrightarrow> tc_Index v \<noteq> cm_Index c)
        (fm_Chunks manifest) \<and>
      (\<forall>c\<in>set (fm_Chunks manifest). \<forall>v. verified_by_index verified (cm_Index c) = Some v \<longrightarrow>
         v \<in> set verified \<and> tc_State v = ChunkVerified \<and> tc_Index v = cm_Index c \<and>
         tc_Offset v = cm_Offset c \<and> tc_Size v = cm_Size c \<and> tc_Hash v = cm_Hash c))"
  by (auto simp: MissingChunks_def missing_loop_Inr verified_by_index_None chunk_matches_def
      dest: verified_by_index_Some)

theorem MissingChunks_correct_witness:
  "MissingChunks
     \<lparr> fm_RelativePath = ''f'', fm_Size = 3, fm_ModifiedTime = 0, fm_HashAlgorithm = ''sha256'',
       fm_ContentHash = [], fm_ChunkSize = 2,
       fm_Chunks = [\<lparr> cm_Index = 0, cm_Offset = 0, cm_Size = 2, cm_Hash = ''h'' \<rparr>,
         \<lparr> cm_Index = 1, cm_Offset = 2, cm_Size = 1, cm_Hash = ''k'' \<rparr>] \<rparr>
     [\<lparr> tc_TransferID = [], tc_Index = 0, tc_Offset = 0, tc_Size = 2, tc_Hash = ''h'',
        tc_State = ChunkVerified, tc_VerifiedAt = 0 \<rparr>] =
   Inr [\<lparr> cm_Index = 1, cm_Offset = 2, cm_Size = 1, cm_Hash = ''k'' \<rparr>]"
  by (subst MissingChunks_correct [rule_format]) (simp add: verified_by_index_def)

text \<open>
  The state machine of a transfer: whatever retries and pauses happen, a history of allowed
  transitions that starts queued and ends completed went through authorising, offering,
  negotiating, transferring, verifying and committing, in this order; and nothing follows a
  completed or a cancelled transfer.
\<close>

theorem transfer_completed_stages:
  "(history ts \<and> hd ts = TransferQueued \<and> last ts = TransferCompleted \<longrightarrow>
      subseq [TransferQueued, TransferAuthorizing, TransferOffered, TransferNegotiatingChunks,
        TransferTransferring, TransferVerifying, TransferCommitting, TransferCompleted] ts) \<and>
   \<not> CanTransition TransferCompleted to \<and> \<not> CanTransition TransferCanceled to \<and>
   (ValidateTransition from to = ok \<longleftrightarrow> CanTransition from to)"
  using history_stages [of ts] by (auto simp: CanTransition_def ValidateTransition_def main_path_def)

theorem transfer_completed_stages_witness:
  "subseq [TransferQueued, TransferAuthorizing, TransferOffered, TransferNegotiatingChunks,
     TransferTransferring, TransferVerifying, TransferCommitting, TransferCompleted]
   [TransferQueued, TransferAuthorizing, TransferOffered, TransferNegotiatingChunks,
     TransferTransferring, TransferPaused, TransferTransferring, TransferVerifying,
     TransferCommitting, TransferCompleted]"
proof -
  let ?ts = "[TransferQueued, TransferAuthorizing, TransferOffered, TransferNegotiatingChunks,
     TransferTransferring, TransferPaused, TransferTransferring, TransferVerifying,
     TransferCommitting, TransferCompleted]"
  have "history ?ts \<and> hd ?ts = TransferQueued \<and> last ?ts = TransferCompleted"
    by (simp add: CanTransition_def)
  then show ?thesis using transfer_completed_stages [of ?ts] by blast
qed

end
