(* ===== verification/Go_Time.thy ===== *)
theory Go_Time
  imports Go_Prelude
begin

text \<open>
  What the sources use of \<open>time.Time.Format\<close>. A time is the number of nanoseconds since the first
  instant of year one in UTC, the Go zero time; the calendar is the proleptic Gregorian one.
\<close>

definition digit :: "int \<Rightarrow> char" where
  "digit n = ''0123456789'' ! nat (n mod 10)"

fun num :: "nat \<Rightarrow> int \<Rightarrow> string" where
  "num 0 n = []"
| "num (Suc k) n = num k (n div 10) @ [digit n]"

definition seconds_per_day :: int where
  "seconds_per_day = 86400"

definition second :: int where
  "second = 1000000000"

text \<open>
  Year, month and day of a day counted from the first of March of year zero: four hundred years have
  146097 days, and counting years from March puts the leap day last.
\<close>

definition civil :: "int \<Rightarrow> int \<times> int \<times> int" where
  "civil z =
     (let era = z div 146097; doe = z mod 146097;
          yoe = (doe - doe div 1460 + doe div 36524 - doe div 146096) div 365;
          doy = doe - (365 * yoe + yoe div 4 - yoe div 100);
          mp = (5 * doy + 2) div 153;
          d = doy - (153 * mp + 2) div 5 + 1;
          mth = (if mp < 10 then mp + 3 else mp - 9) in
      (yoe + era * 400 + (if mth \<le> 2 then 1 else 0), mth, d))"

definition date_of :: "time \<Rightarrow> int \<times> int \<times> int" where
  "date_of t = civil (t div (seconds_per_day * second) + 306)"

definition clock_of :: "time \<Rightarrow> int \<times> int \<times> int \<times> int" where
  "clock_of t =
     (let s = (t div second) mod seconds_per_day in
      (s div 3600, (s div 60) mod 60, s mod 60, t mod second))"

definition trim_zeros :: "string \<Rightarrow> string" where
  "trim_zeros s = rev (dropWhile (\<lambda>c. c = CHR ''0'') (rev s))"

definition format_date :: "string \<Rightarrow> time \<Rightarrow> string" where
  "format_date sep t = (case date_of t of (y, m, d) \<Rightarrow> num 4 y @ sep @ num 2 m @ sep @ num 2 d)"

definition format_clock :: "string \<Rightarrow> time \<Rightarrow> string" where
  "format_clock sep t =
     (case clock_of t of (h, m, s, _) \<Rightarrow> num 2 h @ sep @ num 2 m @ sep @ num 2 s)"

definition FormatRFC3339Nano :: "time \<Rightarrow> string" where
  "FormatRFC3339Nano t =
     (let frac = trim_zeros (num 9 (t mod second)) in
      format_date ''-'' t @ ''T'' @ format_clock '':'' t @
      (if frac = [] then [] else CHR ''.'' # frac) @ ''Z'')"

definition FormatStamp :: "time \<Rightarrow> string" where
  "FormatStamp t =
     format_date [] t @ ''T'' @ format_clock [] t @ ''.'' @ num 9 (t mod second) @ ''Z''"

lemmas time_eval [go_eval] =
  digit_def seconds_per_day_def second_def civil_def date_of_def clock_of_def trim_zeros_def
  format_date_def format_clock_def FormatRFC3339Nano_def FormatStamp_def Let_def

lemma num_widths [go_eval]:
  "num 2 n = [digit (n div 10), digit n]"
  "num 4 n = [digit (n div 10 div 10 div 10), digit (n div 10 div 10), digit (n div 10), digit n]"
  "num 9 n = num 4 (n div 10 div 10 div 10 div 10 div 10) @ [digit (n div 10 div 10 div 10 div 10)] @ num 4 n"
  by (simp_all only: eval_nat_numeral BitM.simps num.simps append_Nil append_Cons append_assoc)

end
