(* ===== verification/Transfer_Wire.thy ===== *)
theory Transfer_Wire
  imports Transfer_Plan Paths Go_Time
begin

text \<open>
  src/internal/transfer: the manifest of a source file (manifest.go), the framed stream that carries
  it and the file (protocol.go), and the writer that stages received bytes in a partial file and
  renames it into place once size and hash agree (receive\_writer.go). The digest and the JSON codec
  are arguments; a digest state is the bytes written so far. A source file is what the two
  inspections, the hashing pass and the sending pass see of it, which need not agree.
\<close>

section \<open>Digests and hexadecimal text\<close>

definition HashSHA256 :: string where
  "HashSHA256 = ''sha256''"

definition hex_digit :: "nat \<Rightarrow> char" where
  "hex_digit n = ''0123456789abcdef'' ! n"

definition hex_encode :: "string \<Rightarrow> string" where
  "hex_encode bytes =
     concat (map (\<lambda>c. [hex_digit (of_char c div 16), hex_digit (of_char c mod 16)]) bytes)"

datatype hash_error = HashRequired | HashNotHex | HashLength nat

text \<open>
  \<open>hex.DecodeString\<close> accepts an even number of hexadecimal digits. Lower-casing a rune outside ASCII
  never gives a hexadecimal digit, so lower-casing the ASCII letters alone accepts the same texts.
\<close>

definition normalizeHexHash :: "string \<Rightarrow> hash_error + string" where
  "normalizeHexHash raw =
     (let hash = map lower_byte (TrimSpace raw) in
      if hash = [] then Inl HashRequired
      else if odd (length hash) \<or> \<not> list_all is_hex hash then Inl HashNotHex
      else if length hash div 2 \<noteq> 32 then Inl (HashLength (length hash div 2))
      else Inr hash)"

text \<open>
  \<open>strings.EqualFold(s, "sha256")\<close>: besides the two cases of each letter, the long s (U+017F, the
  bytes C5 BF) folds to an s.
\<close>

fun unfold_long_s :: "string \<Rightarrow> string" where
  "unfold_long_s (a # b # s) =
     (if a = CHR 0xC5 \<and> b = CHR 0xBF then CHR ''s'' # unfold_long_s s
      else a # unfold_long_s (b # s))"
| "unfold_long_s s = s"

definition is_sha256_name :: "string \<Rightarrow> bool" where
  "is_sha256_name s \<longleftrightarrow> map lower_byte (unfold_long_s s) = HashSHA256"

section \<open>src/internal/transfer/manifest.go\<close>

record FileInfo =
  fi_Regular :: bool
  fi_Size :: int
  fi_ModTime :: time

record Source =
  src_initial :: "FileInfo option"
  src_hashed :: "string option"
  src_final :: "FileInfo option"
  src_sent :: "string option"

datatype send_error =
  BadChunkSize int | SourceStat | SourceNotRegular | SourceOpen | SourcePlan plan_error
| SourceRead int | SourceStuck | SourceStatAfter | SourceChanged
| ManifestMarshal | ManifestTooLarge | ManifestLengthWrite | ManifestWrite | ChunkWrite int

text \<open>\<open>ReadAt\<close> fails on a negative offset, and at the end of the file when it reads too little.\<close>

definition ReadAt :: "string \<Rightarrow> int \<Rightarrow> int \<Rightarrow> string \<times> bool" where
  "ReadAt content offset n =
     (if offset < 0 then ([], True)
      else let data = take (nat n) (drop (nat offset) content) in (data, int (length data) < n))"

text \<open>
  The loop of \<open>hashChunk\<close>. A buffer is never empty, since its size is the minimum of a positive
  chunk size and one mebibyte; with an empty one the loop would not end, which is the value
  \<open>SourceStuck\<close>.
\<close>

function hash_loop ::
  "string \<Rightarrow> int \<Rightarrow> int \<Rightarrow> int \<Rightarrow> int \<Rightarrow> string \<Rightarrow> string \<Rightarrow> send_error + string \<times> string" where
  "hash_loop content buf index offset remaining chunkHasher wholeHasher =
     (if remaining \<le> 0 then Inr (chunkHasher, wholeHasher)
      else if buf \<le> 0 then Inl SourceStuck
      else
        let readSize = (if remaining < buf then remaining else buf);
            (data, err) = ReadAt content offset readSize;
            n = int (length data) in
        if err then
          (if remaining - n = 0 then Inr (chunkHasher @ data, wholeHasher @ data)
           else Inl (SourceRead index))
        else hash_loop content buf index (offset + n) (remaining - n)
               (chunkHasher @ data) (wholeHasher @ data))"
  by pat_completeness auto
termination
  by (relation "measure (\<lambda>(_, _, _, _, remaining, _, _). nat remaining)")
    (auto simp: ReadAt_def Let_def split: if_splits)

declare hash_loop.simps [simp del]

definition hashChunk ::
  "(string \<Rightarrow> string) \<Rightarrow> string \<Rightarrow> string \<Rightarrow> int \<Rightarrow> Chunk \<Rightarrow> send_error + string \<times> string" where
  "hashChunk sha content wholeHasher buf chunk =
     rbind (hash_loop content buf (ch_Index chunk) (ch_Offset chunk) (ch_Size chunk) [] wholeHasher)
       (\<lambda>(chunkHasher, wholeHasher). Inr (hex_encode (sha chunkHasher), wholeHasher))"

fun manifest_chunks ::
  "(string \<Rightarrow> string) \<Rightarrow> string \<Rightarrow> int \<Rightarrow> string \<Rightarrow> Chunk list \<Rightarrow>
   send_error + ChunkManifest list \<times> string" where
  "manifest_chunks sha content buf wholeHasher [] = Inr ([], wholeHasher)"
| "manifest_chunks sha content buf wholeHasher (chunk # chunks) =
     rbind (hashChunk sha content wholeHasher buf chunk) (\<lambda>(chunkHash, wholeHasher).
     rbind (manifest_chunks sha content buf wholeHasher chunks) (\<lambda>(rest, wholeHasher).
     Inr (\<lparr> cm_Index = ch_Index chunk, cm_Offset = ch_Offset chunk, cm_Size = ch_Size chunk,
            cm_Hash = chunkHash \<rparr> # rest, wholeHasher)))"

definition sourceChanged :: "FileInfo \<Rightarrow> FileInfo \<Rightarrow> bool" where
  "sourceChanged initial final \<longleftrightarrow>
     fi_Size initial \<noteq> fi_Size final \<or> fi_ModTime initial \<noteq> fi_ModTime final"

definition buffer_size :: "int \<Rightarrow> int" where
  "buffer_size chunkSize = (if chunkSize < 1024 * 1024 then chunkSize else 1024 * 1024)"

definition BuildFileManifest ::
  "(string \<Rightarrow> string) \<Rightarrow> Source \<Rightarrow> string \<Rightarrow> int \<Rightarrow> send_error + FileManifest" where
  "BuildFileManifest sha src relativePath chunkSize =
     (if chunkSize \<le> 0 then Inl (BadChunkSize chunkSize)
      else case src_initial src of None \<Rightarrow> Inl SourceStat | Some initialInfo \<Rightarrow>
        if \<not> fi_Regular initialInfo then Inl SourceNotRegular
        else case src_hashed src of None \<Rightarrow> Inl SourceOpen | Some content \<Rightarrow>
          case PlanFixedChunks (fi_Size initialInfo) chunkSize of
            Inl e \<Rightarrow> Inl (SourcePlan e)
          | Inr chunks \<Rightarrow>
              rbind (manifest_chunks sha content (buffer_size chunkSize) [] chunks)
                (\<lambda>(manifestChunks, wholeHasher).
                 case src_final src of None \<Rightarrow> Inl SourceStatAfter | Some finalInfo \<Rightarrow>
                   if sourceChanged initialInfo finalInfo then Inl SourceChanged
                   else Inr
                     \<lparr> fm_RelativePath = relativePath, fm_Size = fi_Size initialInfo,
                       fm_ModifiedTime = fi_ModTime initialInfo, fm_HashAlgorithm = HashSHA256,
                       fm_ContentHash = hex_encode (sha wholeHasher), fm_ChunkSize = chunkSize,
                       fm_Chunks = manifestChunks \<rparr>))"

section \<open>src/internal/transfer/protocol.go: sending\<close>

definition MaxManifestHeaderBytes :: nat where
  "MaxManifestHeaderBytes = 4 * 1024 * 1024"

text \<open>A stream takes bytes up to an optional limit; a write beyond it is partial and fails.\<close>

record Sink =
  snk_bytes :: string
  snk_limit :: "nat option"

definition Sink_Write :: "Sink \<Rightarrow> string \<Rightarrow> Sink \<times> bool" where
  "Sink_Write sink data =
     (case snk_limit sink of
        None \<Rightarrow> (sink\<lparr>snk_bytes := snk_bytes sink @ data\<rparr>, True)
      | Some limit \<Rightarrow>
          (let n = min (length data) (limit - length (snk_bytes sink)) in
           (sink\<lparr>snk_bytes := snk_bytes sink @ take n data\<rparr>, n = length data)))"

definition be32 :: "nat \<Rightarrow> string" where
  "be32 n = map (\<lambda>k. char_of (n div 256 ^ k mod 256)) [3, 2, 1, 0]"

definition of_be32 :: "string \<Rightarrow> nat" where
  "of_be32 bytes = foldl (\<lambda>n c. n * 256 + of_char c) 0 bytes"

definition writeManifest ::
  "(FileManifest \<Rightarrow> string option) \<Rightarrow> Sink \<Rightarrow> FileManifest \<Rightarrow> Sink \<times> (send_error + unit)" where
  "writeManifest marshal stream manifest =
     (case marshal manifest of
        None \<Rightarrow> (stream, Inl ManifestMarshal)
      | Some raw \<Rightarrow>
          if MaxManifestHeaderBytes < length raw then (stream, Inl ManifestTooLarge)
          else case Sink_Write stream (be32 (length raw)) of
            (stream, False) \<Rightarrow> (stream, Inl ManifestLengthWrite)
          | (stream, True) \<Rightarrow>
              (case Sink_Write stream raw of
                 (stream, False) \<Rightarrow> (stream, Inl ManifestWrite)
               | (stream, True) \<Rightarrow> (stream, ok)))"

function send_loop ::
  "string \<Rightarrow> int \<Rightarrow> int \<Rightarrow> Sink \<Rightarrow> int \<Rightarrow> int \<Rightarrow> int \<Rightarrow> Sink \<times> (send_error + int)" where
  "send_loop content buf index stream offset remaining sent =
     (if remaining \<le> 0 then (stream, Inr sent)
      else if buf \<le> 0 then (stream, Inl SourceStuck)
      else
        let readSize = (if remaining < buf then remaining else buf);
            (data, err) = ReadAt content offset readSize;
            n = int (length data);
            (stream, written) = (if 0 < n then Sink_Write stream data else (stream, True)) in
        if \<not> written then (stream, Inl (ChunkWrite index))
        else if err then
          (if remaining - n = 0 then (stream, Inr (sent + n)) else (stream, Inl (SourceRead index)))
        else send_loop content buf index stream (offset + n) (remaining - n) (sent + n))"
  by pat_completeness auto
termination
  by (relation "measure (\<lambda>(_, _, _, _, _, remaining, _). nat remaining)")
    (auto simp: ReadAt_def Let_def split: if_splits)

declare send_loop.simps [simp del]

fun send_chunks ::
  "string \<Rightarrow> int \<Rightarrow> Sink \<Rightarrow> int \<Rightarrow> ChunkManifest list \<Rightarrow> Sink \<times> (send_error + int)" where
  "send_chunks content buf stream sent [] = (stream, Inr sent)"
| "send_chunks content buf stream sent (chunk # chunks) =
     (case send_loop content buf (cm_Index chunk) stream (cm_Offset chunk) (cm_Size chunk) sent of
        (stream, Inl e) \<Rightarrow> (stream, Inl e)
      | (stream, Inr sent) \<Rightarrow> send_chunks content buf stream sent chunks)"

definition SendFile ::
  "(string \<Rightarrow> string) \<Rightarrow> (FileManifest \<Rightarrow> string option) \<Rightarrow> Sink \<Rightarrow> Source \<Rightarrow> string \<Rightarrow> int \<Rightarrow>
   Sink \<times> (send_error + FileManifest \<times> int)" where
  "SendFile sha marshal stream src relativePath chunkSize =
     (case BuildFileManifest sha src relativePath chunkSize of
        Inl e \<Rightarrow> (stream, Inl e)
      | Inr manifest \<Rightarrow>
          (case writeManifest marshal stream manifest of
             (stream, Inl e) \<Rightarrow> (stream, Inl e)
           | (stream, Inr _) \<Rightarrow>
               (case src_sent src of
                  None \<Rightarrow> (stream, Inl SourceOpen)
                | Some content \<Rightarrow>
                    (case send_chunks content (buffer_size chunkSize) stream 0 (fm_Chunks manifest) of
                       (stream, Inl e) \<Rightarrow> (stream, Inl e)
                     | (stream, Inr sent) \<Rightarrow> (stream, Inr (manifest, sent))))))"

section \<open>src/internal/transfer/receive\_writer.go\<close>

datatype receive_error =
  ExpectedSizeNegative int | UnsupportedHash string | ExpectedHashBad hash_error
| ReceivePath path_error | PartialOpen | WriterClosed | PartialWrite
| SizeMismatch int int | HashMismatch string string | PartialFlush | PartialClose
| DestinationCheck | DestinationExists string | HistoryPath | HistoryNormalize path_error
| HistoryDirectory path_error | PreserveFailed | CommitFailed
| HeaderLengthRead | HeaderSize nat | HeaderRead | HeaderParse | HeaderHash string
| HeaderChunkSize | ChunkRead int | ChunkStore int receive_error | ChunkHash int string string
| ReceiveStuck

record ReceiveSpec =
  rs_ShareRoot :: string
  rs_RelativePath :: string
  rs_ExpectedSize :: int
  rs_ExpectedHash :: string
  rs_HashAlgorithm :: string
  rs_PartialSuffix :: string
  rs_ReplaceExisting :: bool
  rs_HistoryDirName :: string

definition DefaultPartialSuffix :: string where
  "DefaultPartialSuffix = ''.sync-part''"

definition DefaultHistoryDir :: string where
  "DefaultHistoryDir = ''.sync-history''"

record ReceiveWriter =
  rw_destinationPath :: string
  rw_partialPath :: string
  rw_expectedSize :: int
  rw_expectedHash :: string
  rw_shareRoot :: string
  rw_replaceExisting :: bool
  rw_historyDirName :: string
  rw_file :: string
  rw_hasher :: string
  rw_written :: int
  rw_closed :: bool
  rw_committed :: bool

definition NewReceiveWriter :: "FS \<Rightarrow> ReceiveSpec \<Rightarrow> FS \<times> (receive_error + ReceiveWriter)" where
  "NewReceiveWriter fs spec =
     (let algorithm = (if rs_HashAlgorithm spec = [] then HashSHA256 else rs_HashAlgorithm spec);
          suffix = (if rs_PartialSuffix spec = [] then DefaultPartialSuffix else rs_PartialSuffix spec);
          historyDir = (if rs_HistoryDirName spec = [] then DefaultHistoryDir else rs_HistoryDirName spec) in
      if rs_ExpectedSize spec < 0 then (fs, Inl (ExpectedSizeNegative (rs_ExpectedSize spec)))
      else if \<not> is_sha256_name algorithm then (fs, Inl (UnsupportedHash algorithm))
      else case normalizeHexHash (rs_ExpectedHash spec) of
        Inl e \<Rightarrow> (fs, Inl (ExpectedHashBad e))
      | Inr expectedHash \<Rightarrow>
          (case EnsureParentDirectoriesInsideShare fs (rs_ShareRoot spec) (rs_RelativePath spec) of
             (fs, Inl e) \<Rightarrow> (fs, Inl (ReceivePath e))
           | (fs, Inr destinationPath) \<Rightarrow>
               (case OpenTrunc fs (destinationPath @ suffix) of
                  (fs, Inl _) \<Rightarrow> (fs, Inl PartialOpen)
                | (fs, Inr file) \<Rightarrow>
                    (fs, Inr
                      \<lparr> rw_destinationPath = destinationPath, rw_partialPath = destinationPath @ suffix,
                        rw_expectedSize = rs_ExpectedSize spec, rw_expectedHash = expectedHash,
                        rw_shareRoot = rs_ShareRoot spec,
                        rw_replaceExisting = rs_ReplaceExisting spec, rw_historyDirName = historyDir,
                        rw_file = file, rw_hasher = [], rw_written = 0,
                        rw_closed = False, rw_committed = False \<rparr>))))"

definition ReceiveWriter_Write ::
  "FS \<Rightarrow> ReceiveWriter \<Rightarrow> string \<Rightarrow> FS \<times> ReceiveWriter \<times> (receive_error + nat)" where
  "ReceiveWriter_Write fs writer chunk =
     (if rw_closed writer then (fs, writer, Inl WriterClosed)
      else case WriteAt_end fs (rw_file writer) chunk of
        (fs, n, err) \<Rightarrow>
          (fs, writer\<lparr> rw_written := rw_written writer + int n,
                       rw_hasher := rw_hasher writer @ take n chunk \<rparr>,
           case err of Inl _ \<Rightarrow> Inl PartialWrite | Inr _ \<Rightarrow> Inr n))"

definition historyRelativePath :: "FS \<Rightarrow> ReceiveWriter \<Rightarrow> receive_error + string" where
  "historyRelativePath fs writer =
     (case Rel (Clean (rw_shareRoot writer)) (rw_destinationPath writer) of
        None \<Rightarrow> Inl HistoryPath
      | Some relative \<Rightarrow>
          (case NormalizeRelativePath relative of
             Inl e \<Rightarrow> Inl (HistoryNormalize e)
           | Inr normalized \<Rightarrow>
               Inr (Join2 (rw_historyDirName writer) (normalized @ ''.'' @ FormatStamp (fs_now fs)))))"

definition prepareDestinationForCommit :: "FS \<Rightarrow> ReceiveWriter \<Rightarrow> FS \<times> (receive_error + unit)" where
  "prepareDestinationForCommit fs writer =
     (case Stat fs (rw_destinationPath writer) of
        Inl ErrNotExist \<Rightarrow> (fs, ok)
      | Inl _ \<Rightarrow> (fs, Inl DestinationCheck)
      | Inr _ \<Rightarrow>
          if \<not> rw_replaceExisting writer then (fs, Inl (DestinationExists (rw_destinationPath writer)))
          else case historyRelativePath fs writer of
            Inl e \<Rightarrow> (fs, Inl e)
          | Inr historyRelative \<Rightarrow>
              (case EnsureParentDirectoriesInsideShare fs (rw_shareRoot writer) historyRelative of
                 (fs, Inl e) \<Rightarrow> (fs, Inl (HistoryDirectory e))
               | (fs, Inr historyPath) \<Rightarrow>
                   (case Rename fs (rw_destinationPath writer) historyPath of
                      (fs, Inl _) \<Rightarrow> (fs, Inl PreserveFailed)
                    | (fs, Inr _) \<Rightarrow> (fs, ok))))"

text \<open>\<open>Close\<close> and the closing of the file in \<open>Commit\<close> leave the file system as it is.\<close>

definition ReceiveWriter_Close :: "ReceiveWriter \<Rightarrow> ReceiveWriter" where
  "ReceiveWriter_Close writer = writer\<lparr>rw_closed := True\<rparr>"

definition Commit ::
  "(string \<Rightarrow> string) \<Rightarrow> FS \<Rightarrow> ReceiveWriter \<Rightarrow> FS \<times> ReceiveWriter \<times> (receive_error + string)" where
  "Commit sha fs writer =
     (let actualHash = hex_encode (sha (rw_hasher writer));
          closed = ReceiveWriter_Close writer in
      if rw_committed writer then (fs, writer, Inr (rw_destinationPath writer))
      else if rw_closed writer then (fs, writer, Inl WriterClosed)
      else if rw_written writer \<noteq> rw_expectedSize writer
      then (fs, closed, Inl (SizeMismatch (rw_written writer) (rw_expectedSize writer)))
      else if actualHash \<noteq> rw_expectedHash writer
      then (fs, closed, Inl (HashMismatch actualHash (rw_expectedHash writer)))
      else if fs_sync_fails fs (rw_file writer) then (fs, closed, Inl PartialFlush)
      else if fs_close_fails fs (rw_file writer) then (fs, closed, Inl PartialClose)
      else case prepareDestinationForCommit fs writer of
        (fs, Inl e) \<Rightarrow> (fs, closed, Inl e)
      | (fs, Inr _) \<Rightarrow>
          (case Rename fs (rw_partialPath writer) (rw_destinationPath writer) of
             (fs, Inl _) \<Rightarrow> (fs, closed, Inl CommitFailed)
           | (fs, Inr _) \<Rightarrow> (fs, closed\<lparr>rw_committed := True\<rparr>, Inr (rw_destinationPath writer))))"

section \<open>src/internal/transfer/protocol.go: receiving\<close>

definition readManifest ::
  "(string \<Rightarrow> FileManifest option) \<Rightarrow> string \<Rightarrow> string \<times> (receive_error + FileManifest)" where
  "readManifest unmarshal stream =
     (if length stream < 4 then ([], Inl HeaderLengthRead)
      else
        let size = of_be32 (take 4 stream); stream = drop 4 stream in
        if size = 0 \<or> MaxManifestHeaderBytes < size then (stream, Inl (HeaderSize size))
        else if length stream < size then ([], Inl HeaderRead)
        else
          (drop size stream,
           case unmarshal (take size stream) of
             None \<Rightarrow> Inl HeaderParse
           | Some manifest \<Rightarrow>
               if fm_HashAlgorithm manifest \<noteq> HashSHA256 then Inl (HeaderHash (fm_HashAlgorithm manifest))
               else if fm_ChunkSize manifest \<le> 0 then Inl HeaderChunkSize
               else Inr manifest))"

function receive_loop ::
  "FS \<Rightarrow> ReceiveWriter \<Rightarrow> string \<Rightarrow> int \<Rightarrow> int \<Rightarrow> int \<Rightarrow> string \<Rightarrow>
   FS \<times> ReceiveWriter \<times> string \<times> (receive_error + string)" where
  "receive_loop fs writer stream buf index remaining hasher =
     (if remaining \<le> 0 then (fs, writer, stream, Inr hasher)
      else if buf \<le> 0 then (fs, writer, stream, Inl ReceiveStuck)
      else
        let readSize = nat (if remaining < buf then remaining else buf) in
        if length stream < readSize then (fs, writer, [], Inl (ChunkRead index))
        else
          let data = take readSize stream; stream = drop readSize stream in
          case ReceiveWriter_Write fs writer data of
            (fs, writer, Inl e) \<Rightarrow> (fs, writer, stream, Inl (ChunkStore index e))
          | (fs, writer, Inr _) \<Rightarrow>
              receive_loop fs writer stream buf index (remaining - int readSize) (hasher @ data))"
  by pat_completeness auto
termination
  by (relation "measure (\<lambda>(_, _, _, _, _, remaining, _). nat remaining)")
    (auto simp: Let_def split: if_splits)

declare receive_loop.simps [simp del]

definition receiveChunk ::
  "(string \<Rightarrow> string) \<Rightarrow> FS \<Rightarrow> ReceiveWriter \<Rightarrow> string \<Rightarrow> int \<Rightarrow> ChunkManifest \<Rightarrow>
   FS \<times> ReceiveWriter \<times> string \<times> (receive_error + unit)" where
  "receiveChunk sha fs writer stream buf chunk =
     (case receive_loop fs writer stream buf (cm_Index chunk) (cm_Size chunk) [] of
        (fs, writer, stream, Inl e) \<Rightarrow> (fs, writer, stream, Inl e)
      | (fs, writer, stream, Inr hasher) \<Rightarrow>
          (let actualHash = hex_encode (sha hasher) in
           (fs, writer, stream,
            if actualHash \<noteq> cm_Hash chunk then Inl (ChunkHash (cm_Index chunk) actualHash (cm_Hash chunk))
            else ok)))"

fun receive_chunks ::
  "(string \<Rightarrow> string) \<Rightarrow> FS \<Rightarrow> ReceiveWriter \<Rightarrow> string \<Rightarrow> int \<Rightarrow> int \<Rightarrow> ChunkManifest list \<Rightarrow>
   FS \<times> ReceiveWriter \<times> (receive_error + int)" where
  "receive_chunks sha fs writer stream buf received [] = (fs, writer, Inr received)"
| "receive_chunks sha fs writer stream buf received (chunk # chunks) =
     (case receiveChunk sha fs writer stream buf chunk of
        (fs, writer, stream, Inl e) \<Rightarrow> (fs, writer, Inl e)
      | (fs, writer, stream, Inr _) \<Rightarrow>
          receive_chunks sha fs writer stream buf (wrap64 (received + cm_Size chunk)) chunks)"

record ReceiveResult =
  rr_Manifest :: FileManifest
  rr_DestinationPath :: string
  rr_BytesReceived :: int

definition receive_spec :: "FileManifest \<Rightarrow> string \<Rightarrow> ReceiveSpec" where
  "receive_spec manifest shareRoot =
     \<lparr> rs_ShareRoot = shareRoot, rs_RelativePath = fm_RelativePath manifest,
       rs_ExpectedSize = fm_Size manifest, rs_ExpectedHash = fm_ContentHash manifest,
       rs_HashAlgorithm = fm_HashAlgorithm manifest, rs_PartialSuffix = [],
       rs_ReplaceExisting = False, rs_HistoryDirName = [] \<rparr>"

definition ReceiveFile ::
  "(string \<Rightarrow> string) \<Rightarrow> (string \<Rightarrow> FileManifest option) \<Rightarrow> FS \<Rightarrow> string \<Rightarrow> string \<Rightarrow>
   FS \<times> (receive_error + ReceiveResult)" where
  "ReceiveFile sha unmarshal fs stream shareRoot =
     (case readManifest unmarshal stream of
        (stream, Inl e) \<Rightarrow> (fs, Inl e)
      | (stream, Inr manifest) \<Rightarrow>
          (case NewReceiveWriter fs (receive_spec manifest shareRoot) of
             (fs, Inl e) \<Rightarrow> (fs, Inl e)
           | (fs, Inr writer) \<Rightarrow>
               (case receive_chunks sha fs writer stream (buffer_size (fm_ChunkSize manifest)) 0
                       (fm_Chunks manifest) of
                  (fs, writer, Inl e) \<Rightarrow> (fs, Inl e)
                | (fs, writer, Inr received) \<Rightarrow>
                    (case Commit sha fs writer of
                       (fs, writer, Inl e) \<Rightarrow> (fs, Inl e)
                     | (fs, writer, Inr destinationPath) \<Rightarrow>
                         (fs, Inr \<lparr> rr_Manifest = manifest, rr_DestinationPath = destinationPath,
                                    rr_BytesReceived = received \<rparr>)))))"

section \<open>The reading loops\<close>

definition slice :: "string \<Rightarrow> int \<Rightarrow> int \<Rightarrow> string" where
  "slice content offset n = take (nat n) (drop (nat offset) content)"

lemma slice_add:
  "0 \<le> off \<Longrightarrow> 0 \<le> a \<Longrightarrow> 0 \<le> b \<Longrightarrow>
   slice content off (a + b) = slice content off a @ slice content (off + a) b"
  by (simp add: slice_def nat_add_distrib take_add add.commute)

lemma ReadAt_nonneg: "0 \<le> off \<Longrightarrow> ReadAt content off n = (slice content off n, int (length (slice content off n)) < n)"
  by (simp add: ReadAt_def slice_def)

lemma ReadAt_negative: "off < 0 \<Longrightarrow> ReadAt content off n = ([], True)"
  by (simp add: ReadAt_def)

lemma length_slice: "0 \<le> n \<Longrightarrow> int (length (slice content off n)) \<le> n"
  by (simp add: slice_def)

text \<open>
  One round reads a piece of the slice: either the piece is short, and then so is the slice, or it is
  full and the slice goes on behind it.
\<close>

lemma slice_round:
  assumes "0 \<le> offset" "0 < r" "r \<le> remaining"
  shows "int (length (slice content offset r)) < r \<Longrightarrow>
      slice content offset remaining = slice content offset r \<and>
      int (length (slice content offset remaining)) < remaining"
    and "\<not> int (length (slice content offset r)) < r \<Longrightarrow>
      int (length (slice content offset r)) = r \<and>
      slice content offset remaining =
        slice content offset r @ slice content (offset + r) (remaining - r)"
proof -
  have split: "slice content offset remaining =
      slice content offset r @ slice content (offset + r) (remaining - r)"
    using slice_add [of offset r "remaining - r" content] assms by simp
  {
    assume short: "int (length (slice content offset r)) < r"
    then have "slice content (offset + r) (remaining - r) = []"
      using assms by (auto simp: slice_def nat_add_distrib)
    with split short assms show "slice content offset remaining = slice content offset r \<and>
      int (length (slice content offset remaining)) < remaining" by simp
  }
  assume "\<not> int (length (slice content offset r)) < r"
  with length_slice [of r content offset] assms split
  show "int (length (slice content offset r)) = r \<and> slice content offset remaining =
        slice content offset r @ slice content (offset + r) (remaining - r)" by simp
qed

text \<open>A loop that hashes a chunk succeeds exactly when the bytes of the chunk are there.\<close>

lemma hash_loop_result:
  assumes "0 < buf"
  shows "0 \<le> offset \<Longrightarrow>
   hash_loop content buf index offset remaining ch wh =
     (if int (length (slice content offset remaining)) < remaining then Inl (SourceRead index)
      else Inr (ch @ slice content offset remaining, wh @ slice content offset remaining))"
proof (induction "nat remaining" arbitrary: offset remaining ch wh rule: less_induct)
  case less
  show ?case
  proof (cases "remaining \<le> 0")
    case False
    define r where "r = (if remaining < buf then remaining else buf)"
    have r: "0 < r" "r \<le> remaining" using False assms by (auto simp: r_def)
    let ?data = "slice content offset r"
    have step: "hash_loop content buf index offset remaining ch wh =
      (if int (length ?data) < r then
         (if remaining - int (length ?data) = 0 then Inr (ch @ ?data, wh @ ?data)
          else Inl (SourceRead index))
       else hash_loop content buf index (offset + int (length ?data))
              (remaining - int (length ?data)) (ch @ ?data) (wh @ ?data))"
      using False assms less.prems
      by (subst hash_loop.simps) (simp add: r_def [symmetric] ReadAt_nonneg Let_def)
    note round = slice_round [OF less.prems r, of content]
    show ?thesis
    proof (cases "int (length ?data) < r")
      case True
      with step round r show ?thesis by auto
    next
      case False
      with round(2) have len: "int (length ?data) = r" by simp
      have "nat (remaining - r) < nat remaining" "0 \<le> offset + r" using r less.prems by auto
      from less.hyps [OF this] False round(2) len show ?thesis by (auto simp: step)
    qed
  qed (simp add: hash_loop.simps slice_def)
qed

lemma Sink_Write_ok:
  "Sink_Write sink data = (sink', True) \<Longrightarrow>
   snk_bytes sink' = snk_bytes sink @ data \<and> snk_limit sink' = snk_limit sink"
  by (auto simp: Sink_Write_def Let_def split: option.splits)

lemma Sink_Write_unlimited:
  "snk_limit sink = None \<Longrightarrow> Sink_Write sink data = (sink\<lparr>snk_bytes := snk_bytes sink @ data\<rparr>, True)"
  by (simp add: Sink_Write_def)

lemma send_loop_result:
  assumes "0 < buf"
  shows "0 \<le> offset \<Longrightarrow>
   send_loop content buf index stream offset remaining sent = (stream', Inr sent') \<Longrightarrow>
   snk_bytes stream' = snk_bytes stream @ slice content offset remaining \<and>
   snk_limit stream' = snk_limit stream \<and>
   sent' = sent + int (length (slice content offset remaining)) \<and>
   remaining \<le> int (length (slice content offset remaining))"
proof (induction "nat remaining" arbitrary: offset remaining stream sent rule: less_induct)
  case less
  show ?case
  proof (cases "remaining \<le> 0")
    case False
    define r where "r = (if remaining < buf then remaining else buf)"
    have r: "0 < r" "r \<le> remaining" using False assms by (auto simp: r_def)
    let ?data = "slice content offset r"
    obtain stream1 written where w:
      "(if 0 < int (length ?data) then Sink_Write stream ?data else (stream, True)) = (stream1, written)"
      by (meson surj_pair)
    have step: "send_loop content buf index stream offset remaining sent =
      (if \<not> written then (stream1, Inl (ChunkWrite index))
       else if int (length ?data) < r then
         (if remaining - int (length ?data) = 0 then (stream1, Inr (sent + int (length ?data)))
          else (stream1, Inl (SourceRead index)))
       else send_loop content buf index stream1 (offset + int (length ?data))
              (remaining - int (length ?data)) (sent + int (length ?data)))"
      using False assms less.prems(1) w
      by (subst send_loop.simps) (simp add: r_def [symmetric] ReadAt_nonneg Let_def)
    note round = slice_round [OF less.prems(1) r, of content]
    from less.prems(2) step have written: "written" by (auto split: if_splits)
    with w have s1: "snk_bytes stream1 = snk_bytes stream @ ?data" "snk_limit stream1 = snk_limit stream"
      by (auto split: if_splits dest: Sink_Write_ok)
    have full: "\<not> int (length ?data) < r"
      using less.prems(2) step written r by (auto split: if_splits)
    with round(2) have len: "int (length ?data) = r" by simp
    have rest: "send_loop content buf index stream1 (offset + r) (remaining - r) (sent + r) =
      (stream', Inr sent')" using less.prems(2) step written full len by simp
    have "nat (remaining - r) < nat remaining" "0 \<le> offset + r" using r less.prems(1) by auto
    from less.hyps [OF this rest] full round(2) len s1 show ?thesis by simp
  qed (use less.prems in \<open>simp add: send_loop.simps slice_def\<close>)
qed

lemma chunk_bytes_slice: "chunk_bytes content c = slice content (ch_Offset c) (ch_Size c)"
  by (simp add: chunk_bytes_def slice_def)

definition manifest_of :: "(string \<Rightarrow> string) \<Rightarrow> string \<Rightarrow> Chunk \<Rightarrow> ChunkManifest" where
  "manifest_of sha content c =
     \<lparr> cm_Index = ch_Index c, cm_Offset = ch_Offset c, cm_Size = ch_Size c,
       cm_Hash = hex_encode (sha (chunk_bytes content c)) \<rparr>"

lemma manifest_of_simps [simp]:
  "cm_Index (manifest_of sha content c) = ch_Index c"
  "cm_Offset (manifest_of sha content c) = ch_Offset c"
  "cm_Size (manifest_of sha content c) = ch_Size c"
  "cm_Hash (manifest_of sha content c) = hex_encode (sha (chunk_bytes content c))"
  by (simp_all add: manifest_of_def)

lemma manifest_chunks_result:
  assumes "0 < buf"
  shows "\<forall>c\<in>set chunks. 0 \<le> ch_Offset c \<Longrightarrow>
   manifest_chunks sha content buf wh chunks = Inr (ms, wh') \<longleftrightarrow>
     ms = map (manifest_of sha content) chunks \<and>
     wh' = wh @ concat (map (chunk_bytes content) chunks) \<and>
     (\<forall>c\<in>set chunks. ch_Size c \<le> int (length (chunk_bytes content c)))"
proof (induction chunks arbitrary: wh ms wh')
  case (Cons c cs)
  have h: "hashChunk sha content wh buf c =
    (if int (length (chunk_bytes content c)) < ch_Size c then Inl (SourceRead (ch_Index c))
     else Inr (hex_encode (sha (chunk_bytes content c)), wh @ chunk_bytes content c))"
    using Cons.prems assms by (simp add: hashChunk_def hash_loop_result chunk_bytes_slice)
  show ?case
    using Cons.prems Cons.IH [of "wh @ chunk_bytes content c"]
    by (auto simp: h rbind_eq_Inr manifest_of_def not_less)
qed auto

lemma contiguous_offsets:
  "contiguous i off chunks \<Longrightarrow> 0 \<le> off \<Longrightarrow> \<forall>c\<in>set chunks. 0 \<le> ch_Size c \<Longrightarrow>
   \<forall>c\<in>set chunks. 0 \<le> ch_Offset c"
proof (induction i off chunks rule: contiguous.induct)
  case (2 i off c cs)
  then have "0 \<le> off + ch_Size c" by simp
  with 2 show ?case by simp
qed simp

lemma buffer_size_pos: "0 < n \<Longrightarrow> 0 < buffer_size n"
  by (simp add: buffer_size_def)

lemma BuildFileManifest_Inr:
  assumes "BuildFileManifest sha src rel chunkSize = Inr m"
    and "\<And>info. src_initial src = Some info \<Longrightarrow> fi_Size info + chunkSize \<le> 2 ^ 63"
  obtains initial final content chunks where
    "src_initial src = Some initial" "src_hashed src = Some content" "src_final src = Some final"
    "0 < chunkSize" "0 \<le> fi_Size initial" "fi_Regular initial" "\<not> sourceChanged initial final"
    "PlanFixedChunks (fi_Size initial) chunkSize = Inr chunks"
    "fi_Size initial \<le> int (length content)"
    "m = \<lparr> fm_RelativePath = rel, fm_Size = fi_Size initial,
           fm_ModifiedTime = fi_ModTime initial, fm_HashAlgorithm = HashSHA256,
           fm_ContentHash = hex_encode (sha (take (nat (fi_Size initial)) content)),
           fm_ChunkSize = chunkSize, fm_Chunks = map (manifest_of sha content) chunks \<rparr>"
proof -
  have pos: "0 < chunkSize" using assms(1) by (auto simp: BuildFileManifest_def split: if_splits)
  obtain initial where initial: "src_initial src = Some initial" and reg: "fi_Regular initial"
    using assms(1) pos by (auto simp: BuildFileManifest_def split: option.splits if_splits)
  obtain content where content: "src_hashed src = Some content"
    using assms(1) pos initial reg by (auto simp: BuildFileManifest_def split: option.splits)
  obtain chunks where chunks: "PlanFixedChunks (fi_Size initial) chunkSize = Inr chunks"
    using assms(1) pos initial reg content by (auto simp: BuildFileManifest_def split: sum.splits)
  obtain ms wh final where ms: "manifest_chunks sha content (buffer_size chunkSize) [] chunks = Inr (ms, wh)"
    and final: "src_final src = Some final" "\<not> sourceChanged initial final"
    and m: "m = \<lparr> fm_RelativePath = rel, fm_Size = fi_Size initial,
           fm_ModifiedTime = fi_ModTime initial, fm_HashAlgorithm = HashSHA256,
           fm_ContentHash = hex_encode (sha wh), fm_ChunkSize = chunkSize, fm_Chunks = ms \<rparr>"
    using assms(1) pos initial reg content chunks
    by (auto simp: BuildFileManifest_def rbind_eq_Inr split: option.splits if_splits)
  have size: "0 \<le> fi_Size initial" using chunks by (auto simp: PlanFixedChunks_def split: if_splits)
  note parts = PlanFixedChunks_parts [OF size pos assms(2) [OF initial] chunks]
  have off: "\<forall>c\<in>set chunks. 0 \<le> ch_Offset c"
    using contiguous_offsets [OF parts(1)] parts(3) by blast
  from ms manifest_chunks_result [OF buffer_size_pos [OF pos] off, of sha content "[]" ms wh]
  have msw: "ms = map (manifest_of sha content) chunks" "wh = concat (map (chunk_bytes content) chunks)"
    and full: "\<forall>c\<in>set chunks. ch_Size c \<le> int (length (chunk_bytes content c))" by auto
  have whole: "wh = take (nat (fi_Size initial)) content"
    using contiguous_bytes [of 0 0 chunks content] parts msw by simp
  have "int (length wh) = fi_Size initial"
  proof -
    have "\<forall>c\<in>set chunks. int (length (chunk_bytes content c)) = ch_Size c"
      using full parts(3) by (force simp: chunk_bytes_def)
    then have "int (length wh) = sum_list (map ch_Size chunks)"
      unfolding msw(2) by (induction chunks) auto
    with parts(2) show ?thesis by simp
  qed
  with whole have "fi_Size initial \<le> int (length content)" by auto
  with that initial content final pos size reg chunks m whole msw show thesis by auto
qed

section \<open>The staged file\<close>

text \<open>The partial file holds the bytes that went into the digest, and they have been counted.\<close>

definition staged :: "FS \<Rightarrow> ReceiveWriter \<Rightarrow> bool" where
  "staged fs w \<longleftrightarrow>
     (\<exists>t. fs_nodes fs (rw_file w) = Some (FFile (rw_hasher w) t)) \<and>
     rw_written w = int (length (rw_hasher w))"

text \<open>What a step of the receiver keeps: everything but the open file and the progress.\<close>

definition wr_step :: "FS \<Rightarrow> ReceiveWriter \<Rightarrow> FS \<Rightarrow> ReceiveWriter \<Rightarrow> bool" where
  "wr_step fs w fs' w' \<longleftrightarrow>
     same_env fs fs' \<and> (\<forall>q. q \<noteq> rw_file w \<longrightarrow> fs_nodes fs' q = fs_nodes fs q) \<and>
     (staged fs w \<longrightarrow> staged fs' w') \<and>
     w' = w\<lparr> rw_written := rw_written w', rw_hasher := rw_hasher w' \<rparr>"

lemma wr_step_refl [simp]: "wr_step fs w fs w"
  by (simp add: wr_step_def)

lemma wr_step_fields:
  assumes "wr_step fs w fs' w'"
  shows "rw_file w' = rw_file w" "rw_closed w' = rw_closed w" "rw_committed w' = rw_committed w"
    "rw_destinationPath w' = rw_destinationPath w" "rw_partialPath w' = rw_partialPath w"
    "rw_expectedSize w' = rw_expectedSize w" "rw_expectedHash w' = rw_expectedHash w"
    "rw_replaceExisting w' = rw_replaceExisting w" "rw_shareRoot w' = rw_shareRoot w"
proof -
  have e: "w' = w\<lparr> rw_written := rw_written w', rw_hasher := rw_hasher w' \<rparr>"
    using assms by (simp add: wr_step_def)
  show "rw_file w' = rw_file w" "rw_closed w' = rw_closed w" "rw_committed w' = rw_committed w"
    "rw_destinationPath w' = rw_destinationPath w" "rw_partialPath w' = rw_partialPath w"
    "rw_expectedSize w' = rw_expectedSize w" "rw_expectedHash w' = rw_expectedHash w"
    "rw_replaceExisting w' = rw_replaceExisting w" "rw_shareRoot w' = rw_shareRoot w"
    by (subst e, simp)+
qed

lemma wr_step_trans:
  assumes "wr_step a v b w" and "wr_step b w c x"
  shows "wr_step a v c x"
proof -
  have "x = v\<lparr> rw_written := rw_written x, rw_hasher := rw_hasher x \<rparr>"
    using assms by (cases v; cases w; cases x) (simp add: wr_step_def)
  then show ?thesis using assms wr_step_fields(1) [OF assms(1)]
    by (auto simp: wr_step_def same_env_def)
qed

lemma Write_step:
  assumes "ReceiveWriter_Write fs w chunk = (fs', w', res)"
  shows "wr_step fs w fs' w'"
    and "res = Inr n \<Longrightarrow> rw_hasher w' = rw_hasher w @ chunk"
  using assms
  by (auto simp: ReceiveWriter_Write_def WriteAt_end_def wr_step_def staged_def same_env_def Let_def
      split: if_splits option.splits fnode.splits sum.splits prod.splits)

lemma receive_loop_step:
  "receive_loop fs w stream buf index remaining hasher = (fs', w', stream', res) \<Longrightarrow>
   wr_step fs w fs' w' \<and>
   (\<forall>h. res = Inr h \<longrightarrow>
      (\<exists>data. h = hasher @ data \<and> rw_hasher w' = rw_hasher w @ data \<and> stream = data @ stream' \<and>
         int (length data) = max 0 remaining))"
proof (induction "nat remaining" arbitrary: fs w stream remaining hasher rule: less_induct)
  case less
  show ?case
  proof (cases "remaining \<le> 0 \<or> buf \<le> 0")
    case True
    with less.prems show ?thesis by (auto simp: receive_loop.simps split: if_splits)
  next
    case False
    define r where "r = nat (if remaining < buf then remaining else buf)"
    have r: "0 < r" "int r \<le> remaining" using False by (auto simp: r_def)
    obtain fs1 w1 res1 where wr: "ReceiveWriter_Write fs w (take r stream) = (fs1, w1, res1)"
      by (metis prod_cases3)
    have step: "receive_loop fs w stream buf index remaining hasher =
      (if length stream < r then (fs, w, [], Inl (ChunkRead index))
       else case res1 of
         Inl e \<Rightarrow> (fs1, w1, drop r stream, Inl (ChunkStore index e))
       | Inr _ \<Rightarrow> receive_loop fs1 w1 (drop r stream) buf index (remaining - int r)
           (hasher @ take r stream))"
      using False wr by (subst receive_loop.simps) (simp add: r_def [symmetric] Let_def split: sum.splits)
    show ?thesis
    proof (cases "length stream < r \<or> \<not> is_ok res1")
      case True
      with less.prems step Write_step(1) [OF wr] show ?thesis
        by (auto simp: is_ok_def split: sum.splits if_splits)
    next
      case ok: False
      then obtain n where n: "res1 = Inr n" by (auto simp: is_ok_iff)
      have rest: "receive_loop fs1 w1 (drop r stream) buf index (remaining - int r)
          (hasher @ take r stream) = (fs', w', stream', res)"
        using less.prems step ok n by simp
      have lt: "nat (remaining - int r) < nat remaining" using r by simp
      note IH = less.hyps [OF lt rest]
      have "wr_step fs w fs' w'" using IH Write_step(1) [OF wr] by (blast intro: wr_step_trans)
      moreover have "\<exists>data. h = hasher @ data \<and> rw_hasher w' = rw_hasher w @ data \<and>
          stream = data @ stream' \<and> int (length data) = max 0 remaining" if "res = Inr h" for h
      proof -
        obtain d where d: "h = (hasher @ take r stream) @ d" "rw_hasher w' = rw_hasher w1 @ d"
          "drop r stream = d @ stream'" "int (length d) = max 0 (remaining - int r)"
          using IH \<open>res = Inr h\<close> by blast
        have "stream = (take r stream @ d) @ stream'"
          using d(3) by (metis append.assoc append_take_drop_id)
        moreover have "rw_hasher w1 = rw_hasher w @ take r stream"
          by (rule Write_step(2) [OF wr n])
        moreover have "int (length (take r stream @ d)) = max 0 remaining"
          using d(4) ok r by auto
        ultimately show ?thesis using d by (intro exI [of _ "take r stream @ d"]) simp
      qed
      ultimately show ?thesis by blast
    qed
  qed
qed

lemma receive_chunks_step:
  "receive_chunks sha fs w stream buf received chunks = (fs', w', res) \<Longrightarrow> wr_step fs w fs' w'"
proof (induction chunks arbitrary: fs w stream received)
  case (Cons c cs)
  obtain fs1 w1 stream1 res1 where
    rc: "receive_loop fs w stream buf (cm_Index c) (cm_Size c) [] = (fs1, w1, stream1, res1)"
    by (metis prod_cases4)
  have s1: "wr_step fs w fs1 w1" using receive_loop_step [OF rc] by blast
  show ?case
  proof (cases "\<exists>h. res1 = Inr h \<and> hex_encode (sha h) = cm_Hash c")
    case True
    with Cons.prems rc have "receive_chunks sha fs1 w1 stream1 buf (wrap64 (received + cm_Size c)) cs =
      (fs', w', res)" by (auto simp: receiveChunk_def Let_def)
    from Cons.IH [OF this] s1 show ?thesis by (blast intro: wr_step_trans)
  next
    case False
    with Cons.prems rc s1 show ?thesis
      by (cases res1) (auto simp: receiveChunk_def Let_def)
  qed
qed simp

lemma NewReceiveWriter_effect:
  assumes "NewReceiveWriter fs spec = (fs', res)" and "rs_PartialSuffix spec = []"
    and nolink: "\<forall>q t. HasSuffix q DefaultPartialSuffix \<longrightarrow> fs_nodes fs q \<noteq> Some (FSymlink t)"
  shows "same_env fs fs' \<and>
    (\<forall>q. \<not> HasSuffix q DefaultPartialSuffix \<longrightarrow> fs_nodes fs' q = fs_nodes fs q \<or>
       fs_nodes fs q = None \<and> fs_nodes fs' q = Some FDir) \<and>
    (\<forall>w. res = Inr w \<longrightarrow> staged fs' w \<and> rw_hasher w = [] \<and> \<not> rw_closed w \<and> \<not> rw_committed w \<and>
       rw_partialPath w = rw_destinationPath w @ DefaultPartialSuffix \<and>
       rw_file w = rw_partialPath w \<and> rw_replaceExisting w = rs_ReplaceExisting spec \<and>
       rw_expectedSize w = rs_ExpectedSize spec \<and>
       normalizeHexHash (rs_ExpectedHash spec) = Inr (rw_expectedHash w) \<and>
       (\<forall>q node. q \<noteq> rw_partialPath w \<longrightarrow> fs_nodes fs q = Some node \<longrightarrow> fs_nodes fs' q = Some node) \<and>
       (\<exists>p. valid_segments p \<and>
          rw_destinationPath w = below (Clean (rs_ShareRoot spec)) (split_on (CHR ''/'') p)))"
proof -
  let ?E = "EnsureParentDirectoriesInsideShare fs (rs_ShareRoot spec) (rs_RelativePath spec)"
  obtain fs1 r1 where e: "?E = (fs1, r1)" by (meson surj_pair)
  note adds = ensure_adds [OF e]
  have frame1: "fs_nodes fs1 q = fs_nodes fs q \<or> fs_nodes fs q = None \<and> fs_nodes fs1 q = Some FDir" for q
    using adds(1) by (auto simp: only_adds_dirs_def)
  have suffix: "HasSuffix (d @ DefaultPartialSuffix) DefaultPartialSuffix" for d
    by (simp add: HasSuffix_def)
  have nolink1: "fs_nodes fs1 (d @ DefaultPartialSuffix) \<noteq> Some (FSymlink t)" for d t
    using frame1 [of "d @ DefaultPartialSuffix"] nolink suffix by auto
  consider (failed) e where "res = Inl e" "fs' = fs \<or> fs' = fs1"
    | (opened) d h where "r1 = Inr d" "normalizeHexHash (rs_ExpectedHash spec) = Inr h"
      "fs' = set_node (d @ DefaultPartialSuffix) (FFile [] (fs_now fs1)) fs1"
      "res = Inr
        \<lparr> rw_destinationPath = d, rw_partialPath = d @ DefaultPartialSuffix,
          rw_expectedSize = rs_ExpectedSize spec, rw_expectedHash = h,
          rw_shareRoot = rs_ShareRoot spec, rw_replaceExisting = rs_ReplaceExisting spec,
          rw_historyDirName = (if rs_HistoryDirName spec = [] then DefaultHistoryDir else rs_HistoryDirName spec),
          rw_file = d @ DefaultPartialSuffix, rw_hasher = [], rw_written = 0,
          rw_closed = False, rw_committed = False \<rparr>"
    using assms(1,2) e nolink1
    by (auto simp: NewReceiveWriter_def Let_def OpenTrunc_def follow_id
        split: if_splits sum.splits option.splits fnode.splits)
  then show ?thesis
  proof cases
    case failed
    then show ?thesis using adds(2) frame1 by auto
  next
    case opened
    have "same_env fs fs'" using adds(2) opened(3) by (simp add: same_env_def)
    moreover have "fs_nodes fs' q = fs_nodes fs q \<or> fs_nodes fs q = None \<and> fs_nodes fs' q = Some FDir"
      if "\<not> HasSuffix q DefaultPartialSuffix" for q
      using frame1 [of q] that suffix opened(3) by auto
    moreover have "fs_nodes fs' q = Some node"
      if "q \<noteq> d @ DefaultPartialSuffix" "fs_nodes fs q = Some node" for q node
      using frame1 [of q] that opened(3) by auto
    ultimately show ?thesis
      using opened ensure_Inr [OF e [unfolded opened(1)]] by (auto simp: staged_def)
  qed
qed

lemma Stat_missing:
  "Stat fs p = Inl ErrNotExist \<Longrightarrow> fs_nodes fs p = None \<or> (\<exists>t. fs_nodes fs p = Some (FSymlink t))"
  by (auto simp: Stat_def Lstat_def numeral_eq_Suc split: option.splits fnode.splits)

text \<open>
  A commit that keeps an existing destination either changes no node, or moves the partial file to
  a destination that was missing.
\<close>

lemma Commit_effect:
  assumes "Commit sha fs w = (fs', w', res)" and "staged fs w" and "\<not> rw_committed w"
    and "rw_file w = rw_partialPath w" "rw_partialPath w \<noteq> rw_destinationPath w" "\<not> rw_replaceExisting w"
  shows "(\<exists>e. res = Inl e) \<and> fs_nodes fs' = fs_nodes fs \<or>
    res = Inr (rw_destinationPath w) \<and> rw_written w = rw_expectedSize w \<and>
    hex_encode (sha (rw_hasher w)) = rw_expectedHash w \<and>
    Stat fs (rw_destinationPath w) = Inl ErrNotExist \<and>
    fs_nodes fs' = (fs_nodes fs)(rw_destinationPath w := fs_nodes fs (rw_partialPath w),
      rw_partialPath w := None)"
proof -
  obtain t where t: "fs_nodes fs (rw_partialPath w) = Some (FFile (rw_hasher w) t)"
    using assms by (auto simp: staged_def)
  have ren: "Rename fs (rw_partialPath w) (rw_destinationPath w) = (fs2, r2) \<Longrightarrow>
    (\<exists>e. r2 = Inl e) \<and> fs2 = fs \<or> r2 = ok \<and> fs_nodes fs2 =
      (fs_nodes fs)(rw_destinationPath w := fs_nodes fs (rw_partialPath w), rw_partialPath w := None)"
    for fs2 r2
    using assms t by (auto simp: Rename_def moved_def fun_eq_iff split: if_splits)
  obtain fs2 r2 where r: "Rename fs (rw_partialPath w) (rw_destinationPath w) = (fs2, r2)"
    by (meson surj_pair)
  show ?thesis
    using assms ren [OF r] r
    by (auto simp: Commit_def Let_def prepareDestinationForCommit_def
        split: if_splits sum.splits os_error.splits prod.splits)
qed

definition add_dirs_only :: "FS \<Rightarrow> FS \<Rightarrow> string \<Rightarrow> bool" where
  "add_dirs_only fs fs' q \<longleftrightarrow>
     fs_nodes fs' q = fs_nodes fs q \<or> fs_nodes fs q = None \<and> fs_nodes fs' q = Some FDir"

text \<open>The writer while chunks arrive: the bytes are staged, and the rest is as it was.\<close>

definition receiving :: "FS \<Rightarrow> FS \<Rightarrow> ReceiveSpec \<Rightarrow> ReceiveWriter \<Rightarrow> bool" where
  "receiving fs0 fs spec w \<longleftrightarrow>
     staged fs w \<and> \<not> rw_committed w \<and> rw_file w = rw_partialPath w \<and>
     rw_partialPath w = rw_destinationPath w @ DefaultPartialSuffix \<and>
     rw_replaceExisting w = rs_ReplaceExisting spec \<and> rw_expectedSize w = rs_ExpectedSize spec \<and>
     normalizeHexHash (rs_ExpectedHash spec) = Inr (rw_expectedHash w) \<and>
     (\<exists>p. valid_segments p \<and>
        rw_destinationPath w = below (Clean (rs_ShareRoot spec)) (split_on (CHR ''/'') p)) \<and>
     (\<forall>q. \<not> HasSuffix q DefaultPartialSuffix \<longrightarrow> add_dirs_only fs0 fs q) \<and>
     (\<forall>q node. q \<noteq> rw_partialPath w \<longrightarrow> fs_nodes fs0 q = Some node \<longrightarrow> fs_nodes fs q = Some node)"

lemma receiving_new:
  assumes "NewReceiveWriter fs spec = (fs1, Inr w)" "rs_PartialSuffix spec = []"
    and "\<forall>q t. HasSuffix q DefaultPartialSuffix \<longrightarrow> fs_nodes fs q \<noteq> Some (FSymlink t)"
  shows "receiving fs fs1 spec w"
  unfolding receiving_def add_dirs_only_def using NewReceiveWriter_effect [OF assms] by simp

lemma receiving_step:
  assumes "receiving fs0 fs spec w" and "wr_step fs w fs' w'"
  shows "receiving fs0 fs' spec w'"
proof -
  note fields = wr_step_fields [OF assms(2)]
  have same: "q \<noteq> rw_partialPath w \<Longrightarrow> fs_nodes fs' q = fs_nodes fs q" for q
    using assms by (simp add: receiving_def wr_step_def)
  have "HasSuffix (rw_partialPath w) DefaultPartialSuffix"
    using assms(1) by (simp add: receiving_def HasSuffix_def)
  then have "\<not> HasSuffix q DefaultPartialSuffix \<Longrightarrow> add_dirs_only fs0 fs' q" for q
    using assms(1) same [of q] by (metis receiving_def add_dirs_only_def)
  moreover have "staged fs' w'" using assms by (simp add: receiving_def wr_step_def)
  moreover have "q \<noteq> rw_partialPath w \<Longrightarrow> fs_nodes fs0 q = Some node \<Longrightarrow> fs_nodes fs' q = Some node"
    for q node using assms(1) same [of q] by (simp add: receiving_def)
  ultimately show ?thesis using assms(1) fields unfolding receiving_def by metis
qed

text \<open>What a received file is: below the root, of the size and the hash of its manifest, and new.\<close>

definition received_file :: "(string \<Rightarrow> string) \<Rightarrow> FS \<Rightarrow> FS \<Rightarrow> ReceiveSpec \<Rightarrow> string \<Rightarrow> bool" where
  "received_file sha fs fs' spec d \<longleftrightarrow>
     (\<exists>content t p. valid_segments p \<and>
        d = below (Clean (rs_ShareRoot spec)) (split_on (CHR ''/'') p) \<and>
        fs_nodes fs' d = Some (FFile content t) \<and> int (length content) = rs_ExpectedSize spec \<and>
        normalizeHexHash (rs_ExpectedHash spec) = Inr (hex_encode (sha content))) \<and>
     (fs_nodes fs d = None \<or> (\<exists>t. fs_nodes fs d = Some (FSymlink t))) \<and>
     (\<forall>q. \<not> HasSuffix q DefaultPartialSuffix \<longrightarrow> q \<noteq> d \<longrightarrow> add_dirs_only fs fs' q)"

lemma receiving_commit:
  assumes r: "receiving fs0 fs spec w" and "\<not> rs_ReplaceExisting spec"
    and "Commit sha fs w = (fs', w', res)"
  shows "case res of
      Inl e \<Rightarrow> fs_nodes fs' = fs_nodes fs | Inr d \<Rightarrow> received_file sha fs0 fs' spec d"
proof -
  let ?d = "rw_destinationPath w" and ?p = "rw_partialPath w"
  have ne: "?p \<noteq> ?d" and suffix: "HasSuffix ?p DefaultPartialSuffix"
    using r by (simp_all add: receiving_def DefaultPartialSuffix_def HasSuffix_def)
  from Commit_effect [OF assms(3)] r assms(2) ne
  consider e where "res = Inl e" "fs_nodes fs' = fs_nodes fs"
    | "res = Inr ?d" "rw_written w = rw_expectedSize w" "hex_encode (sha (rw_hasher w)) = rw_expectedHash w"
      "Stat fs ?d = Inl ErrNotExist" "fs_nodes fs' = (fs_nodes fs)(?d := fs_nodes fs ?p, ?p := None)"
    by (auto simp: receiving_def)
  then show ?thesis
  proof cases
    case 2
    obtain t where t: "fs_nodes fs ?p = Some (FFile (rw_hasher w) t)"
      "rw_written w = int (length (rw_hasher w))"
      using r by (auto simp: receiving_def staged_def)
    have "fs_nodes fs0 ?d = None \<or> (\<exists>t. fs_nodes fs0 ?d = Some (FSymlink t))"
    proof (cases "fs_nodes fs0 ?d")
      case (Some node)
      then have "fs_nodes fs ?d = Some node" using r ne by (simp add: receiving_def)
      with Stat_missing [OF 2(4)] Some show ?thesis by simp
    qed simp
    moreover have "add_dirs_only fs0 fs' q" if "\<not> HasSuffix q DefaultPartialSuffix" "q \<noteq> ?d" for q
    proof -
      have "fs_nodes fs' q = fs_nodes fs q" using that suffix 2(5) by auto
      then show ?thesis using r that(1) by (simp add: receiving_def add_dirs_only_def)
    qed
    moreover have "fs_nodes fs' ?d = Some (FFile (rw_hasher w) t)" using 2(5) t ne by simp
    ultimately show ?thesis
      using 2(1-3) t(2) r unfolding received_file_def receiving_def by auto
  qed simp
qed

lemma ReceiveFile_effect:
  assumes run: "ReceiveFile sha unmarshal fs stream root = (fs', res)"
    and nolink: "\<forall>q t. HasSuffix q DefaultPartialSuffix \<longrightarrow> fs_nodes fs q \<noteq> Some (FSymlink t)"
  shows "case res of
      Inl e \<Rightarrow> \<forall>q. \<not> HasSuffix q DefaultPartialSuffix \<longrightarrow> add_dirs_only fs fs' q
    | Inr r \<Rightarrow> received_file sha fs fs' (receive_spec (rr_Manifest r) root) (rr_DestinationPath r)"
proof -
  have spec: "rs_PartialSuffix (receive_spec m root) = []" "\<not> rs_ReplaceExisting (receive_spec m root)" for m
    by (simp_all add: receive_spec_def)
  consider (header) e where "fs' = fs" "res = Inl e"
    | (new) m e where "NewReceiveWriter fs (receive_spec m root) = (fs', Inl e)" "res = Inl e"
    | (chunks) m fs1 w stream1 fs2 w2 rc where
        "NewReceiveWriter fs (receive_spec m root) = (fs1, Inr w)"
        "receive_chunks sha fs1 w stream1 (buffer_size (fm_ChunkSize m)) 0 (fm_Chunks m) = (fs2, w2, rc)"
        "(\<exists>e. rc = Inl e \<and> res = Inl e \<and> fs' = fs2) \<or>
         (\<exists>w3 cm. Commit sha fs2 w2 = (fs', w3, cm) \<and>
            ((\<exists>e. cm = Inl e \<and> res = Inl e) \<or>
             (\<exists>d n. cm = Inr d \<and> res = Inr \<lparr> rr_Manifest = m, rr_DestinationPath = d, rr_BytesReceived = n \<rparr>)))"
    using run by (auto simp: ReceiveFile_def split: prod.splits sum.splits)
  then show ?thesis
  proof cases
    case header
    then show ?thesis by (simp add: add_dirs_only_def)
  next
    case new
    then show ?thesis using NewReceiveWriter_effect [OF new(1) spec(1) nolink]
      by (simp add: add_dirs_only_def)
  next
    case chunks
    have r: "receiving fs fs2 (receive_spec m root) w2"
      using receiving_step [OF receiving_new [OF chunks(1) spec(1) nolink] receive_chunks_step [OF chunks(2)]] .
    then have frame: "\<not> HasSuffix q DefaultPartialSuffix \<Longrightarrow> add_dirs_only fs fs2 q" for q
      by (simp add: receiving_def)
    from chunks(3) show ?thesis
    proof (elim disjE exE conjE)
      fix w3 cm e
      assume "Commit sha fs2 w2 = (fs', w3, cm)" "cm = Inl e" "res = Inl e"
      with receiving_commit [OF r spec(2)] frame show ?thesis by (fastforce simp: add_dirs_only_def)
    next
      fix w3 cm d n
      assume "Commit sha fs2 w2 = (fs', w3, cm)" "cm = Inr d"
        "res = Inr \<lparr> rr_Manifest = m, rr_DestinationPath = d, rr_BytesReceived = n \<rparr>"
      with receiving_commit [OF r spec(2)] show ?thesis by fastforce
    qed (use frame in simp)
  qed
qed

section \<open>Sending and receiving\<close>

lemma of_be32_be32: "n < 2 ^ 32 \<Longrightarrow> of_be32 (be32 n) = n"
proof -
  assume n: "n < 2 ^ 32"
  define a b c where "a = n div 256" and "b = a div 256" and "c = b div 256"
  have "c < 256" using n by (simp add: a_def b_def c_def div_mult2_eq [symmetric] less_mult_imp_div_less)
  moreover have "n = 256 * a + n mod 256" "a = 256 * b + a mod 256" "b = 256 * c + b mod 256"
    by (simp_all add: a_def b_def c_def)
  moreover have "n div 256 ^ 3 = c" "n div 256 ^ 2 = b" "n div 256 ^ 1 = a"
    by (simp_all add: a_def b_def c_def div_mult2_eq [symmetric])
  ultimately show ?thesis by (simp add: of_be32_def be32_def)
qed

lemma length_be32 [simp]: "length (be32 n) = 4"
  by (simp add: be32_def)

lemma hex_digit_ok: "n < 16 \<Longrightarrow> graphic (hex_digit n) \<and> lower_byte (hex_digit n) = hex_digit n \<and> is_hex (hex_digit n)"
proof -
  assume "n < 16"
  then have "n \<in> set [0..<16]" by simp
  moreover have "\<forall>n\<in>set [0..<16]. graphic (hex_digit n) \<and> lower_byte (hex_digit n) = hex_digit n \<and>
    is_hex (hex_digit n)"
    by code_simp
  ultimately show ?thesis by blast
qed

lemma hex_digits:
  assumes "x \<in> set (hex_encode bytes)"
  shows "graphic x \<and> lower_byte x = x \<and> is_hex x"
proof -
  obtain y :: char where "x = hex_digit (of_char y div 16) \<or> x = hex_digit (of_char y mod 16)"
    using assms by (auto simp: hex_encode_def)
  moreover have "of_char y div 16 < (16 :: nat)" by (simp add: div_less_iff_less_mult)
  moreover have "of_char y mod 16 < (16 :: nat)" by simp
  ultimately show ?thesis using hex_digit_ok by blast
qed

lemma length_hex_encode [simp]: "length (hex_encode bytes) = 2 * length bytes"
  by (induction bytes) (auto simp: hex_encode_def)

lemma normalizeHexHash_encode:
  "length digest = 32 \<Longrightarrow> normalizeHexHash (hex_encode digest) = Inr (hex_encode digest)"
proof -
  assume len: "length digest = 32"
  then have ne: "hex_encode digest \<noteq> []" using length_hex_encode [of digest] by force
  have "TrimSpace (hex_encode digest) = hex_encode digest"
    using ne hex_digits hd_in_set last_in_set by (intro TrimSpace_graphic) blast+
  moreover have "map lower_byte (hex_encode digest) = hex_encode digest"
    using hex_digits by (intro map_idI) blast
  moreover have "list_all is_hex (hex_encode digest)" using hex_digits by (auto simp: list_all_iff)
  ultimately show ?thesis using ne len by (simp add: normalizeHexHash_def Let_def)
qed

lemma send_chunks_result:
  assumes "0 < buf"
  shows "\<forall>c\<in>set chunks. 0 \<le> ch_Offset c \<Longrightarrow>
   send_chunks content buf stream sent (map (manifest_of sha content') chunks) = (stream', Inr sent') \<Longrightarrow>
   snk_bytes stream' = snk_bytes stream @ concat (map (chunk_bytes content) chunks) \<and>
   sent' = sent + int (length (concat (map (chunk_bytes content) chunks)))"
proof (induction chunks arbitrary: stream sent)
  case (Cons c cs)
  obtain stream1 r1 where l: "send_loop content buf (ch_Index c) stream (ch_Offset c) (ch_Size c) sent =
    (stream1, r1)" by (meson surj_pair)
  with Cons.prems(2) obtain sent1 where r1: "r1 = Inr sent1"
    by (cases r1) auto
  have "0 \<le> ch_Offset c" using Cons.prems by simp
  note one = send_loop_result [OF assms this l [unfolded r1]]
  have "send_chunks content buf stream1 sent1 (map (manifest_of sha content') cs) = (stream', Inr sent')"
    using Cons.prems(2) l r1 by simp
  from Cons.IH [OF _ this] Cons.prems(1) one show ?case by (simp add: chunk_bytes_slice)
qed simp

lemma Write_ok:
  "staged fs w \<Longrightarrow> \<not> rw_closed w \<Longrightarrow> fs_capacity fs (rw_file w) = None \<Longrightarrow>
   \<exists>fs' w' n. ReceiveWriter_Write fs w chunk = (fs', w', Inr n)"
  by (auto simp: staged_def ReceiveWriter_Write_def WriteAt_end_def)

lemma receive_loop_ok:
  assumes "0 < buf"
  shows "staged fs w \<Longrightarrow> \<not> rw_closed w \<Longrightarrow> fs_capacity fs (rw_file w) = None \<Longrightarrow>
    remaining \<le> int (length stream) \<Longrightarrow>
    \<exists>fs' w' stream' h. receive_loop fs w stream buf index remaining hasher = (fs', w', stream', Inr h)"
proof (induction "nat remaining" arbitrary: fs w stream remaining hasher rule: less_induct)
  case less
  show ?case
  proof (cases "remaining \<le> 0")
    case False
    define r where "r = nat (if remaining < buf then remaining else buf)"
    have r: "0 < r" "int r \<le> remaining" using False assms by (auto simp: r_def)
    obtain fs1 w1 n where wr: "ReceiveWriter_Write fs w (take r stream) = (fs1, w1, Inr n)"
      using Write_ok less.prems by blast
    note st = Write_step(1) [OF wr]
    have w1: "staged fs1 w1" "\<not> rw_closed w1" "fs_capacity fs1 (rw_file w1) = None"
      using st less.prems wr_step_fields [OF st] by (simp_all add: wr_step_def same_env_def)
    have "nat (remaining - int r) < nat remaining" "remaining - int r \<le> int (length (drop r stream))"
      using r less.prems by auto
    from less.hyps [OF this(1) w1 this(2)] show ?thesis
      using False assms less.prems r wr
      by (subst receive_loop.simps) (simp add: r_def [symmetric] Let_def)
  qed (simp add: receive_loop.simps)
qed

lemma receive_chunks_ok:
  assumes "0 < buf"
  shows "staged fs w \<Longrightarrow> \<not> rw_closed w \<Longrightarrow> fs_capacity fs (rw_file w) = None \<Longrightarrow>
    \<forall>c\<in>set chunks. 0 \<le> ch_Size c \<and> int (length (chunk_bytes content c)) = ch_Size c \<Longrightarrow>
    stream = concat (map (chunk_bytes content) chunks) @ rest \<Longrightarrow>
    \<exists>fs' w' n. receive_chunks sha fs w stream buf received (map (manifest_of sha content) chunks) =
      (fs', w', Inr n) \<and> rw_hasher w' = rw_hasher w @ concat (map (chunk_bytes content) chunks)"
proof (induction chunks arbitrary: fs w stream received)
  case (Cons c cs)
  let ?b = "chunk_bytes content c"
  have size: "ch_Size c \<le> int (length stream)" "int (length ?b) = max 0 (ch_Size c)" using Cons.prems by auto
  obtain fs1 w1 stream1 h where
    l: "receive_loop fs w stream buf (ch_Index c) (ch_Size c) [] = (fs1, w1, stream1, Inr h)"
    using receive_loop_ok [OF assms Cons.prems(1-3) size(1)] by blast
  from receive_loop_step [OF l] obtain data where d: "wr_step fs w fs1 w1" "h = data"
    "rw_hasher w1 = rw_hasher w @ data" "stream = data @ stream1" "int (length data) = max 0 (ch_Size c)"
    by auto
  have eq: "data = ?b" "stream1 = concat (map (chunk_bytes content) cs) @ rest"
    using d(4,5) Cons.prems(5) size(2) by (simp_all add: append_eq_append_conv)
  have w1: "staged fs1 w1" "\<not> rw_closed w1" "fs_capacity fs1 (rw_file w1) = None"
    using d(1) Cons.prems wr_step_fields [OF d(1)] by (simp_all add: wr_step_def same_env_def)
  from Cons.IH [OF w1 _ eq(2), of "wrap64 (received + ch_Size c)"] Cons.prems(4)
  obtain fs2 w2 n where "receive_chunks sha fs1 w1 stream1 buf (wrap64 (received + ch_Size c))
      (map (manifest_of sha content) cs) = (fs2, w2, Inr n)"
    "rw_hasher w2 = rw_hasher w1 @ concat (map (chunk_bytes content) cs)" by auto
  with l d(2,3) eq(1) show ?case by (simp add: receiveChunk_def Let_def)
qed simp

lemma SendFile_bytes:
  assumes "SendFile sha marshal \<lparr>snk_bytes = [], snk_limit = limit\<rparr> src rel chunkSize = (sink, Inr (m, n))"
    and "src_initial src = Some info" "src_hashed src = Some content" "src_sent src = Some content"
    and "fi_Size info = int (length content)" "fi_Size info + chunkSize \<le> 2 ^ 63"
  obtains raw chunks where
    "marshal m = Some raw" "length raw \<le> MaxManifestHeaderBytes" "0 < chunkSize"
    "PlanFixedChunks (int (length content)) chunkSize = Inr chunks"
    "m = \<lparr> fm_RelativePath = rel, fm_Size = int (length content), fm_ModifiedTime = fi_ModTime info,
           fm_HashAlgorithm = HashSHA256, fm_ContentHash = hex_encode (sha content),
           fm_ChunkSize = chunkSize, fm_Chunks = map (manifest_of sha content) chunks \<rparr>"
    "snk_bytes sink = be32 (length raw) @ raw @ content" "n = int (length content)"
proof -
  have b: "BuildFileManifest sha src rel chunkSize = Inr m"
    using assms(1) by (auto simp: SendFile_def split: sum.splits prod.splits option.splits)
  have bound: "fi_Size i + chunkSize \<le> 2 ^ 63" if "src_initial src = Some i" for i using that assms by simp
  obtain chunks where pos: "0 < chunkSize" and plan: "PlanFixedChunks (int (length content)) chunkSize = Inr chunks"
    and m: "m = \<lparr> fm_RelativePath = rel, fm_Size = int (length content), fm_ModifiedTime = fi_ModTime info,
           fm_HashAlgorithm = HashSHA256, fm_ContentHash = hex_encode (sha content),
           fm_ChunkSize = chunkSize, fm_Chunks = map (manifest_of sha content) chunks \<rparr>"
    using BuildFileManifest_Inr [OF b bound] assms(2,3,5) by (metis nat_int option.inject order_refl take_all)
  have bound': "int (length content) + chunkSize \<le> 2 ^ 63" using assms(5,6) by simp
  note parts = PlanFixedChunks_parts [OF _ pos bound' plan]
  have off: "\<forall>c\<in>set chunks. 0 \<le> ch_Offset c"
    using contiguous_offsets [of 0 0 chunks] parts by auto
  obtain raw stream1 stream2 where raw: "marshal m = Some raw" "length raw \<le> MaxManifestHeaderBytes"
    and w: "Sink_Write \<lparr>snk_bytes = [], snk_limit = limit\<rparr> (be32 (length raw)) = (stream1, True)"
      "Sink_Write stream1 raw = (stream2, True)"
    and s: "send_chunks content (buffer_size chunkSize) stream2 0 (fm_Chunks m) = (sink, Inr n)"
    using assms(1,4) b
    by (auto simp: SendFile_def writeManifest_def split: sum.splits prod.splits option.splits if_splits bool.splits)
  have "fm_Chunks m = map (manifest_of sha content) chunks" using m by simp
  with s send_chunks_result [OF buffer_size_pos [OF pos] off]
  have "snk_bytes sink = snk_bytes stream2 @ concat (map (chunk_bytes content) chunks) \<and>
    n = 0 + int (length (concat (map (chunk_bytes content) chunks)))" by metis
  with PlanFixedChunks_bytes [OF pos bound' plan] w [THEN Sink_Write_ok] that raw pos plan m
  show thesis by simp
qed

lemma chunk_sizes:
  "contiguous i (int off) chunks \<Longrightarrow> \<forall>c\<in>set chunks. 0 \<le> ch_Size c \<Longrightarrow>
   int off + sum_list (map ch_Size chunks) \<le> int (length content) \<Longrightarrow>
   \<forall>c\<in>set chunks. int (length (chunk_bytes content c)) = ch_Size c"
proof (induction chunks arbitrary: i off)
  case (Cons c cs)
  have nn: "0 \<le> ch_Size c" "0 \<le> sum_list (map ch_Size cs)"
    using Cons.prems sum_list_nonneg [of "map ch_Size cs"] by auto
  then have "contiguous (i + 1) (int (off + nat (ch_Size c))) cs" using Cons.prems(1) by simp
  from Cons.IH [OF this] Cons.prems nn show ?case by (auto simp: chunk_bytes_def)
qed simp

lemma readManifest_frame:
  assumes "raw \<noteq> []" "length raw \<le> MaxManifestHeaderBytes" "unmarshal raw = Some m"
    and "fm_HashAlgorithm m = HashSHA256" "0 < fm_ChunkSize m"
  shows "readManifest unmarshal (be32 (length raw) @ raw @ rest) = (rest, Inr m)"
proof -
  have "of_be32 (be32 (length raw)) = length raw"
    using assms(2) by (intro of_be32_be32) (simp add: MaxManifestHeaderBytes_def)
  then show ?thesis using assms by (simp add: readManifest_def Let_def)
qed

lemma Commit_ok:
  assumes "staged fs w" "\<not> rw_committed w" "\<not> rw_closed w" "rw_file w = rw_partialPath w"
    and "rw_partialPath w \<noteq> rw_destinationPath w" "rw_written w = rw_expectedSize w"
    and "hex_encode (sha (rw_hasher w)) = rw_expectedHash w"
    and "\<not> fs_sync_fails fs (rw_file w)" "\<not> fs_close_fails fs (rw_file w)"
    and "fs_nodes fs (rw_destinationPath w) = None" "\<not> fs_refuse fs (rw_destinationPath w)"
  shows "\<exists>fs' w' t. Commit sha fs w = (fs', w', Inr (rw_destinationPath w)) \<and>
    fs_nodes fs' (rw_destinationPath w) = Some (FFile (rw_hasher w) t) \<and>
    fs_nodes fs' (rw_partialPath w) = None"
proof -
  obtain t where t: "fs_nodes fs (rw_partialPath w) = Some (FFile (rw_hasher w) t)"
    using assms by (auto simp: staged_def)
  have "Stat fs (rw_destinationPath w) = Inl ErrNotExist"
    using assms(10) by (simp add: Stat_def follow_id Lstat_def)
  then show ?thesis
    using assms t by (auto simp: Commit_def Let_def prepareDestinationForCommit_def Rename_def moved_def)
qed

lemma NewReceiveWriter_ok:
  assumes "0 \<le> fm_Size m" "fm_HashAlgorithm m = HashSHA256"
    and "normalizeHexHash (fm_ContentHash m) = Inr h"
    and "EnsureParentDirectoriesInsideShare fs root (fm_RelativePath m) = (fs1, Inr dest)"
    and "fs_nodes fs1 (dest @ DefaultPartialSuffix) = None" "\<not> fs_refuse fs1 (dest @ DefaultPartialSuffix)"
  shows "\<exists>w. NewReceiveWriter fs (receive_spec m root) =
      (set_node (dest @ DefaultPartialSuffix) (FFile [] (fs_now fs1)) fs1, Inr w) \<and>
    staged (set_node (dest @ DefaultPartialSuffix) (FFile [] (fs_now fs1)) fs1) w \<and>
    rw_hasher w = [] \<and> \<not> rw_committed w \<and> \<not> rw_closed w \<and>
    rw_file w = dest @ DefaultPartialSuffix \<and> rw_partialPath w = dest @ DefaultPartialSuffix \<and>
    rw_destinationPath w = dest \<and> rw_expectedSize w = fm_Size m \<and> rw_expectedHash w = h"
proof -
  have "is_sha256_name HashSHA256"
    by (simp add: is_sha256_name_def HashSHA256_def lower_byte_def letters_def)
  moreover have "HashSHA256 \<noteq> []" by (simp add: HashSHA256_def)
  ultimately show ?thesis
    using assms by (simp add: NewReceiveWriter_def receive_spec_def OpenTrunc_def follow_id staged_def)
qed

section \<open>Properties\<close>

text \<open>
  A manifest describes the bytes that were hashed: its size is that of the file before and after
  hashing, its content hash is the digest of that many first bytes, and the slices of its chunks,
  each with its digest, make up these bytes in order.
\<close>

theorem BuildFileManifest_describes:
  assumes "BuildFileManifest sha src rel chunkSize = Inr m"
    and "\<forall>info. src_initial src = Some info \<longrightarrow> fi_Size info + chunkSize \<le> 2 ^ 63"
  shows "\<exists>content. src_hashed src = Some content \<and> fm_Size m \<le> int (length content) \<and>
    map_option fi_Size (src_initial src) = Some (fm_Size m) \<and>
    map_option fi_Size (src_final src) = Some (fm_Size m) \<and>
    map_option fi_ModTime (src_final src) = Some (fm_ModifiedTime m) \<and>
    fm_ContentHash m = hex_encode (sha (take (nat (fm_Size m)) content)) \<and>
    concat (map (\<lambda>c. slice content (cm_Offset c) (cm_Size c)) (fm_Chunks m)) =
      take (nat (fm_Size m)) content \<and>
    (\<forall>c\<in>set (fm_Chunks m). cm_Hash c = hex_encode (sha (slice content (cm_Offset c) (cm_Size c))))"
proof -
  obtain initial final content chunks where s:
    "src_initial src = Some initial" "src_hashed src = Some content" "src_final src = Some final"
    "0 < chunkSize" "0 \<le> fi_Size initial" "\<not> sourceChanged initial final"
    "PlanFixedChunks (fi_Size initial) chunkSize = Inr chunks" "fi_Size initial \<le> int (length content)"
    and m: "m = \<lparr> fm_RelativePath = rel, fm_Size = fi_Size initial,
           fm_ModifiedTime = fi_ModTime initial, fm_HashAlgorithm = HashSHA256,
           fm_ContentHash = hex_encode (sha (take (nat (fi_Size initial)) content)),
           fm_ChunkSize = chunkSize, fm_Chunks = map (manifest_of sha content) chunks \<rparr>"
    using BuildFileManifest_Inr [OF assms(1)] assms(2) by metis
  have "fi_Size initial + chunkSize \<le> 2 ^ 63" using assms(2) s(1) by simp
  note parts = PlanFixedChunks_parts [OF s(5,4) this s(7)]
  have "concat (map (chunk_bytes content) chunks) = take (nat (fi_Size initial)) content"
    using contiguous_bytes [of 0 0 chunks content] parts by simp
  moreover have "chunk_bytes content = (\<lambda>c. slice content (ch_Offset c) (ch_Size c))"
    by (simp add: fun_eq_iff chunk_bytes_slice)
  ultimately show ?thesis using s m by (auto simp: sourceChanged_def comp_def)
qed

theorem BuildFileManifest_describes_witness:
  "\<exists>m. BuildFileManifest (\<lambda>s. s)
     \<lparr> src_initial = Some \<lparr> fi_Regular = True, fi_Size = 3, fi_ModTime = 7 \<rparr>, src_hashed = Some ''abc'',
       src_final = Some \<lparr> fi_Regular = True, fi_Size = 3, fi_ModTime = 7 \<rparr>, src_sent = None \<rparr> ''f'' 2 = Inr m \<and>
     fm_ContentHash m = hex_encode ''abc''"
proof -
  let ?src = "\<lparr> src_initial = Some \<lparr> fi_Regular = True, fi_Size = 3, fi_ModTime = 7 \<rparr>, src_hashed = Some ''abc'',
       src_final = Some \<lparr> fi_Regular = True, fi_Size = 3, fi_ModTime = 7 \<rparr>, src_sent = None \<rparr>"
  have "is_ok (BuildFileManifest (\<lambda>s. s) ?src ''f'' 2)" by code_simp
  then obtain m where m: "BuildFileManifest (\<lambda>s. s) ?src ''f'' 2 = Inr m" by (auto simp: is_ok_iff)
  from BuildFileManifest_describes [OF m] have "fm_ContentHash m = hex_encode ''abc''" by auto
  with m show ?thesis by blast
qed



text \<open>
  C2. Round trip: a file that does not change while it is sent arrives unchanged. If \<open>SendFile\<close>
  succeeds, the codec reads back the header it wrote, and the destination and its partial file are
  free in a file system that refuses nothing there, then \<open>ReceiveFile\<close> on the sent bytes succeeds,
  the destination holds the bytes of the source and the partial file is gone.
\<close>

theorem SendFile_ReceiveFile:
  assumes sent: "SendFile sha marshal \<lparr>snk_bytes = [], snk_limit = limit\<rparr> src rel chunkSize = (sink, Inr (m, n))"
    and src: "src_initial src = Some info" "src_hashed src = Some content" "src_sent src = Some content"
      "fi_Size info = int (length content)" "fi_Size info + chunkSize \<le> 2 ^ 63"
    and codec: "\<forall>raw. marshal m = Some raw \<longrightarrow> raw \<noteq> [] \<and> unmarshal raw = Some m"
    and digest: "length (sha content) = 32"
    and path: "EnsureParentDirectoriesInsideShare fs root rel = (fs1, Inr dest)"
    and free: "fs_nodes fs1 dest = None" "fs_nodes fs1 (dest @ DefaultPartialSuffix) = None"
    and env: "\<not> fs_refuse fs (dest @ DefaultPartialSuffix)" "\<not> fs_refuse fs dest"
      "fs_capacity fs (dest @ DefaultPartialSuffix) = None"
      "\<not> fs_sync_fails fs (dest @ DefaultPartialSuffix)"
      "\<not> fs_close_fails fs (dest @ DefaultPartialSuffix)"
  shows "\<exists>fs' r t. ReceiveFile sha unmarshal fs (snk_bytes sink) root = (fs', Inr r) \<and>
    rr_Manifest r = m \<and> rr_DestinationPath r = dest \<and> n = int (length content) \<and>
    fs_nodes fs' dest = Some (FFile content t) \<and> fs_nodes fs' (dest @ DefaultPartialSuffix) = None"
proof -
  let ?p = "dest @ DefaultPartialSuffix"
  let ?fs2 = "set_node ?p (FFile [] (fs_now fs1)) fs1"
  obtain raw chunks where raw: "marshal m = Some raw" "length raw \<le> MaxManifestHeaderBytes"
    and pos: "0 < chunkSize" and plan: "PlanFixedChunks (int (length content)) chunkSize = Inr chunks"
    and m: "m = \<lparr> fm_RelativePath = rel, fm_Size = int (length content), fm_ModifiedTime = fi_ModTime info,
           fm_HashAlgorithm = HashSHA256, fm_ContentHash = hex_encode (sha content),
           fm_ChunkSize = chunkSize, fm_Chunks = map (manifest_of sha content) chunks \<rparr>"
    and bytes: "snk_bytes sink = be32 (length raw) @ raw @ content" and n: "n = int (length content)"
    using SendFile_bytes [OF sent src] by metis
  have header: "readManifest unmarshal (snk_bytes sink) = (content, Inr m)"
    unfolding bytes by (rule readManifest_frame) (use raw codec m pos in auto)
  have path': "EnsureParentDirectoriesInsideShare fs root (fm_RelativePath m) = (fs1, Inr dest)"
    using path m by simp
  have env1: "same_env fs fs1" by (rule ensure_adds(2) [OF path])
  have hash: "normalizeHexHash (fm_ContentHash m) = Inr (hex_encode (sha content))"
    using m digest by (simp add: normalizeHexHash_encode)
  obtain w where w: "NewReceiveWriter fs (receive_spec m root) = (?fs2, Inr w)" "staged ?fs2 w"
    "rw_hasher w = []" "\<not> rw_committed w" "\<not> rw_closed w" "rw_file w = ?p" "rw_partialPath w = ?p"
    "rw_destinationPath w = dest" "rw_expectedSize w = int (length content)"
    "rw_expectedHash w = hex_encode (sha content)"
    using NewReceiveWriter_ok [OF _ _ hash path' free(2)] m env(1) env1 by (auto simp: same_env_def)
  have bound: "int (length content) + chunkSize \<le> 2 ^ 63" using src by simp
  note parts = PlanFixedChunks_parts [OF _ pos bound plan]
  have whole: "concat (map (chunk_bytes content) chunks) = content"
    by (rule PlanFixedChunks_bytes [OF pos bound plan])
  have sizes: "\<forall>c\<in>set chunks. 0 \<le> ch_Size c \<and> int (length (chunk_bytes content c)) = ch_Size c"
    using chunk_sizes [of 0 0 chunks content] parts by auto
  obtain fs3 w3 k where rc: "receive_chunks sha ?fs2 w content (buffer_size (fm_ChunkSize m)) 0 (fm_Chunks m) =
      (fs3, w3, Inr k)" "rw_hasher w3 = content"
    using receive_chunks_ok [OF buffer_size_pos [OF pos] w(2) w(5) _ sizes, of content "[]" sha 0] whole w env env1 m
    by (auto simp: same_env_def)
  note st = receive_chunks_step [OF rc(1)]
  note fields = wr_step_fields [OF st]
  have "fs_nodes fs3 dest = None" "same_env fs fs3" "staged fs3 w3"
    using st w free env1 by (auto simp: wr_step_def same_env_def DefaultPartialSuffix_def)
  then have "\<exists>fs' w' t. Commit sha fs3 w3 = (fs', w', Inr dest) \<and>
      fs_nodes fs' dest = Some (FFile content t) \<and> fs_nodes fs' ?p = None"
    using Commit_ok [of fs3 w3 sha] fields w rc(2) env
    by (auto simp: same_env_def staged_def DefaultPartialSuffix_def)
  then show ?thesis using header w(1) rc(1) n by (auto simp: ReceiveFile_def)
qed

theorem SendFile_ReceiveFile_witness:
  "\<exists>sink m n fs' r t.
     SendFile (\<lambda>_. replicate 32 (CHR ''x'')) (\<lambda>_. Some ''m'') \<lparr>snk_bytes = [], snk_limit = None\<rparr>
       \<lparr> src_initial = Some \<lparr> fi_Regular = True, fi_Size = 2, fi_ModTime = 7 \<rparr>, src_hashed = Some ''hi'',
         src_final = Some \<lparr> fi_Regular = True, fi_Size = 2, fi_ModTime = 7 \<rparr>, src_sent = Some ''hi'' \<rparr>
       ''d/f'' 1 = (sink, Inr (m, n)) \<and>
     ReceiveFile (\<lambda>_. replicate 32 (CHR ''x'')) (\<lambda>_. Some m) (plain_fs [''/s'' \<mapsto> FDir])
       (snk_bytes sink) ''/s'' = (fs', Inr r) \<and>
     fs_nodes fs' ''/s/d/f'' = Some (FFile ''hi'' t)"
proof -
  let ?sha = "\<lambda>_ :: string. replicate 32 (CHR ''x'')"
  let ?src = "\<lparr> src_initial = Some \<lparr> fi_Regular = True, fi_Size = 2, fi_ModTime = 7 \<rparr>, src_hashed = Some ''hi'',
         src_final = Some \<lparr> fi_Regular = True, fi_Size = 2, fi_ModTime = 7 \<rparr>, src_sent = Some ''hi'' \<rparr>"
  let ?fs = "plain_fs [''/s'' \<mapsto> FDir]"
  have "is_ok (snd (SendFile ?sha (\<lambda>_. Some ''m'') \<lparr>snk_bytes = [], snk_limit = None\<rparr> ?src ''d/f'' 1))"
    by (simp add: SendFile_def BuildFileManifest_def PlanFixedChunks_def wrap64_def go_div_def
        plan_chunk_def buffer_size_def hashChunk_def hash_loop.simps ReadAt_def sourceChanged_def
        writeManifest_def MaxManifestHeaderBytes_def Sink_Write_def send_loop.simps Let_def
        numeral_2_eq_2 upt_rec)
  then obtain sink m n where sent:
    "SendFile ?sha (\<lambda>_. Some ''m'') \<lparr>snk_bytes = [], snk_limit = None\<rparr> ?src ''d/f'' 1 = (sink, Inr (m, n))"
    by (metis is_ok_iff prod.collapse)
  have eqs: "NormalizeRelativePath ''d/f'' = Inr ''d/f''" "ResolveInsideShare ''/s'' ''d/f'' = Inr ''/s/d/f''"
    "Clean ''/s'' = ''/s''" "butlast (split_on (CHR ''/'') ''d/f'') = [''d'']" "Join2 ''/s'' ''d'' = ''/s/d''"
    by (simp_all add: go_eval)
  have "EnsureParentDirectoriesInsideShare ?fs ''/s'' ''d/f'' = (set_node ''/s/d'' FDir ?fs, Inr ''/s/d/f'')"
    by (simp add: EnsureParentDirectoriesInsideShare_def eqs check_root_def Lstat_def Mkdir_def Let_def)
  then show ?thesis
    using SendFile_ReceiveFile [OF sent, of _ "''hi''" "\<lambda>_. Some m" ?fs "''/s''" "set_node ''/s/d'' FDir ?fs" "''/s/d/f''"]
      sent by (fastforce simp: DefaultPartialSuffix_def)
qed

end
