(* ===== verification/Reconcile.thy ===== *)
theory Reconcile
  imports Core_Model
begin

text \<open>
  src/internal/sync: comparison of a scan with the stored file index (reconcile.go), the guard
  against mass deletion (deletion\_guard.go), the revisions a comparison gives rise to (revisions.go)
  and the planner that composes them (planner.go). A Go map with string keys that is only looked up
  is an association list with distinct keys. The clock and the generator of identifiers are
  arguments; the generator is a function of how often it has been called.
\<close>

section \<open>src/internal/sync/reconcile.go\<close>

datatype ChangeKind = ChangeAdded | ChangeModified | ChangeDeleted | ChangeUnchanged

record Change =
  chg_Kind :: ChangeKind
  chg_RelativePath :: string
  chg_Previous :: FileIndexEntry
  chg_Current :: FileIndexEntry

type_synonym ReconcileResult = "Change list"

datatype reconcile_error = EmptyRelativePath string | DuplicatePath string string

definition ByKind :: "ReconcileResult \<Rightarrow> ChangeKind \<Rightarrow> Change list" where
  "ByKind result kind = filter (\<lambda>change. chg_Kind change = kind) result"

type_synonym entry_index = "(string \<times> FileIndexEntry) list"

fun index_loop ::
  "string \<Rightarrow> entry_index \<Rightarrow> FileIndexEntry list \<Rightarrow> reconcile_error + entry_index" where
  "index_loop label byPath [] = Inr byPath"
| "index_loop label byPath (entry # entries) =
     (let path = TrimSpace (fie_RelativePath entry) in
      if path = [] then Inl (EmptyRelativePath label)
      else if map_of byPath path \<noteq> None then Inl (DuplicatePath label path)
      else index_loop label (byPath @ [(path, entry\<lparr>fie_RelativePath := path\<rparr>)]) entries)"

definition indexEntries :: "FileIndexEntry list \<Rightarrow> string \<Rightarrow> reconcile_error + entry_index" where
  "indexEntries entries label = index_loop label [] entries"

definition entriesEquivalent :: "FileIndexEntry \<Rightarrow> FileIndexEntry \<Rightarrow> bool" where
  "entriesEquivalent previous current =
     (if fie_EntryType previous \<noteq> fie_EntryType current then False
      else if fie_IsDeleted previous \<noteq> fie_IsDeleted current then False
      else if fie_EntryType previous = EntryFile then
        (if fie_Size previous \<noteq> fie_Size current then False
         else if fie_HashAlgorithm previous \<noteq> fie_HashAlgorithm current then False
         else fie_ContentHash previous = fie_ContentHash current)
      else if fie_EntryType previous = EntrySymlinkUnsupported
      then fie_FileIdentity previous = fie_FileIdentity current
      else True)"

text \<open>The entry of a path in a map, the zero entry when it is absent.\<close>

definition entry_at :: "entry_index \<Rightarrow> string \<Rightarrow> FileIndexEntry" where
  "entry_at byPath path =
     (case map_of byPath path of None \<Rightarrow> zero_FileIndexEntry | Some entry \<Rightarrow> entry)"

definition change_kind :: "entry_index \<Rightarrow> entry_index \<Rightarrow> string \<Rightarrow> ChangeKind" where
  "change_kind previousByPath currentByPath path =
     (let prior = entry_at previousByPath path; hadPrior = (map_of previousByPath path \<noteq> None);
          now = entry_at currentByPath path; hasNow = (map_of currentByPath path \<noteq> None) in
      if \<not> hadPrior \<and> hasNow then ChangeAdded
      else if hadPrior \<and> \<not> hasNow \<and> \<not> fie_IsDeleted prior then ChangeDeleted
      else if hadPrior \<and> \<not> hasNow \<and> fie_IsDeleted prior then ChangeUnchanged
      else if fie_IsDeleted prior \<and> hasNow then ChangeAdded
      else if entriesEquivalent prior now then ChangeUnchanged
      else ChangeModified)"

definition path_change :: "entry_index \<Rightarrow> entry_index \<Rightarrow> string \<Rightarrow> Change" where
  "path_change previousByPath currentByPath path =
     \<lparr> chg_Kind = change_kind previousByPath currentByPath path, chg_RelativePath = path,
       chg_Previous = entry_at previousByPath path, chg_Current = entry_at currentByPath path \<rparr>"

definition orderedPaths :: "entry_index \<Rightarrow> entry_index \<Rightarrow> string list" where
  "orderedPaths previousByPath currentByPath =
     sort (remdups (map fst previousByPath @ map fst currentByPath))"

definition ReconcileScan ::
  "FileIndexEntry list \<Rightarrow> FileIndexEntry list \<Rightarrow> reconcile_error + ReconcileResult" where
  "ReconcileScan previous current =
     rbind (indexEntries previous ''previous'') (\<lambda>previousByPath.
     rbind (indexEntries current ''current'') (\<lambda>currentByPath.
     Inr (map (path_change previousByPath currentByPath)
            (orderedPaths previousByPath currentByPath))))"

section \<open>src/internal/sync/deletion\_guard.go\<close>

record DeletionGuard =
  dg_MaxCount :: int
  dg_MaxPercent :: int

datatype guard_reason = ExceedsMaxCount int int | ExceedsMaxPercent int int

record DeletionGuardDecision =
  dd_Allowed :: bool
  dd_DeletedCount :: int
  dd_PreviousActive :: int
  dd_DeletedPercent :: int
  dd_DeletedPaths :: "string list"
  dd_Reasons :: "guard_reason list"

datatype guard_error = NegativeMaxCount | MaxPercentRange

fun guard_count :: "ReconcileResult \<Rightarrow> int \<Rightarrow> int \<Rightarrow> string list \<Rightarrow> int \<times> int \<times> string list" where
  "guard_count [] active deleted paths = (active, deleted, paths)"
| "guard_count (change # changes) active deleted paths =
     (let active = (if fie_RelativePath (chg_Previous change) \<noteq> [] \<and>
                       \<not> fie_IsDeleted (chg_Previous change) then active + 1 else active) in
      if chg_Kind change = ChangeDeleted
      then guard_count changes active (deleted + 1) (paths @ [chg_RelativePath change])
      else guard_count changes active deleted paths)"

definition CheckDeletionGuard ::
  "ReconcileResult \<Rightarrow> DeletionGuard \<Rightarrow> guard_error + DeletionGuardDecision" where
  "CheckDeletionGuard result guard =
     (if dg_MaxCount guard < 0 then Inl NegativeMaxCount
      else if dg_MaxPercent guard < 0 \<or> 100 < dg_MaxPercent guard then Inl MaxPercentRange
      else
        let (active, deleted, paths) = guard_count result 0 0 [];
            percent = (if 0 < active then go_div (deleted * 100) active else 0);
            tooMany = (0 < dg_MaxCount guard \<and> dg_MaxCount guard < deleted);
            tooLarge = (0 < dg_MaxPercent guard \<and> 0 < active \<and>
                        dg_MaxPercent guard * active < deleted * 100) in
        Inr \<lparr> dd_Allowed = (\<not> tooMany \<and> \<not> tooLarge), dd_DeletedCount = deleted,
              dd_PreviousActive = active, dd_DeletedPercent = percent, dd_DeletedPaths = paths,
              dd_Reasons =
                (if tooMany then [ExceedsMaxCount deleted (dg_MaxCount guard)] else []) @
                (if tooLarge then [ExceedsMaxPercent percent (dg_MaxPercent guard)] else []) \<rparr>)"

section \<open>src/internal/sync/revisions.go\<close>

datatype revision_error =
  RevShareRequired | RevOriginRequired | RevSequenceNegative | RevEmptyPath | RevIDFailed | RevIDEmpty

text \<open>
  The loop over the changes: \<open>made\<close> counts the revisions made so far, which are also the calls of
  the generator.
\<close>

definition change_revision ::
  "ShareID \<Rightarrow> DeviceID \<Rightarrow> int \<Rightarrow> time \<Rightarrow> nat \<Rightarrow> RevisionID \<Rightarrow> Change \<Rightarrow> Revision" where
  "change_revision shareID origin sequenceStart createdAt made newID change =
     (let deleted = (chg_Kind change = ChangeDeleted); current = chg_Current change in
      \<lparr> rev_ID = newID, rev_ShareID = shareID, rev_RelativePath = chg_RelativePath change,
        rev_EntryType = (if deleted then EntryDeleted else fie_EntryType current),
        rev_Size = (if deleted then 0 else fie_Size current),
        rev_ContentHash = (if deleted then [] else fie_ContentHash current),
        rev_HashAlgorithm = (if deleted then [] else fie_HashAlgorithm current),
        rev_ParentRevisionID = fie_CurrentRevisionID (chg_Previous change),
        rev_OriginDeviceID = origin, rev_Sequence = wrap64 (sequenceStart + int made + 1),
        rev_IsDeleted = deleted, rev_CreatedAt = createdAt \<rparr>)"

fun revision_loop ::
  "ShareID \<Rightarrow> DeviceID \<Rightarrow> int \<Rightarrow> time \<Rightarrow> (nat \<Rightarrow> RevisionID option) \<Rightarrow> nat \<Rightarrow> Change list \<Rightarrow>
   revision_error + Revision list" where
  "revision_loop shareID origin sequenceStart createdAt newID made [] = Inr []"
| "revision_loop shareID origin sequenceStart createdAt newID made (change # changes) =
     (if chg_Kind change = ChangeUnchanged
      then revision_loop shareID origin sequenceStart createdAt newID made changes
      else if chg_RelativePath change = [] then Inl RevEmptyPath
      else case newID made of
        None \<Rightarrow> Inl RevIDFailed
      | Some revID \<Rightarrow>
          if revID = [] then Inl RevIDEmpty
          else
            rbind (revision_loop shareID origin sequenceStart createdAt newID (made + 1) changes)
              (\<lambda>revisions.
                 Inr (change_revision shareID origin sequenceStart createdAt made revID change # revisions)))"

text \<open>
  \<open>sort.Slice\<close> by path. The changes of a reconciliation have distinct paths, so the order of equal
  paths, which \<open>sort.Slice\<close> leaves open, never matters.
\<close>

definition BuildRevisions ::
  "ReconcileResult \<Rightarrow> ShareID \<Rightarrow> DeviceID \<Rightarrow> int \<Rightarrow> time \<Rightarrow> (nat \<Rightarrow> RevisionID option) \<Rightarrow>
   revision_error + Revision list" where
  "BuildRevisions reconciliation shareID originDeviceID sequenceStart now newID =
     (if shareID = [] then Inl RevShareRequired
      else if originDeviceID = [] then Inl RevOriginRequired
      else if sequenceStart < 0 then Inl RevSequenceNegative
      else revision_loop shareID originDeviceID sequenceStart now newID 0
             (sort_key chg_RelativePath reconciliation))"

section \<open>src/internal/sync/planner.go\<close>

record ScanResult =
  scan_Entries :: "FileIndexEntry list"
  scan_ScannedAt :: time

record ScanPlan =
  plan_Scan :: ScanResult
  plan_Reconciliation :: ReconcileResult
  plan_DeletionDecision :: DeletionGuardDecision

datatype 'e plan_error_kind =
  PlanShareRequired | PlanIndex 'e | PlanScan 'e | PlanReconcile reconcile_error | PlanGuard guard_error

text \<open>\<open>list\<close> reads the stored index of a share and \<open>scan\<close> walks its folder.\<close>

definition Plan ::
  "(ShareID \<Rightarrow> 'e + FileIndexEntry list) \<Rightarrow> (unit \<Rightarrow> 'e + ScanResult) \<Rightarrow> ShareID \<Rightarrow> DeletionGuard \<Rightarrow>
   'e plan_error_kind + ScanPlan" where
  "Plan list scan shareID guard =
     (if shareID = [] then Inl PlanShareRequired
      else case list shareID of
        Inl e \<Rightarrow> Inl (PlanIndex e)
      | Inr previous \<Rightarrow>
          (case scan () of
             Inl e \<Rightarrow> Inl (PlanScan e)
           | Inr result \<Rightarrow>
               (case ReconcileScan previous (scan_Entries result) of
                  Inl e \<Rightarrow> Inl (PlanReconcile e)
                | Inr reconciliation \<Rightarrow>
                    (case CheckDeletionGuard reconciliation guard of
                       Inl e \<Rightarrow> Inl (PlanGuard e)
                     | Inr decision \<Rightarrow>
                         Inr \<lparr> plan_Scan = result, plan_Reconciliation = reconciliation,
                               plan_DeletionDecision = decision \<rparr>))))"

section \<open>Indexed entries\<close>

definition trimmed :: "FileIndexEntry \<Rightarrow> FileIndexEntry" where
  "trimmed entry = entry\<lparr>fie_RelativePath := TrimSpace (fie_RelativePath entry)\<rparr>"

definition keyed :: "FileIndexEntry list \<Rightarrow> entry_index" where
  "keyed entries = map (\<lambda>e. (TrimSpace (fie_RelativePath e), trimmed e)) entries"

lemma keyed_simps [simp]:
  "keyed [] = []" "keyed (e # es) = (TrimSpace (fie_RelativePath e), trimmed e) # keyed es"
  "map fst (keyed es) = map (\<lambda>e. TrimSpace (fie_RelativePath e)) es"
  by (simp_all add: keyed_def)

lemma index_loop_Inr:
  "index_loop label acc entries = Inr byPath \<longleftrightarrow>
     byPath = acc @ keyed entries \<and> (\<forall>e\<in>set entries. TrimSpace (fie_RelativePath e) \<noteq> []) \<and>
     distinct (map (\<lambda>e. TrimSpace (fie_RelativePath e)) entries) \<and>
     fst ` set acc \<inter> (\<lambda>e. TrimSpace (fie_RelativePath e)) ` set entries = {}"
proof (induction entries arbitrary: acc)
  case (Cons e es)
  show ?case
    by (auto simp: Let_def Cons trimmed_def map_of_eq_None_iff)
qed auto

lemma indexEntries_Inr:
  "indexEntries entries label = Inr byPath \<longleftrightarrow>
     byPath = keyed entries \<and> (\<forall>e\<in>set entries. TrimSpace (fie_RelativePath e) \<noteq> []) \<and>
     distinct (map (\<lambda>e. TrimSpace (fie_RelativePath e)) entries)"
  by (simp add: indexEntries_def index_loop_Inr)

text \<open>Entries with distinct paths that need no trimming, as the store and the scanner return them.\<close>

definition well_indexed :: "FileIndexEntry list \<Rightarrow> bool" where
  "well_indexed entries \<longleftrightarrow>
     (\<forall>e\<in>set entries. fie_RelativePath e \<noteq> [] \<and> TrimSpace (fie_RelativePath e) = fie_RelativePath e) \<and>
     distinct (map fie_RelativePath entries)"

definition by_path :: "FileIndexEntry list \<Rightarrow> entry_index" where
  "by_path entries = map (\<lambda>e. (fie_RelativePath e, e)) entries"

lemma keyed_well_indexed: "well_indexed entries \<Longrightarrow> keyed entries = by_path entries"
  by (auto simp: keyed_def by_path_def well_indexed_def trimmed_def)

lemma map_trim_well_indexed:
  "well_indexed entries \<Longrightarrow> map (\<lambda>e. TrimSpace (fie_RelativePath e)) entries = map fie_RelativePath entries"
  by (auto simp: well_indexed_def)

lemma ReconcileScan_well_indexed:
  assumes "well_indexed previous" and "well_indexed current"
  shows "ReconcileScan previous current =
    Inr (map (path_change (by_path previous) (by_path current))
           (orderedPaths (by_path previous) (by_path current)))"
proof -
  have "indexEntries es label = Inr (by_path es)" if "well_indexed es" for es label
    unfolding indexEntries_Inr map_trim_well_indexed [OF that] keyed_well_indexed [OF that]
    using that by (simp add: well_indexed_def)
  with assms show ?thesis by (simp add: ReconcileScan_def)
qed

lemma set_orderedPaths [simp]:
  "set (orderedPaths (by_path ps) (by_path cs)) = fie_RelativePath ` set ps \<union> fie_RelativePath ` set cs"
  by (auto simp: orderedPaths_def by_path_def image_image)

lemma distinct_orderedPaths [simp]: "distinct (orderedPaths ps cs)"
  by (simp add: orderedPaths_def)

lemma sorted_orderedPaths [simp]: "sorted (orderedPaths ps cs)"
  by (simp add: orderedPaths_def)

lemma map_of_by_path:
  "well_indexed es \<Longrightarrow> map_of (by_path es) path = Some e \<longleftrightarrow> e \<in> set es \<and> fie_RelativePath e = path"
proof -
  assume "well_indexed es"
  then have "distinct (map fst (by_path es))" by (simp add: by_path_def comp_def well_indexed_def)
  then show ?thesis by (auto simp: map_of_eq_Some_iff by_path_def)
qed

lemma map_of_by_path_None:
  "map_of (by_path es) path = None \<longleftrightarrow> path \<notin> fie_RelativePath ` set es"
  by (auto simp: map_of_eq_None_iff by_path_def image_image)

text \<open>The entry that a list of entries shows at a path, deleted ones apart.\<close>

definition live :: "FileIndexEntry list \<Rightarrow> string \<Rightarrow> FileIndexEntry option" where
  "live entries path =
     (case map_of (by_path entries) path of
        Some e \<Rightarrow> if fie_IsDeleted e then None else Some e | None \<Rightarrow> None)"

text \<open>What replaying a change does to the entry of its path.\<close>

definition replay :: "ReconcileResult \<Rightarrow> (string \<Rightarrow> FileIndexEntry option) \<Rightarrow> string \<Rightarrow> FileIndexEntry option" where
  "replay changes view path =
     (case map_of (map (\<lambda>c. (chg_RelativePath c, c)) changes) path of
        None \<Rightarrow> view path
      | Some c \<Rightarrow>
          (case chg_Kind c of
             ChangeAdded \<Rightarrow> Some (chg_Current c) | ChangeModified \<Rightarrow> Some (chg_Current c)
           | ChangeDeleted \<Rightarrow> None | ChangeUnchanged \<Rightarrow> view path))"

lemma map_of_path_changes:
  "map_of (map (\<lambda>c. (chg_RelativePath c, c)) (map (path_change p c) paths)) path =
     (if path \<in> set paths then Some (path_change p c path) else None)"
  by (induction paths) (auto simp: path_change_def)

lemma entriesEquivalent_refl [simp]: "entriesEquivalent e e"
  by (simp add: entriesEquivalent_def)

definition deleted_changes :: "ReconcileResult \<Rightarrow> Change list" where
  "deleted_changes result = filter (\<lambda>c. chg_Kind c = ChangeDeleted) result"

definition active_changes :: "ReconcileResult \<Rightarrow> Change list" where
  "active_changes result =
     filter (\<lambda>c. fie_RelativePath (chg_Previous c) \<noteq> [] \<and> \<not> fie_IsDeleted (chg_Previous c)) result"

lemma guard_count_result:
  "guard_count result active deleted paths =
     (active + int (length (active_changes result)), deleted + int (length (deleted_changes result)),
      paths @ map chg_RelativePath (deleted_changes result))"
  by (induction result arbitrary: active deleted paths)
    (simp_all add: active_changes_def deleted_changes_def Let_def)

lemma length_paths_card: "distinct (map f xs) \<Longrightarrow> length xs = card (f ` set xs)"
  by (metis distinct_card length_map set_map)

lemma live_Some:
  assumes "well_indexed es"
  shows "live es path = Some e \<longleftrightarrow> e \<in> set es \<and> fie_RelativePath e = path \<and> \<not> fie_IsDeleted e"
proof (cases "map_of (by_path es) path")
  case None
  then have "path \<notin> fie_RelativePath ` set es" by (simp add: map_of_by_path_None)
  with None show ?thesis by (auto simp: live_def)
next
  case (Some x)
  then have "e \<in> set es \<and> fie_RelativePath e = path \<longleftrightarrow> e = x"
    using map_of_by_path [OF assms, of path e] by (metis option.inject)
  moreover from Some have "live es path = Some e \<longleftrightarrow> e = x \<and> \<not> fie_IsDeleted e"
    by (auto simp: live_def)
  ultimately show ?thesis by blast
qed

lemma active_entry:
  assumes "well_indexed es"
  shows "fie_RelativePath (entry_at (by_path es) path) \<noteq> [] \<and>
      \<not> fie_IsDeleted (entry_at (by_path es) path) \<longleftrightarrow> live es path \<noteq> None"
proof (cases "map_of (by_path es) path")
  case (Some e)
  with assms have "e \<in> set es" by (simp add: map_of_by_path)
  with assms have "fie_RelativePath e \<noteq> []" by (simp add: well_indexed_def)
  with Some show ?thesis by (simp add: entry_at_def live_def)
qed (simp add: entry_at_def live_def zero_FileIndexEntry_def)

lemma deleted_kind:
  "change_kind (by_path ps) (by_path cs) path = ChangeDeleted \<longleftrightarrow>
     live ps path \<noteq> None \<and> path \<notin> fie_RelativePath ` set cs"
  unfolding map_of_by_path_None [symmetric]
  by (cases "map_of (by_path ps) path"; cases "map_of (by_path cs) path")
    (auto simp: change_kind_def entry_at_def live_def Let_def)

text \<open>The changes of a reconciliation of well-indexed entries, by what they count.\<close>

lemma reconciled_paths:
  assumes p: "well_indexed previous" and c: "well_indexed current"
    and r: "ReconcileScan previous current = Inr changes"
  shows "distinct (map chg_RelativePath (filter P changes))"
    and "chg_RelativePath ` set (active_changes changes) = {path. live previous path \<noteq> None}"
    and "chg_RelativePath ` set (deleted_changes changes) =
      {path. live previous path \<noteq> None} - fie_RelativePath ` set current"
proof -
  let ?p = "by_path previous" and ?c = "by_path current"
  let ?ord = "orderedPaths ?p ?c"
  have changes: "changes = map (path_change ?p ?c) ?ord"
    using r ReconcileScan_well_indexed [OF p c] by simp
  have "map chg_RelativePath changes = ?ord" by (simp add: changes path_change_def comp_def)
  then show "distinct (map chg_RelativePath (filter P changes))"
    by (intro distinct_map_filter) simp
  have ord: "live previous path \<noteq> None \<Longrightarrow> path \<in> fie_RelativePath ` set previous" for path
    using live_Some [OF p, of path] by auto
  have "chg_RelativePath ` set (filter Q changes) = {path \<in> set ?ord. Q (path_change ?p ?c path)}" for Q
    unfolding changes by (simp add: filter_map image_image comp_def path_change_def)
  then show "chg_RelativePath ` set (active_changes changes) = {path. live previous path \<noteq> None}"
    and "chg_RelativePath ` set (deleted_changes changes) =
      {path. live previous path \<noteq> None} - fie_RelativePath ` set current"
    using ord active_entry [OF p] deleted_kind [of previous current]
    by (auto simp: active_changes_def deleted_changes_def path_change_def)
qed

lemma reconciled_counts:
  assumes p: "well_indexed previous" and c: "well_indexed current"
    and r: "ReconcileScan previous current = Inr changes"
  shows "length (active_changes changes) = length (filter (\<lambda>e. \<not> fie_IsDeleted e) previous)"
    and "length (deleted_changes changes) \<le> length (active_changes changes)"
proof -
  note paths = reconciled_paths [OF p c r]
  have count: "length (active_changes changes) = card {path. live previous path \<noteq> None}"
    "length (deleted_changes changes) = card ({path. live previous path \<noteq> None} - fie_RelativePath ` set current)"
    unfolding paths(3) [symmetric] unfolding paths(2) [symmetric]
    unfolding active_changes_def deleted_changes_def by (rule length_paths_card [OF paths(1)])+
  have eq: "{path. live previous path \<noteq> None} = fie_RelativePath ` set (filter (\<lambda>e. \<not> fie_IsDeleted e) previous)"
    using live_Some [OF p] by (auto simp: image_iff)
  then have "finite {path. live previous path \<noteq> None}" by simp
  with count show "length (deleted_changes changes) \<le> length (active_changes changes)"
    by (metis Diff_subset card_mono)
  have "distinct (map fie_RelativePath (filter (\<lambda>e. \<not> fie_IsDeleted e) previous))"
    using p by (simp add: well_indexed_def distinct_map_filter)
  from length_paths_card [OF this]
  show "length (active_changes changes) = length (filter (\<lambda>e. \<not> fie_IsDeleted e) previous)"
    using count(1) eq by simp
qed

section \<open>Properties\<close>



text \<open>
  The deletion guard counts what it should: on the changes of a reconciliation, with limits in
  range, the decision names each live stored entry that the scan no longer has, once; it counts the
  live stored entries; its percentage is at most one hundred; it allows exactly what stays within
  both limits, where a limit of zero is none; and it gives a reason exactly when it forbids.
\<close>

theorem CheckDeletionGuard_decides:
  assumes "well_indexed previous" and "well_indexed current"
    and "ReconcileScan previous current = Inr changes"
    and "0 \<le> dg_MaxCount guard" "0 \<le> dg_MaxPercent guard" "dg_MaxPercent guard \<le> 100"
  shows "\<exists>d. CheckDeletionGuard changes guard = Inr d \<and>
    set (dd_DeletedPaths d) = {path. live previous path \<noteq> None} - fie_RelativePath ` set current \<and>
    distinct (dd_DeletedPaths d) \<and> dd_DeletedCount d = int (length (dd_DeletedPaths d)) \<and>
    dd_PreviousActive d = int (length (filter (\<lambda>e. \<not> fie_IsDeleted e) previous)) \<and>
    0 \<le> dd_DeletedPercent d \<and> dd_DeletedPercent d \<le> 100 \<and>
    (dd_Allowed d \<longleftrightarrow>
       (dg_MaxCount guard = 0 \<or> dd_DeletedCount d \<le> dg_MaxCount guard) \<and>
       (dg_MaxPercent guard = 0 \<or>
          dd_DeletedCount d * 100 \<le> dg_MaxPercent guard * dd_PreviousActive d)) \<and>
    (dd_Reasons d = [] \<longleftrightarrow> dd_Allowed d)"
proof -
  note counts = reconciled_counts [OF assms(1-3)] and paths = reconciled_paths [OF assms(1-3)]
  have dist: "distinct (map chg_RelativePath (deleted_changes changes))"
    unfolding deleted_changes_def by (rule paths(1))
  let ?del = "int (length (deleted_changes changes))" and ?act = "int (length (active_changes changes))"
  have percent: "0 \<le> go_div (?del * 100) ?act \<and> go_div (?del * 100) ?act \<le> 100" if "0 < ?act"
  proof -
    have "?del * 100 \<le> 100 * ?act" using counts(2) by simp
    then have "?del * 100 div ?act \<le> 100 * ?act div ?act" using that by (intro zdiv_mono1) auto
    then show ?thesis using that by (simp add: go_div_nonneg pos_imp_zdiv_nonneg_iff)
  qed
  have "?act = 0 \<Longrightarrow> ?del = 0" using counts(2) by simp
  then show ?thesis
    using assms(4-6) counts(1) percent paths(3) dist
    by (auto simp: CheckDeletionGuard_def guard_count_result Let_def)
qed

theorem CheckDeletionGuard_decides_witness:
  "\<exists>d. CheckDeletionGuard
     [path_change (by_path [zero_FileIndexEntry\<lparr>fie_RelativePath := ''a''\<rparr>]) (by_path []) ''a'']
     \<lparr>dg_MaxCount = 0, dg_MaxPercent = 50\<rparr> = Inr d \<and> \<not> dd_Allowed d \<and> dd_DeletedPaths d = [''a'']"
proof -
  let ?p = "[zero_FileIndexEntry\<lparr>fie_RelativePath := ''a''\<rparr>]" and ?g = "\<lparr>dg_MaxCount = 0, dg_MaxPercent = 50\<rparr>"
  let ?ch = "[path_change (by_path ?p) (by_path []) ''a'']"
  have w: "well_indexed ?p" "well_indexed []" by (simp_all add: well_indexed_def go_eval)
  have r: "ReconcileScan ?p [] = Inr ?ch"
    using ReconcileScan_well_indexed [OF w] by (simp add: orderedPaths_def by_path_def)
  obtain d where d: "CheckDeletionGuard ?ch ?g = Inr d"
    "set (dd_DeletedPaths d) = {path. live ?p path \<noteq> None}" "distinct (dd_DeletedPaths d)"
    "dd_DeletedCount d = int (length (dd_DeletedPaths d))" "dd_PreviousActive d = 1"
    "dd_Allowed d \<longleftrightarrow> dd_DeletedCount d * 100 \<le> 50 * dd_PreviousActive d"
    using CheckDeletionGuard_decides [OF w r, of ?g] by (auto simp: zero_FileIndexEntry_def)
  have "{path. live ?p path \<noteq> None} = {''a''}"
    by (auto simp: live_def by_path_def zero_FileIndexEntry_def split: if_splits)
  with d(2,3) have "dd_DeletedPaths d = [''a'']"
    by (metis distinct_card card.empty card_insert_disjoint empty_iff finite.emptyI length_0_conv
        length_Suc_conv list.simps(15) set_empty singleton_insert_inj_eq)
  with d show ?thesis by simp
qed

end
