(* ===== verification/Tables.thy ===== *)
theory Tables
  imports Go_Prelude
begin

text \<open>
  The relational tables of src/internal/storage/sqlite. A table is the list of its rows in the order
  of insertion; a primary key is a function on rows. The store opens one connection, so every
  operation is a transaction that runs alone: it is a function of the database that returns either
  an error, and then nothing has changed, or the new database. A time that is written reads back
  unchanged, since RFC 3339 with nanoseconds loses nothing of a time in the years 1 to 9999.
\<close>

section \<open>Loops that stop at the first error\<close>

fun result_list :: "('a \<Rightarrow> 'e + 'b) \<Rightarrow> 'a list \<Rightarrow> 'e + 'b list" where
  "result_list f [] = Inr []"
| "result_list f (x # xs) = rbind (f x) (\<lambda>y. rbind (result_list f xs) (\<lambda>ys. Inr (y # ys)))"

fun fold_result :: "('s \<Rightarrow> 'a \<Rightarrow> 'e + 's) \<Rightarrow> 's \<Rightarrow> 'a list \<Rightarrow> 'e + 's" where
  "fold_result f s [] = Inr s"
| "fold_result f s (x # xs) = rbind (f s x) (\<lambda>s. fold_result f s xs)"

lemma result_list_Inr:
  "result_list f xs = Inr ys \<longleftrightarrow> list_all2 (\<lambda>x y. f x = Inr y) xs ys"
  by (induction xs arbitrary: ys) (auto simp: rbind_eq_Inr list_all2_Cons1)

lemma result_list_map:
  "(\<And>x. x \<in> set xs \<Longrightarrow> f x = Inr (g x)) \<Longrightarrow> result_list f xs = Inr (map g xs)"
  by (induction xs) auto

lemma fold_result_invariant:
  "fold_result f s xs = Inr s' \<Longrightarrow> P s \<Longrightarrow> (\<And>s x s'. x \<in> set xs \<Longrightarrow> P s \<Longrightarrow> f s x = Inr s' \<Longrightarrow> P s') \<Longrightarrow> P s'"
  by (induction xs arbitrary: s) (auto simp: rbind_eq_Inr)

section \<open>Rows\<close>

definition row_lookup :: "('r \<Rightarrow> 'k) \<Rightarrow> 'k \<Rightarrow> 'r list \<Rightarrow> 'r option" where
  "row_lookup key k rows = find (\<lambda>r. key r = k) rows"

definition row_exists :: "('r \<Rightarrow> 'k) \<Rightarrow> 'k \<Rightarrow> 'r list \<Rightarrow> bool" where
  "row_exists key k rows = list_ex (\<lambda>r. key r = k) rows"

text \<open>\<open>INSERT ... ON CONFLICT DO UPDATE\<close>: \<open>merge\<close> makes the new row of the stored one.\<close>

definition row_upsert :: "('r \<Rightarrow> 'k) \<Rightarrow> ('r \<Rightarrow> 'r) \<Rightarrow> 'r \<Rightarrow> 'r list \<Rightarrow> 'r list" where
  "row_upsert key merge row rows =
     (if row_exists key (key row) rows then map (\<lambda>r. if key r = key row then merge r else r) rows
      else rows @ [row])"

definition row_update :: "('r \<Rightarrow> bool) \<Rightarrow> ('r \<Rightarrow> 'r) \<Rightarrow> 'r list \<Rightarrow> 'r list" where
  "row_update sel change rows = map (\<lambda>r. if sel r then change r else r) rows"

definition keys_distinct :: "('r \<Rightarrow> 'k) \<Rightarrow> 'r list \<Rightarrow> bool" where
  "keys_distinct key rows = distinct (map key rows)"

lemma row_lookup_Nil [simp]: "row_lookup key k [] = None"
  by (simp add: row_lookup_def)

lemma row_lookup_Cons [simp]:
  "row_lookup key k (r # rows) = (if key r = k then Some r else row_lookup key k rows)"
  by (simp add: row_lookup_def)

lemma row_lookup_append:
  "row_lookup key k (xs @ ys) = (case row_lookup key k xs of Some r \<Rightarrow> Some r | None \<Rightarrow> row_lookup key k ys)"
  by (induction xs) auto

lemma row_lookup_SomeD: "row_lookup key k rows = Some r \<Longrightarrow> r \<in> set rows \<and> key r = k"
  by (induction rows) (auto split: if_splits)

lemma row_lookup_None: "row_lookup key k rows = None \<longleftrightarrow> (\<forall>r\<in>set rows. key r \<noteq> k)"
  by (induction rows) auto

lemma row_lookup_eq_Some:
  "keys_distinct key rows \<Longrightarrow> row_lookup key k rows = Some r \<longleftrightarrow> r \<in> set rows \<and> key r = k"
  by (induction rows) (auto simp: keys_distinct_def)

lemma row_exists_iff: "row_exists key k rows \<longleftrightarrow> row_lookup key k rows \<noteq> None"
  by (auto simp: row_exists_def row_lookup_None list_ex_iff)

lemma row_exists_mem: "row_exists key k rows \<longleftrightarrow> k \<in> key ` set rows"
  by (auto simp: row_exists_def list_ex_iff)

lemma ball_row_update:
  "(\<forall>r\<in>set (row_update P f rows). Q r) \<longleftrightarrow> (\<forall>r\<in>set rows. Q (if P r then f r else r))"
  by (auto simp: row_update_def)

lemma row_lookup_filter:
  "(\<And>r. key r = k \<Longrightarrow> P r) \<Longrightarrow> row_lookup key k (filter P rows) = row_lookup key k rows"
  by (induction rows) auto

lemma row_lookup_map:
  "(\<And>r. key (f r) = key r) \<Longrightarrow> row_lookup key k (map f rows) = map_option f (row_lookup key k rows)"
  by (induction rows) auto

lemma row_lookup_upsert:
  assumes "\<And>r. key r = key row \<Longrightarrow> key (merge r) = key row"
  shows "row_lookup key k (row_upsert key merge row rows) =
    (if k = key row then
       Some (case row_lookup key k rows of Some r \<Rightarrow> merge r | None \<Rightarrow> row)
     else row_lookup key k rows)"
proof (cases "row_lookup key (key row) rows")
  case None
  then show ?thesis
    by (auto simp: row_upsert_def row_exists_iff row_lookup_append split: option.splits)
next
  case (Some r)
  have "row_lookup key k (map (\<lambda>r. if key r = key row then merge r else r) rows) =
    map_option (\<lambda>r. if key r = key row then merge r else r) (row_lookup key k rows)"
    by (rule row_lookup_map) (simp add: assms)
  with Some show ?thesis
    by (cases "row_lookup key k rows")
      (auto simp: row_upsert_def row_exists_iff dest: row_lookup_SomeD)
qed

lemma keys_distinct_upsert:
  assumes "\<And>r. key r = key row \<Longrightarrow> key (merge r) = key row"
  shows "keys_distinct key rows \<Longrightarrow> keys_distinct key (row_upsert key merge row rows)"
proof -
  have "map key (map (\<lambda>r. if key r = key row then merge r else r) rows) = map key rows"
    using assms by auto
  then show "keys_distinct key rows \<Longrightarrow> ?thesis"
    by (auto simp: keys_distinct_def row_upsert_def row_exists_mem simp del: map_map)
qed

lemma keys_distinct_snoc:
  "keys_distinct key rows \<Longrightarrow> \<not> row_exists key (key row) rows \<Longrightarrow> keys_distinct key (rows @ [row])"
  by (auto simp: keys_distinct_def row_exists_mem)

lemma keys_distinct_update:
  "(\<And>r. sel r \<Longrightarrow> key (change r) = key r) \<Longrightarrow> keys_distinct key rows \<Longrightarrow>
   keys_distinct key (row_update sel change rows)"
proof -
  assume "\<And>r. sel r \<Longrightarrow> key (change r) = key r"
  then have "map key (row_update sel change rows) = map key rows" by (auto simp: row_update_def)
  then show "keys_distinct key rows \<Longrightarrow> ?thesis" by (simp add: keys_distinct_def)
qed

lemma row_lookup_update:
  assumes "\<And>r. sel r \<Longrightarrow> key (change r) = key r"
  shows "row_lookup key k (row_update sel change rows) =
    map_option (\<lambda>r. if sel r then change r else r) (row_lookup key k rows)"
  unfolding row_update_def by (rule row_lookup_map) (simp add: assms)

text \<open>
  The loops that check each row and collect the rows in a map, where a key that comes twice is an
  error: the map is the list of the rows.
\<close>

fun distinct_loop :: "('r \<Rightarrow> 'e + unit) \<Rightarrow> ('r \<Rightarrow> 'k) \<Rightarrow> 'e \<Rightarrow> 'r list \<Rightarrow> 'r list \<Rightarrow> 'e + 'r list" where
  "distinct_loop check key dup seen [] = Inr seen"
| "distinct_loop check key dup seen (r # rows) =
     rbind (check r) (\<lambda>_.
     if row_exists key (key r) seen then Inl dup
     else distinct_loop check key dup (seen @ [r]) rows)"

lemma distinct_loop_seen:
  "keys_distinct key seen \<Longrightarrow>
   distinct_loop check key dup seen rows = Inr rs \<longleftrightarrow>
     rs = seen @ rows \<and> (\<forall>r\<in>set rows. check r = ok) \<and> keys_distinct key (seen @ rows)"
proof (induction rows arbitrary: seen)
  case (Cons r rows)
  show ?case
  proof (cases "row_exists key (key r) seen")
    case True
    then have "\<not> keys_distinct key (seen @ r # rows)"
      by (auto simp: keys_distinct_def row_exists_mem)
    with True show ?thesis by (auto simp: rbind_eq_Inr)
  next
    case False
    then have "keys_distinct key (seen @ [r])" using Cons.prems by (simp add: keys_distinct_snoc)
    from Cons.IH [OF this] False show ?thesis by (auto simp: rbind_eq_Inr)
  qed
qed auto

lemma distinct_loop_Inr:
  "distinct_loop check key dup [] rows = Inr rs \<longleftrightarrow>
     rs = rows \<and> (\<forall>r\<in>set rows. check r = ok) \<and> keys_distinct key rows"
  using distinct_loop_seen [of key "[]" check dup rows rs] by (simp add: keys_distinct_def)

section \<open>Stores by key\<close>

text \<open>
  The contract of a table that is read by key and written row by row: reading a key after writing a
  row gives what was stored of the row at its key, and what was there before at any other key.
\<close>

locale keyed_store =
  fixes get :: "'s \<Rightarrow> 'k \<Rightarrow> 'v option"
    and put :: "'s \<Rightarrow> 'v \<Rightarrow> 's"
    and key :: "'v \<Rightarrow> 'k"
    and stored :: "'v \<Rightarrow> 'v"
  assumes get_put: "get (put s v) k = (if k = key v then Some (stored v) else get s k)"
begin

definition put_all :: "'v list \<Rightarrow> 's \<Rightarrow> 's" where
  "put_all vs s = foldl put s vs"

lemma get_put_all_other: "k \<notin> key ` set vs \<Longrightarrow> get (put_all vs s) k = get s k"
  unfolding put_all_def by (induction vs arbitrary: s) (auto simp: get_put)

lemma get_put_all:
  "distinct (map key vs) \<Longrightarrow>
   get (put_all vs s) k = (case row_lookup key k vs of Some v \<Rightarrow> Some (stored v) | None \<Rightarrow> get s k)"
proof (induction vs arbitrary: s)
  case (Cons v vs)
  have "put_all (v # vs) s = put_all vs (put s v)" by (simp add: put_all_def)
  moreover have "k = key v \<Longrightarrow> row_lookup key k vs = None"
    using Cons.prems by (auto simp: row_lookup_None image_iff)
  ultimately show ?case using Cons by (auto simp: get_put split: option.splits)
qed (simp add: put_all_def)

end

end
