(* ===== verification/Sync_Store.thy ===== *)
theory Sync_Store
  imports Tables Core_Model Go_Time
begin

text \<open>
  src/internal/storage/sqlite/store.go: the database, its devices, shares, permissions, pairings and
  audit events, and the authorisation decision. Constraints of the schema
  (src/internal/storage/migrations.go) are errors: primary keys, the uniqueness of fingerprints, the
  checks on enumerated columns and the foreign keys, which the store switches on. \<open>now\<close> is the
  clock, which is read for a time that is not given.
\<close>

section \<open>src/internal/storage/models.go and node\_status.go\<close>

datatype TrustState = TrustPending | TrustTrusted | TrustRevoked | TrustOther string

record Device =
  dev_ID :: DeviceID
  dev_DisplayName :: string
  dev_PublicKey :: string
  dev_Fingerprint :: string
  dev_TrustState :: TrustState
  dev_CreatedAt :: time
  dev_UpdatedAt :: time
  dev_LastSeenAt :: time

record Share =
  shr_ID :: ShareID
  shr_Name :: string
  shr_RootPath :: string
  shr_Mode :: ShareMode
  shr_CasePolicy :: string
  shr_VersionPolicy :: string
  shr_DeletionLimitCount :: int
  shr_DeletionLimitPercent :: int
  shr_CreatedAt :: time
  shr_UpdatedAt :: time

record Tombstone =
  tomb_ID :: TombstoneID
  tomb_ShareID :: ShareID
  tomb_RelativePath :: string
  tomb_DeletedByDeviceID :: DeviceID
  tomb_BaseRevisionID :: RevisionID
  tomb_TombstoneRevisionID :: RevisionID
  tomb_DeletedAt :: time
  tomb_ExpiresAt :: time

record AuditEvent =
  aud_ID :: string
  aud_EventName :: string
  aud_DeviceID :: DeviceID
  aud_PeerDeviceID :: DeviceID
  aud_ShareID :: ShareID
  aud_TransferID :: TransferID
  aud_RevisionID :: RevisionID
  aud_TransportType :: string
  aud_Severity :: string
  aud_Metadata :: "(string \<times> string) list"
  aud_OccurredAt :: time

record ControlPlaneGrant =
  cpg_DeviceID :: DeviceID
  cpg_ReadStatus :: bool
  cpg_GrantedAt :: time
  cpg_ExpiresAt :: time
  cpg_RevokedAt :: time

record NodeStatusReplica =
  nsr_DeviceID :: DeviceID
  nsr_Revision :: int
  nsr_Watermark :: string
  nsr_Protocol :: string
  nsr_SnapshotJSON :: string
  nsr_Digest :: string
  nsr_ObservedAt :: time
  nsr_ExpiresAt :: time
  nsr_ReceivedAt :: time

record PairingAcceptance =
  pa_InviteID :: string
  pa_Device :: Device
  pa_Permissions :: "SharePermission list"
  pa_ControlPlaneGrant :: "ControlPlaneGrant option"
  pa_AuditEvent :: AuditEvent
  pa_AcceptedAt :: time

record PairingRow =
  pr_InviteID :: string
  pr_PeerDeviceID :: DeviceID
  pr_Fingerprint :: string
  pr_AuditID :: string
  pr_AcceptedAt :: time

section \<open>The database\<close>

record DB =
  db_devices :: "Device list"
  db_shares :: "Share list"
  db_permissions :: "SharePermission list"
  db_revisions :: "Revision list"
  db_file_index :: "FileIndexEntry list"
  db_tombstones :: "Tombstone list"
  db_transfers :: "Transfer list"
  db_chunks :: "TransferChunk list"
  db_jobs :: "OneWayJob list"
  db_audit :: "AuditEvent list"
  db_pairings :: "PairingRow list"
  db_grants :: "ControlPlaneGrant list"
  db_replicas :: "NodeStatusReplica list"

definition empty_db :: DB where
  "empty_db = \<lparr> db_devices = [], db_shares = [], db_permissions = [], db_revisions = [],
     db_file_index = [], db_tombstones = [], db_transfers = [], db_chunks = [], db_jobs = [],
     db_audit = [], db_pairings = [], db_grants = [], db_replicas = [] \<rparr>"

datatype store_error =
  StoreNotFound string | StoreConstraint string | StoreInvalid string | StoreConflict string
| StoreDenied string

definition perm_key :: "SharePermission \<Rightarrow> ShareID \<times> DeviceID" where
  "perm_key p = (perm_ShareID p, perm_DeviceID p)"

definition device_exists :: "DB \<Rightarrow> DeviceID \<Rightarrow> bool" where
  "device_exists db dev = row_exists dev_ID dev (db_devices db)"

definition share_exists :: "DB \<Rightarrow> ShareID \<Rightarrow> bool" where
  "share_exists db share = row_exists shr_ID share (db_shares db)"

text \<open>\<open>formatTime\<close> writes the clock for the zero time.\<close>

definition stored_time :: "time \<Rightarrow> time \<Rightarrow> time" where
  "stored_time now t = (if t = 0 then now else t)"

section \<open>Devices and shares\<close>

definition valid_trust :: "TrustState \<Rightarrow> bool" where
  "valid_trust st = (case st of TrustOther _ \<Rightarrow> False | _ \<Rightarrow> True)"

definition fingerprint_taken :: "DB \<Rightarrow> Device \<Rightarrow> bool" where
  "fingerprint_taken db device =
     list_ex (\<lambda>d. dev_Fingerprint d = dev_Fingerprint device \<and> dev_ID d \<noteq> dev_ID device) (db_devices db)"

definition TrustDevice :: "time \<Rightarrow> DB \<Rightarrow> Device \<Rightarrow> store_error + DB" where
  "TrustDevice now db device =
     (let trust = (if dev_TrustState device = TrustOther [] then TrustTrusted else dev_TrustState device);
          row = device\<lparr> dev_CreatedAt := stored_time now (dev_CreatedAt device),
                        dev_UpdatedAt := stored_time now (dev_UpdatedAt device),
                        dev_TrustState := trust \<rparr> in
      if \<not> valid_trust trust then Inl (StoreConstraint ''devices.trust_state'')
      else if fingerprint_taken db device then Inl (StoreConstraint ''devices.fingerprint'')
      else Inr (db\<lparr>db_devices :=
             row_upsert dev_ID (\<lambda>old. row\<lparr>dev_CreatedAt := dev_CreatedAt old\<rparr>) row (db_devices db)\<rparr>))"

definition RevokeDevice :: "time \<Rightarrow> DB \<Rightarrow> DeviceID \<Rightarrow> store_error + DB" where
  "RevokeDevice now db dev =
     (if \<not> device_exists db dev then Inl (StoreNotFound ''device'')
      else Inr (db\<lparr>db_devices :=
             row_update (\<lambda>d. dev_ID d = dev)
               (\<lambda>d. d\<lparr>dev_TrustState := TrustRevoked, dev_UpdatedAt := now\<rparr>) (db_devices db)\<rparr>))"

definition GetDevice :: "DB \<Rightarrow> DeviceID \<Rightarrow> store_error + Device" where
  "GetDevice db dev =
     (case row_lookup dev_ID dev (db_devices db) of
        None \<Rightarrow> Inl (StoreNotFound ''device'') | Some d \<Rightarrow> Inr d)"

definition valid_mode :: "ShareMode \<Rightarrow> bool" where
  "valid_mode mode = (case mode of ShareModeOther _ \<Rightarrow> False | _ \<Rightarrow> True)"

definition SaveShare :: "time \<Rightarrow> DB \<Rightarrow> Share \<Rightarrow> store_error + DB" where
  "SaveShare now db share =
     (let row = share\<lparr>
            shr_CreatedAt := stored_time now (shr_CreatedAt share),
            shr_UpdatedAt := stored_time now (shr_UpdatedAt share),
            shr_CasePolicy := (if shr_CasePolicy share = [] then ''windows_case_insensitive''
                               else shr_CasePolicy share),
            shr_VersionPolicy := (if shr_VersionPolicy share = [] then ''disabled''
                                  else shr_VersionPolicy share),
            shr_DeletionLimitCount := (if shr_DeletionLimitCount share = 0 then 100
                                       else shr_DeletionLimitCount share),
            shr_DeletionLimitPercent := (if shr_DeletionLimitPercent share = 0 then 10
                                         else shr_DeletionLimitPercent share) \<rparr> in
      if \<not> valid_mode (shr_Mode share) then Inl (StoreConstraint ''shares.mode'')
      else Inr (db\<lparr>db_shares :=
             row_upsert shr_ID (\<lambda>old. row\<lparr>shr_CreatedAt := shr_CreatedAt old\<rparr>) row (db_shares db)\<rparr>))"

section \<open>Permissions\<close>

text \<open>A row has one column for each share capability; other capabilities are not stored.\<close>

definition permission_row :: "SharePermission \<Rightarrow> SharePermission" where
  "permission_row p =
     p\<lparr>perm_Capabilities := map (\<lambda>c. (c, perm_has p c)) ShareCapabilities\<rparr>"

definition put_permission :: "DB \<Rightarrow> SharePermission \<Rightarrow> DB" where
  "put_permission db p =
     db\<lparr>db_permissions :=
          row_upsert perm_key (\<lambda>_. permission_row p) (permission_row p) (db_permissions db)\<rparr>"

definition SetPermission :: "DB \<Rightarrow> SharePermission \<Rightarrow> store_error + DB" where
  "SetPermission db p =
     (if \<not> share_exists db (perm_ShareID p) \<or> \<not> device_exists db (perm_DeviceID p)
      then Inl (StoreConstraint ''share_permissions foreign key'')
      else Inr (put_permission db p))"

definition capabilityColumn :: "Capability \<Rightarrow> store_error + Capability" where
  "capabilityColumn capability =
     (if capability \<in> set ShareCapabilities then Inr capability
      else Inl (StoreInvalid ''unsupported capability''))"

definition Authorize ::
  "DB \<Rightarrow> DeviceID \<Rightarrow> ShareID \<Rightarrow> Capability \<Rightarrow> bool \<Rightarrow> store_error + unit" where
  "Authorize db deviceID shareID capability remote =
     rbind (capabilityColumn capability) (\<lambda>column.
     case (row_lookup perm_key (shareID, deviceID) (db_permissions db),
           row_lookup dev_ID deviceID (db_devices db)) of
       (Some p, Some d) \<Rightarrow>
         if dev_TrustState d \<noteq> TrustTrusted then Inl (StoreDenied ''device is not trusted'')
         else if \<not> perm_has p column then Inl (StoreDenied ''device lacks permission'')
         else if remote \<and> perm_LANOnly p then Inl (StoreDenied ''share is LAN-only'')
         else ok
     | _ \<Rightarrow> Inl (StoreNotFound ''share permission''))"

section \<open>Audit events and pairings\<close>

definition validateAuditEvent :: "AuditEvent \<Rightarrow> store_error + unit" where
  "validateAuditEvent event =
     (if aud_ID event = [] \<or> aud_EventName event = [] \<or> aud_Severity event = [] \<or> aud_OccurredAt event = 0
      then Inl (StoreInvalid ''audit event ID, name, severity, and time are required'') else ok)"

definition recordAuditTx :: "time \<Rightarrow> DB \<Rightarrow> AuditEvent \<Rightarrow> store_error + DB" where
  "recordAuditTx now db event =
     (if row_exists aud_ID (aud_ID event) (db_audit db) then Inl (StoreConstraint ''audit_events.audit_id'')
      else Inr (db\<lparr>db_audit := db_audit db @
             [event\<lparr>aud_OccurredAt := stored_time now (aud_OccurredAt event)\<rparr>]\<rparr>))"

definition Record :: "time \<Rightarrow> DB \<Rightarrow> AuditEvent \<Rightarrow> store_error + DB" where
  "Record now db event = rbind (validateAuditEvent event) (\<lambda>_. recordAuditTx now db event)"

definition validatePairingAcceptance :: "PairingAcceptance \<Rightarrow> store_error + unit" where
  "validatePairingAcceptance acceptance =
     (let device = pa_Device acceptance in
      if pa_InviteID acceptance = [] \<or> dev_ID device = [] \<or> dev_DisplayName device = [] \<or>
         dev_PublicKey device = [] \<or> dev_Fingerprint device = []
      then Inl (StoreInvalid ''pairing acceptance identity fields are required'')
      else if pa_AcceptedAt acceptance = 0 then Inl (StoreInvalid ''pairing acceptance time is required'')
      else if aud_PeerDeviceID (pa_AuditEvent acceptance) \<noteq> dev_ID device
      then Inl (StoreInvalid ''pairing acceptance audit peer does not match accepted device'')
      else validateAuditEvent (pa_AuditEvent acceptance))"

definition setPermissionTx :: "DB \<Rightarrow> SharePermission \<Rightarrow> store_error + DB" where
  "setPermissionTx db p =
     (if perm_ShareID p = [] \<or> perm_DeviceID p = []
      then Inl (StoreInvalid ''pairing permission share and device are required'')
      else if list_ex (\<lambda>(c, _). \<not> IsShareCapability c) (perm_Capabilities p)
      then Inl (StoreInvalid ''unsupported pairing capability'')
      else SetPermission db p)"

fun accept_permissions ::
  "DeviceID \<Rightarrow> ShareID list \<Rightarrow> DB \<Rightarrow> SharePermission list \<Rightarrow> store_error + DB" where
  "accept_permissions dev seen db [] = Inr db"
| "accept_permissions dev seen db (p # ps) =
     (if perm_DeviceID p \<noteq> dev
      then Inl (StoreInvalid ''pairing permission device does not match accepted peer'')
      else if perm_ShareID p \<in> set seen then Inl (StoreInvalid ''duplicate pairing permission'')
      else rbind (setPermissionTx db p) (\<lambda>db. accept_permissions dev (perm_ShareID p # seen) db ps))"

definition accept_grant :: "DeviceID \<Rightarrow> DB \<Rightarrow> ControlPlaneGrant option \<Rightarrow> store_error + DB" where
  "accept_grant dev db grant =
     (case grant of
        None \<Rightarrow> Inr db
      | Some g \<Rightarrow>
          if cpg_DeviceID g \<noteq> dev \<or> \<not> cpg_ReadStatus g \<or> cpg_GrantedAt g = 0 \<or>
             cpg_ExpiresAt g \<le> cpg_GrantedAt g \<or> cpg_RevokedAt g \<noteq> 0
          then Inl (StoreInvalid ''pairing control-plane grant is invalid'')
          else Inr (db\<lparr>db_grants := row_upsert cpg_DeviceID (\<lambda>_. g) g (db_grants db)\<rparr>))"

text \<open>
  The upsert of a paired device leaves the creation time and the last sighting of a stored one. The
  inner result tells whether the invitation had been accepted before.
\<close>

definition accept_device :: "time \<Rightarrow> PairingAcceptance \<Rightarrow> DB \<Rightarrow> store_error + DB" where
  "accept_device now acceptance db =
     (let device = pa_Device acceptance; acceptedAt = pa_AcceptedAt acceptance;
          row = device\<lparr> dev_TrustState := TrustTrusted,
                        dev_CreatedAt := (if dev_CreatedAt device = 0 then acceptedAt else dev_CreatedAt device),
                        dev_UpdatedAt := acceptedAt, dev_LastSeenAt := 0 \<rparr> in
      if fingerprint_taken db device then Inl (StoreConstraint ''devices.fingerprint'')
      else Inr (db\<lparr>db_devices :=
             row_upsert dev_ID
               (\<lambda>old. row\<lparr>dev_CreatedAt := dev_CreatedAt old, dev_LastSeenAt := dev_LastSeenAt old\<rparr>)
               row (db_devices db)\<rparr>))"

definition Accept :: "time \<Rightarrow> DB \<Rightarrow> PairingAcceptance \<Rightarrow> store_error + DB \<times> bool" where
  "Accept now db acceptance =
     rbind (validatePairingAcceptance acceptance) (\<lambda>_.
     let device = pa_Device acceptance; dev = dev_ID device in
     case row_lookup pr_InviteID (pa_InviteID acceptance) (db_pairings db) of
       Some pr \<Rightarrow>
         if pr_PeerDeviceID pr \<noteq> dev \<or> pr_Fingerprint pr \<noteq> dev_Fingerprint device
         then Inl (StoreConflict ''pairing invitation was already accepted for a different identity'')
         else Inr (db, True)
     | None \<Rightarrow>
         if (case row_lookup dev_ID dev (db_devices db) of
               None \<Rightarrow> False
             | Some old \<Rightarrow> dev_PublicKey old \<noteq> dev_PublicKey device \<or>
                           dev_Fingerprint old \<noteq> dev_Fingerprint device)
         then Inl (StoreConflict ''refusing to replace existing device identity material'')
         else
           rbind (accept_device now acceptance db) (\<lambda>db.
           rbind (accept_permissions dev [] db (pa_Permissions acceptance)) (\<lambda>db.
           rbind (accept_grant dev db (pa_ControlPlaneGrant acceptance)) (\<lambda>db.
           rbind (recordAuditTx now db (pa_AuditEvent acceptance)) (\<lambda>db.
           Inr (db\<lparr>db_pairings := db_pairings db @
                  [\<lparr> pr_InviteID = pa_InviteID acceptance, pr_PeerDeviceID = dev,
                     pr_Fingerprint = dev_Fingerprint device,
                     pr_AuditID = aud_ID (pa_AuditEvent acceptance),
                     pr_AcceptedAt = pa_AcceptedAt acceptance \<rparr>]\<rparr>, False))))))"

definition Revoke :: "time \<Rightarrow> DB \<Rightarrow> DeviceID \<Rightarrow> AuditEvent \<Rightarrow> time \<Rightarrow> store_error + DB \<times> bool" where
  "Revoke now db dev event revokedAt =
     (if dev = [] then Inl (StoreInvalid ''revoked device ID is required'')
      else if revokedAt = 0 then Inl (StoreInvalid ''revocation time is required'')
      else if aud_PeerDeviceID event \<noteq> dev
      then Inl (StoreInvalid ''pairing revocation audit peer does not match revoked device'')
      else rbind (validateAuditEvent event) (\<lambda>_.
        case row_lookup dev_ID dev (db_devices db) of
          None \<Rightarrow> Inl (StoreNotFound ''device'')
        | Some d \<Rightarrow>
            let db1 = db\<lparr> db_permissions := filter (\<lambda>p. perm_DeviceID p \<noteq> dev) (db_permissions db),
                          db_grants := row_update (\<lambda>g. cpg_DeviceID g = dev)
                            (\<lambda>g. g\<lparr>cpg_ReadStatus := False, cpg_RevokedAt := revokedAt\<rparr>) (db_grants db),
                          db_replicas := filter (\<lambda>r. nsr_DeviceID r \<noteq> dev) (db_replicas db) \<rparr> in
            if dev_TrustState d = TrustRevoked then Inr (db1, True)
            else
              rbind (recordAuditTx now
                       (db1\<lparr>db_devices := row_update (\<lambda>d. dev_ID d = dev)
                              (\<lambda>d. d\<lparr>dev_TrustState := TrustRevoked, dev_UpdatedAt := revokedAt\<rparr>)
                              (db_devices db1)\<rparr>) event)
                (\<lambda>db2. Inr (db2, False))))"

section \<open>Example data\<close>

definition example_device :: Device where
  "example_device = \<lparr> dev_ID = ''d'', dev_DisplayName = ''n'', dev_PublicKey = ''k'',
     dev_Fingerprint = ''f'', dev_TrustState = TrustPending, dev_CreatedAt = 0, dev_UpdatedAt = 0,
     dev_LastSeenAt = 0 \<rparr>"

definition example_share :: Share where
  "example_share = \<lparr> shr_ID = ''s'', shr_Name = ''s'', shr_RootPath = ''/s'', shr_Mode = ShareOneWayTarget,
     shr_CasePolicy = [], shr_VersionPolicy = [], shr_DeletionLimitCount = 0,
     shr_DeletionLimitPercent = 0, shr_CreatedAt = 1, shr_UpdatedAt = 1 \<rparr>"

definition example_audit :: AuditEvent where
  "example_audit = \<lparr> aud_ID = ''a'', aud_EventName = ''paired'', aud_DeviceID = [],
     aud_PeerDeviceID = ''d'', aud_ShareID = [], aud_TransferID = [], aud_RevisionID = [],
     aud_TransportType = [], aud_Severity = ''info'', aud_Metadata = [], aud_OccurredAt = 5 \<rparr>"

definition example_acceptance :: PairingAcceptance where
  "example_acceptance = \<lparr> pa_InviteID = ''i'', pa_Device = example_device,
     pa_Permissions = [\<lparr> perm_ShareID = ''s'', perm_DeviceID = ''d'',
       perm_Capabilities = [(CapabilitySync, True)], perm_LANOnly = True \<rparr>],
     pa_ControlPlaneGrant = None, pa_AuditEvent = example_audit, pa_AcceptedAt = 7 \<rparr>"

section \<open>Stored permissions\<close>

lemma perm_key_row [simp]: "perm_key (permission_row p) = perm_key p"
  by (simp add: perm_key_def permission_row_def)

lemma perm_LANOnly_row [simp]: "perm_LANOnly (permission_row p) = perm_LANOnly p"
  by (simp add: permission_row_def)

lemma perm_has_row [simp]: "perm_has (permission_row p) c \<longleftrightarrow> c \<in> set ShareCapabilities \<and> perm_has p c"
  by (auto simp: perm_has_def permission_row_def map_of_map_restrict restrict_map_def)

definition permission_of :: "DB \<Rightarrow> ShareID \<times> DeviceID \<Rightarrow> SharePermission option" where
  "permission_of db k = row_lookup perm_key k (db_permissions db)"

interpretation perms: keyed_store permission_of put_permission perm_key permission_row
proof
  fix db p k
  show "permission_of (put_permission db p) k =
    (if k = perm_key p then Some (permission_row p) else permission_of db k)"
    unfolding permission_of_def put_permission_def
    by (simp add: row_lookup_upsert split: option.splits)
qed

lemma put_all_frame:
  "db_devices (perms.put_all ps db) = db_devices db" "db_shares (perms.put_all ps db) = db_shares db"
  "db_audit (perms.put_all ps db) = db_audit db" "db_pairings (perms.put_all ps db) = db_pairings db"
  unfolding perms.put_all_def by (induction ps arbitrary: db) (simp_all add: put_permission_def)

lemma put_permission_exists [simp]:
  "share_exists (put_permission db p) = share_exists db" "device_exists (put_permission db p) = device_exists db"
  by (simp_all add: share_exists_def device_exists_def put_permission_def fun_eq_iff)

lemma accept_permissions_Inr:
  "accept_permissions dev seen db ps = Inr db' \<Longrightarrow>
   db' = perms.put_all ps db \<and> distinct (map perm_key ps) \<and> (\<forall>p\<in>set ps. perm_DeviceID p = dev) \<and>
   (\<forall>p\<in>set ps. share_exists db (perm_ShareID p)) \<and>
   set seen \<inter> perm_ShareID ` set ps = {}"
proof (induction ps arbitrary: seen db)
  case (Cons p ps)
  then have p: "perm_DeviceID p = dev" "perm_ShareID p \<notin> set seen" "share_exists db (perm_ShareID p)"
    and rest: "accept_permissions dev (perm_ShareID p # seen) (put_permission db p) ps = Inr db'"
    by (auto simp: rbind_eq_Inr setPermissionTx_def SetPermission_def split: if_splits)
  from Cons.IH [OF rest] p show ?case
    by (auto simp: perms.put_all_def perm_key_def)
qed (simp add: perms.put_all_def)

lemma Authorize_ok:
  "Authorize db dev share cap remote = Inr u \<longleftrightarrow>
     cap \<in> set ShareCapabilities \<and>
     (\<exists>p d. permission_of db (share, dev) = Some p \<and> row_lookup dev_ID dev (db_devices db) = Some d \<and>
        dev_TrustState d = TrustTrusted \<and> perm_has p cap \<and> (remote \<longrightarrow> \<not> perm_LANOnly p))"
  by (auto simp: Authorize_def permission_of_def rbind_eq_Inr capabilityColumn_def split: option.splits if_splits)

section \<open>Acceptance and revocation\<close>

lemma accept_grant_frame:
  "accept_grant dev db g = Inr db' \<Longrightarrow>
   db_devices db' = db_devices db \<and> db_permissions db' = db_permissions db \<and>
   db_audit db' = db_audit db \<and> db_pairings db' = db_pairings db"
  by (auto simp: accept_grant_def split: option.splits if_splits)

lemma recordAuditTx_frame:
  "recordAuditTx now db e = Inr db' \<Longrightarrow>
   db_devices db' = db_devices db \<and> db_permissions db' = db_permissions db \<and>
   db_grants db' = db_grants db \<and> db_pairings db' = db_pairings db \<and> row_exists aud_ID (aud_ID e) (db_audit db')"
  by (auto simp: recordAuditTx_def row_exists_mem split: if_splits)

lemma accept_device_lookup:
  assumes "accept_device now a db = Inr db'"
  shows "db_permissions db' = db_permissions db" and "db_pairings db' = db_pairings db"
    and "\<exists>d. row_lookup dev_ID (dev_ID (pa_Device a)) (db_devices db') = Some d \<and>
      dev_TrustState d = TrustTrusted \<and> dev_PublicKey d = dev_PublicKey (pa_Device a) \<and>
      dev_Fingerprint d = dev_Fingerprint (pa_Device a)"
    and "k \<noteq> dev_ID (pa_Device a) \<Longrightarrow>
      row_lookup dev_ID k (db_devices db') = row_lookup dev_ID k (db_devices db)"
  using assms by (auto simp: accept_device_def Let_def row_lookup_upsert split: if_splits option.splits)

lemma Accept_new:
  assumes "Accept now db a = Inr (db', False)"
  obtains db1 where "accept_device now a db = Inr db1"
    "db_devices db' = db_devices db1" "db_permissions db' = db_permissions (perms.put_all (pa_Permissions a) db1)"
    "distinct (map perm_key (pa_Permissions a))" "\<forall>p\<in>set (pa_Permissions a). perm_DeviceID p = dev_ID (pa_Device a)"
    "row_exists pr_InviteID (pa_InviteID a) (db_pairings db')"
    "\<forall>old. row_lookup dev_ID (dev_ID (pa_Device a)) (db_devices db) = Some old \<longrightarrow>
       dev_PublicKey old = dev_PublicKey (pa_Device a) \<and> dev_Fingerprint old = dev_Fingerprint (pa_Device a)"
proof -
  let ?dev = "dev_ID (pa_Device a)"
  obtain db1 db2 db3 db4 where steps: "accept_device now a db = Inr db1"
    "accept_permissions ?dev [] db1 (pa_Permissions a) = Inr db2"
    "accept_grant ?dev db2 (pa_ControlPlaneGrant a) = Inr db3"
    "recordAuditTx now db3 (pa_AuditEvent a) = Inr db4"
    and db': "db_devices db' = db_devices db4" "db_permissions db' = db_permissions db4"
      "row_exists pr_InviteID (pa_InviteID a) (db_pairings db')"
    and same: "\<forall>old. row_lookup dev_ID ?dev (db_devices db) = Some old \<longrightarrow>
       dev_PublicKey old = dev_PublicKey (pa_Device a) \<and> dev_Fingerprint old = dev_Fingerprint (pa_Device a)"
    using assms
    by (auto simp: Accept_def Let_def rbind_eq_Inr row_exists_mem split: option.splits if_splits)
  note perms = accept_permissions_Inr [OF steps(2)]
  show thesis
  proof (rule that [OF steps(1)])
    show "db_devices db' = db_devices db1"
      using db' perms accept_grant_frame [OF steps(3)] recordAuditTx_frame [OF steps(4)]
      by (simp add: put_all_frame)
    show "db_permissions db' = db_permissions (perms.put_all (pa_Permissions a) db1)"
      using db' perms accept_grant_frame [OF steps(3)] recordAuditTx_frame [OF steps(4)] by simp
  qed (use perms db' same in auto)
qed

lemma Accept_replay:
  assumes "Accept now db a = Inr (db', again)" and "row_exists pr_InviteID (pa_InviteID a) (db_pairings db)"
  shows "db' = db \<and> again"
proof -
  obtain row where "row_lookup pr_InviteID (pa_InviteID a) (db_pairings db) = Some row"
    using assms(2) by (auto simp: row_exists_iff)
  then show ?thesis using assms(1) by (auto simp: Accept_def rbind_eq_Inr Let_def split: if_splits)
qed

section \<open>Properties\<close>



text \<open>
  C5. Revocation is final. After a revocation nothing is authorised for the device on any share,
  its status grant is withdrawn, no other device loses or gains an authorisation, and accepting an
  invitation again that had been accepted before leaves the database as it is.
\<close>

theorem Revoke_denies:
  assumes "Revoke now db dev event revokedAt = Inr (db', already)"
  shows "(\<forall>share c remote. Authorize db' dev share c remote \<noteq> ok) \<and>
    (\<forall>g\<in>set (db_grants db'). cpg_DeviceID g = dev \<longrightarrow> \<not> cpg_ReadStatus g) \<and>
    (\<forall>other share c remote. other \<noteq> dev \<longrightarrow>
       (Authorize db' other share c remote = ok \<longleftrightarrow> Authorize db other share c remote = ok)) \<and>
    (\<forall>a db2 again. row_exists pr_InviteID (pa_InviteID a) (db_pairings db) \<longrightarrow>
       Accept now' db' a = Inr (db2, again) \<longrightarrow> db2 = db' \<and> again)"
proof -
  have perms: "db_permissions db' = filter (\<lambda>p. perm_DeviceID p \<noteq> dev) (db_permissions db)"
    and pairs: "db_pairings db' = db_pairings db"
    and grants: "db_grants db' = row_update (\<lambda>g. cpg_DeviceID g = dev)
                            (\<lambda>g. g\<lparr>cpg_ReadStatus := False, cpg_RevokedAt := revokedAt\<rparr>) (db_grants db)"
    and devs: "db_devices db' = db_devices db \<or> db_devices db' = row_update (\<lambda>d. dev_ID d = dev)
                (\<lambda>d. d\<lparr>dev_TrustState := TrustRevoked, dev_UpdatedAt := revokedAt\<rparr>) (db_devices db)"
    using assms
    by (auto simp: Revoke_def Let_def rbind_eq_Inr split: if_splits option.splits dest!: recordAuditTx_frame)
  have none: "permission_of db' (share, dev) = None" for share
    by (auto simp: permission_of_def perms row_lookup_None perm_key_def)
  have same: "row_lookup dev_ID other (db_devices db') = row_lookup dev_ID other (db_devices db)"
    if "other \<noteq> dev" for other
    using devs that
    by (cases "row_lookup dev_ID other (db_devices db)")
      (auto simp: row_lookup_update dest: row_lookup_SomeD)
  have keep: "permission_of db' (share, other) = permission_of db (share, other)" if "other \<noteq> dev" for share other
    unfolding permission_of_def perms
    by (rule row_lookup_filter) (use that in \<open>auto simp: perm_key_def\<close>)
  have "Authorize db' dev share c remote \<noteq> ok" for share c remote
    by (simp add: Authorize_ok none)
  moreover have "\<forall>g\<in>set (db_grants db'). cpg_DeviceID g = dev \<longrightarrow> \<not> cpg_ReadStatus g"
    unfolding grants ball_row_update by simp
  moreover have "Authorize db' other share c remote = ok \<longleftrightarrow> Authorize db other share c remote = ok"
    if "other \<noteq> dev" for other share c remote
    by (simp add: Authorize_ok keep [OF that] same [OF that])
  moreover have "db2 = db' \<and> again"
    if "row_exists pr_InviteID (pa_InviteID a) (db_pairings db)" "Accept now' db' a = Inr (db2, again)" for a db2 again
    by (rule Accept_replay [OF that(2)]) (simp add: pairs that(1))
  ultimately show ?thesis by blast
qed

theorem Revoke_denies_witness:
  "\<exists>db' already. Revoke 9 (empty_db\<lparr>db_devices := [example_device]\<rparr>) ''d'' example_audit 8 = Inr (db', already) \<and>
     Authorize db' ''d'' ''s'' CapabilitySync False \<noteq> ok"
proof -
  have "\<exists>db' already. Revoke 9 (empty_db\<lparr>db_devices := [example_device]\<rparr>) ''d'' example_audit 8 = Inr (db', already)"
    by (simp add: Revoke_def empty_db_def example_device_def example_audit_def validateAuditEvent_def
        recordAuditTx_def row_exists_def Let_def ex_bool_eq)
  then obtain db' already where r:
    "Revoke 9 (empty_db\<lparr>db_devices := [example_device]\<rparr>) ''d'' example_audit 8 = Inr (db', already)"
    by blast
  show ?thesis using r conjunct1 [OF Revoke_denies [OF r]] by blast
qed

end
