(* ===== verification/Index_Store.thy ===== *)
theory Index_Store
  imports Sync_Store Go_Time
begin

text \<open>
  The authoritative state of src/internal/storage/sqlite/store.go: revisions, the file index and
  tombstones. A Go map from paths to entries or revisions is the list of its values, whose paths are
  distinct; the order in which Go visits a map decides only which of several errors is reported.
\<close>

record TombstoneRequest =
  treq_ID :: TombstoneID
  treq_TombstoneRevisionID :: RevisionID
  treq_ExpiresAt :: time

record OneWayApplyCommit =
  oac_ShareID :: ShareID
  oac_Revision :: Revision
  oac_ExpectedCurrentRevisionID :: RevisionID
  oac_Entry :: "FileIndexEntry option"
  oac_Tombstone :: "TombstoneRequest option"
  oac_AppliedAt :: time
  oac_AllowTargetDrift :: bool

record OneWayApplyCommitResult =
  oar_Tombstone :: "Tombstone option"
  oar_AlreadyApplied :: bool

definition fie_key :: "FileIndexEntry \<Rightarrow> ShareID \<times> string" where
  "fie_key e = (fie_ShareID e, fie_RelativePath e)"

definition revision_exists :: "DB \<Rightarrow> RevisionID \<Rightarrow> bool" where
  "revision_exists db r = row_exists rev_ID r (db_revisions db)"

text \<open>A nullable foreign key: the empty identifier is stored as null.\<close>

definition revision_ref :: "DB \<Rightarrow> RevisionID \<Rightarrow> bool" where
  "revision_ref db r = (r = [] \<or> revision_exists db r)"

section \<open>Revisions\<close>

definition stored_type :: "EntryType \<Rightarrow> bool" where
  "stored_type t = (case t of EntryOther _ \<Rightarrow> False | _ \<Rightarrow> True)"

definition insertRevision :: "time \<Rightarrow> DB \<Rightarrow> Revision \<Rightarrow> store_error + DB" where
  "insertRevision now db revision =
     (if row_exists rev_ID (rev_ID revision) (db_revisions db) then Inl (StoreConstraint ''revisions.revision_id'')
      else if \<not> stored_type (rev_EntryType revision) then Inl (StoreConstraint ''revisions.entry_type'')
      else if \<not> share_exists db (rev_ShareID revision) \<or>
              \<not> (revision_ref db (rev_ParentRevisionID revision) \<or>
                 rev_ParentRevisionID revision = rev_ID revision)
      then Inl (StoreConstraint ''revisions foreign key'')
      else Inr (db\<lparr>db_revisions := db_revisions db @
             [revision\<lparr>rev_CreatedAt := stored_time now (rev_CreatedAt revision)\<rparr>]\<rparr>))"

definition RecordRevision :: "time \<Rightarrow> DB \<Rightarrow> Revision \<Rightarrow> store_error + DB" where
  "RecordRevision now db revision = insertRevision now db revision"

definition GetRevision :: "DB \<Rightarrow> RevisionID \<Rightarrow> store_error + Revision" where
  "GetRevision db revID =
     (case row_lookup rev_ID revID (db_revisions db) of
        None \<Rightarrow> Inl (StoreNotFound ''revision'') | Some r \<Rightarrow> Inr r)"

definition index_row_of :: "DB \<Rightarrow> ShareID \<times> string \<Rightarrow> FileIndexEntry option" where
  "index_row_of db k = row_lookup fie_key k (db_file_index db)"

definition GetCurrentRevision :: "DB \<Rightarrow> ShareID \<Rightarrow> string \<Rightarrow> store_error + Revision" where
  "GetCurrentRevision db shareID relativePath =
     (case index_row_of db (shareID, relativePath) of
        None \<Rightarrow> Inl (StoreNotFound ''current revision'')
      | Some i \<Rightarrow>
          if fie_CurrentRevisionID i = [] then Inl (StoreNotFound ''current revision'')
          else case row_lookup rev_ID (fie_CurrentRevisionID i) (db_revisions db) of
            None \<Rightarrow> Inl (StoreNotFound ''current revision'') | Some r \<Rightarrow> Inr r)"

definition MaxSequence :: "DB \<Rightarrow> DeviceID \<Rightarrow> int" where
  "MaxSequence db originDeviceID =
     (case map rev_Sequence (filter (\<lambda>r. rev_OriginDeviceID r = originDeviceID) (db_revisions db)) of
        [] \<Rightarrow> 0 | s # ss \<Rightarrow> foldl max s ss)"

section \<open>Validation of a commit\<close>

definition validActiveEntryType :: "EntryType \<Rightarrow> bool" where
  "validActiveEntryType t =
     (case t of EntryFile \<Rightarrow> True | EntryDirectory \<Rightarrow> True | EntrySymlinkUnsupported \<Rightarrow> True | _ \<Rightarrow> False)"

definition commit_entry_ok :: "ShareID \<Rightarrow> FileIndexEntry \<Rightarrow> store_error + unit" where
  "commit_entry_ok shareID entry =
     (if fie_ShareID entry = [] then Inl (StoreInvalid ''file index entry has empty share id'')
      else if fie_ShareID entry \<noteq> shareID then Inl (StoreInvalid ''file index entry belongs to another share'')
      else if TrimSpace (fie_RelativePath entry) = []
      then Inl (StoreInvalid ''file index entry relative path is required'')
      else if fie_RelativePath entry \<noteq> TrimSpace (fie_RelativePath entry)
      then Inl (StoreInvalid ''file index entry path is not normalized'')
      else if \<not> validActiveEntryType (fie_EntryType entry)
      then Inl (StoreInvalid ''file index entry has invalid entry type'')
      else if fie_IsDeleted entry \<or> fie_DeletedAt entry \<noteq> 0
      then Inl (StoreInvalid ''active snapshot entry cannot be marked deleted'')
      else ok)"

definition validateCommitEntries :: "ShareID \<Rightarrow> FileIndexEntry list \<Rightarrow> store_error + FileIndexEntry list" where
  "validateCommitEntries shareID entries =
     distinct_loop (commit_entry_ok shareID) fie_RelativePath
       (StoreInvalid ''file index snapshot contains duplicate path'') [] entries"

definition commit_revision_ok :: "ShareID \<Rightarrow> Revision \<Rightarrow> store_error + unit" where
  "commit_revision_ok shareID revision =
     (if rev_ID revision = [] then Inl (StoreInvalid ''revision id is required'')
      else if rev_ShareID revision = [] then Inl (StoreInvalid ''revision has empty share id'')
      else if rev_ShareID revision \<noteq> shareID then Inl (StoreInvalid ''revision belongs to another share'')
      else if TrimSpace (rev_RelativePath revision) = []
      then Inl (StoreInvalid ''revision relative path is required'')
      else if rev_RelativePath revision \<noteq> TrimSpace (rev_RelativePath revision)
      then Inl (StoreInvalid ''revision path is not normalized'')
      else if rev_OriginDeviceID revision = [] then Inl (StoreInvalid ''revision origin device id is required'')
      else if rev_Sequence revision \<le> 0 then Inl (StoreInvalid ''revision sequence must be positive'')
      else if rev_CreatedAt revision = 0 then Inl (StoreInvalid ''revision creation time is required'')
      else ok)"

definition validateCommitRevisions :: "ShareID \<Rightarrow> Revision list \<Rightarrow> store_error + Revision list" where
  "validateCommitRevisions shareID revisions =
     distinct_loop (commit_revision_ok shareID) rev_RelativePath
       (StoreInvalid ''multiple revisions supplied for path'') [] revisions"

definition validateCurrentRevision ::
  "Revision \<Rightarrow> FileIndexEntry \<Rightarrow> FileIndexEntry \<Rightarrow> store_error + unit" where
  "validateCurrentRevision revision entry previous =
     (if rev_IsDeleted revision \<or> rev_EntryType revision = EntryDeleted
      then Inl (StoreInvalid ''revision for active path is marked deleted'')
      else if rev_EntryType revision \<noteq> fie_EntryType entry \<or> rev_Size revision \<noteq> fie_Size entry \<or>
              rev_ContentHash revision \<noteq> fie_ContentHash entry \<or>
              rev_HashAlgorithm revision \<noteq> fie_HashAlgorithm entry
      then Inl (StoreInvalid ''revision does not match file index entry'')
      else if rev_ParentRevisionID revision \<noteq> fie_CurrentRevisionID previous
      then Inl (StoreConflict ''revision parent is not the current revision'')
      else if fie_CurrentRevisionID entry \<noteq> [] \<and> fie_CurrentRevisionID entry \<noteq> rev_ID revision
      then Inl (StoreConflict ''file index entry points to another revision'')
      else ok)"

definition validateDeletionRevision :: "Revision \<Rightarrow> FileIndexEntry \<Rightarrow> store_error + unit" where
  "validateDeletionRevision revision previous =
     (if \<not> rev_IsDeleted revision \<or> rev_EntryType revision \<noteq> EntryDeleted
      then Inl (StoreInvalid ''revision for deleted path is not a deletion revision'')
      else if rev_ParentRevisionID revision \<noteq> fie_CurrentRevisionID previous
      then Inl (StoreConflict ''deletion revision parent is not the current revision'')
      else if rev_Size revision \<noteq> 0 \<or> rev_ContentHash revision \<noteq> [] \<or> rev_HashAlgorithm revision \<noteq> []
      then Inl (StoreInvalid ''deletion revision contains file content metadata'')
      else ok)"

definition fileIndexEntriesEquivalent :: "FileIndexEntry \<Rightarrow> FileIndexEntry \<Rightarrow> bool" where
  "fileIndexEntriesEquivalent previous current =
     (if fie_IsDeleted previous \<or> fie_EntryType previous \<noteq> fie_EntryType current then False
      else case fie_EntryType previous of
        EntryFile \<Rightarrow> fie_Size previous = fie_Size current \<and>
          fie_ContentHash previous = fie_ContentHash current \<and>
          fie_HashAlgorithm previous = fie_HashAlgorithm current
      | EntrySymlinkUnsupported \<Rightarrow> fie_FileIdentity previous = fie_FileIdentity current
      | _ \<Rightarrow> True)"

section \<open>Tombstones and index rows\<close>

definition insertTombstone :: "time \<Rightarrow> DB \<Rightarrow> Tombstone \<Rightarrow> store_error + DB" where
  "insertTombstone now db tombstone =
     (if row_exists tomb_ID (tomb_ID tombstone) (db_tombstones db)
      then Inl (StoreConstraint ''tombstones.tombstone_id'')
      else if \<not> share_exists db (tomb_ShareID tombstone) \<or> \<not> revision_ref db (tomb_BaseRevisionID tombstone) \<or>
              \<not> revision_exists db (tomb_TombstoneRevisionID tombstone)
      then Inl (StoreConstraint ''tombstones foreign key'')
      else Inr (db\<lparr>db_tombstones := db_tombstones db @
             [tombstone\<lparr>tomb_DeletedAt := stored_time now (tomb_DeletedAt tombstone)\<rparr>]\<rparr>))"

fun tombstone_requests_loop ::
  "TombstoneID list \<Rightarrow> RevisionID list \<Rightarrow> TombstoneRequest list \<Rightarrow> store_error + unit" where
  "tombstone_requests_loop seenIDs seenRevisions [] = ok"
| "tombstone_requests_loop seenIDs seenRevisions (request # requests) =
     (if treq_ID request = [] then Inl (StoreInvalid ''tombstone request id is required'')
      else if treq_TombstoneRevisionID request = []
      then Inl (StoreInvalid ''tombstone request revision id is required'')
      else if treq_ID request \<in> set seenIDs then Inl (StoreInvalid ''duplicate tombstone request id'')
      else if treq_TombstoneRevisionID request \<in> set seenRevisions
      then Inl (StoreInvalid ''duplicate tombstone request revision'')
      else tombstone_requests_loop (treq_ID request # seenIDs)
             (treq_TombstoneRevisionID request # seenRevisions) requests)"

definition validateTombstoneRequests :: "TombstoneRequest list \<Rightarrow> store_error + unit" where
  "validateTombstoneRequests requests = tombstone_requests_loop [] [] requests"

text \<open>
  Two accepted revisions with one identifier make the insertion of revisions fail afterwards, so it
  does not matter which of them Go finds first.
\<close>

definition build_tombstone :: "ShareID \<Rightarrow> Revision list \<Rightarrow> TombstoneRequest \<Rightarrow> store_error + Tombstone" where
  "build_tombstone shareID acceptedByPath request =
     (case row_lookup rev_ID (treq_TombstoneRevisionID request) acceptedByPath of
        None \<Rightarrow> Inl (StoreInvalid ''tombstone request revision is not part of the accepted snapshot'')
      | Some revision \<Rightarrow>
          if rev_ShareID revision \<noteq> shareID
          then Inl (StoreInvalid ''tombstone request revision belongs to another share'')
          else if rev_EntryType revision \<noteq> EntryDeleted \<or> \<not> rev_IsDeleted revision
          then Inl (StoreInvalid ''tombstone request revision is not a deletion revision'')
          else if rev_CreatedAt revision = 0
          then Inl (StoreInvalid ''tombstone request revision has no creation time'')
          else if treq_ExpiresAt request \<noteq> 0 \<and> treq_ExpiresAt request < rev_CreatedAt revision
          then Inl (StoreInvalid ''tombstone request expires before deletion'')
          else Inr \<lparr> tomb_ID = treq_ID request, tomb_ShareID = shareID,
                     tomb_RelativePath = rev_RelativePath revision,
                     tomb_DeletedByDeviceID = rev_OriginDeviceID revision,
                     tomb_BaseRevisionID = rev_ParentRevisionID revision,
                     tomb_TombstoneRevisionID = rev_ID revision,
                     tomb_DeletedAt = rev_CreatedAt revision,
                     tomb_ExpiresAt = treq_ExpiresAt request \<rparr>)"

definition buildAcceptedTombstones ::
  "ShareID \<Rightarrow> Revision list \<Rightarrow> TombstoneRequest list \<Rightarrow> store_error + Tombstone list" where
  "buildAcceptedTombstones shareID acceptedByPath requests =
     result_list (build_tombstone shareID acceptedByPath) requests"

definition index_row :: "time \<Rightarrow> time \<Rightarrow> FileIndexEntry \<Rightarrow> FileIndexEntry" where
  "index_row now scannedAt entry =
     entry\<lparr>fie_IsDeleted := False, fie_DeletedAt := 0,
           fie_LastScannedAt := stored_time now
             (if fie_LastScannedAt entry = 0 then scannedAt else fie_LastScannedAt entry)\<rparr>"

definition put_row :: "time \<Rightarrow> time \<Rightarrow> DB \<Rightarrow> FileIndexEntry \<Rightarrow> DB" where
  "put_row now scannedAt db entry =
     (let row = index_row now scannedAt entry in
      db\<lparr>db_file_index := row_upsert fie_key (\<lambda>_. row) row (db_file_index db)\<rparr>)"

definition upsertFileIndexEntry ::
  "time \<Rightarrow> DB \<Rightarrow> ShareID \<Rightarrow> FileIndexEntry \<Rightarrow> time \<Rightarrow> store_error + DB" where
  "upsertFileIndexEntry now db shareID entry scannedAt =
     (if \<not> share_exists db shareID \<or> \<not> revision_ref db (fie_CurrentRevisionID entry)
      then Inl (StoreConstraint ''file_index foreign key'')
      else Inr (put_row now scannedAt db (entry\<lparr>fie_ShareID := shareID\<rparr>)))"

definition listFileIndexEntries :: "DB \<Rightarrow> ShareID \<Rightarrow> FileIndexEntry list" where
  "listFileIndexEntries db shareID = filter (\<lambda>e. fie_ShareID e = shareID) (db_file_index db)"

definition deleted_row :: "time \<Rightarrow> time \<Rightarrow> RevisionID \<Rightarrow> FileIndexEntry \<Rightarrow> FileIndexEntry" where
  "deleted_row now at revID e =
     e\<lparr>fie_EntryType := EntryDeleted, fie_CurrentRevisionID := revID, fie_IsDeleted := True,
       fie_DeletedAt := stored_time now at, fie_LastScannedAt := stored_time now at\<rparr>"

text \<open>The \<open>UPDATE file_index\<close> that marks the path of a deletion revision deleted.\<close>

definition mark_deleted :: "time \<Rightarrow> ShareID \<Rightarrow> time \<Rightarrow> DB \<Rightarrow> Revision \<Rightarrow> store_error + DB" where
  "mark_deleted now shareID at db revision =
     (if \<not> revision_exists db (rev_ID revision) \<and>
         row_exists fie_key (shareID, rev_RelativePath revision) (db_file_index db)
      then Inl (StoreConstraint ''file_index foreign key'')
      else Inr (db\<lparr>db_file_index :=
             row_update (\<lambda>e. fie_key e = (shareID, rev_RelativePath revision))
               (deleted_row now at (rev_ID revision)) (db_file_index db)\<rparr>))"

section \<open>Committing a snapshot\<close>

definition previous_at :: "FileIndexEntry list \<Rightarrow> string \<Rightarrow> FileIndexEntry" where
  "previous_at previousByPath path =
     (case row_lookup fie_RelativePath path previousByPath of None \<Rightarrow> zero_FileIndexEntry | Some e \<Rightarrow> e)"

definition entry_changed :: "FileIndexEntry list \<Rightarrow> FileIndexEntry \<Rightarrow> bool" where
  "entry_changed previousByPath entry \<longleftrightarrow>
     \<not> row_exists fie_RelativePath (fie_RelativePath entry) previousByPath \<or>
     \<not> fileIndexEntriesEquivalent (previous_at previousByPath (fie_RelativePath entry)) entry"

text \<open>One pass of the loop over the scanned entries: the entry to store and the revision it accepts.\<close>

definition commit_entry ::
  "FileIndexEntry list \<Rightarrow> Revision list \<Rightarrow> FileIndexEntry \<Rightarrow> store_error + FileIndexEntry \<times> Revision list" where
  "commit_entry previousByPath revisionsByPath entry =
     (let path = fie_RelativePath entry; previous = previous_at previousByPath path;
          changed = entry_changed previousByPath entry in
      case row_lookup rev_RelativePath path revisionsByPath of
        None \<Rightarrow>
          if changed then Inl (StoreConflict ''file index entry changed without a revision'')
          else if fie_CurrentRevisionID entry \<noteq> [] \<and>
                  fie_CurrentRevisionID entry \<noteq> fie_CurrentRevisionID previous
          then Inl (StoreConflict ''file index entry changes current revision without a new revision'')
          else Inr (entry\<lparr>fie_CurrentRevisionID := fie_CurrentRevisionID previous\<rparr>, [])
      | Some revision \<Rightarrow>
          if \<not> changed then Inl (StoreConflict ''file index entry is unchanged but has revision'')
          else rbind (validateCurrentRevision revision entry previous) (\<lambda>_.
               Inr (entry\<lparr>fie_CurrentRevisionID := rev_ID revision\<rparr>, [revision])))"

definition missing_entries :: "FileIndexEntry list \<Rightarrow> FileIndexEntry list \<Rightarrow> FileIndexEntry list" where
  "missing_entries currentByPath previousByPath =
     filter (\<lambda>previous. \<not> (row_exists fie_RelativePath (fie_RelativePath previous) currentByPath \<or>
                            fie_IsDeleted previous)) previousByPath"

definition commit_deletion :: "Revision list \<Rightarrow> FileIndexEntry \<Rightarrow> store_error + Revision" where
  "commit_deletion revisionsByPath previous =
     (case row_lookup rev_RelativePath (fie_RelativePath previous) revisionsByPath of
        None \<Rightarrow> Inl (StoreConflict ''deleted file index entry is missing a deletion revision'')
      | Some revision \<Rightarrow>
          rbind (validateDeletionRevision revision previous) (\<lambda>_. Inr revision))"

definition check_accepted :: "Revision list \<Rightarrow> Revision list \<Rightarrow> store_error + unit" where
  "check_accepted acceptedByPath revisionsByPath =
     (if length acceptedByPath \<noteq> length revisionsByPath \<and>
         list_ex (\<lambda>r. \<not> row_exists rev_RelativePath (rev_RelativePath r) acceptedByPath) revisionsByPath
      then Inl (StoreConflict ''revision does not describe a snapshot change'') else ok)"

definition CommitSnapshotAndTombstones ::
  "time \<Rightarrow> DB \<Rightarrow> ShareID \<Rightarrow> FileIndexEntry list \<Rightarrow> Revision list \<Rightarrow> TombstoneRequest list \<Rightarrow> time \<Rightarrow>
   store_error + DB \<times> Tombstone list" where
  "CommitSnapshotAndTombstones now db shareID entries revisions tombstoneRequests scannedAt =
     (if shareID = [] then Inl (StoreInvalid ''share id is required'')
      else if scannedAt = 0 then Inl (StoreInvalid ''scan time is required'')
      else
        rbind (validateCommitEntries shareID entries) (\<lambda>currentByPath.
        rbind (validateCommitRevisions shareID revisions) (\<lambda>revisionsByPath.
        rbind (validateTombstoneRequests tombstoneRequests) (\<lambda>_.
        if \<not> share_exists db shareID then Inl (StoreNotFound ''share'')
        else
          let previousByPath = listFileIndexEntries db shareID in
          rbind (result_list (commit_entry previousByPath revisionsByPath) currentByPath) (\<lambda>checked.
          rbind (result_list (commit_deletion revisionsByPath)
                   (missing_entries currentByPath previousByPath)) (\<lambda>deletions.
          let acceptedByPath = concat (map snd checked) @ deletions in
          rbind (check_accepted acceptedByPath revisionsByPath) (\<lambda>_.
          rbind (buildAcceptedTombstones shareID acceptedByPath tombstoneRequests) (\<lambda>tombstones.
          rbind (fold_result (insertRevision now) db revisions) (\<lambda>db.
          rbind (fold_result (\<lambda>db e. upsertFileIndexEntry now db shareID e scannedAt) db
                   (map fst checked)) (\<lambda>db.
          rbind (fold_result (mark_deleted now shareID scannedAt) db deletions) (\<lambda>db.
          rbind (fold_result (insertTombstone now) db tombstones) (\<lambda>db.
          Inr (db, tombstones)))))))))))))"

definition CommitSnapshot ::
  "time \<Rightarrow> DB \<Rightarrow> ShareID \<Rightarrow> FileIndexEntry list \<Rightarrow> Revision list \<Rightarrow> time \<Rightarrow> store_error + DB" where
  "CommitSnapshot now db shareID entries revisions scannedAt =
     rbind (CommitSnapshotAndTombstones now db shareID entries revisions [] scannedAt) (\<lambda>(db, _). Inr db)"

section \<open>Committing one applied revision\<close>

definition validateOneWayApplyCommit :: "OneWayApplyCommit \<Rightarrow> store_error + unit" where
  "validateOneWayApplyCommit commit =
     (let revision = oac_Revision commit; parent = rev_ParentRevisionID revision in
      if oac_ShareID commit = [] then Inl (StoreInvalid ''one-way apply share id is required'')
      else if oac_AppliedAt commit = 0 then Inl (StoreInvalid ''one-way apply time is required'')
      else
        rbind (validateCommitRevisions (oac_ShareID commit) [revision]) (\<lambda>_.
        if parent \<noteq> oac_ExpectedCurrentRevisionID commit \<and> \<not> oac_AllowTargetDrift commit
        then Inl (StoreConflict ''one-way apply revision parent is not the expected current revision'')
        else if rev_IsDeleted revision then
          (case (rev_EntryType revision = EntryDeleted, oac_Entry commit, oac_Tombstone commit) of
             (True, None, Some request) \<Rightarrow>
               rbind (validateDeletionRevision revision
                        (zero_FileIndexEntry\<lparr>fie_RelativePath := rev_RelativePath revision,
                                             fie_CurrentRevisionID := parent\<rparr>)) (\<lambda>_.
               validateTombstoneRequests [request])
           | _ \<Rightarrow> Inl (StoreInvalid ''deletion revision requires no active entry and exactly one tombstone''))
        else if rev_EntryType revision \<noteq> EntryFile \<and> rev_EntryType revision \<noteq> EntryDirectory
        then Inl (StoreInvalid ''one-way apply revision has unsupported entry type'')
        else case oac_Entry commit of
          None \<Rightarrow> Inl (StoreInvalid ''active revision requires a file index entry'')
        | Some entry \<Rightarrow>
            if oac_Tombstone commit \<noteq> None
            then Inl (StoreInvalid ''active revision cannot create a tombstone'')
            else rbind (validateCommitEntries (oac_ShareID commit) [entry]) (\<lambda>entries.
                 validateCurrentRevision revision (previous_at entries (rev_RelativePath revision))
                   (zero_FileIndexEntry\<lparr>fie_CurrentRevisionID := parent\<rparr>))))"

definition revisionsEqual :: "Revision \<Rightarrow> Revision \<Rightarrow> bool" where
  "revisionsEqual left right \<longleftrightarrow>
     rev_ID left = rev_ID right \<and> rev_ShareID left = rev_ShareID right \<and>
     rev_RelativePath left = rev_RelativePath right \<and> rev_EntryType left = rev_EntryType right \<and>
     rev_Size left = rev_Size right \<and> rev_ContentHash left = rev_ContentHash right \<and>
     rev_HashAlgorithm left = rev_HashAlgorithm right \<and>
     rev_ParentRevisionID left = rev_ParentRevisionID right \<and>
     rev_OriginDeviceID left = rev_OriginDeviceID right \<and> rev_Sequence left = rev_Sequence right \<and>
     rev_IsDeleted left = rev_IsDeleted right \<and> rev_CreatedAt left = rev_CreatedAt right"

definition tombstonesEqualIgnoringID :: "Tombstone \<Rightarrow> Tombstone \<Rightarrow> bool" where
  "tombstonesEqualIgnoringID left right \<longleftrightarrow>
     tomb_ShareID left = tomb_ShareID right \<and> tomb_RelativePath left = tomb_RelativePath right \<and>
     tomb_DeletedByDeviceID left = tomb_DeletedByDeviceID right \<and>
     tomb_BaseRevisionID left = tomb_BaseRevisionID right \<and>
     tomb_TombstoneRevisionID left = tomb_TombstoneRevisionID right \<and>
     tomb_DeletedAt left = tomb_DeletedAt right \<and> tomb_ExpiresAt left = tomb_ExpiresAt right"

definition tombstonesEqual :: "Tombstone \<Rightarrow> Tombstone \<Rightarrow> bool" where
  "tombstonesEqual left right \<longleftrightarrow> tomb_ID left = tomb_ID right \<and> tombstonesEqualIgnoringID left right"

text \<open>
  Go indexes the built list with zero; it has one element when one request is given.
\<close>

definition idempotentOneWayApplyResult ::
  "DB \<Rightarrow> OneWayApplyCommit \<Rightarrow> Revision \<Rightarrow> store_error + OneWayApplyCommitResult" where
  "idempotentOneWayApplyResult db commit existing =
     (let revision = oac_Revision commit; shareID = oac_ShareID commit in
      if \<not> revisionsEqual existing revision
      then Inl (StoreConflict ''revision already exists with different metadata'')
      else case index_row_of db (shareID, rev_RelativePath revision) of
        None \<Rightarrow> Inl (StoreNotFound ''file index entry'')
      | Some current \<Rightarrow>
          if fie_CurrentRevisionID current \<noteq> rev_ID revision \<or> fie_IsDeleted current \<noteq> rev_IsDeleted revision
          then Inl (StoreConflict ''revision exists but is not the accepted current state'')
          else if \<not> rev_IsDeleted revision
          then Inr \<lparr> oar_Tombstone = None, oar_AlreadyApplied = True \<rparr>
          else case (row_lookup tomb_TombstoneRevisionID (rev_ID revision) (db_tombstones db),
                     oac_Tombstone commit) of
            (Some tombstone, Some request) \<Rightarrow>
              rbind (build_tombstone shareID [revision] request) (\<lambda>expected.
              if \<not> tombstonesEqual tombstone expected
              then Inl (StoreConflict ''revision already has different tombstone metadata'')
              else Inr \<lparr> oar_Tombstone = Some tombstone, oar_AlreadyApplied = True \<rparr>)
          | _ \<Rightarrow> Inl (StoreNotFound ''idempotent tombstone''))"

definition check_expected :: "DB \<Rightarrow> OneWayApplyCommit \<Rightarrow> store_error + unit" where
  "check_expected db commit =
     (case index_row_of db (oac_ShareID commit, rev_RelativePath (oac_Revision commit)) of
        Some current \<Rightarrow>
          if fie_CurrentRevisionID current = [] \<or>
             fie_CurrentRevisionID current \<noteq> oac_ExpectedCurrentRevisionID commit
          then Inl (StoreConflict ''one-way apply current revision is not the expected one'') else ok
      | None \<Rightarrow>
          if oac_ExpectedCurrentRevisionID commit \<noteq> []
          then Inl (StoreConflict ''one-way apply expected current revision for missing path'')
          else if rev_IsDeleted (oac_Revision commit)
          then Inl (StoreConflict ''one-way apply cannot delete missing path'') else ok)"

definition apply_revision ::
  "time \<Rightarrow> OneWayApplyCommit \<Rightarrow> DB \<Rightarrow> store_error + DB \<times> OneWayApplyCommitResult" where
  "apply_revision now commit db =
     (let revision = oac_Revision commit; shareID = oac_ShareID commit in
      case (rev_IsDeleted revision, oac_Tombstone commit, oac_Entry commit) of
        (True, Some request, _) \<Rightarrow>
          rbind (mark_deleted now shareID (oac_AppliedAt commit) db revision) (\<lambda>db.
          rbind (build_tombstone shareID [revision] request) (\<lambda>tombstone.
          rbind (insertTombstone now db tombstone) (\<lambda>db.
          Inr (db, \<lparr> oar_Tombstone = Some tombstone, oar_AlreadyApplied = False \<rparr>))))
      | (False, _, Some entry) \<Rightarrow>
          rbind (upsertFileIndexEntry now db shareID (entry\<lparr>fie_CurrentRevisionID := rev_ID revision\<rparr>)
                   (oac_AppliedAt commit)) (\<lambda>db.
          Inr (db, \<lparr> oar_Tombstone = None, oar_AlreadyApplied = False \<rparr>))
      | _ \<Rightarrow> Inl (StoreInvalid ''nil entry or tombstone''))"

definition CommitOneWayApply ::
  "time \<Rightarrow> DB \<Rightarrow> OneWayApplyCommit \<Rightarrow> store_error + DB \<times> OneWayApplyCommitResult" where
  "CommitOneWayApply now db commit =
     rbind (validateOneWayApplyCommit commit) (\<lambda>_.
     if \<not> share_exists db (oac_ShareID commit) then Inl (StoreNotFound ''share'')
     else case row_lookup rev_ID (rev_ID (oac_Revision commit)) (db_revisions db) of
       Some existing \<Rightarrow>
         rbind (idempotentOneWayApplyResult db commit existing) (\<lambda>result. Inr (db, result))
     | None \<Rightarrow>
         rbind (check_expected db commit) (\<lambda>_.
         rbind (insertRevision now db (oac_Revision commit)) (\<lambda>db.
         apply_revision now commit db)))"

section \<open>Snapshots without revisions\<close>

text \<open>
  \<open>SaveSnapshot\<close>: the paths seen are a temporary table with a primary key, so a path that comes
  twice fails.
\<close>

fun save_entries ::
  "time \<Rightarrow> ShareID \<Rightarrow> time \<Rightarrow> string list \<Rightarrow> DB \<Rightarrow> FileIndexEntry list \<Rightarrow> store_error + DB \<times> string list" where
  "save_entries now shareID scannedAt seen db [] = Inr (db, seen)"
| "save_entries now shareID scannedAt seen db (entry # entries) =
     (if fie_ShareID entry \<noteq> [] \<and> fie_ShareID entry \<noteq> shareID
      then Inl (StoreInvalid ''file index entry belongs to another share'')
      else if TrimSpace (fie_RelativePath entry) = []
      then Inl (StoreInvalid ''file index entry relative path is required'')
      else if fie_EntryType entry = EntryOther []
      then Inl (StoreInvalid ''file index entry type is required'')
      else if fie_RelativePath entry \<in> set seen
      then Inl (StoreConstraint ''scan_seen_paths.relative_path'')
      else rbind (upsertFileIndexEntry now db shareID entry scannedAt) (\<lambda>db.
           save_entries now shareID scannedAt (fie_RelativePath entry # seen) db entries))"

definition SaveSnapshot ::
  "time \<Rightarrow> DB \<Rightarrow> ShareID \<Rightarrow> FileIndexEntry list \<Rightarrow> time \<Rightarrow> store_error + DB" where
  "SaveSnapshot now db shareID entries scannedAt =
     (if shareID = [] then Inl (StoreInvalid ''share id is required'')
      else
        let scannedAt = (if scannedAt = 0 then now else scannedAt) in
        rbind (save_entries now shareID scannedAt [] db entries) (\<lambda>(db, seen).
        Inr (db\<lparr>db_file_index :=
               row_update (\<lambda>e. fie_ShareID e = shareID \<and> \<not> fie_IsDeleted e \<and>
                               fie_RelativePath e \<notin> set seen)
                 (\<lambda>e. e\<lparr>fie_EntryType := EntryDeleted, fie_IsDeleted := True,
                        fie_DeletedAt := stored_time now scannedAt,
                        fie_LastScannedAt := stored_time now scannedAt\<rparr>) (db_file_index db)\<rparr>)))"

section \<open>Reading the index and the tombstones\<close>

definition GetEntry :: "DB \<Rightarrow> ShareID \<Rightarrow> string \<Rightarrow> store_error + FileIndexEntry" where
  "GetEntry db shareID relativePath =
     (case index_row_of db (shareID, relativePath) of
        None \<Rightarrow> Inl (StoreNotFound ''file index entry'') | Some e \<Rightarrow> Inr e)"

definition ListEntries :: "DB \<Rightarrow> ShareID \<Rightarrow> FileIndexEntry list" where
  "ListEntries db shareID = sort_key fie_RelativePath (listFileIndexEntries db shareID)"

text \<open>SQLite compares the stored times as text.\<close>

definition order_desc :: "('a \<Rightarrow> 'b :: linorder) \<Rightarrow> 'a list \<Rightarrow> 'a list" where
  "order_desc key rows = rev (sort_key key (rev rows))"

definition tombstones_listed :: "Tombstone list \<Rightarrow> Tombstone list" where
  "tombstones_listed rows =
     order_desc (\<lambda>t. FormatRFC3339Nano (tomb_DeletedAt t))
       (sort_key tomb_RelativePath (sort_key tomb_ID rows))"

definition GetTombstone :: "DB \<Rightarrow> ShareID \<Rightarrow> string \<Rightarrow> store_error + Tombstone" where
  "GetTombstone db shareID relativePath =
     (if shareID = [] then Inl (StoreInvalid ''share id is required'')
      else if TrimSpace relativePath = [] then Inl (StoreInvalid ''relative path is required'')
      else case order_desc (\<lambda>t. FormatRFC3339Nano (tomb_DeletedAt t))
                  (order_desc tomb_ID
                    (filter (\<lambda>t. tomb_ShareID t = shareID \<and> tomb_RelativePath t = relativePath)
                       (db_tombstones db))) of
        [] \<Rightarrow> Inl (StoreNotFound ''tombstone'') | t # _ \<Rightarrow> Inr t)"

definition ListTombstones :: "DB \<Rightarrow> ShareID \<Rightarrow> store_error + Tombstone list" where
  "ListTombstones db shareID =
     (if shareID = [] then Inl (StoreInvalid ''share id is required'')
      else Inr (tombstones_listed (filter (\<lambda>t. tomb_ShareID t = shareID) (db_tombstones db))))"

definition tombstone_active :: "DB \<Rightarrow> Tombstone \<Rightarrow> bool" where
  "tombstone_active db t =
     (case index_row_of db (tomb_ShareID t, tomb_RelativePath t) of
        None \<Rightarrow> False
      | Some i \<Rightarrow> fie_CurrentRevisionID i \<noteq> [] \<and>
          fie_CurrentRevisionID i = tomb_TombstoneRevisionID t \<and> fie_IsDeleted i)"

definition ListActiveTombstones :: "DB \<Rightarrow> ShareID \<Rightarrow> store_error + Tombstone list" where
  "ListActiveTombstones db shareID =
     (if shareID = [] then Inl (StoreInvalid ''share id is required'')
      else Inr (tombstones_listed
             (filter (\<lambda>t. tomb_ShareID t = shareID \<and> tombstone_active db t) (db_tombstones db))))"

definition RecordDeletion ::
  "time \<Rightarrow> DB \<Rightarrow> TombstoneID \<Rightarrow> RevisionID \<Rightarrow> time \<Rightarrow> store_error + DB \<times> Tombstone" where
  "RecordDeletion now db tombstoneID tombstoneRevisionID expiresAt =
     (if tombstoneID = [] then Inl (StoreInvalid ''tombstone id is required'')
      else if tombstoneRevisionID = [] then Inl (StoreInvalid ''tombstone revision id is required'')
      else case row_lookup rev_ID tombstoneRevisionID (db_revisions db) of
        None \<Rightarrow> Inl (StoreNotFound ''deletion revision'')
      | Some r \<Rightarrow>
          let tombstone = \<lparr> tomb_ID = tombstoneID, tomb_ShareID = rev_ShareID r,
                tomb_RelativePath = rev_RelativePath r, tomb_DeletedByDeviceID = rev_OriginDeviceID r,
                tomb_BaseRevisionID = rev_ParentRevisionID r,
                tomb_TombstoneRevisionID = tombstoneRevisionID, tomb_DeletedAt = rev_CreatedAt r,
                tomb_ExpiresAt = expiresAt \<rparr> in
          if rev_EntryType r \<noteq> EntryDeleted \<or> \<not> rev_IsDeleted r
          then Inl (StoreInvalid ''revision is not a deletion revision'')
          else if rev_CreatedAt r = 0 then Inl (StoreInvalid ''deletion revision has invalid creation time'')
          else if expiresAt \<noteq> 0 \<and> expiresAt < rev_CreatedAt r
          then Inl (StoreInvalid ''tombstone expires before deletion'')
          else case row_lookup tomb_ID tombstoneID (db_tombstones db) of
            Some existing \<Rightarrow>
              if \<not> tombstonesEqual existing tombstone
              then Inl (StoreConflict ''tombstone already exists with different metadata'')
              else Inr (db, existing)
          | None \<Rightarrow>
              (case row_lookup (\<lambda>t. (tomb_ShareID t, tomb_RelativePath t, tomb_TombstoneRevisionID t))
                      (rev_ShareID r, rev_RelativePath r, tombstoneRevisionID) (db_tombstones db) of
                 Some existing \<Rightarrow>
                   if \<not> tombstonesEqualIgnoringID existing tombstone
                   then Inl (StoreConflict ''deletion revision already has conflicting tombstone metadata'')
                   else Inr (db, existing)
               | None \<Rightarrow>
                   if \<not> tombstone_active db tombstone
                   then Inl (StoreConflict ''deletion revision is not the accepted current revision'')
                   else rbind (insertTombstone now db tombstone) (\<lambda>db. Inr (db, tombstone))))"

section \<open>What the store promises\<close>

text \<open>A revision describes an index row when it is what the row was accepted as.\<close>

definition describes :: "Revision \<Rightarrow> FileIndexEntry \<Rightarrow> bool" where
  "describes r e \<longleftrightarrow>
     rev_ShareID r = fie_ShareID e \<and> rev_RelativePath r = fie_RelativePath e \<and>
     rev_IsDeleted r = fie_IsDeleted e \<and> rev_EntryType r = fie_EntryType e \<and>
     (fie_IsDeleted e \<longleftrightarrow> fie_EntryType e = EntryDeleted) \<and>
     (fie_EntryType e = EntryFile \<longrightarrow>
        rev_Size r = fie_Size e \<and> rev_ContentHash r = fie_ContentHash e \<and>
        rev_HashAlgorithm r = fie_HashAlgorithm e)"

definition described :: "Revision list \<Rightarrow> FileIndexEntry \<Rightarrow> bool" where
  "described revisions e \<longleftrightarrow> list_ex (\<lambda>r. rev_ID r = fie_CurrentRevisionID e \<and> describes r e) revisions"

definition path_ok :: "string \<Rightarrow> bool" where
  "path_ok path \<longleftrightarrow> path \<noteq> [] \<and> TrimSpace path = path"

definition revisions_wf :: "DB \<Rightarrow> bool" where
  "revisions_wf db \<longleftrightarrow> keys_distinct rev_ID (db_revisions db) \<and>
     list_all (\<lambda>r. share_exists db (rev_ShareID r) \<and> revision_ref db (rev_ParentRevisionID r)) (db_revisions db)"

definition row_wf :: "DB \<Rightarrow> FileIndexEntry \<Rightarrow> bool" where
  "row_wf db e \<longleftrightarrow> share_exists db (fie_ShareID e) \<and> path_ok (fie_RelativePath e) \<and>
     fie_CurrentRevisionID e \<noteq> [] \<and> described (db_revisions db) e"

definition rows_wf :: "DB \<Rightarrow> bool" where
  "rows_wf db \<longleftrightarrow> keys_distinct fie_key (db_file_index db) \<and> list_all (row_wf db) (db_file_index db)"

definition tombstones_wf :: "DB \<Rightarrow> bool" where
  "tombstones_wf db \<longleftrightarrow> keys_distinct tomb_ID (db_tombstones db) \<and>
     list_all (\<lambda>t. share_exists db (tomb_ShareID t) \<and> revision_ref db (tomb_BaseRevisionID t) \<and>
                   revision_exists db (tomb_TombstoneRevisionID t)) (db_tombstones db)"

definition index_wf :: "DB \<Rightarrow> bool" where
  "index_wf db \<longleftrightarrow> revisions_wf db \<and> rows_wf db \<and> tombstones_wf db"

section \<open>Lemmas on the steps of a commit\<close>

lemma validateCommitEntries_Inr:
  "validateCommitEntries shareID entries = Inr es \<longleftrightarrow>
     es = entries \<and> (\<forall>e\<in>set entries. commit_entry_ok shareID e = ok) \<and> keys_distinct fie_RelativePath entries"
  by (simp add: validateCommitEntries_def distinct_loop_Inr)

lemma validateCommitRevisions_Inr:
  "validateCommitRevisions shareID revisions = Inr rs \<longleftrightarrow>
     rs = revisions \<and> (\<forall>r\<in>set revisions. commit_revision_ok shareID r = ok) \<and>
     keys_distinct rev_RelativePath revisions"
  by (simp add: validateCommitRevisions_def distinct_loop_Inr)

lemma commit_entry_ok_iff:
  "commit_entry_ok shareID e = ok \<longleftrightarrow>
     shareID \<noteq> [] \<and> fie_ShareID e = shareID \<and> path_ok (fie_RelativePath e) \<and>
     validActiveEntryType (fie_EntryType e) \<and> \<not> fie_IsDeleted e \<and> fie_DeletedAt e = 0"
  by (auto simp: commit_entry_ok_def path_ok_def)

lemma commit_revision_ok_iff:
  "commit_revision_ok shareID r = ok \<longleftrightarrow>
     rev_ID r \<noteq> [] \<and> shareID \<noteq> [] \<and> rev_ShareID r = shareID \<and> path_ok (rev_RelativePath r) \<and>
     rev_OriginDeviceID r \<noteq> [] \<and> 0 < rev_Sequence r \<and> rev_CreatedAt r \<noteq> 0"
  by (auto simp: commit_revision_ok_def path_ok_def)

lemma validateCurrentRevision_ok:
  "validateCurrentRevision r e previous = ok \<longleftrightarrow>
     \<not> rev_IsDeleted r \<and> rev_EntryType r \<noteq> EntryDeleted \<and> rev_EntryType r = fie_EntryType e \<and>
     rev_Size r = fie_Size e \<and> rev_ContentHash r = fie_ContentHash e \<and>
     rev_HashAlgorithm r = fie_HashAlgorithm e \<and>
     rev_ParentRevisionID r = fie_CurrentRevisionID previous \<and>
     (fie_CurrentRevisionID e = [] \<or> fie_CurrentRevisionID e = rev_ID r)"
  by (auto simp: validateCurrentRevision_def)

lemma validateDeletionRevision_ok:
  "validateDeletionRevision r previous = ok \<longleftrightarrow>
     rev_IsDeleted r \<and> rev_EntryType r = EntryDeleted \<and>
     rev_ParentRevisionID r = fie_CurrentRevisionID previous \<and> rev_Size r = 0 \<and>
     rev_ContentHash r = [] \<and> rev_HashAlgorithm r = []"
  by (auto simp: validateDeletionRevision_def)

lemma tombstone_requests_loop_ok:
  "tombstone_requests_loop ids revs requests = ok \<longleftrightarrow>
     (\<forall>q\<in>set requests. treq_ID q \<noteq> [] \<and> treq_TombstoneRevisionID q \<noteq> [] \<and> treq_ID q \<notin> set ids \<and>
        treq_TombstoneRevisionID q \<notin> set revs) \<and>
     distinct (map treq_ID requests) \<and> distinct (map treq_TombstoneRevisionID requests)"
  by (induction requests arbitrary: ids revs) (auto simp: image_iff)

lemma validateTombstoneRequests_ok:
  "validateTombstoneRequests requests = ok \<longleftrightarrow>
     (\<forall>q\<in>set requests. treq_ID q \<noteq> [] \<and> treq_TombstoneRevisionID q \<noteq> []) \<and>
     distinct (map treq_ID requests) \<and> distinct (map treq_TombstoneRevisionID requests)"
  by (simp add: validateTombstoneRequests_def tombstone_requests_loop_ok)

lemma insertRevision_Inr:
  "insertRevision now db r = Inr db' \<longleftrightarrow>
     rev_ID r \<notin> rev_ID ` set (db_revisions db) \<and> stored_type (rev_EntryType r) \<and> share_exists db (rev_ShareID r) \<and>
     (revision_ref db (rev_ParentRevisionID r) \<or> rev_ParentRevisionID r = rev_ID r) \<and>
     db' = db\<lparr>db_revisions := db_revisions db @ [r\<lparr>rev_CreatedAt := stored_time now (rev_CreatedAt r)\<rparr>]\<rparr>"
  by (auto simp: insertRevision_def row_exists_mem)

lemma insertTombstone_Inr:
  "insertTombstone now db t = Inr db' \<longleftrightarrow>
     tomb_ID t \<notin> tomb_ID ` set (db_tombstones db) \<and> share_exists db (tomb_ShareID t) \<and>
     revision_ref db (tomb_BaseRevisionID t) \<and> revision_exists db (tomb_TombstoneRevisionID t) \<and>
     db' = db\<lparr>db_tombstones := db_tombstones db @ [t\<lparr>tomb_DeletedAt := stored_time now (tomb_DeletedAt t)\<rparr>]\<rparr>"
  by (auto simp: insertTombstone_def row_exists_mem)

lemma upsertFileIndexEntry_Inr:
  "upsertFileIndexEntry now db shareID e at = Inr db' \<longleftrightarrow>
     share_exists db shareID \<and> revision_ref db (fie_CurrentRevisionID e) \<and>
     db' = put_row now at db (e\<lparr>fie_ShareID := shareID\<rparr>)"
  by (auto simp: upsertFileIndexEntry_def)

lemma mark_deleted_Inr:
  "revision_exists db (rev_ID r) \<Longrightarrow> mark_deleted now shareID at db r = Inr db' \<longleftrightarrow>
     db' = db\<lparr>db_file_index := row_update (\<lambda>e. fie_key e = (shareID, rev_RelativePath r))
               (deleted_row now at (rev_ID r)) (db_file_index db)\<rparr>"
  by (auto simp: mark_deleted_def)

lemma build_tombstone_Inr:
  "build_tombstone shareID accepted q = Inr t \<longleftrightarrow>
     (\<exists>r. row_lookup rev_ID (treq_TombstoneRevisionID q) accepted = Some r \<and> rev_ShareID r = shareID \<and>
        rev_EntryType r = EntryDeleted \<and> rev_IsDeleted r \<and> rev_CreatedAt r \<noteq> 0 \<and>
        (treq_ExpiresAt q = 0 \<or> rev_CreatedAt r \<le> treq_ExpiresAt q) \<and>
        t = \<lparr> tomb_ID = treq_ID q, tomb_ShareID = shareID, tomb_RelativePath = rev_RelativePath r,
              tomb_DeletedByDeviceID = rev_OriginDeviceID r, tomb_BaseRevisionID = rev_ParentRevisionID r,
              tomb_TombstoneRevisionID = rev_ID r, tomb_DeletedAt = rev_CreatedAt r,
              tomb_ExpiresAt = treq_ExpiresAt q \<rparr>)"
  by (auto simp: build_tombstone_def split: option.splits if_splits)

lemmas step_Inr = insertRevision_Inr insertTombstone_Inr upsertFileIndexEntry_Inr

subsection \<open>Index rows by key\<close>

lemma fie_key_index_row [simp]: "fie_key (index_row now at e) = fie_key e"
  by (simp add: fie_key_def index_row_def)

lemma fie_key_deleted_row [simp]: "fie_key (deleted_row now at r e) = fie_key e"
  by (simp add: fie_key_def deleted_row_def)

lemma fie_key_current [simp]: "fie_key (e\<lparr>fie_CurrentRevisionID := r\<rparr>) = fie_key e"
  by (simp add: fie_key_def)

interpretation idx: keyed_store index_row_of "put_row now at" fie_key "index_row now at" for now at
  by unfold_locales
    (auto simp: index_row_of_def put_row_def row_lookup_upsert Let_def split: option.splits)

lemma put_all_other_tables:
  "db_revisions (idx.put_all now at es db) = db_revisions db \<and> db_shares (idx.put_all now at es db) = db_shares db \<and>
   db_tombstones (idx.put_all now at es db) = db_tombstones db"
  unfolding idx.put_all_def by (induction es arbitrary: db) (auto simp: put_row_def Let_def)

lemma revision_exists_cong: "db_revisions db' = db_revisions db \<Longrightarrow> revision_exists db' = revision_exists db"
  by (simp add: fun_eq_iff revision_exists_def)

lemma revision_ref_cong: "db_revisions db' = db_revisions db \<Longrightarrow> revision_ref db' = revision_ref db"
  by (simp add: fun_eq_iff revision_ref_def revision_exists_def)

lemma share_exists_cong: "db_shares db' = db_shares db \<Longrightarrow> share_exists db' = share_exists db"
  by (simp add: fun_eq_iff share_exists_def)

subsection \<open>The loops of a commit\<close>

definition with_revisions :: "DB \<Rightarrow> Revision list \<Rightarrow> DB" where
  "with_revisions db rs = db\<lparr>db_revisions := db_revisions db @ rs\<rparr>"

lemma insert_revisions_Inr:
  assumes "fold_result (insertRevision now) db rs = Inr db'" and "\<forall>r\<in>set rs. rev_CreatedAt r \<noteq> 0"
  shows "db' = with_revisions db rs \<and> distinct (map rev_ID rs) \<and>
    (\<forall>r\<in>set rs. rev_ID r \<notin> rev_ID ` set (db_revisions db))"
  using assms
proof (induction rs arbitrary: db)
  case (Cons r rs)
  let ?db = "with_revisions db [r]"
  from Cons.prems have step: "fold_result (insertRevision now) ?db rs = Inr db'"
    and r: "rev_ID r \<notin> rev_ID ` set (db_revisions db)"
    by (auto simp: rbind_eq_Inr insertRevision_Inr stored_time_def with_revisions_def)
  have "db' = with_revisions ?db rs \<and> distinct (map rev_ID rs) \<and>
    (\<forall>r\<in>set rs. rev_ID r \<notin> rev_ID ` set (db_revisions ?db))"
    using Cons.IH [OF step] Cons.prems(2) by simp
  then show ?case using r by (force simp: with_revisions_def)
qed (simp add: with_revisions_def)

lemma insert_revisions_ok:
  assumes "distinct (map rev_ID rs)" and "\<forall>r\<in>set rs. rev_CreatedAt r \<noteq> 0 \<and> stored_type (rev_EntryType r) \<and>
      share_exists db (rev_ShareID r) \<and> revision_ref db (rev_ParentRevisionID r) \<and>
      rev_ID r \<notin> rev_ID ` set (db_revisions db)"
  shows "fold_result (insertRevision now) db rs = Inr (with_revisions db rs)"
  using assms
proof (induction rs arbitrary: db)
  case (Cons r rs)
  let ?db = "with_revisions db [r]"
  have "insertRevision now db r = Inr ?db"
    using Cons.prems(2) by (auto simp: insertRevision_Inr with_revisions_def stored_time_def)
  moreover have "\<forall>x\<in>set rs. rev_ID x \<noteq> rev_ID r" using Cons.prems(1) by (simp add: image_iff) metis
  then have "fold_result (insertRevision now) ?db rs = Inr (with_revisions ?db rs)"
    using Cons.prems
    by (intro Cons.IH) (auto simp: with_revisions_def share_exists_def revision_ref_def revision_exists_def row_exists_mem)
  ultimately show ?case by (simp add: with_revisions_def)
qed (simp add: with_revisions_def)

lemma upserts_Inr:
  "fold_result (\<lambda>db e. upsertFileIndexEntry now db shareID e at) db es = Inr db' \<Longrightarrow>
   \<forall>e\<in>set es. fie_ShareID e = shareID \<Longrightarrow> db' = idx.put_all now at es db"
proof (induction es arbitrary: db)
  case (Cons e es)
  then have e: "e\<lparr>fie_ShareID := shareID\<rparr> = e" by (cases e) simp
  from Cons show ?case by (auto simp: rbind_eq_Inr upsertFileIndexEntry_Inr e idx.put_all_def)
qed (simp add: idx.put_all_def)

lemma upserts_ok:
  assumes "share_exists db shareID" "\<forall>e\<in>set es. fie_ShareID e = shareID \<and> revision_ref db (fie_CurrentRevisionID e)"
  shows "fold_result (\<lambda>db e. upsertFileIndexEntry now db shareID e at) db es = Inr (idx.put_all now at es db)"
  using assms
proof (induction es arbitrary: db)
  case (Cons e es)
  then have e: "e\<lparr>fie_ShareID := shareID\<rparr> = e" by (cases e) simp
  let ?db = "put_row now at db e"
  have same: "db_revisions ?db = db_revisions db" "db_shares ?db = db_shares db"
    by (simp_all add: put_row_def Let_def)
  have "upsertFileIndexEntry now db shareID e at = Inr ?db"
    using Cons.prems by (simp add: upsertFileIndexEntry_Inr e)
  moreover have "fold_result (\<lambda>db e. upsertFileIndexEntry now db shareID e at) ?db es = Inr (idx.put_all now at es ?db)"
    using Cons.prems
    by (intro Cons.IH) (simp_all add: revision_ref_cong [OF same(1)] share_exists_cong [OF same(2)])
  ultimately show ?case by (simp add: idx.put_all_def)
qed (simp add: idx.put_all_def)

definition deletes :: "Revision list \<Rightarrow> ShareID \<Rightarrow> ShareID \<times> string \<Rightarrow> Revision option" where
  "deletes ds shareID k = (if fst k = shareID then row_lookup rev_RelativePath (snd k) ds else None)"

lemma mark_all_deleted:
  assumes "fold_result (mark_deleted now shareID at) db ds = Inr db'"
    and "\<forall>r\<in>set ds. revision_exists db (rev_ID r)" and "keys_distinct rev_RelativePath ds"
  shows "db_revisions db' = db_revisions db \<and> db_shares db' = db_shares db \<and> db_tombstones db' = db_tombstones db \<and>
    (keys_distinct fie_key (db_file_index db) \<longrightarrow> keys_distinct fie_key (db_file_index db')) \<and>
    index_row_of db' k = (case deletes ds shareID k of None \<Rightarrow> index_row_of db k
       | Some r \<Rightarrow> map_option (deleted_row now at (rev_ID r)) (index_row_of db k))"
  using assms
proof (induction ds arbitrary: db)
  case (Cons r ds)
  let ?db = "db\<lparr>db_file_index := row_update (\<lambda>e. fie_key e = (shareID, rev_RelativePath r))
               (deleted_row now at (rev_ID r)) (db_file_index db)\<rparr>"
  from Cons.prems have step: "fold_result (mark_deleted now shareID at) ?db ds = Inr db'"
    by (auto simp: rbind_eq_Inr mark_deleted_Inr)
  have k: "index_row_of ?db k =
      (if k = (shareID, rev_RelativePath r) then map_option (deleted_row now at (rev_ID r)) (index_row_of db k)
       else index_row_of db k)"
    by (auto simp: index_row_of_def row_lookup_update dest: row_lookup_SomeD
        intro: option.map_cong0 split: option.splits) (auto simp: map_option_case split: option.splits dest: row_lookup_SomeD)
  have dist: "keys_distinct fie_key (db_file_index db) \<Longrightarrow> keys_distinct fie_key (db_file_index ?db)"
    by (simp add: keys_distinct_update)
  have "row_lookup rev_RelativePath (rev_RelativePath r) ds = None"
    using Cons.prems(3) by (auto simp: keys_distinct_def row_lookup_None image_iff)
  then have "deletes (r # ds) shareID k =
      (if k = (shareID, rev_RelativePath r) then Some r else deletes ds shareID k)" and
    "k = (shareID, rev_RelativePath r) \<Longrightarrow> deletes ds shareID k = None"
    by (cases k; auto simp: deletes_def)+
  moreover have "revision_exists ?db = revision_exists db" by (rule revision_exists_cong) simp
  then have "db_revisions db' = db_revisions ?db \<and> db_shares db' = db_shares ?db \<and> db_tombstones db' = db_tombstones ?db \<and>
    (keys_distinct fie_key (db_file_index ?db) \<longrightarrow> keys_distinct fie_key (db_file_index db')) \<and>
    index_row_of db' k = (case deletes ds shareID k of None \<Rightarrow> index_row_of ?db k
       | Some r \<Rightarrow> map_option (deleted_row now at (rev_ID r)) (index_row_of ?db k))"
    using Cons.prems by (intro Cons.IH [OF step]) (simp_all add: keys_distinct_def)
  ultimately show ?case using k dist by (auto split: option.splits)
qed (simp add: deletes_def)

lemma mark_all_deleted_ok:
  "\<forall>r\<in>set ds. revision_exists db (rev_ID r) \<Longrightarrow> \<exists>db'. fold_result (mark_deleted now shareID at) db ds = Inr db'"
proof (induction ds arbitrary: db)
  case (Cons r ds)
  let ?db = "db\<lparr>db_file_index := row_update (\<lambda>e. fie_key e = (shareID, rev_RelativePath r))
               (deleted_row now at (rev_ID r)) (db_file_index db)\<rparr>"
  have "mark_deleted now shareID at db r = Inr ?db" using Cons.prems by (simp add: mark_deleted_Inr)
  moreover have "revision_exists ?db = revision_exists db" by (rule revision_exists_cong) simp
  then have "\<exists>db'. fold_result (mark_deleted now shareID at) ?db ds = Inr db'"
    using Cons.prems by (intro Cons.IH) simp
  ultimately show ?case by simp
qed simp

lemma insert_tombstones_Inr:
  assumes "fold_result (insertTombstone now) db ts = Inr db'" and "\<forall>t\<in>set ts. tomb_DeletedAt t \<noteq> 0"
  shows "db' = db\<lparr>db_tombstones := db_tombstones db @ ts\<rparr>"
  using assms
proof (induction ts arbitrary: db)
  case (Cons t ts)
  then have "fold_result (insertTombstone now) (db\<lparr>db_tombstones := db_tombstones db @ [t]\<rparr>) ts = Inr db'"
    by (auto simp: rbind_eq_Inr insertTombstone_Inr stored_time_def)
  from Cons.IH [OF this] Cons.prems(2) show ?case by simp
qed simp

lemma insert_tombstones_ok:
  assumes "distinct (map tomb_ID ts)" and "\<forall>t\<in>set ts. tomb_ID t \<notin> tomb_ID ` set (db_tombstones db) \<and>
     share_exists db (tomb_ShareID t) \<and> revision_ref db (tomb_BaseRevisionID t) \<and>
     revision_exists db (tomb_TombstoneRevisionID t)"
  shows "\<exists>db'. fold_result (insertTombstone now) db ts = Inr db'"
  using assms
proof (induction ts arbitrary: db)
  case (Cons t ts)
  let ?db = "db\<lparr>db_tombstones := db_tombstones db @ [t\<lparr>tomb_DeletedAt := stored_time now (tomb_DeletedAt t)\<rparr>]\<rparr>"
  have "insertTombstone now db t = Inr ?db" using Cons.prems by (simp add: insertTombstone_Inr)
  moreover have "\<forall>x\<in>set ts. tomb_ID x \<noteq> tomb_ID t" using Cons.prems(1) by (simp add: image_iff) metis
  then have "\<exists>db'. fold_result (insertTombstone now) ?db ts = Inr db'"
    using Cons.prems
    by (intro Cons.IH) (auto simp: share_exists_def revision_ref_def revision_exists_def)
  ultimately show ?case by simp
qed simp

subsection \<open>What a commit does\<close>

definition accepted_entry :: "FileIndexEntry list \<Rightarrow> Revision list \<Rightarrow> FileIndexEntry \<Rightarrow> FileIndexEntry" where
  "accepted_entry prev revs e =
     e\<lparr>fie_CurrentRevisionID :=
         (case row_lookup rev_RelativePath (fie_RelativePath e) revs of
            Some r \<Rightarrow> rev_ID r | None \<Rightarrow> fie_CurrentRevisionID (previous_at prev (fie_RelativePath e)))\<rparr>"

lemma fie_key_accepted [simp]: "fie_key (accepted_entry prev revs e) = fie_key e"
  by (simp add: accepted_entry_def)

lemma accepted_entry_fields [simp]:
  "fie_ShareID (accepted_entry prev revs e) = fie_ShareID e"
  "fie_RelativePath (accepted_entry prev revs e) = fie_RelativePath e"
  "fie_EntryType (accepted_entry prev revs e) = fie_EntryType e"
  "fie_Size (accepted_entry prev revs e) = fie_Size e"
  "fie_ContentHash (accepted_entry prev revs e) = fie_ContentHash e"
  "fie_HashAlgorithm (accepted_entry prev revs e) = fie_HashAlgorithm e"
  "fie_FileIdentity (accepted_entry prev revs e) = fie_FileIdentity e"
  "fie_IsDeleted (accepted_entry prev revs e) = fie_IsDeleted e"
  by (simp_all add: accepted_entry_def)

lemma commit_entry_Inr:
  "commit_entry prev revs e = Inr (e', rs) \<longleftrightarrow> e' = accepted_entry prev revs e \<and>
     (case row_lookup rev_RelativePath (fie_RelativePath e) revs of
        None \<Rightarrow> rs = [] \<and> \<not> entry_changed prev e \<and>
          (fie_CurrentRevisionID e = [] \<or>
           fie_CurrentRevisionID e = fie_CurrentRevisionID (previous_at prev (fie_RelativePath e)))
      | Some r \<Rightarrow> rs = [r] \<and> entry_changed prev e \<and>
          validateCurrentRevision r e (previous_at prev (fie_RelativePath e)) = ok)"
  by (auto simp: commit_entry_def accepted_entry_def rbind_eq_Inr Let_def split: option.splits)

lemma commit_deletion_Inr:
  "commit_deletion revs p = Inr r \<longleftrightarrow>
     row_lookup rev_RelativePath (fie_RelativePath p) revs = Some r \<and> validateDeletionRevision r p = ok"
  by (auto simp: commit_deletion_def rbind_eq_Inr split: option.splits)

lemma commit_entries_fst:
  "list_all2 (\<lambda>e p. commit_entry prev revs e = Inr p) es checked \<Longrightarrow>
   map fst checked = map (accepted_entry prev revs) es"
  by (induction rule: list_all2_induct) (auto simp: commit_entry_Inr)

lemma commit_deletions_paths:
  "list_all2 (\<lambda>p r. commit_deletion revs p = Inr r) ps ds \<Longrightarrow>
   map rev_RelativePath ds = map fie_RelativePath ps \<and> set ds \<subseteq> set revs"
  by (induction rule: list_all2_induct) (auto simp: commit_deletion_Inr dest: row_lookup_SomeD)

lemma build_tombstones_times:
  "buildAcceptedTombstones shareID accepted requests = Inr ts \<Longrightarrow> \<forall>t\<in>set ts. tomb_DeletedAt t \<noteq> 0"
proof -
  assume "buildAcceptedTombstones shareID accepted requests = Inr ts"
  then have "list_all2 (\<lambda>q t. build_tombstone shareID accepted q = Inr t) requests ts"
    by (simp add: buildAcceptedTombstones_def result_list_Inr)
  then show ?thesis by (induction rule: list_all2_induct) (auto simp: build_tombstone_Inr)
qed

text \<open>A successful commit taken apart.\<close>

lemma Commit_Inr:
  assumes "CommitSnapshotAndTombstones now db shareID entries revs requests at = Inr (db', ts)"
  defines "prev \<equiv> listFileIndexEntries db shareID"
  obtains checked ds db3 where
    "shareID \<noteq> []" "at \<noteq> 0" "share_exists db shareID"
    "\<forall>e\<in>set entries. commit_entry_ok shareID e = ok" "keys_distinct fie_RelativePath entries"
    "\<forall>r\<in>set revs. commit_revision_ok shareID r = ok" "keys_distinct rev_RelativePath revs"
    "list_all2 (\<lambda>e p. commit_entry prev revs e = Inr p) entries checked"
    "list_all2 (\<lambda>p r. commit_deletion revs p = Inr r) (missing_entries entries prev) ds"
    "check_accepted (concat (map snd checked) @ ds) revs = ok"
    "buildAcceptedTombstones shareID (concat (map snd checked) @ ds) requests = Inr ts"
    "distinct (map rev_ID revs)" "\<forall>r\<in>set revs. rev_ID r \<notin> rev_ID ` set (db_revisions db)"
    "fold_result (insertRevision now) db revs = Inr (with_revisions db revs)"
    "fold_result (mark_deleted now shareID at)
       (idx.put_all now at (map (accepted_entry prev revs) entries) (with_revisions db revs)) ds = Inr db3"
    "fold_result (insertTombstone now) db3 ts = Inr db'"
    "db' = db3\<lparr>db_tombstones := db_tombstones db3 @ ts\<rparr>"
proof -
  obtain checked ds db1 db2 db3 where steps:
    "shareID \<noteq> []" "at \<noteq> 0" "share_exists db shareID"
    "\<forall>e\<in>set entries. commit_entry_ok shareID e = ok" "keys_distinct fie_RelativePath entries"
    "\<forall>r\<in>set revs. commit_revision_ok shareID r = ok" "keys_distinct rev_RelativePath revs"
    "list_all2 (\<lambda>e p. commit_entry prev revs e = Inr p) entries checked"
    "list_all2 (\<lambda>p r. commit_deletion revs p = Inr r) (missing_entries entries prev) ds"
    "check_accepted (concat (map snd checked) @ ds) revs = ok"
    "buildAcceptedTombstones shareID (concat (map snd checked) @ ds) requests = Inr ts"
    and db1: "fold_result (insertRevision now) db revs = Inr db1"
    and db2: "fold_result (\<lambda>db e. upsertFileIndexEntry now db shareID e at) db1 (map fst checked) = Inr db2"
    and db3: "fold_result (mark_deleted now shareID at) db2 ds = Inr db3"
    and db': "fold_result (insertTombstone now) db3 ts = Inr db'"
    using assms
    by (auto simp: CommitSnapshotAndTombstones_def Let_def rbind_eq_Inr validateCommitEntries_Inr
        validateCommitRevisions_Inr result_list_Inr split: if_splits)
  have created: "\<forall>r\<in>set revs. rev_CreatedAt r \<noteq> 0" using steps(6) by (simp add: commit_revision_ok_iff)
  note ins = insert_revisions_Inr [OF db1 created]
  have "map fst checked = map (accepted_entry prev revs) entries" by (rule commit_entries_fst [OF steps(8)])
  then have "db2 = idx.put_all now at (map (accepted_entry prev revs) entries) (with_revisions db revs)"
    using upserts_Inr [OF db2] ins steps(4) by (auto simp: commit_entry_ok_iff)
  then show thesis
    using that [OF steps] ins db1 db3 db' insert_tombstones_Inr [OF db' build_tombstones_times [OF steps(11)]]
    by simp
qed

lemma row_lookup_filter_distinct:
  "keys_distinct key rows \<Longrightarrow> row_lookup key k (filter P rows) =
     (case row_lookup key k rows of Some r \<Rightarrow> if P r then Some r else None | None \<Rightarrow> None)"
proof (induction rows)
  case (Cons a rows)
  then have "key a = k \<Longrightarrow> row_lookup key k rows = None"
    by (auto simp: keys_distinct_def row_lookup_None image_iff)
  then show ?case using Cons by (auto simp: keys_distinct_def)
qed simp

lemma listed_lookup:
  "row_lookup fie_RelativePath path (listFileIndexEntries db shareID) = index_row_of db (shareID, path)"
proof -
  have "row_lookup fie_RelativePath path (filter (\<lambda>e. fie_ShareID e = shareID) rows) =
    row_lookup fie_key (shareID, path) rows" for rows
    by (induction rows) (auto simp: fie_key_def)
  then show ?thesis by (simp add: listFileIndexEntries_def index_row_of_def)
qed

lemma listed_distinct:
  "keys_distinct fie_key (db_file_index db) \<Longrightarrow> keys_distinct fie_RelativePath (listFileIndexEntries db shareID)"
proof -
  have "distinct (map fie_key rows) \<Longrightarrow> distinct (map fie_RelativePath (filter (\<lambda>e. fie_ShareID e = shareID) rows))" for rows
    by (induction rows) (auto simp: fie_key_def image_iff)
  then show "keys_distinct fie_key (db_file_index db) \<Longrightarrow> ?thesis"
    by (simp add: keys_distinct_def listFileIndexEntries_def)
qed

lemma row_lookup_by_share:
  "\<forall>e\<in>set es. fie_ShareID e = shareID \<Longrightarrow> (\<And>e. fie_key (f e) = fie_key e) \<Longrightarrow>
   row_lookup fie_key k (map f es) =
     (if fst k = shareID then map_option f (row_lookup fie_RelativePath (snd k) es) else None)"
  by (induction es) (cases k; auto simp: fie_key_def)+

lemma deletions_lookup:
  "list_all2 (\<lambda>p r. commit_deletion revs p = Inr r) ps ds \<Longrightarrow>
   row_lookup rev_RelativePath path ds =
     (case row_lookup fie_RelativePath path ps of
        None \<Rightarrow> None | Some p \<Rightarrow> row_lookup rev_RelativePath path revs)"
  by (induction rule: list_all2_induct) (auto simp: commit_deletion_Inr dest: row_lookup_SomeD)

definition deletion_id :: "Revision list \<Rightarrow> string \<Rightarrow> RevisionID" where
  "deletion_id revs path = (case row_lookup rev_RelativePath path revs of None \<Rightarrow> [] | Some r \<Rightarrow> rev_ID r)"

definition committed_row ::
  "time \<Rightarrow> time \<Rightarrow> DB \<Rightarrow> ShareID \<Rightarrow> FileIndexEntry list \<Rightarrow> Revision list \<Rightarrow> string \<Rightarrow> FileIndexEntry option" where
  "committed_row now at db shareID entries revs path =
     (case row_lookup fie_RelativePath path entries of
        Some e \<Rightarrow> Some (index_row now at (accepted_entry (listFileIndexEntries db shareID) revs e))
      | None \<Rightarrow>
          map_option (\<lambda>p. if fie_IsDeleted p then p else deleted_row now at (deletion_id revs path) p)
            (index_row_of db (shareID, path)))"

lemma keys_distinct_put_all:
  "keys_distinct fie_key (db_file_index db) \<Longrightarrow> keys_distinct fie_key (db_file_index (idx.put_all now at es db))"
  unfolding idx.put_all_def
  by (induction es arbitrary: db) (simp_all add: put_row_def Let_def keys_distinct_upsert)

lemma Commit_deletion:
  assumes commit: "CommitSnapshotAndTombstones now db shareID entries revs requests at = Inr (db', ts)"
    and dist: "keys_distinct fie_key (db_file_index db)"
    and p: "row_lookup fie_RelativePath path entries = None" "index_row_of db (shareID, path) = Some p" "\<not> fie_IsDeleted p"
  shows "\<exists>r. row_lookup rev_RelativePath path revs = Some r \<and> validateDeletionRevision r p = ok"
proof -
  define prev where "prev = listFileIndexEntries db shareID"
  obtain ds where "list_all2 (\<lambda>p r. commit_deletion revs p = Inr r) (missing_entries entries prev) ds"
    using Commit_Inr [OF commit] unfolding prev_def by metis
  then have all: "\<forall>p\<in>set (missing_entries entries prev). \<exists>r. commit_deletion revs p = Inr r"
    by (induction rule: list_all2_induct) auto
  have "row_lookup fie_RelativePath path prev = Some p" using p(2) by (simp add: prev_def listed_lookup)
  then have "p \<in> set prev" "fie_RelativePath p = path" by (auto dest: row_lookup_SomeD)
  then have "p \<in> set (missing_entries entries prev)" using p by (simp add: missing_entries_def row_exists_iff)
  then show ?thesis using all \<open>fie_RelativePath p = path\<close> by (auto simp: commit_deletion_Inr)
qed

lemma Commit_result:
  assumes commit: "CommitSnapshotAndTombstones now db shareID entries revs requests at = Inr (db', ts)"
    and dist: "keys_distinct fie_key (db_file_index db)"
  shows "index_row_of db' k =
      (if fst k = shareID then committed_row now at db shareID entries revs (snd k) else index_row_of db k)"
    and "db_revisions db' = db_revisions db @ revs" and "db_shares db' = db_shares db"
    and "db_tombstones db' = db_tombstones db @ ts" and "keys_distinct fie_key (db_file_index db')"
proof -
  define prev where "prev = listFileIndexEntries db shareID"
  obtain checked ds db3 where c: "\<forall>e\<in>set entries. commit_entry_ok shareID e = ok"
    "keys_distinct fie_RelativePath entries" "keys_distinct rev_RelativePath revs"
    "list_all2 (\<lambda>p r. commit_deletion revs p = Inr r) (missing_entries entries prev) ds"
    "fold_result (mark_deleted now shareID at)
       (idx.put_all now at (map (accepted_entry prev revs) entries) (with_revisions db revs)) ds = Inr db3"
    "db' = db3\<lparr>db_tombstones := db_tombstones db3 @ ts\<rparr>"
    using Commit_Inr [OF commit] unfolding prev_def by metis
  let ?db1 = "with_revisions db revs"
  let ?db2 = "idx.put_all now at (map (accepted_entry prev revs) entries) ?db1"
  have prev: "keys_distinct fie_RelativePath prev" using listed_distinct [OF dist] by (simp add: prev_def)
  have share: "\<forall>e\<in>set entries. fie_ShareID e = shareID" using c(1) by (simp add: commit_entry_ok_iff)
  have "map fie_key (map (accepted_entry prev revs) entries) = map (Pair shareID) (map fie_RelativePath entries)"
    using share by (simp add: fie_key_def)
  then have keys: "distinct (map fie_key (map (accepted_entry prev revs) entries))"
    using c(2) by (simp add: keys_distinct_def distinct_map inj_on_def del: map_map)
  have db2: "index_row_of ?db2 k = (if fst k = shareID then
      (case row_lookup fie_RelativePath (snd k) entries of
         Some e \<Rightarrow> Some (index_row now at (accepted_entry prev revs e)) | None \<Rightarrow> index_row_of db k)
      else index_row_of db k)" for k
    using idx.get_put_all [OF keys, of now at ?db1 k] row_lookup_by_share [OF share, of "accepted_entry prev revs" k]
    by (auto simp: with_revisions_def index_row_of_def split: option.splits)
  have tables: "db_revisions ?db2 = db_revisions db @ revs" "db_shares ?db2 = db_shares db" "db_tombstones ?db2 = db_tombstones db"
    by (simp_all add: put_all_other_tables with_revisions_def)
  have exist: "\<forall>r\<in>set ds. revision_exists ?db2 (rev_ID r)"
    using commit_deletions_paths [OF c(4)] by (auto simp: revision_exists_def row_exists_mem tables)
  have "keys_distinct fie_RelativePath (missing_entries entries prev)"
    using prev by (simp add: keys_distinct_def missing_entries_def distinct_map_filter)
  then have paths: "keys_distinct rev_RelativePath ds" using commit_deletions_paths [OF c(4)] by (simp add: keys_distinct_def)
  note marked = mark_all_deleted [OF c(5) exist paths]
  show "db_revisions db' = db_revisions db @ revs" "db_shares db' = db_shares db" "db_tombstones db' = db_tombstones db @ ts"
    using marked tables c(6) by simp_all
  have "keys_distinct fie_key (db_file_index ?db2)"
    by (rule keys_distinct_put_all) (simp add: with_revisions_def dist)
  then show "keys_distinct fie_key (db_file_index db')" using marked c(6) by simp
  have del: "deletes ds shareID k = (if fst k = shareID \<and> row_lookup fie_RelativePath (snd k) entries = None
      then (case index_row_of db k of None \<Rightarrow> None | Some p \<Rightarrow>
         if fie_IsDeleted p then None else row_lookup rev_RelativePath (snd k) revs) else None)"
    using deletions_lookup [OF c(4), of "snd k"] row_lookup_filter_distinct [OF prev, of "snd k"]
      listed_lookup [of "snd k" db shareID, folded prev_def]
    by (cases k) (auto simp: deletes_def missing_entries_def row_exists_iff dest: row_lookup_SomeD split: option.splits)
  have some: "row_lookup rev_RelativePath (snd k) revs \<noteq> None"
    if "fst k = shareID" "row_lookup fie_RelativePath (snd k) entries = None" "index_row_of db k = Some p" "\<not> fie_IsDeleted p" for p
    using Commit_deletion [OF commit dist, of "snd k" p] that by (cases k) auto
  have "index_row_of db' k = index_row_of db3 k" by (simp add: c(6) index_row_of_def)
  then show "index_row_of db' k =
      (if fst k = shareID then committed_row now at db shareID entries revs (snd k) else index_row_of db k)"
    using marked db2 [of k] del some
    by (cases k) (auto simp: committed_row_def deletion_id_def prev_def split: option.splits)
qed

subsection \<open>The invariant\<close>

lemma revision_ref_append: "revision_ref db x \<Longrightarrow> revision_ref (with_revisions db rs) x"
  by (auto simp: revision_ref_def revision_exists_def row_exists_mem with_revisions_def)

lemma described_append: "described revs e \<Longrightarrow> described (revs @ rs) e"
  by (auto simp: described_def)

lemma insertRevision_wf:
  assumes "insertRevision now db r = Inr db'" and "revisions_wf db"
  shows "revisions_wf db'"
proof -
  let ?r = "r\<lparr>rev_CreatedAt := stored_time now (rev_CreatedAt r)\<rparr>"
  have db': "db' = with_revisions db [?r]" and new: "rev_ID r \<notin> rev_ID ` set (db_revisions db)"
    "share_exists db (rev_ShareID r)" "revision_ref db (rev_ParentRevisionID r) \<or> rev_ParentRevisionID r = rev_ID r"
    using assms(1) by (auto simp: insertRevision_Inr with_revisions_def)
  have "share_exists db' = share_exists db" by (rule share_exists_cong) (simp add: db' with_revisions_def)
  moreover have "revision_ref db' (rev_ID r)" by (simp add: db' with_revisions_def revision_ref_def revision_exists_def row_exists_mem)
  moreover have "revision_ref db' x" if "revision_ref db x" for x using revision_ref_append [OF that] by (simp add: db')
  ultimately show ?thesis
    using assms(2) new unfolding revisions_wf_def
    by (auto simp: list_all_iff keys_distinct_def db' with_revisions_def)
qed

lemma insertTombstone_wf:
  assumes "insertTombstone now db t = Inr db'" and "tombstones_wf db"
  shows "tombstones_wf db'"
proof -
  have "share_exists db' = share_exists db" "revision_ref db' = revision_ref db" "revision_exists db' = revision_exists db"
    using assms(1) by (auto simp: insertTombstone_Inr intro!: share_exists_cong revision_ref_cong revision_exists_cong)
  then show ?thesis
    using assms by (auto simp: tombstones_wf_def insertTombstone_Inr list_all_iff keys_distinct_def)
qed

lemma rows_wf_iff:
  "rows_wf db \<longleftrightarrow> keys_distinct fie_key (db_file_index db) \<and> (\<forall>k e. index_row_of db k = Some e \<longrightarrow> row_wf db e)"
  by (auto simp: rows_wf_def list_all_iff index_row_of_def row_lookup_eq_Some simp del: split_paired_All)

lemma rows_wfD: "rows_wf db \<Longrightarrow> index_row_of db k = Some e \<Longrightarrow> row_wf db e"
  by (cases k) (auto simp: rows_wf_iff)

lemma row_wf_index_row:
  "row_wf db e \<Longrightarrow> \<not> fie_IsDeleted e \<Longrightarrow> row_wf db (index_row now at e)"
  by (auto simp: row_wf_def index_row_def described_def describes_def list_ex_iff)

lemma described_revision:
  assumes "r \<in> set revs" "validateCurrentRevision r e p = ok" "commit_entry_ok shareID e = ok"
    "rev_ShareID r = shareID" "rev_RelativePath r = fie_RelativePath e"
  shows "described revs (e\<lparr>fie_CurrentRevisionID := rev_ID r\<rparr>)"
  using assms by (auto simp: described_def describes_def list_ex_iff validateCurrentRevision_ok commit_entry_ok_iff
      validActiveEntryType_def split: EntryType.splits)

lemma described_equivalent:
  assumes "described revs p" "fileIndexEntriesEquivalent p e" "fie_key p = fie_key e" "\<not> fie_IsDeleted e"
  shows "described revs (e\<lparr>fie_CurrentRevisionID := fie_CurrentRevisionID p\<rparr>)"
  using assms by (auto simp: described_def describes_def list_ex_iff fileIndexEntriesEquivalent_def fie_key_def
      split: if_splits EntryType.splits)

lemma described_deleted:
  assumes "r \<in> set revs" "rev_IsDeleted r" "rev_EntryType r = EntryDeleted" "rev_ShareID r = fie_ShareID p"
    "rev_RelativePath r = fie_RelativePath p"
  shows "described revs (deleted_row now at (rev_ID r) p)"
  using assms by (auto simp: described_def describes_def list_ex_iff deleted_row_def)

lemma index_row_SomeD: "index_row_of db k = Some e \<Longrightarrow> e \<in> set (db_file_index db) \<and> fie_key e = k"
  by (auto simp: index_row_of_def dest: row_lookup_SomeD)

lemma accepted_entry_wf:
  assumes entry: "list_all2 (\<lambda>e p. commit_entry (listFileIndexEntries db shareID) revs e = Inr p) entries checked"
    and ok: "\<forall>e\<in>set entries. commit_entry_ok shareID e = ok" "\<forall>r\<in>set revs. commit_revision_ok shareID r = ok"
    and wf: "rows_wf db" "share_exists db shareID" and e: "e \<in> set entries"
  shows "row_wf (with_revisions db revs) (accepted_entry (listFileIndexEntries db shareID) revs e)"
proof -
  let ?prev = "listFileIndexEntries db shareID" and ?path = "fie_RelativePath e"
  from entry have "\<forall>e\<in>set entries. \<exists>p. commit_entry ?prev revs e = Inr p"
    by (induction rule: list_all2_induct) auto
  then obtain e' rs where c: "commit_entry ?prev revs e = Inr (e', rs)" using e by fastforce
  have ce: "commit_entry_ok shareID e = ok" using ok(1) e by blast
  then have fields: "fie_ShareID e = shareID" "path_ok ?path" "\<not> fie_IsDeleted e" by (simp_all add: commit_entry_ok_iff)
  have "fie_CurrentRevisionID (accepted_entry ?prev revs e) \<noteq> [] \<and>
    described (db_revisions db @ revs) (accepted_entry ?prev revs e)"
  proof (cases "row_lookup rev_RelativePath ?path revs")
    case (Some r)
    then have r: "r \<in> set revs" "rev_RelativePath r = ?path" by (auto dest: row_lookup_SomeD)
    then have "rev_ID r \<noteq> []" "rev_ShareID r = shareID" using ok(2) by (auto simp: commit_revision_ok_iff)
    moreover have "validateCurrentRevision r e (previous_at ?prev ?path) = ok" using c Some by (simp add: commit_entry_Inr)
    ultimately show ?thesis
      using r Some described_revision [of r "db_revisions db @ revs" e _ shareID] ce by (simp add: accepted_entry_def)
  next
    case None
    then have "\<not> entry_changed ?prev e" using c by (simp add: commit_entry_Inr)
    then obtain p where p: "index_row_of db (shareID, ?path) = Some p" "fileIndexEntriesEquivalent p e"
      by (auto simp: entry_changed_def previous_at_def row_exists_iff listed_lookup)
    then have "row_wf db p" "fie_key p = fie_key e" using wf(1) fields
      by (auto simp: rows_wf_iff fie_key_def dest: index_row_SomeD)
    then show ?thesis using None p fields described_equivalent [OF described_append [of "db_revisions db" p revs] p(2)]
      by (simp add: accepted_entry_def previous_at_def listed_lookup row_wf_def)
  qed
  then show ?thesis using fields wf(2) by (simp add: row_wf_def with_revisions_def share_exists_def)
qed

lemma row_wf_append: "row_wf db e \<Longrightarrow> row_wf (with_revisions db revs) e"
  by (simp add: row_wf_def with_revisions_def share_exists_def described_append)

lemma row_wf_cong:
  "db_revisions db' = db_revisions db \<Longrightarrow> db_shares db' = db_shares db \<Longrightarrow> row_wf db' = row_wf db"
  by (simp add: fun_eq_iff row_wf_def share_exists_def)

lemma Commit_wf:
  assumes commit: "CommitSnapshotAndTombstones now db shareID entries revs requests at = Inr (db', ts)"
    and wf: "index_wf db"
  shows "index_wf db'"
proof -
  let ?prev = "listFileIndexEntries db shareID" and ?db1 = "with_revisions db revs"
  have dist: "keys_distinct fie_key (db_file_index db)" using wf by (simp add: index_wf_def rows_wf_def)
  obtain checked db3 where c: "share_exists db shareID"
    "\<forall>e\<in>set entries. commit_entry_ok shareID e = ok" "\<forall>r\<in>set revs. commit_revision_ok shareID r = ok"
    "list_all2 (\<lambda>e p. commit_entry ?prev revs e = Inr p) entries checked"
    "fold_result (insertRevision now) db revs = Inr ?db1"
    "fold_result (insertTombstone now) db3 ts = Inr db'" "db' = db3\<lparr>db_tombstones := db_tombstones db3 @ ts\<rparr>"
    using Commit_Inr [OF commit] by metis
  note eff = Commit_result [OF commit dist]
  have db3: "db_revisions db3 = db_revisions db @ revs" "db_shares db3 = db_shares db" "db_tombstones db3 = db_tombstones db"
    using eff c(7) by simp_all
  have "revisions_wf ?db1" using fold_result_invariant [OF c(5), of revisions_wf] wf insertRevision_wf
    by (auto simp: index_wf_def)
  then have "revisions_wf db'" using eff
    by (simp add: revisions_wf_def with_revisions_def share_exists_def revision_ref_def revision_exists_def)
  moreover have "tombstones_wf db3" using wf
    by (auto simp: index_wf_def tombstones_wf_def share_exists_def revision_ref_def revision_exists_def row_exists_mem db3 list_all_iff)
  then have "tombstones_wf db'" using fold_result_invariant [OF c(6), of tombstones_wf] insertTombstone_wf by blast
  moreover have "row_wf ?db1 e" if row: "index_row_of db' k = Some e" for k e
  proof (cases "fst k = shareID")
    case False
    then have "row_wf db e" using row eff(1) [of k] wf by (auto simp: index_wf_def intro: rows_wfD)
    then show ?thesis by (rule row_wf_append)
  next
    case True
    then have k: "committed_row now at db shareID entries revs (snd k) = Some e" using row eff(1) [of k] by simp
    show ?thesis
    proof (cases "row_lookup fie_RelativePath (snd k) entries")
      case (Some a)
      then have "a \<in> set entries" by (auto dest: row_lookup_SomeD)
      then have "row_wf ?db1 (accepted_entry ?prev revs a)" "\<not> fie_IsDeleted a"
        using accepted_entry_wf [OF c(4,2,3) _ c(1)] wf c(2) by (auto simp: index_wf_def commit_entry_ok_iff)
      then show ?thesis using k Some row_wf_index_row by (auto simp: committed_row_def)
    next
      case None
      then obtain p where p: "index_row_of db (shareID, snd k) = Some p"
        "e = (if fie_IsDeleted p then p else deleted_row now at (deletion_id revs (snd k)) p)"
        using k by (auto simp: committed_row_def)
      have pw: "row_wf db p" "fie_key p = (shareID, snd k)" using wf p(1)
        by (auto simp: index_wf_def rows_wf_iff dest: index_row_SomeD)
      show ?thesis
      proof (cases "fie_IsDeleted p")
        case True
        then show ?thesis using p(2) row_wf_append [OF pw(1)] by simp
      next
        case False
        obtain r where r: "row_lookup rev_RelativePath (snd k) revs = Some r" "validateDeletionRevision r p = ok"
          using Commit_deletion [OF commit dist None p(1) False] by blast
        then have "r \<in> set revs" "rev_RelativePath r = fie_RelativePath p" "rev_ShareID r = fie_ShareID p" "rev_ID r \<noteq> []"
          "rev_IsDeleted r" "rev_EntryType r = EntryDeleted"
          using pw(2) c(3) by (auto simp: fie_key_def commit_revision_ok_iff validateDeletionRevision_ok dest!: row_lookup_SomeD)
        then show ?thesis
          using False p(2) r described_deleted [of r "db_revisions db @ revs" p now at] pw(1)
          by (simp add: deletion_id_def row_wf_def with_revisions_def share_exists_def) (simp add: deleted_row_def)
      qed
    qed
  qed
  then have "rows_wf db'"
    using eff row_wf_cong [of db' ?db1] by (auto simp: rows_wf_iff with_revisions_def)
  ultimately show ?thesis by (simp add: index_wf_def)
qed

subsection \<open>Applying one revision\<close>

lemma index_row_put_row:
  "index_row_of (put_row now at db e) k = (if k = fie_key e then Some (index_row now at e) else index_row_of db k)"
  by (rule idx.get_put)

lemma put_row_tables [simp]:
  "db_revisions (put_row now at db e) = db_revisions db" "db_shares (put_row now at db e) = db_shares db"
  "db_tombstones (put_row now at db e) = db_tombstones db"
  by (simp_all add: put_row_def Let_def)

lemma put_row_wf:
  assumes "rows_wf db" "row_wf db e" "\<not> fie_IsDeleted e"
  shows "rows_wf (put_row now at db e)"
proof -
  have "row_wf (put_row now at db e) = row_wf db" by (rule row_wf_cong) simp_all
  moreover have "keys_distinct fie_key (db_file_index (put_row now at db e))"
    using assms(1) by (simp add: put_row_def Let_def rows_wf_def keys_distinct_upsert)
  ultimately show ?thesis
    using assms by (auto simp: rows_wf_iff index_row_put_row row_wf_index_row split: if_splits)
qed

lemma mark_deleted_wf:
  assumes "mark_deleted now shareID at db r = Inr db'" "rows_wf db" "r' \<in> set (db_revisions db)" "rev_ID r' = rev_ID r"
    "rev_ShareID r' = shareID" "rev_RelativePath r' = rev_RelativePath r" "rev_IsDeleted r'" "rev_EntryType r' = EntryDeleted"
    "rev_ID r \<noteq> []"
  shows "rows_wf db'" "db_revisions db' = db_revisions db" "db_shares db' = db_shares db" "db_tombstones db' = db_tombstones db"
    "index_row_of db' (shareID, rev_RelativePath r) =
       map_option (deleted_row now at (rev_ID r)) (index_row_of db (shareID, rev_RelativePath r))"
proof -
  have ex: "revision_exists db (rev_ID r)" using assms(3,4) by (metis revision_exists_def row_exists_mem rev_image_eqI)
  have "fold_result (mark_deleted now shareID at) db [r] = Inr db'" using assms(1) by simp
  note marked = mark_all_deleted [OF this]
  show eqs: "db_revisions db' = db_revisions db" "db_shares db' = db_shares db" "db_tombstones db' = db_tombstones db"
    "index_row_of db' (shareID, rev_RelativePath r) =
       map_option (deleted_row now at (rev_ID r)) (index_row_of db (shareID, rev_RelativePath r))"
    using marked [of "(shareID, rev_RelativePath r)"] ex by (simp_all add: keys_distinct_def deletes_def)
  have row: "index_row_of db' k = (if k = (shareID, rev_RelativePath r)
      then map_option (deleted_row now at (rev_ID r)) (index_row_of db k) else index_row_of db k)" for k
    using marked [of k] ex by (cases k) (auto simp: keys_distinct_def deletes_def)
  have "row_wf db (deleted_row now at (rev_ID r) p)" if "index_row_of db (shareID, rev_RelativePath r) = Some p" for p
  proof -
    have "row_wf db p" "fie_key p = (shareID, rev_RelativePath r)" using that rows_wfD [OF assms(2)] index_row_SomeD by blast+
    then show ?thesis
      using described_deleted [of r' "db_revisions db" p now at] assms(3-9)
      by (auto simp: row_wf_def fie_key_def) (simp_all add: deleted_row_def)
  qed
  then have "row_wf db e" if "index_row_of db' k = Some e" for k e
    using that row [of k] rows_wfD [OF assms(2)] by (auto split: if_splits)
  then show "rows_wf db'"
    using marked ex assms(2) row_wf_cong [OF eqs(1,2)] by (auto simp: rows_wf_iff keys_distinct_def)
qed

definition commit_ok :: "OneWayApplyCommit \<Rightarrow> bool" where
  "commit_ok c \<longleftrightarrow>
     (let r = oac_Revision c in
      oac_AppliedAt c \<noteq> 0 \<and> commit_revision_ok (oac_ShareID c) r = ok \<and>
      (oac_AllowTargetDrift c \<or> rev_ParentRevisionID r = oac_ExpectedCurrentRevisionID c) \<and>
      (if rev_IsDeleted r then
         rev_EntryType r = EntryDeleted \<and> oac_Entry c = None \<and>
         (\<exists>q. oac_Tombstone c = Some q \<and> treq_ID q \<noteq> [] \<and> treq_TombstoneRevisionID q \<noteq> []) \<and>
         rev_Size r = 0 \<and> rev_ContentHash r = [] \<and> rev_HashAlgorithm r = []
       else oac_Tombstone c = None \<and>
         (\<exists>e. oac_Entry c = Some e \<and> commit_entry_ok (oac_ShareID c) e = ok \<and>
            fie_RelativePath e = rev_RelativePath r \<and>
            validateCurrentRevision r e (zero_FileIndexEntry\<lparr>fie_CurrentRevisionID := rev_ParentRevisionID r\<rparr>) = ok)))"

lemma validateOneWayApplyCommit_ok:
  assumes "validateOneWayApplyCommit c = ok"
  shows "commit_ok c"
proof -
  let ?r = "oac_Revision c"
  have base: "oac_AppliedAt c \<noteq> 0" "commit_revision_ok (oac_ShareID c) ?r = ok"
    "oac_AllowTargetDrift c \<or> rev_ParentRevisionID ?r = oac_ExpectedCurrentRevisionID c"
    using assms by (auto simp: validateOneWayApplyCommit_def Let_def rbind_eq_Inr validateCommitRevisions_Inr split: if_splits)
  show ?thesis
  proof (cases "rev_IsDeleted ?r")
    case True
    then obtain q where "rev_EntryType ?r = EntryDeleted" "oac_Entry c = None" "oac_Tombstone c = Some q"
      "validateTombstoneRequests [q] = ok" "rev_Size ?r = 0" "rev_ContentHash ?r = []" "rev_HashAlgorithm ?r = []"
      using assms by (auto simp: validateOneWayApplyCommit_def Let_def rbind_eq_Inr validateDeletionRevision_ok
          split: if_splits option.splits bool.splits)
    then show ?thesis using base True by (simp add: commit_ok_def Let_def validateTombstoneRequests_ok)
  next
    case False
    then obtain e where e: "oac_Entry c = Some e" "oac_Tombstone c = None" "validateCommitEntries (oac_ShareID c) [e] = Inr [e]"
      "validateCurrentRevision ?r (previous_at [e] (rev_RelativePath ?r))
         (zero_FileIndexEntry\<lparr>fie_CurrentRevisionID := rev_ParentRevisionID ?r\<rparr>) = ok"
      "rev_EntryType ?r = EntryFile \<or> rev_EntryType ?r = EntryDirectory"
      using assms by (auto simp: validateOneWayApplyCommit_def Let_def rbind_eq_Inr validateCommitEntries_Inr
          split: if_splits option.splits)
    then have "fie_RelativePath e = rev_RelativePath ?r"
      by (auto simp: validateCurrentRevision_ok previous_at_def zero_FileIndexEntry_def split: if_splits)
    then show ?thesis using base False e by (simp add: commit_ok_def Let_def validateCommitEntries_Inr previous_at_def)
  qed
qed

lemma Apply_new:
  assumes applied: "CommitOneWayApply now db c = Inr (db', res)" and wf: "index_wf db"
    and new: "row_lookup rev_ID (rev_ID (oac_Revision c)) (db_revisions db) = None"
  shows "index_wf db' \<and> check_expected db c = ok \<and> db_revisions db' = db_revisions db @ [oac_Revision c] \<and>
    \<not> oar_AlreadyApplied res \<and>
    (\<exists>row. index_row_of db' (oac_ShareID c, rev_RelativePath (oac_Revision c)) = Some row \<and>
       fie_CurrentRevisionID row = rev_ID (oac_Revision c) \<and> fie_IsDeleted row = rev_IsDeleted (oac_Revision c)) \<and>
    (if rev_IsDeleted (oac_Revision c)
     then \<exists>q t. oac_Tombstone c = Some q \<and> oar_Tombstone res = Some t \<and>
       build_tombstone (oac_ShareID c) [oac_Revision c] q = Inr t \<and> db_tombstones db' = db_tombstones db @ [t]
     else oar_Tombstone res = None)"
proof -
  let ?r = "oac_Revision c" and ?s = "oac_ShareID c"
  have ok: "commit_ok c" and exp: "check_expected db c = ok"
    and steps: "rbind (insertRevision now db ?r) (apply_revision now c) = Inr (db', res)"
    and share: "share_exists db ?s"
    using applied new validateOneWayApplyCommit_ok by (auto simp: CommitOneWayApply_def rbind_eq_Inr split: if_splits)
  have r: "rev_CreatedAt ?r \<noteq> 0" "rev_ID ?r \<noteq> []" "rev_ShareID ?r = ?s" "path_ok (rev_RelativePath ?r)"
    using ok by (simp_all add: commit_ok_def Let_def commit_revision_ok_iff)
  let ?db = "with_revisions db [?r]"
  have ins: "insertRevision now db ?r = Inr ?db" and app: "apply_revision now c ?db = Inr (db', res)"
    using steps r(1) by (auto simp: rbind_eq_Inr insertRevision_Inr with_revisions_def stored_time_def)
  have wf1: "revisions_wf ?db" "rows_wf ?db" "tombstones_wf ?db"
  proof -
    show "revisions_wf ?db" using insertRevision_wf [OF ins] wf by (simp add: index_wf_def)
    have "row_wf ?db e" if "index_row_of db k = Some e" for k e
      using rows_wfD [of db k e] that wf row_wf_append by (simp add: index_wf_def)
    then show "rows_wf ?db" using wf by (auto simp: index_wf_def rows_wf_iff with_revisions_def index_row_of_def)
    show "tombstones_wf ?db" using wf revision_ref_append [of db]
      by (auto simp: index_wf_def tombstones_wf_def with_revisions_def share_exists_def revision_exists_def row_exists_mem list_all_iff)
  qed
  have share1: "share_exists ?db ?s" using share by (simp add: with_revisions_def share_exists_def)
  have mem: "?r \<in> set (db_revisions ?db)" by (simp add: with_revisions_def)
  have row1: "index_row_of ?db = index_row_of db" by (simp add: fun_eq_iff index_row_of_def with_revisions_def)
  show ?thesis
  proof (cases "rev_IsDeleted ?r")
    case False
    then obtain e where e: "oac_Entry c = Some e" "commit_entry_ok ?s e = ok" "fie_RelativePath e = rev_RelativePath ?r"
      "validateCurrentRevision ?r e (zero_FileIndexEntry\<lparr>fie_CurrentRevisionID := rev_ParentRevisionID ?r\<rparr>) = ok"
      using ok by (auto simp: commit_ok_def Let_def)
    let ?e = "e\<lparr>fie_CurrentRevisionID := rev_ID ?r\<rparr>"
    have es: "?e\<lparr>fie_ShareID := ?s\<rparr> = ?e" "\<not> fie_IsDeleted ?e" "fie_key ?e = (?s, rev_RelativePath ?r)"
      using e(2,3) by (cases e; simp add: commit_entry_ok_iff fie_key_def)+
    have res: "db' = put_row now (oac_AppliedAt c) ?db ?e" "oar_Tombstone res = None" "\<not> oar_AlreadyApplied res"
      using app False e(1) es(1) by (auto simp: apply_revision_def Let_def rbind_eq_Inr upsertFileIndexEntry_Inr)
    have "row_wf ?db ?e"
      using described_revision [OF mem e(4,2)] r e(2,3) share1 by (simp add: row_wf_def commit_entry_ok_iff)
    then have "rows_wf db'" using put_row_wf [OF wf1(2)] es(2) by (simp add: res)
    moreover have "share_exists db' = share_exists ?db" "revision_ref db' = revision_ref ?db" "revision_exists db' = revision_exists ?db"
      by (auto simp: res(1) intro!: share_exists_cong revision_ref_cong revision_exists_cong)
    then have "revisions_wf db'" "tombstones_wf db'" using wf1 by (simp_all add: revisions_wf_def tombstones_wf_def res(1))
    ultimately show ?thesis
      using exp False res es by (auto simp: index_wf_def index_row_put_row with_revisions_def) (simp add: index_row_def)+
  next
    case True
    then obtain q where q: "oac_Tombstone c = Some q" "rev_EntryType ?r = EntryDeleted"
      using ok by (auto simp: commit_ok_def Let_def)
    obtain db2 t where m: "mark_deleted now ?s (oac_AppliedAt c) ?db ?r = Inr db2"
      and t: "build_tombstone ?s [?r] q = Inr t" "insertTombstone now db2 t = Inr db'"
      "oar_Tombstone res = Some t" "\<not> oar_AlreadyApplied res"
      using app True q by (auto simp: apply_revision_def Let_def rbind_eq_Inr)
    note marked = mark_deleted_wf [OF m wf1(2) mem refl r(3) refl True q(2) r(2)]
    have "share_exists db2 = share_exists ?db" "revision_ref db2 = revision_ref ?db" "revision_exists db2 = revision_exists ?db"
      by (auto simp: marked(2,3) intro!: share_exists_cong revision_ref_cong revision_exists_cong)
    then have wf2: "revisions_wf db2" "tombstones_wf db2"
      using wf1 marked(2-4) by (simp_all add: revisions_wf_def tombstones_wf_def)
    have "tomb_DeletedAt t \<noteq> 0" using t(1) by (auto simp: build_tombstone_Inr)
    then have db': "db' = db2\<lparr>db_tombstones := db_tombstones db2 @ [t]\<rparr>"
      using t(2) by (auto simp: insertTombstone_Inr stored_time_def)
    have "row_wf db' = row_wf db2" by (rule row_wf_cong) (simp_all add: db')
    then have "rows_wf db'" using marked(1) by (simp add: rows_wf_def db')
    moreover have "revisions_wf db'" using wf2(1)
      by (simp add: db' revisions_wf_def share_exists_def revision_ref_def revision_exists_def)
    moreover have "tombstones_wf db'" using insertTombstone_wf [OF t(2) wf2(2)] .
    moreover obtain p where "index_row_of db (?s, rev_RelativePath ?r) = Some p"
      using exp True by (auto simp: check_expected_def split: option.splits if_splits)
    then have "index_row_of db' (?s, rev_RelativePath ?r) = Some (deleted_row now (oac_AppliedAt c) (rev_ID ?r) p)"
      using marked(5) row1 by (simp add: db' index_row_of_def)
    ultimately show ?thesis
      using exp True q t marked by (auto simp: index_wf_def db' with_revisions_def) (simp add: deleted_row_def)+
  qed
qed

lemma RecordDeletion_Inr:
  "RecordDeletion now db tid rid expires = Inr (db', t) \<Longrightarrow> db' = db \<or> insertTombstone now db t = Inr db'"
  by (auto simp: RecordDeletion_def Let_def rbind_eq_Inr split: if_splits option.splits)

lemma insertTombstone_keeps:
  assumes "insertTombstone now db t = Inr db'" "index_wf db"
  shows "index_wf db'"
proof -
  have tables: "db_revisions db' = db_revisions db" "db_shares db' = db_shares db" "db_file_index db' = db_file_index db"
    using assms(1) by (auto simp: insertTombstone_Inr)
  have "row_wf db' = row_wf db" by (rule row_wf_cong) (simp_all add: tables)
  then show ?thesis
    using assms insertTombstone_wf [OF assms(1)]
    by (simp add: index_wf_def revisions_wf_def rows_wf_def tables share_exists_cong [OF tables(2)] revision_ref_cong [OF tables(1)])
qed

text \<open>Every revision of a commit is accepted.\<close>

lemma commit_accepted_paths:
  "list_all2 (\<lambda>e p. commit_entry prev revs e = Inr p) es checked \<Longrightarrow>
   map rev_RelativePath (concat (map snd checked)) =
     map fie_RelativePath (filter (\<lambda>e. row_lookup rev_RelativePath (fie_RelativePath e) revs \<noteq> None) es) \<and>
   set (concat (map snd checked)) \<subseteq> set revs"
  by (induction rule: list_all2_induct)
    (auto simp: commit_entry_Inr split: option.splits dest: row_lookup_SomeD)

lemma Commit_accepts_all:
  assumes commit: "CommitSnapshotAndTombstones now db shareID entries revs requests at = Inr (db', ts)"
    and dist: "keys_distinct fie_key (db_file_index db)" and r: "r \<in> set revs"
  shows "rev_RelativePath r \<in> fie_RelativePath ` set entries \<or>
    (\<exists>p. index_row_of db (shareID, rev_RelativePath r) = Some p \<and> \<not> fie_IsDeleted p)"
proof -
  let ?prev = "listFileIndexEntries db shareID"
  obtain checked ds where c: "keys_distinct fie_RelativePath entries" "keys_distinct rev_RelativePath revs"
    "list_all2 (\<lambda>e p. commit_entry ?prev revs e = Inr p) entries checked"
    "list_all2 (\<lambda>p r. commit_deletion revs p = Inr r) (missing_entries entries ?prev) ds"
    "check_accepted (concat (map snd checked) @ ds) revs = ok"
    using Commit_Inr [OF commit] by metis
  let ?acc = "concat (map snd checked) @ ds"
  note acc = commit_accepted_paths [OF c(3)] commit_deletions_paths [OF c(4)]
  have "distinct (map fie_RelativePath (missing_entries entries ?prev))"
    using listed_distinct [OF dist, of shareID] by (simp add: keys_distinct_def missing_entries_def distinct_map_filter)
  moreover have "fie_RelativePath ` set (missing_entries entries ?prev) \<inter> fie_RelativePath ` set entries = {}"
    by (auto simp: missing_entries_def row_exists_mem)
  ultimately have dacc: "distinct (map rev_RelativePath ?acc)"
    using acc c(1) by (auto simp: keys_distinct_def distinct_map_filter)
  have sub: "set (map rev_RelativePath ?acc) \<subseteq> set (map rev_RelativePath revs)"
    using image_mono [of "set ?acc" "set revs" rev_RelativePath] acc(1)[THEN conjunct2] acc(2)[THEN conjunct2]
    by (simp only: set_map set_append Un_least)
  have "rev_RelativePath r \<in> set (map rev_RelativePath ?acc)"
  proof (cases "length ?acc = length revs")
    case True
    then have "card (set (map rev_RelativePath ?acc)) = card (set (map rev_RelativePath revs))"
      using distinct_card [OF dacc] distinct_card [OF c(2) [unfolded keys_distinct_def]] by simp
    then have "set (map rev_RelativePath ?acc) = set (map rev_RelativePath revs)"
      using sub by (intro card_subset_eq) auto
    then show ?thesis using r by simp
  next
    case False
    then show ?thesis using c(5) r by (simp add: check_accepted_def list_ex_iff row_exists_mem image_Un split: if_splits)
  qed
  then consider "rev_RelativePath r \<in> fie_RelativePath ` set entries"
    | "rev_RelativePath r \<in> fie_RelativePath ` set (missing_entries entries ?prev)"
    using acc(1)[THEN conjunct1] acc(2)[THEN conjunct1] by (simp del: set_map) (auto simp del: set_concat)
  then show ?thesis
  proof cases
    case 2
    then obtain p where p: "p \<in> set ?prev" "fie_RelativePath p = rev_RelativePath r" "\<not> fie_IsDeleted p"
      by (auto simp: missing_entries_def)
    then have "row_lookup fie_RelativePath (rev_RelativePath r) ?prev = Some p"
      using listed_distinct [OF dist, of shareID] by (simp add: row_lookup_eq_Some)
    then show ?thesis using p(3) by (auto simp: listed_lookup)
  qed blast
qed

lemma lookup_new_revision:
  assumes "distinct (map rev_ID revs)" "\<forall>r\<in>set revs. rev_ID r \<notin> rev_ID ` set old" "r \<in> set revs"
  shows "row_lookup rev_ID (rev_ID r) (old @ revs) = Some r"
proof -
  have "row_lookup rev_ID (rev_ID r) old = None" using assms(2,3) unfolding row_lookup_None by (metis image_eqI)
  moreover have "row_lookup rev_ID (rev_ID r) revs = Some r"
    using assms by (simp add: row_lookup_eq_Some keys_distinct_def)
  ultimately show ?thesis by (simp add: row_lookup_append)
qed

lemma Commit_current:
  assumes commit: "CommitSnapshotAndTombstones now db shareID entries revs requests at = Inr (db', ts)"
    and dist: "keys_distinct fie_key (db_file_index db)" and r: "r \<in> set revs"
  shows "GetCurrentRevision db' shareID (rev_RelativePath r) = Inr r"
proof -
  let ?path = "rev_RelativePath r"
  have c: "keys_distinct rev_RelativePath revs" "distinct (map rev_ID revs)" "rev_ID r \<noteq> []"
    "\<forall>r\<in>set revs. rev_ID r \<notin> rev_ID ` set (db_revisions db)"
    using Commit_Inr [OF commit] r by (metis commit_revision_ok_iff)+
  have look: "row_lookup rev_RelativePath ?path revs = Some r" using c(1) r by (simp add: row_lookup_eq_Some)
  note eff = Commit_result [OF commit dist]
  have "\<exists>row. index_row_of db' (shareID, ?path) = Some row \<and> fie_CurrentRevisionID row = rev_ID r"
  proof (cases "row_lookup fie_RelativePath ?path entries")
    case (Some e)
    then have "fie_RelativePath e = ?path" by (auto dest: row_lookup_SomeD)
    then show ?thesis using eff(1) [of "(shareID, ?path)"] Some look
      by (auto simp: committed_row_def index_row_def accepted_entry_def)
  next
    case None
    then obtain p where "index_row_of db (shareID, ?path) = Some p" "\<not> fie_IsDeleted p"
      using Commit_accepts_all [OF commit dist r] by (auto simp: row_lookup_None)
    then show ?thesis using eff(1) [of "(shareID, ?path)"] None look
      by (auto simp: committed_row_def deletion_id_def deleted_row_def)
  qed
  then show ?thesis using lookup_new_revision [OF c(2,4) r] eff(2) c(3) by (auto simp: GetCurrentRevision_def)
qed

section \<open>Example data\<close>

definition example_entry :: FileIndexEntry where
  "example_entry = \<lparr> fie_ShareID = ''s'', fie_RelativePath = ''a'', fie_EntryType = EntryFile, fie_Size = 1,
     fie_ModifiedTime = 3, fie_CreationTime = 0, fie_FileIdentity = [], fie_ContentHash = ''h'',
     fie_HashAlgorithm = ''sha256'', fie_CurrentRevisionID = [], fie_IsDeleted = False,
     fie_DeletedAt = 0, fie_LastScannedAt = 0 \<rparr>"

definition example_revision :: Revision where
  "example_revision = \<lparr> rev_ID = ''r1'', rev_ShareID = ''s'', rev_RelativePath = ''a'',
     rev_EntryType = EntryFile, rev_Size = 1, rev_ContentHash = ''h'', rev_HashAlgorithm = ''sha256'',
     rev_ParentRevisionID = [], rev_OriginDeviceID = ''d'', rev_Sequence = 1, rev_IsDeleted = False,
     rev_CreatedAt = 4 \<rparr>"

definition example_share_db :: DB where
  "example_share_db = empty_db\<lparr>db_shares := [example_share]\<rparr>"

definition example_apply :: OneWayApplyCommit where
  "example_apply = \<lparr> oac_ShareID = ''s'', oac_Revision = example_revision,
     oac_ExpectedCurrentRevisionID = [], oac_Entry = Some example_entry, oac_Tombstone = None,
     oac_AppliedAt = 5, oac_AllowTargetDrift = False \<rparr>"

lemma example_share_db_wf: "index_wf example_share_db"
  by (simp add: example_share_db_def empty_db_def index_wf_def revisions_wf_def rows_wf_def tombstones_wf_def keys_distinct_def)

lemmas example_defs = example_entry_def example_revision_def example_share_db_def example_apply_def
  example_share_def empty_db_def

section \<open>Properties\<close>

text \<open>
  C26. A committed snapshot is the index. After \<open>CommitSnapshotAndTombstones\<close> succeeds, the live rows of
  the share are exactly the scanned entries, with their type, size, hashes and identity; every other
  path of the share is absent or deleted; other shares are untouched; exactly the given revisions are
  recorded, and each is the current revision of its path; and the tombstones are those returned.
\<close>

theorem CommitSnapshot_index:
  assumes "CommitSnapshotAndTombstones now db shareID entries revisions requests scannedAt = Inr (db', ts)"
    and "index_wf db"
  shows "(\<forall>e\<in>set entries. \<exists>row. index_row_of db' (shareID, fie_RelativePath e) = Some row \<and>
       \<not> fie_IsDeleted row \<and> fie_EntryType row = fie_EntryType e \<and> fie_Size row = fie_Size e \<and>
       fie_ContentHash row = fie_ContentHash e \<and> fie_HashAlgorithm row = fie_HashAlgorithm e \<and>
       fie_FileIdentity row = fie_FileIdentity e) \<and>
    (\<forall>path row. path \<notin> fie_RelativePath ` set entries \<longrightarrow>
       index_row_of db' (shareID, path) = Some row \<longrightarrow> fie_IsDeleted row) \<and>
    (\<forall>share path. share \<noteq> shareID \<longrightarrow> index_row_of db' (share, path) = index_row_of db (share, path)) \<and>
    db_revisions db' = db_revisions db @ revisions \<and>
    (\<forall>r\<in>set revisions. GetCurrentRevision db' shareID (rev_RelativePath r) = Inr r) \<and>
    db_tombstones db' = db_tombstones db @ ts"
proof -
  have dist: "keys_distinct fie_key (db_file_index db)" using assms(2) by (simp add: index_wf_def rows_wf_def)
  note eff = Commit_result [OF assms(1) dist]
  have entries: "keys_distinct fie_RelativePath entries" using Commit_Inr [OF assms(1)] by metis
  have "\<exists>row. index_row_of db' (shareID, fie_RelativePath e) = Some row \<and>
       \<not> fie_IsDeleted row \<and> fie_EntryType row = fie_EntryType e \<and> fie_Size row = fie_Size e \<and>
       fie_ContentHash row = fie_ContentHash e \<and> fie_HashAlgorithm row = fie_HashAlgorithm e \<and>
       fie_FileIdentity row = fie_FileIdentity e" if "e \<in> set entries" for e
  proof -
    have "row_lookup fie_RelativePath (fie_RelativePath e) entries = Some e"
      using entries that by (simp add: row_lookup_eq_Some)
    then show ?thesis using eff(1) [of "(shareID, fie_RelativePath e)"] by (simp add: committed_row_def index_row_def)
  qed
  moreover have "fie_IsDeleted row"
    if "path \<notin> fie_RelativePath ` set entries" "index_row_of db' (shareID, path) = Some row" for path row
  proof -
    have "row_lookup fie_RelativePath path entries = None" using that(1) by (auto simp: row_lookup_None)
    then show ?thesis using eff(1) [of "(shareID, path)"] that(2)
      by (cases "index_row_of db (shareID, path)") (auto simp: committed_row_def deleted_row_def)
  qed
  moreover have "index_row_of db' (share, path) = index_row_of db (share, path)" if "share \<noteq> shareID" for share path
    using eff(1) [of "(share, path)"] that by simp
  ultimately show ?thesis using eff(2,4) Commit_current [OF assms(1) dist] by blast
qed

theorem CommitSnapshot_index_witness:
  "\<exists>db' row. CommitSnapshotAndTombstones 9 example_share_db ''s'' [example_entry] [example_revision] [] 8 = Inr (db', []) \<and>
     index_row_of db' (''s'', ''a'') = Some row \<and> \<not> fie_IsDeleted row \<and>
     GetCurrentRevision db' ''s'' ''a'' = Inr example_revision"
proof -
  have "\<exists>db'. CommitSnapshotAndTombstones 9 example_share_db ''s'' [example_entry] [example_revision] [] 8 = Inr (db', [])"
    by (simp add: CommitSnapshotAndTombstones_def validateCommitEntries_def validateCommitRevisions_def
        commit_entry_ok_def commit_revision_ok_def validActiveEntryType_def validateTombstoneRequests_def
        row_exists_def share_exists_def listFileIndexEntries_def commit_entry_def entry_changed_def previous_at_def
        validateCurrentRevision_def missing_entries_def check_accepted_def buildAcceptedTombstones_def
        insertRevision_def revision_ref_def revision_exists_def stored_type_def stored_time_def
        upsertFileIndexEntry_def put_row_def index_row_def row_upsert_def example_defs zero_FileIndexEntry_def
        go_eval Let_def)
  then obtain db' where c: "CommitSnapshotAndTombstones 9 example_share_db ''s'' [example_entry] [example_revision] [] 8 = Inr (db', [])"
    by blast
  show ?thesis using CommitSnapshot_index [OF c example_share_db_wf] c
    by (auto simp: example_entry_def example_revision_def)
qed

text \<open>
  C25. Applying a revision is idempotent and never overwrites what it did not expect. When
  \<open>CommitOneWayApply\<close> succeeds, the revision is recorded and is the current state of its path; when it
  was not applied before, the path was at the revision the caller expected; and applying the same
  commit again, at any time, succeeds, returns the same tombstone and leaves the database as it is.
\<close>

theorem CommitOneWayApply_idempotent:
  assumes "CommitOneWayApply now db c = Inr (db', result)" and "index_wf db"
  shows "GetCurrentRevision db' (oac_ShareID c) (rev_RelativePath (oac_Revision c)) = Inr (oac_Revision c) \<and>
    (\<not> oar_AlreadyApplied result \<longrightarrow>
       (case index_row_of db (oac_ShareID c, rev_RelativePath (oac_Revision c)) of
          Some row \<Rightarrow> fie_CurrentRevisionID row = oac_ExpectedCurrentRevisionID c
        | None \<Rightarrow> oac_ExpectedCurrentRevisionID c = [])) \<and>
    CommitOneWayApply later db' c = Inr (db', result\<lparr>oar_AlreadyApplied := True\<rparr>)"
proof (cases "row_lookup rev_ID (rev_ID (oac_Revision c)) (db_revisions db)")
  case (Some existing)
  let ?r = "oac_Revision c"
  have v: "validateOneWayApplyCommit c = ok" "share_exists db (oac_ShareID c)"
    and i: "idempotentOneWayApplyResult db c existing = Inr result" "db' = db"
    using assms(1) Some by (auto simp: CommitOneWayApply_def rbind_eq_Inr split: if_splits)
  have "revisionsEqual existing ?r" using i by (auto simp: idempotentOneWayApplyResult_def Let_def split: if_splits)
  then have "existing = ?r" by (cases existing; cases ?r) (simp add: revisionsEqual_def)
  moreover obtain row where "index_row_of db (oac_ShareID c, rev_RelativePath ?r) = Some row" "fie_CurrentRevisionID row = rev_ID ?r"
    using i by (auto simp: idempotentOneWayApplyResult_def Let_def split: if_splits option.splits)
  moreover have "oar_AlreadyApplied result"
    using i by (auto simp: idempotentOneWayApplyResult_def Let_def rbind_eq_Inr split: if_splits option.splits)
  moreover have "rev_ID ?r \<noteq> []" using validateOneWayApplyCommit_ok [OF v(1)]
    by (simp add: commit_ok_def Let_def commit_revision_ok_iff)
  moreover have "result\<lparr>oar_AlreadyApplied := True\<rparr> = result" using calculation(4) by (cases result) simp
  ultimately show ?thesis using Some i v by (simp add: GetCurrentRevision_def CommitOneWayApply_def)
next
  case None
  let ?r = "oac_Revision c" and ?k = "(oac_ShareID c, rev_RelativePath (oac_Revision c))"
  have v: "validateOneWayApplyCommit c = ok" "share_exists db (oac_ShareID c)"
    using assms(1) by (auto simp: CommitOneWayApply_def rbind_eq_Inr split: if_splits)
  note new = Apply_new [OF assms None]
  obtain row where row: "index_row_of db' ?k = Some row" "fie_CurrentRevisionID row = rev_ID ?r"
    "fie_IsDeleted row = rev_IsDeleted ?r" using new by blast
  have found: "row_lookup rev_ID (rev_ID ?r) (db_revisions db') = Some ?r"
    using new None by (simp add: row_lookup_append)
  have "rev_ID ?r \<noteq> []" using validateOneWayApplyCommit_ok [OF v(1)]
    by (simp add: commit_ok_def Let_def commit_revision_ok_iff)
  then have cur: "GetCurrentRevision db' (oac_ShareID c) (rev_RelativePath ?r) = Inr ?r"
    using row found by (simp add: GetCurrentRevision_def)
  have exp: "case index_row_of db ?k of Some row \<Rightarrow> fie_CurrentRevisionID row = oac_ExpectedCurrentRevisionID c
      | None \<Rightarrow> oac_ExpectedCurrentRevisionID c = []"
    using new by (auto simp: check_expected_def split: option.splits if_splits)
  have "row_wf db' row" "fie_key row = ?k"
    using new row(1) rows_wfD index_row_SomeD unfolding index_wf_def by blast+
  then have share: "share_exists db' (oac_ShareID c)" by (simp add: row_wf_def fie_key_def)
  have "idempotentOneWayApplyResult db' c ?r = Inr (result\<lparr>oar_AlreadyApplied := True\<rparr>)"
  proof (cases "rev_IsDeleted ?r")
    case False
    then show ?thesis using row new
      by (cases result) (auto simp: idempotentOneWayApplyResult_def Let_def revisionsEqual_def)
  next
    case True
    then obtain q t where t: "oac_Tombstone c = Some q" "oar_Tombstone result = Some t"
      "build_tombstone (oac_ShareID c) [?r] q = Inr t" "db_tombstones db' = db_tombstones db @ [t]"
      using new by auto
    have "tomb_TombstoneRevisionID t = rev_ID ?r" using t(3) by (auto simp: build_tombstone_Inr split: if_splits)
    moreover have "row_lookup tomb_TombstoneRevisionID (rev_ID ?r) (db_tombstones db) = None"
      using assms(2) None
      by (auto simp: row_lookup_None index_wf_def tombstones_wf_def list_all_iff revision_exists_def row_exists_iff)
    ultimately have "row_lookup tomb_TombstoneRevisionID (rev_ID ?r) (db_tombstones db') = Some t"
      by (simp add: t(4) row_lookup_append)
    then show ?thesis using True row t
      by (cases result) (auto simp: idempotentOneWayApplyResult_def Let_def revisionsEqual_def tombstonesEqual_def tombstonesEqualIgnoringID_def)
  qed
  then show ?thesis using cur exp v share found by (simp add: CommitOneWayApply_def)
qed

theorem CommitOneWayApply_idempotent_witness:
  "\<exists>db' result. CommitOneWayApply 9 example_share_db example_apply = Inr (db', result) \<and>
     CommitOneWayApply 20 db' example_apply = Inr (db', result\<lparr>oar_AlreadyApplied := True\<rparr>)"
proof -
  have "\<exists>db' result. CommitOneWayApply 9 example_share_db example_apply = Inr (db', result)"
    by (simp add: CommitOneWayApply_def validateOneWayApplyCommit_def validateCommitEntries_def validateCommitRevisions_def
        commit_entry_ok_def commit_revision_ok_def validActiveEntryType_def
        row_exists_def share_exists_def previous_at_def validateCurrentRevision_def check_expected_def index_row_of_def
        insertRevision_def revision_ref_def revision_exists_def stored_type_def stored_time_def apply_revision_def
        upsertFileIndexEntry_def example_defs zero_FileIndexEntry_def go_eval Let_def)
  then obtain db' result where c: "CommitOneWayApply 9 example_share_db example_apply = Inr (db', result)" by blast
  show ?thesis using CommitOneWayApply_idempotent [OF c example_share_db_wf, of 20] c by blast
qed

end
