(* ===== verification/Scan_Commit.thy ===== *)
theory Scan_Commit
  imports Reconcile Index_Store
begin

text \<open>
  src/internal/sync/commit.go: a scan of a share is planned against the index, guarded, turned into
  revisions and tombstone requests, and committed. The folder scanner, the clock and the sources of
  random identifiers are arguments; the n-th identifier drawn is the value at n, \<open>None\<close> when drawing
  fails.
\<close>

record ScanCommitOptions =
  sco_ShareID :: ShareID
  sco_DeletionGuard :: DeletionGuard
  sco_OriginDeviceID :: DeviceID
  sco_SequenceStart :: int
  sco_TombstoneRetention :: int

record ScanCommitResult =
  scr_Plan :: ScanPlan
  scr_Revisions :: "Revision list"
  scr_Tombstones :: "Tombstone list"
  scr_Committed :: bool
  scr_Blocked :: bool
  scr_CommittedAt :: time

datatype run_error =
  RunOriginRequired | RunSequenceNegative | RunRetentionNegative
| RunPlan "store_error plan_error_kind" | RunRevisions revision_error
| RunTombstoneIDFailed | RunTombstoneIDEmpty | RunCommit store_error

text \<open>The loop over the revisions that makes the tombstone requests; \<open>drawn\<close> counts the identifiers.\<close>

fun tombstone_loop ::
  "time \<Rightarrow> int \<Rightarrow> (nat \<Rightarrow> TombstoneID option) \<Rightarrow> nat \<Rightarrow> Revision list \<Rightarrow> run_error + TombstoneRequest list" where
  "tombstone_loop commitTime retention newTombstoneID drawn [] = Inr []"
| "tombstone_loop commitTime retention newTombstoneID drawn (revision # revisions) =
     (if \<not> rev_IsDeleted revision
      then tombstone_loop commitTime retention newTombstoneID drawn revisions
      else case newTombstoneID drawn of
        None \<Rightarrow> Inl RunTombstoneIDFailed
      | Some tombstoneID \<Rightarrow>
          if tombstoneID = [] then Inl RunTombstoneIDEmpty
          else
            rbind (tombstone_loop commitTime retention newTombstoneID (drawn + 1) revisions) (\<lambda>requests.
            Inr (\<lparr> treq_ID = tombstoneID, treq_TombstoneRevisionID = rev_ID revision,
                   treq_ExpiresAt = (if 0 < retention then commitTime + retention else 0) \<rparr> # requests)))"

definition Run ::
  "(time \<Rightarrow> store_error + ScanResult) \<Rightarrow> (nat \<Rightarrow> RevisionID option) \<Rightarrow> (nat \<Rightarrow> TombstoneID option) \<Rightarrow>
   time \<Rightarrow> DB \<Rightarrow> ScanCommitOptions \<Rightarrow> run_error + DB \<times> ScanCommitResult" where
  "Run scan newRevisionID newTombstoneID commitTime db options =
     (let shareID = sco_ShareID options in
      if sco_OriginDeviceID options = [] then Inl RunOriginRequired
      else if sco_SequenceStart options < 0 then Inl RunSequenceNegative
      else if sco_TombstoneRetention options < 0 then Inl RunRetentionNegative
      else
        case Plan (\<lambda>share. Inr (ListEntries db share)) (\<lambda>_. scan commitTime) shareID
               (sco_DeletionGuard options) of
          Inl e \<Rightarrow> Inl (RunPlan e)
        | Inr plan \<Rightarrow>
            let result = \<lparr> scr_Plan = plan, scr_Revisions = [], scr_Tombstones = [], scr_Committed = False,
                           scr_Blocked = False, scr_CommittedAt = 0 \<rparr> in
            if \<not> dd_Allowed (plan_DeletionDecision plan) then Inr (db, result\<lparr>scr_Blocked := True\<rparr>)
            else
              case BuildRevisions (plan_Reconciliation plan) shareID (sco_OriginDeviceID options)
                     (sco_SequenceStart options) commitTime newRevisionID of
                Inl e \<Rightarrow> Inl (RunRevisions e)
              | Inr revisions \<Rightarrow>
                  rbind (tombstone_loop commitTime (sco_TombstoneRetention options) newTombstoneID 0 revisions)
                    (\<lambda>requests.
                     case CommitSnapshotAndTombstones commitTime db shareID (scan_Entries (plan_Scan plan))
                            revisions requests (scan_ScannedAt (plan_Scan plan)) of
                       Inl e \<Rightarrow> Inl (RunCommit e)
                     | Inr (db, tombstones) \<Rightarrow>
                         Inr (db, result\<lparr>scr_Revisions := revisions, scr_Tombstones := tombstones,
                                         scr_Committed := True, scr_CommittedAt := commitTime\<rparr>)))"

section \<open>The stored index as the planner reads it\<close>

lemma row_lookup_None_image: "row_lookup key k rows = None \<longleftrightarrow> k \<notin> key ` set rows"
  by (auto simp: row_lookup_None)

lemma keys_distinct_inj:
  "keys_distinct key rows \<Longrightarrow> a \<in> set rows \<Longrightarrow> b \<in> set rows \<Longrightarrow> key a = key b \<Longrightarrow> a = b"
  by (auto simp: keys_distinct_def distinct_map dest: inj_onD)

lemma sort_key_perm: "set (sort_key f xs) = set xs" "distinct (map g (sort_key f xs)) \<longleftrightarrow> distinct (map g xs)"
  by (simp_all add: distinct_map)

lemma ListEntries_well_indexed:
  assumes "rows_wf db"
  shows "well_indexed (ListEntries db shareID)"
proof -
  have "distinct (map fie_RelativePath (listFileIndexEntries db shareID))"
    using listed_distinct assms by (simp add: rows_wf_def keys_distinct_def)
  then show ?thesis
    using assms unfolding well_indexed_def ListEntries_def sort_key_perm
    by (auto simp: rows_wf_def list_all_iff row_wf_def path_ok_def listFileIndexEntries_def)
qed

lemma map_of_listed:
  assumes "rows_wf db"
  shows "map_of (by_path (ListEntries db shareID)) path = index_row_of db (shareID, path)"
proof (cases "map_of (by_path (ListEntries db shareID)) path")
  case None
  then have "row_lookup fie_RelativePath path (listFileIndexEntries db shareID) = None"
    by (auto simp: map_of_by_path_None ListEntries_def row_lookup_None)
  with None show ?thesis by (simp add: listed_lookup)
next
  case (Some e)
  then have "e \<in> set (listFileIndexEntries db shareID)" "fie_RelativePath e = path"
    using map_of_by_path [OF ListEntries_well_indexed [OF assms]] by (auto simp: ListEntries_def)
  then have "index_row_of db (shareID, path) = Some e"
    using listed_distinct assms unfolding rows_wf_def listed_lookup [symmetric] by (simp add: row_lookup_eq_Some)
  with Some show ?thesis by simp
qed

definition scan_ok :: "ShareID \<Rightarrow> FileIndexEntry list \<Rightarrow> bool" where
  "scan_ok shareID entries \<longleftrightarrow>
     list_all (\<lambda>e. commit_entry_ok shareID e = ok \<and> fie_CurrentRevisionID e = []) entries \<and>
     keys_distinct fie_RelativePath entries"

lemma scan_ok_well_indexed: "scan_ok shareID entries \<Longrightarrow> well_indexed entries"
  by (auto simp: scan_ok_def well_indexed_def list_all_iff commit_entry_ok_iff path_ok_def keys_distinct_def)

lemma equivalences_agree:
  "\<not> fie_IsDeleted p \<Longrightarrow> \<not> fie_IsDeleted e \<Longrightarrow> entriesEquivalent p e = fileIndexEntriesEquivalent p e"
  by (auto simp: entriesEquivalent_def fileIndexEntriesEquivalent_def split: EntryType.splits)

lemma kind_of_entry:
  assumes "rows_wf db" and e: "map_of (by_path es) path = Some e" "\<not> fie_IsDeleted e" "fie_RelativePath e = path"
  shows "change_kind (by_path (ListEntries db shareID)) (by_path es) path = ChangeUnchanged \<longleftrightarrow>
      \<not> entry_changed (listFileIndexEntries db shareID) e"
    and "change_kind (by_path (ListEntries db shareID)) (by_path es) path \<noteq> ChangeDeleted"
proof -
  show "change_kind (by_path (ListEntries db shareID)) (by_path es) path \<noteq> ChangeDeleted"
    using e by (simp add: change_kind_def Let_def)
  show "change_kind (by_path (ListEntries db shareID)) (by_path es) path = ChangeUnchanged \<longleftrightarrow>
      \<not> entry_changed (listFileIndexEntries db shareID) e"
  proof (cases "index_row_of db (shareID, path)")
    case None
    then show ?thesis using e map_of_listed [OF assms(1), of shareID path]
      by (simp add: change_kind_def Let_def entry_changed_def row_exists_iff listed_lookup)
  next
    case (Some p)
    have "fileIndexEntriesEquivalent p e \<Longrightarrow> \<not> fie_IsDeleted p"
      by (auto simp: fileIndexEntriesEquivalent_def split: if_splits)
    then show ?thesis using e Some map_of_listed [OF assms(1), of shareID path] equivalences_agree [of p e]
      by (auto simp: change_kind_def Let_def entry_at_def entry_changed_def previous_at_def row_exists_iff listed_lookup)
  qed
qed

text \<open>After a commit the same scan shows no change.\<close>

lemma rescan_unchanged:
  assumes commit: "CommitSnapshotAndTombstones now db shareID entries revs requests at = Inr (db', ts)"
    and wf: "index_wf db" and scan: "scan_ok shareID entries"
    and r: "ReconcileScan (ListEntries db' shareID) entries = Inr changes" and c: "c \<in> set changes"
  shows "chg_Kind c = ChangeUnchanged"
proof -
  have wf': "rows_wf db'" using Commit_wf [OF commit wf] by (simp add: index_wf_def)
  have dist: "keys_distinct fie_key (db_file_index db)" using wf by (simp add: index_wf_def rows_wf_def)
  let ?P = "by_path (ListEntries db' shareID)" and ?C = "by_path entries"
  obtain path where c: "c = path_change ?P ?C path" "path \<in> set (orderedPaths ?P ?C)"
    using r c ReconcileScan_well_indexed [OF ListEntries_well_indexed [OF wf'] scan_ok_well_indexed [OF scan]] by auto
  have row: "map_of ?P path = committed_row now at db shareID entries revs path"
    using map_of_listed [OF wf', of shareID path] Commit_result(1) [OF commit dist, of "(shareID, path)"] by simp
  show ?thesis
  proof (cases "map_of ?C path")
    case None
    then have none: "row_lookup fie_RelativePath path entries = None"
      by (auto simp: row_lookup_None map_of_by_path_None)
    then obtain p where "map_of ?P path = Some p" "fie_IsDeleted p"
      using c(2) None row map_of_by_path_None [of "ListEntries db' shareID" path] map_of_by_path_None [of entries path]
      by (cases "index_row_of db (shareID, path)") (auto simp: committed_row_def deleted_row_def split: if_splits)
    then show ?thesis using c(1) None by (simp add: path_change_def change_kind_def Let_def entry_at_def)
  next
    case (Some e)
    then have e: "e \<in> set entries" "fie_RelativePath e = path"
      using map_of_by_path [OF scan_ok_well_indexed [OF scan]] by auto
    then have "row_lookup fie_RelativePath path entries = Some e" "\<not> fie_IsDeleted e"
      using scan by (auto simp: scan_ok_def row_lookup_eq_Some list_all_iff commit_entry_ok_iff)
    then obtain p where "map_of ?P path = Some p" "\<not> fie_IsDeleted p" "entriesEquivalent p e"
      using row by (auto simp: committed_row_def index_row_def entriesEquivalent_def)
    then show ?thesis using c(1) Some by (simp add: path_change_def change_kind_def Let_def entry_at_def)
  qed
qed

section \<open>The revisions of a plan\<close>

definition fresh_ids :: "(nat \<Rightarrow> string option) \<Rightarrow> string list \<Rightarrow> bool" where
  "fresh_ids draw used \<longleftrightarrow> inj draw \<and> (\<forall>n. \<exists>i. draw n = Some i \<and> i \<noteq> [] \<and> i \<notin> set used)"

definition changed :: "ReconcileResult \<Rightarrow> Change list" where
  "changed changes = filter (\<lambda>c. chg_Kind c \<noteq> ChangeUnchanged) changes"

definition made_revisions ::
  "ShareID \<Rightarrow> DeviceID \<Rightarrow> int \<Rightarrow> time \<Rightarrow> (nat \<Rightarrow> RevisionID option) \<Rightarrow> nat \<Rightarrow> Change list \<Rightarrow> Revision list" where
  "made_revisions shareID origin start at draw made cs =
     map (\<lambda>(n, c). change_revision shareID origin start at n (the (draw n)) c) (zip [made..<made + length cs] cs)"

lemma made_revisions_simps [simp]:
  "made_revisions shareID origin start at draw made [] = []"
  "made_revisions shareID origin start at draw made (c # cs) =
     change_revision shareID origin start at made (the (draw made)) c #
       made_revisions shareID origin start at draw (made + 1) cs"
  by (simp_all add: made_revisions_def upt_rec)

lemma revision_loop_made:
  assumes "fresh_ids draw used" "\<forall>c\<in>set cs. chg_RelativePath c \<noteq> []"
  shows "revision_loop shareID origin start at draw made cs =
    Inr (made_revisions shareID origin start at draw made (changed cs))"
  using assms(2)
proof (induction cs arbitrary: made)
  case (Cons c cs)
  obtain i where "draw made = Some i" "i \<noteq> []" using assms(1) by (auto simp: fresh_ids_def)
  then show ?case using Cons by (auto simp: changed_def)
qed (simp add: changed_def)

lemma change_revision_fields [simp]:
  "rev_ID (change_revision shareID origin start at n i c) = i"
  "rev_ShareID (change_revision shareID origin start at n i c) = shareID"
  "rev_RelativePath (change_revision shareID origin start at n i c) = chg_RelativePath c"
  "rev_OriginDeviceID (change_revision shareID origin start at n i c) = origin"
  "rev_Sequence (change_revision shareID origin start at n i c) = wrap64 (start + int n + 1)"
  "rev_ParentRevisionID (change_revision shareID origin start at n i c) = fie_CurrentRevisionID (chg_Previous c)"
  "rev_CreatedAt (change_revision shareID origin start at n i c) = at"
  "rev_IsDeleted (change_revision shareID origin start at n i c) \<longleftrightarrow> chg_Kind c = ChangeDeleted"
  by (simp_all add: change_revision_def Let_def)

lemma made_revisions_mem:
  "r \<in> set (made_revisions shareID origin start at draw made cs) \<Longrightarrow>
   \<exists>n c. made \<le> n \<and> n < made + length cs \<and> c \<in> set cs \<and>
     r = change_revision shareID origin start at n (the (draw n)) c"
proof (induction cs arbitrary: made)
  case (Cons c cs)
  then consider "r = change_revision shareID origin start at made (the (draw made)) c"
    | "r \<in> set (made_revisions shareID origin start at draw (made + 1) cs)" by auto
  then show ?case
  proof cases
    case 1
    then show ?thesis by (intro exI [of _ made] exI [of _ c]) simp
  next
    case 2
    then obtain n d where "made + 1 \<le> n" "n < made + 1 + length cs" "d \<in> set cs"
      "r = change_revision shareID origin start at n (the (draw n)) d" using Cons.IH by blast
    then show ?thesis by (intro exI [of _ n] exI [of _ d]) simp
  qed
qed simp

lemma made_revisions_paths:
  "map rev_RelativePath (made_revisions shareID origin start at draw made cs) = map chg_RelativePath cs"
  by (induction cs arbitrary: made) simp_all

lemma made_revisions_ids:
  "map rev_ID (made_revisions shareID origin start at draw made cs) = map (the \<circ> draw) [made..<made + length cs]"
  by (induction cs arbitrary: made) (simp_all add: upt_rec)

lemma fresh_ids_distinct:
  assumes "fresh_ids draw used"
  shows "distinct (map (the \<circ> draw) [m..<n])"
proof -
  have "inj (the \<circ> draw)"
  proof (rule injI)
    fix x y
    assume "(the \<circ> draw) x = (the \<circ> draw) y"
    moreover obtain i j where "draw x = Some i" "draw y = Some j" using assms unfolding fresh_ids_def by metis
    ultimately show "x = y" using assms unfolding fresh_ids_def inj_def by auto
  qed
  then show ?thesis by (auto simp: distinct_map intro: inj_on_subset)
qed

text \<open>The changes of a scan against the stored index, and the revisions made of them.\<close>

definition scan_changes :: "DB \<Rightarrow> ShareID \<Rightarrow> FileIndexEntry list \<Rightarrow> ReconcileResult" where
  "scan_changes db shareID entries =
     map (path_change (by_path (ListEntries db shareID)) (by_path entries))
       (orderedPaths (by_path (ListEntries db shareID)) (by_path entries))"

definition scan_revisions ::
  "DB \<Rightarrow> ShareID \<Rightarrow> FileIndexEntry list \<Rightarrow> DeviceID \<Rightarrow> int \<Rightarrow> time \<Rightarrow> (nat \<Rightarrow> RevisionID option) \<Rightarrow> Revision list" where
  "scan_revisions db shareID entries origin start t draw =
     made_revisions shareID origin start t draw 0 (changed (scan_changes db shareID entries))"

definition scan_kind :: "DB \<Rightarrow> ShareID \<Rightarrow> FileIndexEntry list \<Rightarrow> string \<Rightarrow> ChangeKind" where
  "scan_kind db shareID entries path = change_kind (by_path (ListEntries db shareID)) (by_path entries) path"

lemma set_changed:
  "chg_RelativePath ` set (changed (scan_changes db shareID entries)) =
     {path \<in> fie_RelativePath ` set (ListEntries db shareID) \<union> fie_RelativePath ` set entries.
        scan_kind db shareID entries path \<noteq> ChangeUnchanged}"
  unfolding changed_def scan_changes_def filter_map
  by (auto simp: path_change_def scan_kind_def image_image)

lemma described_exists: "described (db_revisions db) e \<Longrightarrow> revision_exists db (fie_CurrentRevisionID e)"
  by (auto simp: described_def revision_exists_def row_exists_def list_ex_iff)

lemma scan_revisions_mem:
  assumes "r \<in> set (scan_revisions db shareID entries origin start t draw)"
  shows "\<exists>n < length (changed (scan_changes db shareID entries)).
    r = change_revision shareID origin start t n (the (draw n))
          (path_change (by_path (ListEntries db shareID)) (by_path entries) (rev_RelativePath r)) \<and>
    rev_RelativePath r \<in> fie_RelativePath ` set (ListEntries db shareID) \<union> fie_RelativePath ` set entries \<and>
    scan_kind db shareID entries (rev_RelativePath r) \<noteq> ChangeUnchanged"
proof -
  obtain n c where r: "n < length (changed (scan_changes db shareID entries))"
    "c \<in> set (changed (scan_changes db shareID entries))" "r = change_revision shareID origin start t n (the (draw n)) c"
    using made_revisions_mem [OF assms [unfolded scan_revisions_def]] by auto
  then obtain path where "c = path_change (by_path (ListEntries db shareID)) (by_path entries) path"
    "path \<in> fie_RelativePath ` set (ListEntries db shareID) \<union> fie_RelativePath ` set entries"
    "scan_kind db shareID entries path \<noteq> ChangeUnchanged"
    by (auto simp: changed_def scan_changes_def scan_kind_def path_change_def)
  then show ?thesis using r by (intro exI [of _ n]) (simp add: path_change_def)
qed

lemma scan_revisions_paths:
  "keys_distinct rev_RelativePath (scan_revisions db shareID entries origin start t draw)"
  "rev_RelativePath ` set (scan_revisions db shareID entries origin start t draw) =
     {path \<in> fie_RelativePath ` set (ListEntries db shareID) \<union> fie_RelativePath ` set entries.
        scan_kind db shareID entries path \<noteq> ChangeUnchanged}"
proof -
  have "distinct (map chg_RelativePath (scan_changes db shareID entries))"
    by (simp add: scan_changes_def path_change_def comp_def)
  then show "keys_distinct rev_RelativePath (scan_revisions db shareID entries origin start t draw)"
    by (simp add: keys_distinct_def scan_revisions_def made_revisions_paths changed_def distinct_map_filter)
  have "rev_RelativePath ` set (scan_revisions db shareID entries origin start t draw) =
      chg_RelativePath ` set (changed (scan_changes db shareID entries))"
    unfolding scan_revisions_def by (metis list.set_map made_revisions_paths)
  then show "rev_RelativePath ` set (scan_revisions db shareID entries origin start t draw) =
     {path \<in> fie_RelativePath ` set (ListEntries db shareID) \<union> fie_RelativePath ` set entries.
        scan_kind db shareID entries path \<noteq> ChangeUnchanged}" by (simp only: set_changed)
qed

lemma scan_revisions_lookup:
  "path \<in> fie_RelativePath ` set (ListEntries db shareID) \<union> fie_RelativePath ` set entries \<Longrightarrow>
   row_lookup rev_RelativePath path (scan_revisions db shareID entries origin start t draw) = None \<longleftrightarrow>
     scan_kind db shareID entries path = ChangeUnchanged"
  unfolding row_lookup_None_image scan_revisions_paths(2) by simp

lemma listed_paths: "path \<in> fie_RelativePath ` set (ListEntries db shareID) \<longleftrightarrow> index_row_of db (shareID, path) \<noteq> None"
proof -
  have "index_row_of db (shareID, path) = None \<longleftrightarrow> path \<notin> fie_RelativePath ` set (listFileIndexEntries db shareID)"
    unfolding listed_lookup [symmetric] by (auto simp: row_lookup_None)
  then show ?thesis by (auto simp: ListEntries_def)
qed

text \<open>The requirements of a run, with the identifiers it draws fresh.\<close>

definition run_ready ::
  "DB \<Rightarrow> ShareID \<Rightarrow> FileIndexEntry list \<Rightarrow> DeviceID \<Rightarrow> int \<Rightarrow> time \<Rightarrow> (nat \<Rightarrow> RevisionID option) \<Rightarrow> bool" where
  "run_ready db shareID entries origin start t draw \<longleftrightarrow>
     index_wf db \<and> share_exists db shareID \<and> shareID \<noteq> [] \<and> scan_ok shareID entries \<and> origin \<noteq> [] \<and> t \<noteq> 0 \<and>
     0 \<le> start \<and> start + int (length (changed (scan_changes db shareID entries))) < 2 ^ 63 \<and>
     fresh_ids draw (map rev_ID (db_revisions db))"

lemma scan_revisions_ok:
  assumes ready: "run_ready db shareID entries origin start t draw"
    and r: "r \<in> set (scan_revisions db shareID entries origin start t draw)"
  shows "commit_revision_ok shareID r = ok" and "rev_ID r \<notin> rev_ID ` set (db_revisions db)"
    and "revision_ref db (rev_ParentRevisionID r)" and "stored_type (rev_EntryType r)"
proof -
  let ?path = "rev_RelativePath r"
  have wf: "rows_wf db" using ready by (simp add: run_ready_def index_wf_def)
  obtain n where n: "n < length (changed (scan_changes db shareID entries))"
    "r = change_revision shareID origin start t n (the (draw n))
          (path_change (by_path (ListEntries db shareID)) (by_path entries) ?path)"
    and path: "?path \<in> fie_RelativePath ` set (ListEntries db shareID) \<union> fie_RelativePath ` set entries"
    and kind: "scan_kind db shareID entries ?path \<noteq> ChangeUnchanged"
    using scan_revisions_mem [OF r] by blast
  obtain i where i: "draw n = Some i" "i \<noteq> []" "i \<notin> rev_ID ` set (db_revisions db)"
    using ready by (auto simp: run_ready_def fresh_ids_def)
  have fields: "rev_ID r = i" "rev_ShareID r = shareID" "rev_OriginDeviceID r = origin"
    "rev_Sequence r = wrap64 (start + int n + 1)" "rev_CreatedAt r = t"
    "rev_ParentRevisionID r = fie_CurrentRevisionID (entry_at (by_path (ListEntries db shareID)) ?path)"
    by (subst n(2), simp add: i path_change_def)+
  have "wrap64 (start + int n + 1) = start + int n + 1"
    using n(1) ready by (intro wrap64_id) (auto simp: run_ready_def int64_range_def)
  then have seq: "0 < rev_Sequence r" using ready fields(4) by (simp add: run_ready_def)
  have "path_ok ?path"
    using path ListEntries_well_indexed [OF wf, of shareID] scan_ok_well_indexed [of shareID entries] ready
    by (auto simp: well_indexed_def path_ok_def run_ready_def)
  then show "commit_revision_ok shareID r = ok"
    using fields seq i ready by (simp add: commit_revision_ok_iff run_ready_def)
  show "rev_ID r \<notin> rev_ID ` set (db_revisions db)" using i fields by simp
  show "revision_ref db (rev_ParentRevisionID r)"
  proof (cases "index_row_of db (shareID, ?path)")
    case None
    then show ?thesis using fields(6) map_of_listed [OF wf, of shareID ?path]
      by (simp add: entry_at_def zero_FileIndexEntry_def revision_ref_def)
  next
    case (Some p)
    then have "revision_exists db (fie_CurrentRevisionID p)"
      using rows_wfD [OF wf] described_exists by (simp add: row_wf_def)
    then show ?thesis using Some fields(6) map_of_listed [OF wf, of shareID ?path]
      by (simp add: entry_at_def revision_ref_def)
  qed
  show "stored_type (rev_EntryType r)"
  proof (cases "scan_kind db shareID entries ?path = ChangeDeleted")
    case True
    then have "rev_EntryType r = EntryDeleted"
      by (subst n(2)) (simp add: change_revision_def Let_def path_change_def scan_kind_def)
    then show ?thesis by (simp add: stored_type_def)
  next
    case False
    have "map_of (by_path entries) ?path \<noteq> None"
      using False kind by (auto simp: scan_kind_def change_kind_def Let_def split: if_splits) (use path in \<open>auto simp: map_of_by_path_None map_of_listed [OF wf] listed_paths\<close>)
    then obtain e where e: "map_of (by_path entries) ?path = Some e" by blast
    then have "e \<in> set entries" using map_of_by_path scan_ok_well_indexed ready by (auto simp: run_ready_def)
    then have "validActiveEntryType (fie_EntryType e)"
      using ready by (auto simp: run_ready_def scan_ok_def list_all_iff commit_entry_ok_iff)
    moreover have "rev_EntryType r = fie_EntryType e" using False e
      by (subst n(2)) (simp add: change_revision_def Let_def path_change_def scan_kind_def entry_at_def)
    ultimately show ?thesis by (auto simp: stored_type_def validActiveEntryType_def split: EntryType.splits)
  qed
qed

lemma scan_entry_committed:
  assumes ready: "run_ready db shareID entries origin start t draw" and e: "e \<in> set entries"
  defines "revs \<equiv> scan_revisions db shareID entries origin start t draw"
  shows "\<exists>p. commit_entry (listFileIndexEntries db shareID) revs e = Inr p"
proof -
  let ?prev = "listFileIndexEntries db shareID" and ?path = "fie_RelativePath e"
  have wf: "rows_wf db" using ready by (simp add: run_ready_def index_wf_def)
  have me: "map_of (by_path entries) ?path = Some e" "\<not> fie_IsDeleted e" "fie_CurrentRevisionID e = []"
    using e ready map_of_by_path [of entries ?path e] scan_ok_well_indexed [of shareID entries]
    by (auto simp: run_ready_def scan_ok_def list_all_iff commit_entry_ok_iff)
  note kind = kind_of_entry [OF wf me(1,2) refl, of shareID, folded scan_kind_def]
  have none: "row_lookup rev_RelativePath ?path revs = None \<longleftrightarrow> scan_kind db shareID entries ?path = ChangeUnchanged"
    unfolding revs_def by (rule scan_revisions_lookup) (use e in blast)
  show ?thesis
  proof (cases "row_lookup rev_RelativePath ?path revs")
    case None
    then have "commit_entry ?prev revs e = Inr (accepted_entry ?prev revs e, [])"
      using none kind(1) me(3) by (simp add: commit_entry_Inr)
    then show ?thesis by blast
  next
    case (Some r)
    then have r: "r \<in> set revs" "rev_RelativePath r = ?path" by (auto dest: row_lookup_SomeD)
    obtain n where n: "r = change_revision shareID origin start t n (the (draw n))
          (path_change (by_path (ListEntries db shareID)) (by_path entries) ?path)"
      using scan_revisions_mem r unfolding revs_def by metis
    have del: "scan_kind db shareID entries ?path \<noteq> ChangeDeleted" by (rule kind(2))
    have prev: "entry_at (by_path (ListEntries db shareID)) ?path = previous_at ?prev ?path"
      by (simp add: entry_at_def previous_at_def map_of_listed [OF wf] listed_lookup)
    have now: "entry_at (by_path entries) ?path = e" using me(1) by (simp add: entry_at_def)
    have active: "validActiveEntryType (fie_EntryType e)"
      using ready e by (auto simp: run_ready_def scan_ok_def list_all_iff commit_entry_ok_iff)
    then have "fie_EntryType e \<noteq> EntryDeleted" by (auto simp: validActiveEntryType_def)
    then have "validateCurrentRevision r e (previous_at ?prev ?path) = ok"
      using del me(3) unfolding n validateCurrentRevision_ok
      by (simp add: change_revision_def Let_def path_change_def scan_kind_def prev now)
    then have "commit_entry ?prev revs e = Inr (accepted_entry ?prev revs e, [r])"
      using Some none kind(1) by (auto simp: commit_entry_Inr)
    then show ?thesis by blast
  qed
qed

lemma scan_deletion_committed:
  assumes ready: "run_ready db shareID entries origin start t draw"
    and p: "p \<in> set (missing_entries entries (listFileIndexEntries db shareID))"
  defines "revs \<equiv> scan_revisions db shareID entries origin start t draw"
  shows "\<exists>r. commit_deletion revs p = Inr r"
proof -
  let ?path = "fie_RelativePath p"
  have wf: "rows_wf db" using ready by (simp add: run_ready_def index_wf_def)
  have p': "p \<in> set (listFileIndexEntries db shareID)" "?path \<notin> fie_RelativePath ` set entries" "\<not> fie_IsDeleted p"
    using p by (auto simp: missing_entries_def row_exists_mem)
  have row: "index_row_of db (shareID, ?path) = Some p"
    using p'(1) listed_distinct wf unfolding rows_wf_def listed_lookup [symmetric] by (simp add: row_lookup_eq_Some)
  have kind: "scan_kind db shareID entries ?path = ChangeDeleted"
    unfolding scan_kind_def deleted_kind using p' row map_of_listed [OF wf, of shareID ?path] by (simp add: live_def)
  have "row_lookup rev_RelativePath ?path revs \<noteq> None"
    unfolding revs_def using scan_revisions_lookup [of ?path db shareID entries] kind row by (simp add: listed_paths)
  then obtain r where r: "row_lookup rev_RelativePath ?path revs = Some r" by blast
  then have "r \<in> set revs" "rev_RelativePath r = ?path" by (auto dest: row_lookup_SomeD)
  then obtain n where n: "r = change_revision shareID origin start t n (the (draw n))
          (path_change (by_path (ListEntries db shareID)) (by_path entries) ?path)"
    using scan_revisions_mem unfolding revs_def by metis
  have "entry_at (by_path (ListEntries db shareID)) ?path = p" by (simp add: entry_at_def map_of_listed [OF wf] row)
  then have "validateDeletionRevision r p = ok"
    unfolding n validateDeletionRevision_ok
    using kind by (simp add: change_revision_def Let_def path_change_def scan_kind_def)
  then show ?thesis using r by (auto simp: commit_deletion_Inr)
qed

lemma result_list_total: "\<forall>x\<in>set xs. \<exists>y. f x = Inr y \<Longrightarrow> \<exists>ys. result_list f xs = Inr ys"
proof (induction xs)
  case (Cons x xs)
  then obtain y ys where "f x = Inr y" "result_list f xs = Inr ys" by auto
  then show ?case by simp
qed simp

lemma scan_all_accepted:
  assumes ready: "run_ready db shareID entries origin start t draw"
  defines "prev \<equiv> listFileIndexEntries db shareID" and "revs \<equiv> scan_revisions db shareID entries origin start t draw"
  assumes checked: "list_all2 (\<lambda>e p. commit_entry prev revs e = Inr p) entries checked"
    and ds: "list_all2 (\<lambda>p r. commit_deletion revs p = Inr r) (missing_entries entries prev) ds"
  shows "set (concat (map snd checked) @ ds) = set revs"
proof
  note acc = commit_accepted_paths [OF checked] commit_deletions_paths [OF ds]
  show sub: "set (concat (map snd checked) @ ds) \<subseteq> set revs"
    using acc(1)[THEN conjunct2] acc(2)[THEN conjunct2] by (simp del: set_concat)
  have wf: "rows_wf db" using ready by (simp add: run_ready_def index_wf_def)
  have paths: "rev_RelativePath ` set (concat (map snd checked) @ ds) =
      fie_RelativePath ` set (filter (\<lambda>e. row_lookup rev_RelativePath (fie_RelativePath e) revs \<noteq> None) entries) \<union>
      fie_RelativePath ` set (missing_entries entries prev)"
    using arg_cong [OF acc(1)[THEN conjunct1], of set] arg_cong [OF acc(2)[THEN conjunct1], of set]
    by (simp add: image_Un del: set_concat)
  show "set revs \<subseteq> set (concat (map snd checked) @ ds)"
  proof
    fix r
    assume r: "r \<in> set revs"
    let ?path = "rev_RelativePath r"
    have kind: "scan_kind db shareID entries ?path \<noteq> ChangeUnchanged"
      and mem: "?path \<in> fie_RelativePath ` set (ListEntries db shareID) \<union> fie_RelativePath ` set entries"
      using scan_revisions_mem r unfolding revs_def by blast+
    have "?path \<in> rev_RelativePath ` set (concat (map snd checked) @ ds)"
    proof (cases "?path \<in> fie_RelativePath ` set entries")
      case True
      moreover have "row_lookup rev_RelativePath ?path revs \<noteq> None"
        using r scan_revisions_paths(1) unfolding revs_def by (simp add: row_lookup_None_image)
      ultimately show ?thesis unfolding paths by force
    next
      case False
      then obtain p where p: "index_row_of db (shareID, ?path) = Some p" using mem listed_paths by blast
      then have "\<not> fie_IsDeleted p"
        using kind False by (auto simp: scan_kind_def change_kind_def Let_def entry_at_def map_of_listed [OF wf] map_of_by_path_None)
      moreover have "p \<in> set prev" "fie_RelativePath p = ?path"
        using p unfolding prev_def listed_lookup [symmetric] by (auto dest: row_lookup_SomeD)
      ultimately have "p \<in> set (missing_entries entries prev)" using False by (simp add: missing_entries_def row_exists_mem)
      then show ?thesis unfolding paths using \<open>fie_RelativePath p = ?path\<close> by force
    qed
    then obtain r' where r': "r' \<in> set (concat (map snd checked) @ ds)" "rev_RelativePath r' = ?path" by (metis imageE)
    have "keys_distinct rev_RelativePath revs" unfolding revs_def by (rule scan_revisions_paths(1))
    then have "r' = r" using r'(1) sub r r'(2) by (intro keys_distinct_inj [of rev_RelativePath revs]) blast+
    then show "r \<in> set (concat (map snd checked) @ ds)" using r'(1) by simp
  qed
qed

lemma tombstone_loop_requests:
  assumes "fresh_ids draw used"
  shows "\<exists>requests. tombstone_loop t retention draw drawn revs = Inr requests \<and>
    map treq_TombstoneRevisionID requests = map rev_ID (filter rev_IsDeleted revs) \<and>
    map treq_ID requests = map (the \<circ> draw) [drawn..<drawn + length requests] \<and>
    (\<forall>q\<in>set requests. treq_ExpiresAt q = (if 0 < retention then t + retention else 0))"
proof (induction revs arbitrary: drawn)
  case (Cons r revs)
  show ?case
  proof (cases "rev_IsDeleted r")
    case False
    then show ?thesis using Cons.IH by simp
  next
    case True
    obtain i where i: "draw drawn = Some i" "i \<noteq> []" using assms by (auto simp: fresh_ids_def)
    obtain qs where qs: "tombstone_loop t retention draw (drawn + 1) revs = Inr qs"
      "map treq_TombstoneRevisionID qs = map rev_ID (filter rev_IsDeleted revs)"
      "map treq_ID qs = map (the \<circ> draw) [drawn + 1..<drawn + 1 + length qs]"
      "\<forall>q\<in>set qs. treq_ExpiresAt q = (if 0 < retention then t + retention else 0)"
      using Cons.IH [of "drawn + 1"] by blast
    let ?q = "\<lparr> treq_ID = i, treq_TombstoneRevisionID = rev_ID r,
                treq_ExpiresAt = (if 0 < retention then t + retention else 0) \<rparr>"
    have "map treq_ID (?q # qs) = map (the \<circ> draw) [drawn..<drawn + length (?q # qs)]"
      using qs(3) i by (subst upt_rec) simp
    then show ?thesis using True i qs by (intro exI [of _ "?q # qs"]) simp
  qed
qed simp

lemma fresh_id_drawn:
  assumes "fresh_ids draw used" "x \<in> set (map (the \<circ> draw) ns)"
  shows "x \<noteq> [] \<and> x \<notin> set used"
proof -
  obtain n where n: "x = the (draw n)" using assms(2) by auto
  obtain i where "draw n = Some i" "i \<noteq> []" "i \<notin> set used" using assms(1) unfolding fresh_ids_def by blast
  then show ?thesis using n by simp
qed

lemma scan_revisions_deleted:
  assumes "r \<in> set (scan_revisions db shareID entries origin start t draw)" and "rev_IsDeleted r"
  shows "rev_EntryType r = EntryDeleted \<and> rev_CreatedAt r = t"
proof -
  obtain n i c where "r = change_revision shareID origin start t n i c" using scan_revisions_mem [OF assms(1)] by blast
  then show ?thesis using assms(2) by (simp add: change_revision_def Let_def)
qed

lemma built_tombstones:
  assumes "result_list (build_tombstone shareID acc) requests = Inr ts"
    and "\<And>q tb. q \<in> set requests \<Longrightarrow> build_tombstone shareID acc q = Inr tb \<Longrightarrow> tomb_ID tb = treq_ID q \<and> P tb"
  shows "map tomb_ID ts = map treq_ID requests \<and> (\<forall>tb\<in>set ts. tomb_ID tb \<in> treq_ID ` set requests \<and> P tb)"
  using assms(1) [unfolded result_list_Inr] assms(2)
  by (induction rule: list_all2_induct) auto

lemma scan_commits:
  assumes ready: "run_ready db shareID entries origin start t draw" and at: "at \<noteq> 0"
  defines "revs \<equiv> scan_revisions db shareID entries origin start t draw"
  assumes ids: "distinct (map treq_ID requests)" "\<forall>q\<in>set requests. treq_ID q \<noteq> [] \<and> treq_ID q \<notin> tomb_ID ` set (db_tombstones db)"
    and targets: "map treq_TombstoneRevisionID requests = map rev_ID (filter rev_IsDeleted revs)"
    and expiry: "\<forall>q\<in>set requests. treq_ExpiresAt q = 0 \<or> t \<le> treq_ExpiresAt q"
  shows "\<exists>db' ts. CommitSnapshotAndTombstones now db shareID entries revs requests at = Inr (db', ts)"
proof -
  let ?prev = "listFileIndexEntries db shareID"
  have base: "shareID \<noteq> []" "share_exists db shareID" "scan_ok shareID entries" "index_wf db" "rows_wf db"
    using ready by (simp_all add: run_ready_def index_wf_def)
  have rok: "\<forall>r\<in>set revs. commit_revision_ok shareID r = ok \<and> rev_ID r \<notin> rev_ID ` set (db_revisions db) \<and>
      revision_ref db (rev_ParentRevisionID r) \<and> stored_type (rev_EntryType r)"
    using scan_revisions_ok [OF ready] by (simp add: revs_def)
  have eok: "\<forall>e\<in>set entries. commit_entry_ok shareID e = ok" "keys_distinct fie_RelativePath entries"
    using base(3) by (auto simp: scan_ok_def list_all_iff)
  have rpaths: "keys_distinct rev_RelativePath revs" by (simp add: revs_def scan_revisions_paths)
  have "distinct (map rev_ID revs)"
    using fresh_ids_distinct ready unfolding revs_def scan_revisions_def made_revisions_ids run_ready_def by blast
  then have rids: "keys_distinct rev_ID revs" by (simp add: keys_distinct_def)
  have vt: "validateTombstoneRequests requests = ok"
  proof -
    have "\<forall>q\<in>set requests. treq_TombstoneRevisionID q \<noteq> []"
    proof
      fix q
      assume "q \<in> set requests"
      then have "treq_TombstoneRevisionID q \<in> set (map rev_ID (filter rev_IsDeleted revs))" using targets by (metis image_eqI set_map)
      then show "treq_TombstoneRevisionID q \<noteq> []" using rok by (auto simp: commit_revision_ok_iff)
    qed
    moreover have "distinct (map rev_ID (filter rev_IsDeleted revs))" using rids by (simp add: keys_distinct_def distinct_map_filter)
    ultimately show ?thesis using ids targets by (simp add: validateTombstoneRequests_ok)
  qed
  have "\<forall>e\<in>set entries. \<exists>p. commit_entry ?prev revs e = Inr p"
    using scan_entry_committed [OF ready] by (simp add: revs_def)
  then obtain checked where checked: "result_list (commit_entry ?prev revs) entries = Inr checked"
    using result_list_total by metis
  have "\<forall>p\<in>set (missing_entries entries ?prev). \<exists>r. commit_deletion revs p = Inr r"
    using scan_deletion_committed [OF ready] by (simp add: revs_def)
  then obtain ds where ds: "result_list (commit_deletion revs) (missing_entries entries ?prev) = Inr ds"
    using result_list_total by metis
  let ?acc = "concat (map snd checked) @ ds"
  note c2 = checked [unfolded result_list_Inr] and d2 = ds [unfolded result_list_Inr]
  have acc: "set ?acc = set revs"
    using scan_all_accepted [OF ready c2 [unfolded revs_def] d2 [unfolded revs_def]] by (simp add: revs_def)
  then have acc_ok: "check_accepted ?acc revs = ok"
    unfolding check_accepted_def list_ex_iff row_exists_mem by (simp del: set_append set_concat)
  have build: "\<exists>tb. build_tombstone shareID ?acc q = Inr tb \<and> tomb_ID tb = treq_ID q \<and>
      tomb_ShareID tb = shareID \<and> revision_ref db (tomb_BaseRevisionID tb) \<and> tomb_TombstoneRevisionID tb \<in> rev_ID ` set revs"
    if q: "q \<in> set requests" for q
  proof -
    have "treq_TombstoneRevisionID q \<in> set (map rev_ID (filter rev_IsDeleted revs))" using q targets by (metis image_eqI set_map)
    then obtain r where r: "r \<in> set revs" "rev_IsDeleted r" "treq_TombstoneRevisionID q = rev_ID r" by auto
    then obtain r' where r': "row_lookup rev_ID (rev_ID r) ?acc = Some r'"
      using acc by (metis imageI not_None_eq row_lookup_None_image)
    then have "r' \<in> set revs" "rev_ID r' = rev_ID r" using acc by (auto dest!: row_lookup_SomeD simp del: set_append)
    then have "r' = r" using keys_distinct_inj [OF rids] r(1) by blast
    moreover have "rev_EntryType r = EntryDeleted \<and> rev_CreatedAt r = t"
      using scan_revisions_deleted r(1,2) unfolding revs_def by blast
    moreover have "rev_ShareID r = shareID" "rev_CreatedAt r \<noteq> 0" "revision_ref db (rev_ParentRevisionID r)"
      using rok r(1) by (auto simp: commit_revision_ok_iff)
    ultimately show ?thesis using r r' expiry q unfolding build_tombstone_Inr by auto
  qed
  have "\<forall>q\<in>set requests. \<exists>tb. build_tombstone shareID ?acc q = Inr tb" using build by blast
  then obtain ts where ts: "result_list (build_tombstone shareID ?acc) requests = Inr ts" using result_list_total by metis
  have ts_ok: "map tomb_ID ts = map treq_ID requests \<and> (\<forall>tb\<in>set ts. tomb_ID tb \<in> treq_ID ` set requests \<and>
      tomb_ShareID tb = shareID \<and> revision_ref db (tomb_BaseRevisionID tb) \<and> tomb_TombstoneRevisionID tb \<in> rev_ID ` set revs)"
    by (rule built_tombstones [OF ts]) (use build in fastforce)
  let ?db1 = "with_revisions db revs"
  have db1: "fold_result (insertRevision now) db revs = Inr ?db1"
    by (rule insert_revisions_ok) (use rids rok base(2) in \<open>auto simp: keys_distinct_def commit_revision_ok_iff\<close>)
  let ?es = "map (accepted_entry ?prev revs) entries"
  have share1: "share_exists ?db1 = share_exists db" by (rule share_exists_cong) (simp add: with_revisions_def)
  have "\<forall>r\<in>set revs. commit_revision_ok shareID r = ok" using rok by blast
  then have "row_wf ?db1 (accepted_entry ?prev revs e)" if "e \<in> set entries" for e
    using accepted_entry_wf [OF c2 eok(1) _ base(5,2) that] by blast
  then have "\<forall>e\<in>set ?es. fie_ShareID e = shareID \<and> revision_ref ?db1 (fie_CurrentRevisionID e)"
    using eok(1) described_exists [of ?db1] by (auto simp: row_wf_def revision_ref_def commit_entry_ok_iff)
  then have db2: "fold_result (\<lambda>db e. upsertFileIndexEntry now db shareID e at) ?db1 (map fst checked) =
      Inr (idx.put_all now at ?es ?db1)"
    using upserts_ok [of ?db1 shareID ?es now at] base(2) share1 commit_entries_fst [OF c2] by simp
  let ?db2 = "idx.put_all now at ?es ?db1"
  have ex2: "\<forall>r\<in>set ds. revision_exists ?db2 (rev_ID r)"
    using acc by (auto simp: revision_exists_def row_exists_mem put_all_other_tables with_revisions_def)
  then obtain db3 where db3: "fold_result (mark_deleted now shareID at) ?db2 ds = Inr db3"
    using mark_all_deleted_ok by blast
  have "keys_distinct fie_RelativePath (missing_entries entries ?prev)"
    using listed_distinct base(5) unfolding rows_wf_def by (simp add: keys_distinct_def missing_entries_def distinct_map_filter)
  then have "keys_distinct rev_RelativePath ds" using commit_deletions_paths [OF d2] by (simp add: keys_distinct_def)
  then have tables: "db_revisions db3 = db_revisions db @ revs" "db_shares db3 = db_shares db" "db_tombstones db3 = db_tombstones db"
    using mark_all_deleted [OF db3 ex2] by (simp_all add: put_all_other_tables with_revisions_def)
  have "revision_ref db3 x" if "revision_ref db x" for x
    using that by (auto simp: revision_ref_def revision_exists_def row_exists_mem tables)
  moreover have "\<forall>tb\<in>set ts. tomb_ID tb \<notin> tomb_ID ` set (db_tombstones db)" using ts_ok ids(2) by (metis imageE)
  ultimately have "\<forall>tb\<in>set ts. tomb_ID tb \<notin> tomb_ID ` set (db_tombstones db3) \<and> share_exists db3 (tomb_ShareID tb) \<and>
      revision_ref db3 (tomb_BaseRevisionID tb) \<and> revision_exists db3 (tomb_TombstoneRevisionID tb)"
    using ts_ok base(2) by (simp add: tables share_exists_def revision_exists_def row_exists_mem image_Un)
  moreover have "distinct (map tomb_ID ts)" using ts_ok ids(1) by simp
  ultimately obtain db' where db': "fold_result (insertTombstone now) db3 ts = Inr db'"
    using insert_tombstones_ok by blast
  have "CommitSnapshotAndTombstones now db shareID entries revs requests at = Inr (db', ts)"
    using base(1,2) at vt eok rok rpaths checked ds acc_ok ts db1 db2 db3 db'
    by (simp add: CommitSnapshotAndTombstones_def Let_def validateCommitEntries_Inr [THEN iffD2]
        validateCommitRevisions_Inr [THEN iffD2] buildAcceptedTombstones_def del: set_concat)
  then show ?thesis by blast
qed

section \<open>Properties\<close>

text \<open>
  C16. What the planner makes, the store accepts. On a well-formed database and a scan of valid
  entries, with fresh identifiers, a run whose deletions the guard allows commits: the store accepts
  every planned revision and tombstone, the database stays well formed, and scanning the same folder
  again finds no change. A run whose deletions the guard forbids is reported blocked and leaves the
  database as it is.
\<close>

theorem Run_commits:
  assumes "run_ready db (sco_ShareID options) entries (sco_OriginDeviceID options) (sco_SequenceStart options) t newRevisionID"
    and "scan t = Inr \<lparr> scan_Entries = entries, scan_ScannedAt = at \<rparr>" and "at \<noteq> 0"
    and "0 \<le> sco_TombstoneRetention options" and "fresh_ids newTombstoneID (map tomb_ID (db_tombstones db))"
    and "ReconcileScan (ListEntries db (sco_ShareID options)) entries = Inr changes"
    and "CheckDeletionGuard changes (sco_DeletionGuard options) = Inr decision"
  shows "\<exists>db' result. Run scan newRevisionID newTombstoneID t db options = Inr (db', result) \<and>
    (if dd_Allowed decision
     then scr_Committed result \<and> index_wf db' \<and> length (scr_Revisions result) = length (changed changes) \<and>
       (\<exists>again. ReconcileScan (ListEntries db' (sco_ShareID options)) entries = Inr again \<and>
          list_all (\<lambda>c. chg_Kind c = ChangeUnchanged) again)
     else scr_Blocked result \<and> db' = db)"
proof -
  let ?s = "sco_ShareID options" and ?o = "sco_OriginDeviceID options" and ?n = "sco_SequenceStart options"
  have r: "?s \<noteq> []" "?o \<noteq> []" "0 \<le> ?n" "index_wf db" "rows_wf db" "scan_ok ?s entries" "t \<noteq> 0"
    "fresh_ids newRevisionID (map rev_ID (db_revisions db))"
    using assms(1) by (simp_all add: run_ready_def index_wf_def)
  note well = ListEntries_well_indexed [OF r(5), of ?s] scan_ok_well_indexed [OF r(6)]
  have changes: "changes = scan_changes db ?s entries"
    using ReconcileScan_well_indexed [OF well] assms(6) by (simp add: scan_changes_def)
  define plan where "plan = \<lparr> plan_Scan = \<lparr> scan_Entries = entries, scan_ScannedAt = at \<rparr>,
    plan_Reconciliation = changes, plan_DeletionDecision = decision \<rparr>"
  have plan: "Plan (\<lambda>share. Inr (ListEntries db share)) (\<lambda>_. scan t) ?s (sco_DeletionGuard options) = Inr plan"
    using assms(2,6,7) r(1) by (simp add: Plan_def plan_def)
  show ?thesis
  proof (cases "dd_Allowed decision")
    case False
    then show ?thesis using assms(4) r plan by (simp add: Run_def Let_def plan_def)
  next
    case True
    let ?revs = "scan_revisions db ?s entries ?o ?n t newRevisionID"
    have paths: "\<forall>c\<in>set changes. chg_RelativePath c \<noteq> []"
      using well unfolding changes by (auto simp: scan_changes_def path_change_def well_indexed_def)
    have "map chg_RelativePath changes = orderedPaths (by_path (ListEntries db ?s)) (by_path entries)"
      by (simp add: changes scan_changes_def path_change_def comp_def)
    then have "sort_key chg_RelativePath changes = changes" by (intro sort_key_id_if_sorted) simp
    then have revs: "BuildRevisions changes ?s ?o ?n t newRevisionID = Inr ?revs"
      using r revision_loop_made [OF r(8) paths] by (simp add: BuildRevisions_def scan_revisions_def changes)
    obtain requests where q: "tombstone_loop t (sco_TombstoneRetention options) newTombstoneID 0 ?revs = Inr requests"
      "map treq_TombstoneRevisionID requests = map rev_ID (filter rev_IsDeleted ?revs)"
      "map treq_ID requests = map (the \<circ> newTombstoneID) [0..<length requests]"
      "\<forall>q\<in>set requests. treq_ExpiresAt q = (if 0 < sco_TombstoneRetention options then t + sco_TombstoneRetention options else 0)"
      using tombstone_loop_requests [OF assms(5), of t "sco_TombstoneRetention options" 0 ?revs] by auto
    have ids: "distinct (map treq_ID requests)" unfolding q(3) by (rule fresh_ids_distinct [OF assms(5)])
    have "\<forall>x\<in>set (map treq_ID requests). x \<noteq> [] \<and> x \<notin> set (map tomb_ID (db_tombstones db))"
      unfolding q(3) using fresh_id_drawn [OF assms(5)] by blast
    then have fresh: "\<forall>q\<in>set requests. treq_ID q \<noteq> [] \<and> treq_ID q \<notin> tomb_ID ` set (db_tombstones db)" by simp
    have "\<forall>q\<in>set requests. treq_ExpiresAt q = 0 \<or> t \<le> treq_ExpiresAt q" using q(4) by auto
    then obtain db' ts where commit: "CommitSnapshotAndTombstones t db ?s entries ?revs requests at = Inr (db', ts)"
      using scan_commits [OF assms(1,3) ids fresh q(2)] by blast
    obtain result where run: "Run scan newRevisionID newTombstoneID t db options = Inr (db', result)"
      "scr_Committed result" "scr_Revisions result = ?revs"
      using True assms(4) r plan revs q(1) commit by (simp add: Run_def Let_def plan_def)
    have wf': "index_wf db'" by (rule Commit_wf [OF commit r(4)])
    then have "well_indexed (ListEntries db' ?s)" by (intro ListEntries_well_indexed) (simp add: index_wf_def)
    then obtain again where again: "ReconcileScan (ListEntries db' ?s) entries = Inr again"
      using ReconcileScan_well_indexed well(2) by blast
    have "length ?revs = length (changed changes)" by (simp add: scan_revisions_def made_revisions_def changes)
    then show ?thesis
      using True run wf' again rescan_unchanged [OF commit r(4,6) again] by (auto simp: list_all_iff)
  qed
qed

definition example_draw :: "nat \<Rightarrow> string option" where
  "example_draw n = Some (replicate (n + 1) CHR ''x'')"

definition example_options :: ScanCommitOptions where
  "example_options = \<lparr> sco_ShareID = ''s'', sco_DeletionGuard = \<lparr> dg_MaxCount = 0, dg_MaxPercent = 0 \<rparr>,
     sco_OriginDeviceID = ''d'', sco_SequenceStart = 0, sco_TombstoneRetention = 0 \<rparr>"

lemma example_draw_fresh: "fresh_ids example_draw []"
  by (auto simp: fresh_ids_def example_draw_def inj_def dest: arg_cong [of _ _ length])

lemma example_scan:
  "ListEntries example_share_db ''s'' = []"
  "ReconcileScan [] [example_entry] = Inr [\<lparr> chg_Kind = ChangeAdded, chg_RelativePath = ''a'',
     chg_Previous = zero_FileIndexEntry, chg_Current = example_entry \<rparr>]"
  by (simp_all add: ListEntries_def listFileIndexEntries_def example_share_db_def empty_db_def ReconcileScan_def
      indexEntries_def example_entry_def orderedPaths_def path_change_def change_kind_def entry_at_def go_eval)

lemma example_ready: "run_ready example_share_db ''s'' [example_entry] ''d'' 0 6 example_draw"
proof -
  have "scan_changes example_share_db ''s'' [example_entry] = [\<lparr> chg_Kind = ChangeAdded, chg_RelativePath = ''a'',
     chg_Previous = zero_FileIndexEntry, chg_Current = example_entry \<rparr>]"
    by (simp add: scan_changes_def example_scan(1) by_path_def orderedPaths_def path_change_def change_kind_def
        entry_at_def example_entry_def)
  then show ?thesis
    using example_draw_fresh example_share_db_wf
    by (simp add: run_ready_def changed_def scan_ok_def commit_entry_ok_def validActiveEntryType_def keys_distinct_def
        example_share_db_def example_share_def empty_db_def share_exists_def row_exists_def example_entry_def go_eval)
qed

theorem Run_commits_witness:
  "\<exists>db' result. Run (\<lambda>t. Inr \<lparr> scan_Entries = [example_entry], scan_ScannedAt = t \<rparr>) example_draw example_draw 6
       example_share_db example_options = Inr (db', result) \<and>
     scr_Committed result \<and> index_wf db' \<and> length (scr_Revisions result) = 1"
proof -
  let ?scan = "\<lambda>t. Inr \<lparr> scan_Entries = [example_entry], scan_ScannedAt = t \<rparr>"
  let ?changes = "[\<lparr> chg_Kind = ChangeAdded, chg_RelativePath = ''a'',
     chg_Previous = zero_FileIndexEntry, chg_Current = example_entry \<rparr>]"
  let ?decision = "\<lparr> dd_Allowed = True, dd_DeletedCount = 0, dd_PreviousActive = 0, dd_DeletedPercent = 0,
     dd_DeletedPaths = [], dd_Reasons = [] \<rparr>"
  have o: "sco_ShareID example_options = ''s''" "sco_OriginDeviceID example_options = ''d''"
    "sco_SequenceStart example_options = 0" "sco_TombstoneRetention example_options = 0"
    "sco_DeletionGuard example_options = \<lparr> dg_MaxCount = 0, dg_MaxPercent = 0 \<rparr>"
    by (simp_all add: example_options_def)
  have guard: "CheckDeletionGuard ?changes (sco_DeletionGuard example_options) = Inr ?decision"
    by (simp add: o CheckDeletionGuard_def Let_def zero_FileIndexEntry_def)
  have tombs: "fresh_ids example_draw (map tomb_ID (db_tombstones example_share_db))"
    using example_draw_fresh by (simp add: example_share_db_def empty_db_def)
  have "length (changed ?changes) = 1" by (simp add: changed_def)
  then show ?thesis
    using Run_commits [of example_share_db example_options "[example_entry]" 6 example_draw ?scan 6 example_draw ?changes ?decision]
      example_ready example_scan guard tombs
    by (auto simp: o)
qed

end
