(* ===== verification/Job_Store.thy ===== *)
theory Job_Store
  imports Index_Store
begin

text \<open>
  Transfers, chunks and one-way jobs of src/internal/storage/sqlite/store.go. A time column is compared
  as text, so the due time of a job is compared with the clock by their RFC 3339 spellings. The clock
  that callers pass is not the zero time.
\<close>

record AuthenticatedOneWayWork =
  aow_Transfer :: Transfer
  aow_Job :: OneWayJob
  aow_RequiredCapabilities :: "Capability list"
  aow_Remote :: bool

section \<open>Transfers and chunks\<close>

definition valid_direction :: "TransferDirection \<Rightarrow> bool" where
  "valid_direction d = (case d of TransferDirectionOther _ \<Rightarrow> False | _ \<Rightarrow> True)"

definition valid_chunk_state :: "ChunkState \<Rightarrow> bool" where
  "valid_chunk_state st = (case st of ChunkStateOther _ \<Rightarrow> False | _ \<Rightarrow> True)"

definition chunk_key :: "TransferChunk \<Rightarrow> TransferID \<times> int" where
  "chunk_key c = (tc_TransferID c, tc_Index c)"

definition transfer_row :: "time \<Rightarrow> Transfer \<Rightarrow> Transfer" where
  "transfer_row now tr =
     tr\<lparr>tr_CreatedAt := stored_time now (tr_CreatedAt tr), tr_UpdatedAt := stored_time now (tr_UpdatedAt tr)\<rparr>"

definition check_transfer :: "DB \<Rightarrow> Transfer \<Rightarrow> store_error + unit" where
  "check_transfer db tr =
     (if \<not> valid_direction (tr_Direction tr) then Inl (StoreConstraint ''transfers.direction'')
      else if \<not> device_exists db (tr_PeerDeviceID tr) \<or> \<not> (tr_ShareID tr = [] \<or> share_exists db (tr_ShareID tr))
      then Inl (StoreConstraint ''transfers foreign key'') else ok)"

definition insertTransferTx :: "time \<Rightarrow> DB \<Rightarrow> Transfer \<Rightarrow> store_error + DB" where
  "insertTransferTx now db tr =
     (if row_exists tr_ID (tr_ID tr) (db_transfers db) then Inl (StoreConstraint ''transfers.transfer_id'')
      else rbind (check_transfer db tr) (\<lambda>_.
           Inr (db\<lparr>db_transfers := db_transfers db @ [transfer_row now tr]\<rparr>)))"

definition SaveTransfer :: "time \<Rightarrow> DB \<Rightarrow> Transfer \<Rightarrow> store_error + DB" where
  "SaveTransfer now db tr =
     rbind (check_transfer db tr) (\<lambda>_.
     let row = transfer_row now tr in
     Inr (db\<lparr>db_transfers :=
            row_upsert tr_ID
              (\<lambda>old. old\<lparr>tr_State := tr_State row, tr_BytesVerified := tr_BytesVerified row,
                         tr_RetryCount := tr_RetryCount row, tr_UpdatedAt := tr_UpdatedAt row,
                         tr_CompletedAt := tr_CompletedAt row, tr_LastError := tr_LastError row\<rparr>)
              row (db_transfers db)\<rparr>))"

definition GetTransfer :: "DB \<Rightarrow> TransferID \<Rightarrow> store_error + Transfer" where
  "GetTransfer db trID =
     (case row_lookup tr_ID trID (db_transfers db) of
        None \<Rightarrow> Inl (StoreNotFound ''transfer'') | Some tr \<Rightarrow> Inr tr)"

definition SaveChunk :: "DB \<Rightarrow> TransferChunk \<Rightarrow> store_error + DB" where
  "SaveChunk db chunk =
     (if \<not> valid_chunk_state (tc_State chunk) then Inl (StoreConstraint ''transfer_chunks.state'')
      else if \<not> row_exists tr_ID (tc_TransferID chunk) (db_transfers db)
      then Inl (StoreConstraint ''transfer_chunks foreign key'')
      else Inr (db\<lparr>db_chunks := row_upsert chunk_key (\<lambda>_. chunk) chunk (db_chunks db)\<rparr>))"

definition VerifiedChunks :: "DB \<Rightarrow> TransferID \<Rightarrow> TransferChunk list" where
  "VerifiedChunks db transferID =
     sort_key tc_Index (filter (\<lambda>c. tc_TransferID c = transferID \<and> tc_State c = ChunkVerified) (db_chunks db))"

section \<open>One-way jobs\<close>

definition valid_job_state :: "OneWayJobState \<Rightarrow> bool" where
  "valid_job_state st = (case st of OneWayJobStateOther _ \<Rightarrow> False | _ \<Rightarrow> True)"

definition job_row :: "time \<Rightarrow> OneWayJob \<Rightarrow> OneWayJob" where
  "job_row now job =
     job\<lparr>job_State := (if job_State job = OneWayJobStateOther [] then OneWayJobQueued else job_State job),
         job_CreatedAt := stored_time now (job_CreatedAt job), job_UpdatedAt := stored_time now (job_UpdatedAt job)\<rparr>"

definition check_job :: "DB \<Rightarrow> OneWayJob \<Rightarrow> store_error + unit" where
  "check_job db row =
     (if \<not> valid_job_state (job_State row) then Inl (StoreConstraint ''one_way_jobs.state'')
      else if \<not> row_exists tr_ID (job_TransferID row) (db_transfers db) \<or> \<not> device_exists db (job_PeerDeviceID row) \<or>
              \<not> share_exists db (job_ShareID row)
      then Inl (StoreConstraint ''one_way_jobs foreign key'') else ok)"

definition insertOneWayJobTx :: "time \<Rightarrow> DB \<Rightarrow> OneWayJob \<Rightarrow> store_error + DB" where
  "insertOneWayJobTx now db job =
     (let row = job_row now job in
      if row_exists job_ID (job_ID job) (db_jobs db) then Inl (StoreConstraint ''one_way_jobs.job_id'')
      else rbind (check_job db row) (\<lambda>_. Inr (db\<lparr>db_jobs := db_jobs db @ [row]\<rparr>)))"

definition validateAuthenticatedOneWayJob :: "OneWayJob \<Rightarrow> store_error + unit" where
  "validateAuthenticatedOneWayJob job =
     (if job_ID job = [] \<or> job_TransferID job = [] \<or> job_PeerDeviceID job = [] \<or> job_ShareID job = [] \<or>
         job_RevisionID job = [] \<or> job_RelativePath job = [] \<or> \<not> IsShareCapability (job_RequiredCapability job) \<or>
         job_RequiredCapability job = CapabilitySync
      then Inl (StoreInvalid ''one-way job ID, transfer, peer, share, revision, path, and action capability are required'')
      else ok)"

definition validateAuthenticatedOneWayWork :: "AuthenticatedOneWayWork \<Rightarrow> store_error + unit" where
  "validateAuthenticatedOneWayWork work =
     (let tr = aow_Transfer work; job = aow_Job work in
      if tr_ID tr = [] \<or> tr_PeerDeviceID tr = [] \<or> tr_ShareID tr = [] \<or> tr_RelativePath tr = []
      then Inl (StoreInvalid ''authenticated transfer ID, peer, share, and path are required'')
      else if tr_Direction tr \<noteq> TransferReceive
      then Inl (StoreInvalid ''authenticated receiver work requires a receive transfer'')
      else
        rbind (validateAuthenticatedOneWayJob job) (\<lambda>_.
        if job_TransferID job \<noteq> tr_ID tr \<or> job_PeerDeviceID job \<noteq> tr_PeerDeviceID tr \<or>
           job_ShareID job \<noteq> tr_ShareID tr \<or> job_RelativePath job \<noteq> tr_RelativePath tr \<or>
           job_Remote job \<noteq> aow_Remote work
        then Inl (StoreInvalid ''authenticated transfer and job scope do not match'')
        else if aow_RequiredCapabilities work \<noteq> [CapabilitySync, job_RequiredCapability job]
        then Inl (StoreInvalid ''authenticated work must require sync and its action capability'')
        else ok))"

text \<open>The query of \<open>authorizeShareTx\<close> is the one of \<open>Authorize\<close>, run inside a transaction.\<close>

definition authorizeShareTx ::
  "DB \<Rightarrow> DeviceID \<Rightarrow> ShareID \<Rightarrow> Capability \<Rightarrow> bool \<Rightarrow> store_error + unit" where
  "authorizeShareTx db deviceID shareID capability remote = Authorize db deviceID shareID capability remote"

definition CreateAuthenticatedOneWayWork ::
  "time \<Rightarrow> DB \<Rightarrow> AuthenticatedOneWayWork \<Rightarrow> store_error + DB \<times> bool" where
  "CreateAuthenticatedOneWayWork now db work =
     rbind (validateAuthenticatedOneWayWork work) (\<lambda>_.
     let tr = aow_Transfer work; job = aow_Job work in
     rbind (check_all (\<lambda>c. authorizeShareTx db (tr_PeerDeviceID tr) (tr_ShareID tr) c (aow_Remote work))
              (aow_RequiredCapabilities work)) (\<lambda>_.
     case row_lookup job_ID (job_ID job) (db_jobs db) of
       Some stored \<Rightarrow>
         if job_TransferID stored \<noteq> tr_ID tr \<or> job_PeerDeviceID stored \<noteq> tr_PeerDeviceID tr \<or>
            job_ShareID stored \<noteq> job_ShareID job \<or> job_RevisionID stored \<noteq> job_RevisionID job \<or>
            job_RelativePath stored \<noteq> job_RelativePath job \<or>
            job_RequiredCapability stored \<noteq> job_RequiredCapability job \<or> job_Remote stored \<noteq> job_Remote job
         then Inl (StoreConflict ''one-way job ID already belongs to different authenticated work'')
         else Inr (db, True)
     | None \<Rightarrow>
         rbind (insertTransferTx now db tr) (\<lambda>db.
         rbind (insertOneWayJobTx now db job) (\<lambda>db.
         Inr (db, False)))))"

definition SaveOneWayJob :: "time \<Rightarrow> DB \<Rightarrow> OneWayJob \<Rightarrow> store_error + DB" where
  "SaveOneWayJob now db job =
     rbind (validateAuthenticatedOneWayJob job) (\<lambda>_.
     let row = job_row now job in
     rbind (check_job db row) (\<lambda>_.
     Inr (db\<lparr>db_jobs := row_upsert job_ID (\<lambda>old. row\<lparr>job_CreatedAt := job_CreatedAt old\<rparr>) row (db_jobs db)\<rparr>)))"

definition GetOneWayJob :: "DB \<Rightarrow> string \<Rightarrow> store_error + OneWayJob" where
  "GetOneWayJob db jobID =
     (case row_lookup job_ID jobID (db_jobs db) of
        None \<Rightarrow> Inl (StoreNotFound ''one-way job'') | Some job \<Rightarrow> Inr job)"

definition ListOneWayJobs :: "DB \<Rightarrow> OneWayJob list" where
  "ListOneWayJobs db =
     sort_key (\<lambda>j. FormatRFC3339Nano (job_CreatedAt j)) (sort_key job_ID (db_jobs db))"

definition waiting :: "OneWayJobState \<Rightarrow> bool" where
  "waiting st \<longleftrightarrow> st = OneWayJobQueued \<or> st = OneWayJobRetryWait"

text \<open>The condition \<open>next_attempt_at IS NULL OR next_attempt_at <= now\<close>, on text.\<close>

definition due :: "time \<Rightarrow> OneWayJob \<Rightarrow> bool" where
  "due now job \<longleftrightarrow>
     job_NextAttemptAt job = 0 \<or> FormatRFC3339Nano (job_NextAttemptAt job) \<le> FormatRFC3339Nano now"

definition ListRunnableOneWayJobs :: "time \<Rightarrow> DB \<Rightarrow> OneWayJob list" where
  "ListRunnableOneWayJobs now db =
     sort_key (\<lambda>j. FormatRFC3339Nano (if job_NextAttemptAt j = 0 then job_CreatedAt j else job_NextAttemptAt j))
       (sort_key (\<lambda>j. FormatRFC3339Nano (job_CreatedAt j))
         (sort_key job_ID (filter (\<lambda>j. waiting (job_State j) \<and> due now j) (db_jobs db))))"

definition ClaimOneWayJob :: "DB \<Rightarrow> string \<Rightarrow> time \<Rightarrow> store_error + DB \<times> OneWayJob" where
  "ClaimOneWayJob db jobID now =
     (let sel = (\<lambda>j. job_ID j = jobID \<and> waiting (job_State j) \<and> due now j);
          rows = row_update sel (\<lambda>j. j\<lparr>job_State := OneWayJobRunning, job_UpdatedAt := now\<rparr>) (db_jobs db) in
      if \<not> list_ex sel (db_jobs db) then Inl (StoreNotFound ''one-way job'')
      else let db = db\<lparr>db_jobs := rows\<rparr> in rbind (GetOneWayJob db jobID) (\<lambda>job. Inr (db, job)))"

definition UpdateOneWayJob :: "time \<Rightarrow> DB \<Rightarrow> OneWayJob \<Rightarrow> store_error + DB" where
  "UpdateOneWayJob now db job =
     (if \<not> row_exists job_ID (job_ID job) (db_jobs db) then Inl (StoreNotFound ''one-way job'')
      else if \<not> valid_job_state (job_State job) then Inl (StoreConstraint ''one_way_jobs.state'')
      else Inr (db\<lparr>db_jobs := row_update (\<lambda>j. job_ID j = job_ID job)
             (\<lambda>j. j\<lparr>job_State := job_State job, job_RetryCount := job_RetryCount job,
                    job_NextAttemptAt := job_NextAttemptAt job, job_LastError := job_LastError job,
                    job_UpdatedAt := stored_time now (job_UpdatedAt job)\<rparr>) (db_jobs db)\<rparr>))"

definition RecoverRunningOneWayJobs :: "time \<Rightarrow> DB \<Rightarrow> DB" where
  "RecoverRunningOneWayJobs now db =
     db\<lparr>db_jobs := row_update (\<lambda>j. job_State j = OneWayJobRunning)
          (\<lambda>j. j\<lparr>job_State := OneWayJobQueued, job_NextAttemptAt := now, job_UpdatedAt := now\<rparr>) (db_jobs db)\<rparr>"

section \<open>Lemmas\<close>

lemma Authorize_cong:
  "db_permissions db' = db_permissions db \<Longrightarrow> db_devices db' = db_devices db \<Longrightarrow> Authorize db' = Authorize db"
  by (simp add: fun_eq_iff Authorize_def)

lemma insertTransferTx_Inr:
  "insertTransferTx now db tr = Inr db' \<Longrightarrow>
     \<not> row_exists tr_ID (tr_ID tr) (db_transfers db) \<and> db' = db\<lparr>db_transfers := db_transfers db @ [transfer_row now tr]\<rparr>"
  by (auto simp: insertTransferTx_def rbind_eq_Inr split: if_splits)

lemma insertOneWayJobTx_Inr:
  "insertOneWayJobTx now db job = Inr db' \<Longrightarrow>
     \<not> row_exists job_ID (job_ID job) (db_jobs db) \<and> db' = db\<lparr>db_jobs := db_jobs db @ [job_row now job]\<rparr>"
  by (auto simp: insertOneWayJobTx_def Let_def rbind_eq_Inr split: if_splits)

lemma job_row_fields [simp]:
  "job_ID (job_row now job) = job_ID job" "job_TransferID (job_row now job) = job_TransferID job"
  "job_PeerDeviceID (job_row now job) = job_PeerDeviceID job" "job_ShareID (job_row now job) = job_ShareID job"
  "job_RevisionID (job_row now job) = job_RevisionID job" "job_RelativePath (job_row now job) = job_RelativePath job"
  "job_RequiredCapability (job_row now job) = job_RequiredCapability job" "job_Remote (job_row now job) = job_Remote job"
  by (simp_all add: job_row_def)

text \<open>A stored job has the scope of the work it was created for.\<close>

definition same_scope :: "OneWayJob \<Rightarrow> OneWayJob \<Rightarrow> bool" where
  "same_scope a b \<longleftrightarrow> job_ID a = job_ID b \<and> job_TransferID a = job_TransferID b \<and>
     job_PeerDeviceID a = job_PeerDeviceID b \<and> job_ShareID a = job_ShareID b \<and> job_RevisionID a = job_RevisionID b \<and>
     job_RelativePath a = job_RelativePath b \<and> job_RequiredCapability a = job_RequiredCapability b \<and>
     job_Remote a = job_Remote b"

lemma validateAuthenticatedOneWayWork_ok:
  "validateAuthenticatedOneWayWork work = ok \<Longrightarrow>
     job_TransferID (aow_Job work) = tr_ID (aow_Transfer work) \<and>
     job_PeerDeviceID (aow_Job work) = tr_PeerDeviceID (aow_Transfer work) \<and>
     job_ShareID (aow_Job work) = tr_ShareID (aow_Transfer work) \<and> tr_Direction (aow_Transfer work) = TransferReceive \<and>
     job_Remote (aow_Job work) = aow_Remote work \<and>
     aow_RequiredCapabilities work = [CapabilitySync, job_RequiredCapability (aow_Job work)]"
  by (auto simp: validateAuthenticatedOneWayWork_def Let_def rbind_eq_Inr split: if_splits)

lemma Create_Inr:
  assumes "CreateAuthenticatedOneWayWork now db work = Inr (db', again)"
  shows "validateAuthenticatedOneWayWork work = ok" and "db_permissions db' = db_permissions db"
    and "db_devices db' = db_devices db"
    and "\<exists>row. row_lookup job_ID (job_ID (aow_Job work)) (db_jobs db') = Some row \<and> same_scope row (aow_Job work)"
    and "if again then db' = db
      else row_lookup job_ID (job_ID (aow_Job work)) (db_jobs db) = None \<and>
        row_lookup tr_ID (tr_ID (aow_Transfer work)) (db_transfers db') = Some (transfer_row now (aow_Transfer work))"
proof -
  let ?job = "aow_Job work" and ?tr = "aow_Transfer work"
  show v: "validateAuthenticatedOneWayWork work = ok"
    using assms by (auto simp: CreateAuthenticatedOneWayWork_def rbind_eq_Inr)
  note scope = validateAuthenticatedOneWayWork_ok [OF v]
  have "db_permissions db' = db_permissions db \<and> db_devices db' = db_devices db \<and>
    (\<exists>row. row_lookup job_ID (job_ID ?job) (db_jobs db') = Some row \<and> same_scope row ?job) \<and>
    (if again then db' = db else row_lookup job_ID (job_ID ?job) (db_jobs db) = None \<and>
        row_lookup tr_ID (tr_ID ?tr) (db_transfers db') = Some (transfer_row now ?tr))"
  proof (cases "row_lookup job_ID (job_ID ?job) (db_jobs db)")
    case (Some row)
    then show ?thesis using assms scope
      by (auto simp: CreateAuthenticatedOneWayWork_def Let_def rbind_eq_Inr same_scope_def split: if_splits dest: row_lookup_SomeD)
  next
    case None
    then obtain db1 where i: "insertTransferTx now db ?tr = Inr db1" "insertOneWayJobTx now db1 ?job = Inr db'" "\<not> again"
      using assms by (auto simp: CreateAuthenticatedOneWayWork_def Let_def rbind_eq_Inr)
    have "tr_ID (transfer_row now ?tr) = tr_ID ?tr" by (simp add: transfer_row_def)
    then show ?thesis using None i(3) insertTransferTx_Inr [OF i(1)] insertOneWayJobTx_Inr [OF i(2)]
      by (auto simp: row_lookup_append row_exists_iff same_scope_def)
  qed
  then show "db_permissions db' = db_permissions db" "db_devices db' = db_devices db"
    "\<exists>row. row_lookup job_ID (job_ID ?job) (db_jobs db') = Some row \<and> same_scope row ?job"
    "if again then db' = db else row_lookup job_ID (job_ID ?job) (db_jobs db) = None \<and>
        row_lookup tr_ID (tr_ID ?tr) (db_transfers db') = Some (transfer_row now ?tr)" by blast+
qed

section \<open>Example data\<close>

definition example_work :: AuthenticatedOneWayWork where
  "example_work = \<lparr>
     aow_Transfer = \<lparr> tr_ID = ''t'', tr_Direction = TransferReceive, tr_PeerDeviceID = ''d'', tr_ShareID = ''s'',
       tr_RelativePath = ''a'', tr_State = TransferQueued, tr_Size = 1, tr_ChunkSize = 1, tr_ContentHash = [],
       tr_HashAlgorithm = [], tr_BytesVerified = 0, tr_RetryCount = 0, tr_CreatedAt = 1, tr_UpdatedAt = 1,
       tr_CompletedAt = 0, tr_LastError = [] \<rparr>,
     aow_Job = \<lparr> job_ID = ''j'', job_TransferID = ''t'', job_PeerDeviceID = ''d'', job_ShareID = ''s'',
       job_RevisionID = ''r'', job_RelativePath = ''a'', job_RequiredCapability = CapabilityModify,
       job_Remote = False, job_State = OneWayJobStateOther [], job_RetryCount = 0, job_NextAttemptAt = 0,
       job_LastError = [], job_CreatedAt = 1, job_UpdatedAt = 1 \<rparr>,
     aow_RequiredCapabilities = [CapabilitySync, CapabilityModify], aow_Remote = False \<rparr>"

definition example_peer_db :: DB where
  "example_peer_db = empty_db\<lparr> db_shares := [example_share],
     db_devices := [example_device\<lparr>dev_TrustState := TrustTrusted\<rparr>],
     db_permissions := [\<lparr> perm_ShareID = ''s'', perm_DeviceID = ''d'',
       perm_Capabilities = [(CapabilitySync, True), (CapabilityModify, True)], perm_LANOnly = True \<rparr>] \<rparr>"

section \<open>Properties\<close>

text \<open>
  C24. Work is created only for a peer that may do it. When receiver work is created, the peer is
  trusted and holds the sync capability and the action's own on the share; the job is stored with the
  scope that was authorised and, when it is new, with its transfer; and creating it again, while the
  peer's rights last, changes nothing.
\<close>

theorem CreateWork_authorised:
  assumes "CreateAuthenticatedOneWayWork now db work = Inr (db', again)"
  shows "Authorize db (tr_PeerDeviceID (aow_Transfer work)) (tr_ShareID (aow_Transfer work)) CapabilitySync (aow_Remote work) = ok \<and>
    Authorize db (tr_PeerDeviceID (aow_Transfer work)) (tr_ShareID (aow_Transfer work))
      (job_RequiredCapability (aow_Job work)) (aow_Remote work) = ok \<and>
    (\<exists>row. GetOneWayJob db' (job_ID (aow_Job work)) = Inr row \<and> same_scope row (aow_Job work)) \<and>
    (if again then db' = db
     else GetTransfer db' (tr_ID (aow_Transfer work)) = Inr (transfer_row now (aow_Transfer work))) \<and>
    CreateAuthenticatedOneWayWork later db' work = Inr (db', True)"
proof -
  let ?job = "aow_Job work" and ?tr = "aow_Transfer work"
  note c = Create_Inr [OF assms]
  note scope = validateAuthenticatedOneWayWork_ok [OF c(1)]
  have auth: "Authorize db (tr_PeerDeviceID ?tr) (tr_ShareID ?tr) CapabilitySync (aow_Remote work) = ok"
    "Authorize db (tr_PeerDeviceID ?tr) (tr_ShareID ?tr) (job_RequiredCapability ?job) (aow_Remote work) = ok"
    using assms scope by (auto simp: CreateAuthenticatedOneWayWork_def authorizeShareTx_def Let_def rbind_eq_Inr)
  obtain row where row: "row_lookup job_ID (job_ID ?job) (db_jobs db') = Some row" "same_scope row ?job"
    using c(4) by blast
  have "CreateAuthenticatedOneWayWork later db' work = Inr (db', True)"
    using c(1) scope auth row Authorize_cong [OF c(2,3)]
    by (simp add: CreateAuthenticatedOneWayWork_def authorizeShareTx_def Let_def same_scope_def)
  then show ?thesis using auth row c(5) by (auto simp: GetOneWayJob_def GetTransfer_def split: if_splits)
qed

theorem CreateWork_authorised_witness:
  "\<exists>db'. CreateAuthenticatedOneWayWork 9 example_peer_db example_work = Inr (db', False) \<and>
     CreateAuthenticatedOneWayWork 10 db' example_work = Inr (db', True)"
proof -
  have "\<exists>db'. CreateAuthenticatedOneWayWork 9 example_peer_db example_work = Inr (db', False)"
    by (simp add: CreateAuthenticatedOneWayWork_def validateAuthenticatedOneWayWork_def validateAuthenticatedOneWayJob_def
        authorizeShareTx_def Authorize_def capabilityColumn_def ShareCapabilities_def IsShareCapability_def perm_key_def
        perm_has_def insertTransferTx_def check_transfer_def valid_direction_def insertOneWayJobTx_def check_job_def
        valid_job_state_def job_row_def transfer_row_def device_exists_def share_exists_def row_exists_def Let_def
        example_work_def example_peer_db_def example_share_def example_device_def empty_db_def)
  then show ?thesis using CreateWork_authorised by blast
qed

end
