(* ===== verification/Store_Invariant.thy ===== *)
theory Store_Invariant
  imports Job_Store
begin

text \<open>
  The schema of the sync database as an invariant of every sequence of store operations: unique keys,
  references to rows that exist, and an index whose rows are described by their current revisions.
  \<open>SaveSnapshot\<close> is left out of the steps: it writes index rows without revisions, and no code outside
  the store calls it.
\<close>

section \<open>The invariant\<close>

definition keys_wf :: "DB \<Rightarrow> bool" where
  "keys_wf db \<longleftrightarrow> keys_distinct dev_ID (db_devices db) \<and> keys_distinct dev_Fingerprint (db_devices db) \<and>
     keys_distinct shr_ID (db_shares db) \<and> keys_distinct perm_key (db_permissions db) \<and>
     keys_distinct tr_ID (db_transfers db) \<and> keys_distinct chunk_key (db_chunks db) \<and>
     keys_distinct job_ID (db_jobs db) \<and> keys_distinct aud_ID (db_audit db) \<and>
     keys_distinct pr_InviteID (db_pairings db)"

definition transfer_exists :: "DB \<Rightarrow> TransferID \<Rightarrow> bool" where
  "transfer_exists db t = row_exists tr_ID t (db_transfers db)"

definition refs_wf :: "DB \<Rightarrow> bool" where
  "refs_wf db \<longleftrightarrow>
     list_all (\<lambda>p. share_exists db (perm_ShareID p) \<and> device_exists db (perm_DeviceID p)) (db_permissions db) \<and>
     list_all (\<lambda>t. device_exists db (tr_PeerDeviceID t) \<and> (tr_ShareID t = [] \<or> share_exists db (tr_ShareID t))) (db_transfers db) \<and>
     list_all (\<lambda>c. transfer_exists db (tc_TransferID c)) (db_chunks db) \<and>
     list_all (\<lambda>j. transfer_exists db (job_TransferID j) \<and> device_exists db (job_PeerDeviceID j) \<and>
                   share_exists db (job_ShareID j)) (db_jobs db)"

definition store_wf :: "DB \<Rightarrow> bool" where
  "store_wf db \<longleftrightarrow> index_wf db \<and> keys_wf db \<and> refs_wf db"

section \<open>Steps of the store\<close>

inductive store_step :: "DB \<Rightarrow> DB \<Rightarrow> bool" where
  trust: "TrustDevice now db device = Inr db' \<Longrightarrow> store_step db db'"
| revoke_device: "RevokeDevice now db dev = Inr db' \<Longrightarrow> store_step db db'"
| save_share: "SaveShare now db share = Inr db' \<Longrightarrow> store_step db db'"
| set_permission: "SetPermission db p = Inr db' \<Longrightarrow> store_step db db'"
| audit: "Record now db event = Inr db' \<Longrightarrow> store_step db db'"
| accept: "Accept now db acceptance = Inr (db', again) \<Longrightarrow> store_step db db'"
| revoke: "Revoke now db dev event revokedAt = Inr (db', again) \<Longrightarrow> store_step db db'"
| record_revision: "RecordRevision now db r = Inr db' \<Longrightarrow> store_step db db'"
| commit: "CommitSnapshotAndTombstones now db shareID entries revisions requests at = Inr (db', ts) \<Longrightarrow> store_step db db'"
| commit_snapshot: "CommitSnapshot now db shareID entries revisions at = Inr db' \<Longrightarrow> store_step db db'"
| apply_one: "CommitOneWayApply now db c = Inr (db', result) \<Longrightarrow> store_step db db'"
| record_deletion: "RecordDeletion now db tid rid expires = Inr (db', t) \<Longrightarrow> store_step db db'"
| save_transfer: "SaveTransfer now db tr = Inr db' \<Longrightarrow> store_step db db'"
| save_chunk: "SaveChunk db chunk = Inr db' \<Longrightarrow> store_step db db'"
| create_work: "CreateAuthenticatedOneWayWork now db work = Inr (db', again) \<Longrightarrow> store_step db db'"
| save_job: "SaveOneWayJob now db job = Inr db' \<Longrightarrow> store_step db db'"
| claim_job: "ClaimOneWayJob db jobID now = Inr (db', job) \<Longrightarrow> store_step db db'"
| update_job: "UpdateOneWayJob now db job = Inr db' \<Longrightarrow> store_step db db'"
| recover_jobs: "store_step db (RecoverRunningOneWayJobs now db)"

inductive store_reach :: "DB \<Rightarrow> bool" where
  reach_empty: "store_reach empty_db"
| reach_next: "store_reach db \<Longrightarrow> store_step db db' \<Longrightarrow> store_reach db'"

section \<open>What an operation leaves alone\<close>

text \<open>An operation extends a database when rows that were referred to are still there.\<close>

definition extends :: "DB \<Rightarrow> DB \<Rightarrow> bool" where
  "extends db db' \<longleftrightarrow> dev_ID ` set (db_devices db) \<subseteq> dev_ID ` set (db_devices db') \<and>
     shr_ID ` set (db_shares db) \<subseteq> shr_ID ` set (db_shares db') \<and>
     tr_ID ` set (db_transfers db) \<subseteq> tr_ID ` set (db_transfers db')"

definition same_index :: "DB \<Rightarrow> DB \<Rightarrow> bool" where
  "same_index db db' \<longleftrightarrow> db_revisions db' = db_revisions db \<and> db_file_index db' = db_file_index db \<and>
     db_tombstones db' = db_tombstones db"

definition same_jobs :: "DB \<Rightarrow> DB \<Rightarrow> bool" where
  "same_jobs db db' \<longleftrightarrow> db_transfers db' = db_transfers db \<and> db_chunks db' = db_chunks db \<and> db_jobs db' = db_jobs db"

text \<open>The part of the database that the operations on the index do not write.\<close>

definition others :: "DB \<Rightarrow> DB" where
  "others db = db\<lparr>db_revisions := [], db_file_index := [], db_tombstones := []\<rparr>"

lemma extends_exists:
  assumes "extends db db'"
  shows "device_exists db d \<Longrightarrow> device_exists db' d" "share_exists db s \<Longrightarrow> share_exists db' s"
    "transfer_exists db t \<Longrightarrow> transfer_exists db' t"
  using assms by (auto simp: extends_def device_exists_def share_exists_def transfer_exists_def row_exists_mem)

lemma index_wf_extends:
  assumes "index_wf db" "same_index db db'" "extends db db'"
  shows "index_wf db'"
  using assms extends_exists(2) [OF assms(3)]
  by (auto simp: index_wf_def revisions_wf_def rows_wf_def row_wf_def tombstones_wf_def same_index_def
      revision_ref_def revision_exists_def list_all_iff)

lemma jobs_refs_extends:
  assumes "refs_wf db" "same_jobs db db'" "extends db db'"
    and "list_all (\<lambda>p. share_exists db' (perm_ShareID p) \<and> device_exists db' (perm_DeviceID p)) (db_permissions db')"
  shows "refs_wf db'"
  using assms extends_exists [OF assms(3)] by (fastforce simp: refs_wf_def same_jobs_def list_all_iff)

lemma image_upsert:
  assumes "\<And>r. key r = key row \<Longrightarrow> key (merge r) = key row"
  shows "key ` set (row_upsert key merge row rows) = insert (key row) (key ` set rows)"
proof -
  have "row_exists key k (row_upsert key merge row rows) \<longleftrightarrow> k = key row \<or> row_exists key k rows" for k
    using row_lookup_upsert [of key row merge k rows, OF assms] by (auto simp: row_exists_iff)
  then show ?thesis unfolding row_exists_mem by auto
qed

lemma image_update: "(\<And>r. sel r \<Longrightarrow> key (change r) = key r) \<Longrightarrow> key ` set (row_update sel change rows) = key ` set rows"
proof -
  assume "\<And>r. sel r \<Longrightarrow> key (change r) = key r"
  then have "map key (row_update sel change rows) = map key rows" by (auto simp: row_update_def)
  then show ?thesis by (metis list.set_map)
qed

lemma second_key_upsert:
  assumes "keys_distinct key rows" "keys_distinct other rows"
    and "\<forall>r\<in>set rows. key r \<noteq> key row \<longrightarrow> other r \<noteq> other row" "\<And>r. other (merge r) = other row"
  shows "keys_distinct other (row_upsert key merge row rows)"
proof (cases "row_exists key (key row) rows")
  case False
  then have "\<forall>r\<in>set rows. key r \<noteq> key row" by (auto simp: row_exists_def list_ex_iff)
  then have "other row \<notin> other ` set rows" using assms(3) by (metis imageE)
  then show ?thesis using False assms(2) by (simp add: row_upsert_def keys_distinct_def)
next
  case True
  have "distinct (map (\<lambda>r. other (if key r = key row then merge r else r)) rows)"
    using assms by (induction rows) (auto simp: keys_distinct_def image_iff)
  then show ?thesis using True by (simp add: row_upsert_def keys_distinct_def comp_def)
qed

lemma others_wf:
  assumes "others db' = others db"
  shows "keys_wf db' = keys_wf db" "refs_wf db' = refs_wf db"
proof -
  have "keys_wf db = keys_wf (others db)" "refs_wf db = refs_wf (others db)" for db
    by (simp_all add: others_def keys_wf_def refs_wf_def share_exists_def device_exists_def transfer_exists_def)
  then show "keys_wf db' = keys_wf db" "refs_wf db' = refs_wf db" using assms by metis+
qed

section \<open>The index operations\<close>

lemma insertRevision_others: "insertRevision now db r = Inr db' \<Longrightarrow> others db' = others db"
  by (auto simp: insertRevision_Inr others_def)

lemma insertTombstone_others: "insertTombstone now db t = Inr db' \<Longrightarrow> others db' = others db"
  by (auto simp: insertTombstone_Inr others_def)

lemma upsert_others: "upsertFileIndexEntry now db s e at = Inr db' \<Longrightarrow> others db' = others db"
  by (auto simp: upsertFileIndexEntry_Inr others_def put_row_def Let_def)

lemma mark_deleted_others: "mark_deleted now s at db r = Inr db' \<Longrightarrow> others db' = others db"
  by (auto simp: mark_deleted_def others_def split: if_splits)

lemma loop_others:
  assumes "fold_result f db xs = Inr db'" "\<And>db x db'. f db x = Inr db' \<Longrightarrow> others db' = others db"
  shows "others db' = others db"
  using fold_result_invariant [OF assms(1), of "\<lambda>d. others d = others db"] assms(2) by force

lemma loops_others:
  "fold_result (insertRevision now) db rs = Inr db' \<Longrightarrow> others db' = others db"
  "fold_result (insertTombstone now) db ts = Inr db' \<Longrightarrow> others db' = others db"
  "fold_result (\<lambda>db e. upsertFileIndexEntry now db s e at) db es = Inr db' \<Longrightarrow> others db' = others db"
  "fold_result (mark_deleted now s at) db ds = Inr db' \<Longrightarrow> others db' = others db"
  by (erule loop_others, erule insertRevision_others)
    (erule loop_others, erule insertTombstone_others,
     erule loop_others, erule upsert_others, erule loop_others, erule mark_deleted_others)

lemma insertRevision_keeps:
  assumes "insertRevision now db r = Inr db'" "index_wf db"
  shows "index_wf db'"
proof -
  obtain r' where db': "db' = with_revisions db [r']" using assms(1) by (auto simp: insertRevision_Inr with_revisions_def)
  have "revision_ref db x \<Longrightarrow> revision_ref db' x" "revision_exists db x \<Longrightarrow> revision_exists db' x" for x
    unfolding db' by (auto simp: revision_ref_append) (auto simp: with_revisions_def revision_exists_def row_exists_mem)
  moreover have "share_exists db' = share_exists db" by (simp add: db' with_revisions_def fun_eq_iff share_exists_def)
  ultimately have "tombstones_wf db'" using assms(2)
    by (auto simp: index_wf_def tombstones_wf_def list_all_iff db' with_revisions_def)
  moreover have "rows_wf db'" using assms(2) row_wf_append [of db _ "[r']"]
    by (auto simp: index_wf_def rows_wf_def list_all_iff db' with_revisions_def)
  ultimately show ?thesis using assms(2) insertRevision_wf [OF assms(1)] by (simp add: index_wf_def)
qed

lemma Commit_others:
  "CommitSnapshotAndTombstones now db shareID entries revs requests at = Inr (db', ts) \<Longrightarrow> others db' = others db"
  unfolding CommitSnapshotAndTombstones_def
  by (auto simp: rbind_eq_Inr Let_def split: if_splits dest!: loops_others)

lemma Apply_cases:
  assumes "CommitOneWayApply now db c = Inr (db', res)"
  obtains "db' = db" | db1 where "row_lookup rev_ID (rev_ID (oac_Revision c)) (db_revisions db) = None"
    "insertRevision now db (oac_Revision c) = Inr db1" "apply_revision now c db1 = Inr (db', res)"
  using assms by (auto simp: CommitOneWayApply_def rbind_eq_Inr split: if_splits option.splits)

lemma Apply_keeps:
  assumes "CommitOneWayApply now db c = Inr (db', res)" "index_wf db"
  shows "index_wf db'" "others db' = others db"
proof -
  have "index_wf db' \<and> others db' = others db" using assms(1)
  proof (cases rule: Apply_cases)
    case (2 db1)
    have "others db' = others db1" using 2(3)
      by (auto simp: apply_revision_def Let_def rbind_eq_Inr split: bool.splits option.splits
          dest!: mark_deleted_others insertTombstone_others upsert_others)
    then show ?thesis using Apply_new [OF assms 2(1)] insertRevision_others [OF 2(2)] by simp
  qed (simp add: assms(2))
  then show "index_wf db'" "others db' = others db" by blast+
qed

lemma index_step_wf: "store_wf db \<Longrightarrow> index_wf db' \<Longrightarrow> others db' = others db \<Longrightarrow> store_wf db'"
  using others_wf [of db' db] by (simp add: store_wf_def)

section \<open>Devices, shares, permissions, audit and pairings\<close>

definition perms_ok :: "DB \<Rightarrow> bool" where
  "perms_ok db \<longleftrightarrow>
     list_all (\<lambda>p. share_exists db (perm_ShareID p) \<and> device_exists db (perm_DeviceID p)) (db_permissions db)"

lemma peer_step_wf:
  assumes "store_wf db" "same_index db db'" "same_jobs db db'" "extends db db'"
    "keys_distinct dev_ID (db_devices db')" "keys_distinct dev_Fingerprint (db_devices db')"
    "keys_distinct shr_ID (db_shares db')" "keys_distinct perm_key (db_permissions db')"
    "keys_distinct aud_ID (db_audit db')" "keys_distinct pr_InviteID (db_pairings db')" "perms_ok db'"
  shows "store_wf db'"
  using assms index_wf_extends [of db db'] jobs_refs_extends [of db db']
  by (auto simp: store_wf_def keys_wf_def same_jobs_def perms_ok_def)

lemma perms_ok_extends: "perms_ok db \<Longrightarrow> extends db db' \<Longrightarrow> db_permissions db' = db_permissions db \<Longrightarrow> perms_ok db'"
  using extends_exists [of db db'] by (auto simp: perms_ok_def list_all_iff)

lemma store_wf_peers:
  assumes "store_wf db"
  shows "keys_distinct dev_ID (db_devices db)" "keys_distinct dev_Fingerprint (db_devices db)"
    "keys_distinct shr_ID (db_shares db)" "keys_distinct perm_key (db_permissions db)"
    "keys_distinct aud_ID (db_audit db)" "keys_distinct pr_InviteID (db_pairings db)" "perms_ok db"
  using assms by (auto simp: store_wf_def keys_wf_def refs_wf_def perms_ok_def)

lemmas frame_defs = same_index_def same_jobs_def extends_def

text \<open>The device upserts: the fingerprint is not another device's.\<close>

lemma device_upsert_wf:
  assumes wf: "store_wf db" and free: "\<not> fingerprint_taken db device"
    and row: "dev_ID row = dev_ID device" "dev_Fingerprint row = dev_Fingerprint device"
    and merge: "\<And>old. dev_ID (merge old) = dev_ID device" "\<And>old. dev_Fingerprint (merge old) = dev_Fingerprint device"
  shows "store_wf (db\<lparr>db_devices := row_upsert dev_ID merge row (db_devices db)\<rparr>)" (is "store_wf ?db")
proof (rule peer_step_wf [OF wf])
  note keys = store_wf_peers [OF wf]
  have ids: "dev_ID ` set (db_devices ?db) = insert (dev_ID device) (dev_ID ` set (db_devices db))"
    by (simp add: image_upsert row merge)
  then show ext: "extends db ?db" by (auto simp: extends_def)
  show "keys_distinct dev_ID (db_devices ?db)" using keys(1) by (simp add: keys_distinct_upsert row merge)
  show "keys_distinct dev_Fingerprint (db_devices ?db)"
    using second_key_upsert [OF keys(1,2), of row merge] free
    by (auto simp: row merge fingerprint_taken_def list_ex_iff)
  show "perms_ok ?db" by (rule perms_ok_extends [OF keys(7) ext]) simp
qed (use store_wf_peers [OF wf] in \<open>simp_all add: frame_defs\<close>)

lemma TrustDevice_wf: "TrustDevice now db device = Inr db' \<Longrightarrow> store_wf db \<Longrightarrow> store_wf db'"
  by (auto simp: TrustDevice_def Let_def split: if_splits intro!: device_upsert_wf)

lemma accept_device_wf: "accept_device now a db = Inr db' \<Longrightarrow> store_wf db \<Longrightarrow> store_wf db'"
  by (auto simp: accept_device_def Let_def split: if_splits intro!: device_upsert_wf)

lemma set_upsert: "set (row_upsert key merge row rows) \<subseteq> insert row (set rows \<union> merge ` set rows)"
  by (auto simp: row_upsert_def)

lemma keys_distinct_filter: "keys_distinct key rows \<Longrightarrow> keys_distinct key (filter P rows)"
  by (auto simp: keys_distinct_def distinct_map_filter)

lemma put_permission_wf:
  assumes wf: "store_wf db" and refs: "share_exists db (perm_ShareID p)" "device_exists db (perm_DeviceID p)"
  shows "store_wf (put_permission db p)" (is "store_wf ?db")
proof (rule peer_step_wf [OF wf])
  note keys = store_wf_peers [OF wf]
  show "keys_distinct perm_key (db_permissions ?db)" using keys(4) by (simp add: put_permission_def keys_distinct_upsert)
  have "set (db_permissions ?db) \<subseteq> insert (permission_row p) (set (db_permissions db))"
    using set_upsert [of perm_key "\<lambda>_. permission_row p" "permission_row p" "db_permissions db"]
    by (auto simp: put_permission_def)
  then show "perms_ok ?db" using keys(7) refs by (auto simp: perms_ok_def list_all_iff permission_row_def)
qed (use store_wf_peers [OF wf] in \<open>simp_all add: frame_defs put_permission_def\<close>)

lemma SetPermission_wf: "SetPermission db p = Inr db' \<Longrightarrow> store_wf db \<Longrightarrow> store_wf db'"
  by (auto simp: SetPermission_def put_permission_wf split: if_splits)

lemma accept_permissions_wf: "accept_permissions dev seen db ps = Inr db' \<Longrightarrow> store_wf db \<Longrightarrow> store_wf db'"
  by (induction ps arbitrary: seen db) (auto simp: rbind_eq_Inr setPermissionTx_def SetPermission_wf split: if_splits)

lemma RevokeDevice_wf:
  assumes "RevokeDevice now db dev = Inr db'" and wf: "store_wf db"
  shows "store_wf db'"
proof -
  have db': "db' = db\<lparr>db_devices := row_update (\<lambda>d. dev_ID d = dev)
               (\<lambda>d. d\<lparr>dev_TrustState := TrustRevoked, dev_UpdatedAt := now\<rparr>) (db_devices db)\<rparr>"
    using assms(1) by (auto simp: RevokeDevice_def split: if_splits)
  note keys = store_wf_peers [OF wf]
  have ext: "extends db db'" by (simp add: extends_def db' image_update)
  show ?thesis
    by (rule peer_step_wf [OF wf _ _ ext])
      (simp_all add: db' frame_defs keys_distinct_update keys perms_ok_extends [OF keys(7) ext [unfolded db']])
qed

lemma SaveShare_wf:
  assumes "SaveShare now db share = Inr db'" and wf: "store_wf db"
  shows "store_wf db'"
proof -
  obtain row merge where db': "db' = db\<lparr>db_shares := row_upsert shr_ID merge row (db_shares db)\<rparr>"
    and ids: "shr_ID row = shr_ID share" "\<And>old. shr_ID (merge old) = shr_ID share"
    using assms(1) by (auto simp: SaveShare_def Let_def split: if_splits)
  note keys = store_wf_peers [OF wf]
  have ext: "extends db db'" by (auto simp: extends_def db' image_upsert ids)
  show ?thesis
    by (rule peer_step_wf [OF wf _ _ ext])
      (simp_all add: db' frame_defs keys_distinct_upsert ids keys perms_ok_extends [OF keys(7) ext [unfolded db']])
qed

lemma recordAuditTx_wf:
  assumes "recordAuditTx now db e = Inr db'" and wf: "store_wf db"
  shows "store_wf db'"
proof -
  obtain row where db': "db' = db\<lparr>db_audit := db_audit db @ [row]\<rparr>" "\<not> row_exists aud_ID (aud_ID row) (db_audit db)"
    using assms(1) by (auto simp: recordAuditTx_def split: if_splits)
  note keys = store_wf_peers [OF wf]
  have ext: "extends db db'" by (simp add: extends_def db')
  show ?thesis
    by (rule peer_step_wf [OF wf _ _ ext])
      (use db'(2) in \<open>simp_all add: db'(1) frame_defs keys_distinct_snoc keys perms_ok_extends [OF keys(7) ext [unfolded db'(1)]]\<close>)
qed

text \<open>The other tables have neither keys nor references in the invariant.\<close>

lemma store_wf_grants [simp]:
  "store_wf (db\<lparr>db_grants := gs\<rparr>) = store_wf db" "store_wf (db\<lparr>db_replicas := rs\<rparr>) = store_wf db"
  using row_wf_cong [of "db\<lparr>db_grants := gs\<rparr>" db] row_wf_cong [of "db\<lparr>db_replicas := rs\<rparr>" db]
  by (simp_all add: store_wf_def index_wf_def revisions_wf_def rows_wf_def tombstones_wf_def keys_wf_def refs_wf_def
      share_exists_def device_exists_def transfer_exists_def revision_ref_def revision_exists_def)

lemma store_wf_pairing:
  assumes wf: "store_wf db" and "\<not> row_exists pr_InviteID (pr_InviteID row) (db_pairings db)"
  shows "store_wf (db\<lparr>db_pairings := db_pairings db @ [row]\<rparr>)" (is "store_wf ?db")
proof -
  note keys = store_wf_peers [OF wf]
  have ext: "extends db ?db" by (simp add: extends_def)
  show ?thesis
    by (rule peer_step_wf [OF wf _ _ ext])
      (use assms(2) in \<open>simp_all add: frame_defs keys_distinct_snoc keys perms_ok_extends [OF keys(7) ext]\<close>)
qed

lemma store_wf_drop_permissions:
  assumes wf: "store_wf db"
  shows "store_wf (db\<lparr>db_permissions := filter P (db_permissions db)\<rparr>)" (is "store_wf ?db")
proof -
  note keys = store_wf_peers [OF wf]
  have ext: "extends db ?db" by (simp add: extends_def)
  have "perms_ok ?db" using keys(7) by (auto simp: perms_ok_def list_all_iff share_exists_def device_exists_def)
  then show ?thesis
    by (intro peer_step_wf [OF wf _ _ ext]) (simp_all add: frame_defs keys_distinct_filter keys)
qed

lemma Accept_wf:
  assumes "Accept now db a = Inr (db', again)" and wf: "store_wf db"
  shows "store_wf db'"
proof (cases "row_exists pr_InviteID (pa_InviteID a) (db_pairings db)")
  case True
  then show ?thesis using Accept_replay [OF assms(1)] wf by simp
next
  case False
  then obtain db1 db2 db3 db4 row where steps: "accept_device now a db = Inr db1"
    "accept_permissions (dev_ID (pa_Device a)) [] db1 (pa_Permissions a) = Inr db2"
    "accept_grant (dev_ID (pa_Device a)) db2 (pa_ControlPlaneGrant a) = Inr db3"
    "recordAuditTx now db3 (pa_AuditEvent a) = Inr db4"
    "db' = db4\<lparr>db_pairings := db_pairings db4 @ [row]\<rparr>" "pr_InviteID row = pa_InviteID a"
    using assms(1) by (auto simp: Accept_def Let_def rbind_eq_Inr row_exists_iff split: if_splits option.splits)
  have "store_wf db2" using accept_permissions_wf [OF steps(2)] accept_device_wf [OF steps(1) wf] .
  then have "store_wf db3" using steps(3) by (auto simp: accept_grant_def split: option.splits if_splits)
  then have db4: "store_wf db4" by (rule recordAuditTx_wf [OF steps(4)])
  have "db_pairings db2 = db_pairings db1"
    using accept_permissions_Inr [OF steps(2)] put_all_frame(4) by auto
  then have "db_pairings db4 = db_pairings db"
    using accept_device_lookup(2) [OF steps(1)] accept_grant_frame [OF steps(3)] recordAuditTx_frame [OF steps(4)] by simp
  then show ?thesis using store_wf_pairing [OF db4, of row] False steps(5,6) by simp
qed

lemma Revoke_wf:
  assumes "Revoke now db dev event at = Inr (db', again)" and wf: "store_wf db"
  shows "store_wf db'"
proof -
  let ?dropped = "db\<lparr>db_permissions := filter (\<lambda>p. perm_DeviceID p \<noteq> dev) (db_permissions db)\<rparr>"
  obtain gs rs where cases: "db' = ?dropped\<lparr>db_grants := gs, db_replicas := rs\<rparr> \<or>
      (\<exists>db1. RevokeDevice at (?dropped\<lparr>db_grants := gs, db_replicas := rs\<rparr>) dev = Inr db1 \<and> recordAuditTx now db1 event = Inr db')"
    using assms(1)
    by (auto simp: Revoke_def Let_def RevokeDevice_def device_exists_def row_exists_iff rbind_eq_Inr split: if_splits option.splits)
  have "store_wf (?dropped\<lparr>db_grants := gs, db_replicas := rs\<rparr>)" using store_wf_drop_permissions [OF wf] by simp
  then show ?thesis using cases RevokeDevice_wf recordAuditTx_wf by blast
qed

section \<open>Transfers, chunks and jobs\<close>

definition same_peers :: "DB \<Rightarrow> DB \<Rightarrow> bool" where
  "same_peers db db' \<longleftrightarrow> db_devices db' = db_devices db \<and> db_shares db' = db_shares db \<and>
     db_permissions db' = db_permissions db \<and> db_audit db' = db_audit db \<and> db_pairings db' = db_pairings db"

definition jobs_ok :: "DB \<Rightarrow> bool" where
  "jobs_ok db \<longleftrightarrow>
     list_all (\<lambda>t. device_exists db (tr_PeerDeviceID t) \<and> (tr_ShareID t = [] \<or> share_exists db (tr_ShareID t))) (db_transfers db) \<and>
     list_all (\<lambda>c. transfer_exists db (tc_TransferID c)) (db_chunks db) \<and>
     list_all (\<lambda>j. transfer_exists db (job_TransferID j) \<and> device_exists db (job_PeerDeviceID j) \<and>
                   share_exists db (job_ShareID j)) (db_jobs db)"

lemma job_step_wf:
  assumes "store_wf db" "same_index db db'" "same_peers db db'" "extends db db'" "jobs_ok db'"
    "keys_distinct tr_ID (db_transfers db')" "keys_distinct chunk_key (db_chunks db')" "keys_distinct job_ID (db_jobs db')"
  shows "store_wf db'"
  using assms index_wf_extends [of db db'] perms_ok_extends [of db db']
  by (auto simp: store_wf_def keys_wf_def same_peers_def refs_wf_def perms_ok_def jobs_ok_def)

lemma store_wf_jobs:
  assumes "store_wf db"
  shows "jobs_ok db" "keys_distinct tr_ID (db_transfers db)" "keys_distinct chunk_key (db_chunks db)" "keys_distinct job_ID (db_jobs db)"
  using assms by (auto simp: store_wf_def keys_wf_def refs_wf_def jobs_ok_def)

lemmas job_frame = same_index_def same_peers_def extends_def

definition job_refs :: "DB \<Rightarrow> OneWayJob \<Rightarrow> bool" where
  "job_refs db j \<longleftrightarrow> transfer_exists db (job_TransferID j) \<and> device_exists db (job_PeerDeviceID j) \<and> share_exists db (job_ShareID j)"

definition transfer_refs :: "DB \<Rightarrow> Transfer \<Rightarrow> bool" where
  "transfer_refs db t \<longleftrightarrow> device_exists db (tr_PeerDeviceID t) \<and> (tr_ShareID t = [] \<or> share_exists db (tr_ShareID t))"

lemma jobs_table_wf:
  assumes "store_wf db" "keys_distinct job_ID js" "\<forall>j\<in>set js. job_refs db j"
  shows "store_wf (db\<lparr>db_jobs := js\<rparr>)"
  by (rule job_step_wf [OF assms(1)])
    (use assms store_wf_jobs [OF assms(1)] in \<open>auto simp: job_frame jobs_ok_def list_all_iff job_refs_def
      transfer_exists_def device_exists_def share_exists_def\<close>)

lemma transfers_table_wf:
  assumes "store_wf db" "keys_distinct tr_ID ts" "\<forall>t\<in>set ts. transfer_refs db t" "tr_ID ` set (db_transfers db) \<subseteq> tr_ID ` set ts"
  shows "store_wf (db\<lparr>db_transfers := ts\<rparr>)"
  by (rule job_step_wf [OF assms(1)])
    (use assms store_wf_jobs [OF assms(1)] in \<open>auto simp: job_frame jobs_ok_def list_all_iff transfer_refs_def
      transfer_exists_def device_exists_def share_exists_def row_exists_mem subset_iff\<close>)

lemma chunks_table_wf:
  assumes "store_wf db" "keys_distinct chunk_key cs" "\<forall>c\<in>set cs. transfer_exists db (tc_TransferID c)"
  shows "store_wf (db\<lparr>db_chunks := cs\<rparr>)"
  by (rule job_step_wf [OF assms(1)])
    (use assms store_wf_jobs [OF assms(1)] in \<open>auto simp: job_frame jobs_ok_def list_all_iff
      transfer_exists_def device_exists_def share_exists_def\<close>)

lemma store_wf_refs:
  assumes "store_wf db"
  shows "j \<in> set (db_jobs db) \<Longrightarrow> job_refs db j" "t \<in> set (db_transfers db) \<Longrightarrow> transfer_refs db t"
    "c \<in> set (db_chunks db) \<Longrightarrow> transfer_exists db (tc_TransferID c)"
  using store_wf_jobs(1) [OF assms] by (auto simp: jobs_ok_def list_all_iff job_refs_def transfer_refs_def)

text \<open>The updates of jobs leave what a job refers to.\<close>

lemma jobs_update_wf:
  assumes "store_wf db" "\<And>j. job_ID (change j) = job_ID j" "\<And>j. job_refs db (change j) = job_refs db j"
  shows "store_wf (db\<lparr>db_jobs := row_update sel change (db_jobs db)\<rparr>)"
proof (rule jobs_table_wf [OF assms(1)])
  show "keys_distinct job_ID (row_update sel change (db_jobs db))"
    by (rule keys_distinct_update [OF assms(2) store_wf_jobs(4) [OF assms(1)]])
  show "\<forall>j\<in>set (row_update sel change (db_jobs db)). job_refs db j"
    using store_wf_refs(1) [OF assms(1)] assms(3) by (auto simp: ball_row_update)
qed

lemma Claim_wf: "ClaimOneWayJob db jobID now = Inr (db', job) \<Longrightarrow> store_wf db \<Longrightarrow> store_wf db'"
  by (auto simp: ClaimOneWayJob_def Let_def rbind_eq_Inr job_refs_def split: if_splits intro!: jobs_update_wf)

lemma UpdateJob_wf: "UpdateOneWayJob now db job = Inr db' \<Longrightarrow> store_wf db \<Longrightarrow> store_wf db'"
  by (auto simp: UpdateOneWayJob_def job_refs_def split: if_splits intro!: jobs_update_wf)

lemma Recover_wf: "store_wf db \<Longrightarrow> store_wf (RecoverRunningOneWayJobs now db)"
  by (auto simp: RecoverRunningOneWayJobs_def job_refs_def intro!: jobs_update_wf)

lemma check_job_refs: "check_job db row = ok \<Longrightarrow> job_refs db row"
  by (auto simp: check_job_def job_refs_def transfer_exists_def split: if_splits)

lemma check_transfer_refs: "check_transfer db tr = ok \<Longrightarrow> transfer_refs db tr"
  by (auto simp: check_transfer_def transfer_refs_def split: if_splits)

lemma insertOneWayJobTx_wf:
  assumes "insertOneWayJobTx now db job = Inr db'" and wf: "store_wf db"
  shows "store_wf db'"
proof -
  have "job_refs db (job_row now job)" using assms(1)
    by (auto simp: insertOneWayJobTx_def Let_def rbind_eq_Inr check_job_refs split: if_splits)
  then show ?thesis using insertOneWayJobTx_Inr [OF assms(1)] jobs_table_wf [OF wf, of "db_jobs db @ [job_row now job]"]
    store_wf_refs(1) [OF wf] by (auto simp: keys_distinct_snoc store_wf_jobs [OF wf])
qed

lemma transfer_row_fields [simp]:
  "tr_ID (transfer_row now tr) = tr_ID tr" "transfer_refs db (transfer_row now tr) = transfer_refs db tr"
  by (simp_all add: transfer_row_def transfer_refs_def)

lemma insertTransferTx_wf:
  assumes "insertTransferTx now db tr = Inr db'" and wf: "store_wf db"
  shows "store_wf db'"
proof -
  have "transfer_refs db tr" using assms(1)
    by (auto simp: insertTransferTx_def rbind_eq_Inr check_transfer_refs split: if_splits)
  then show ?thesis using insertTransferTx_Inr [OF assms(1)] transfers_table_wf [OF wf, of "db_transfers db @ [transfer_row now tr]"]
    store_wf_refs(2) [OF wf] by (auto simp: keys_distinct_snoc store_wf_jobs [OF wf])
qed

lemma CreateWork_wf:
  assumes "CreateAuthenticatedOneWayWork now db work = Inr (db', again)" and wf: "store_wf db"
  shows "store_wf db'"
  using assms insertTransferTx_wf insertOneWayJobTx_wf
  by (auto simp: CreateAuthenticatedOneWayWork_def Let_def rbind_eq_Inr split: option.splits if_splits)

lemma SaveJob_wf:
  assumes "SaveOneWayJob now db job = Inr db'" and wf: "store_wf db"
  shows "store_wf db'"
proof -
  let ?row = "job_row now job" and ?merge = "\<lambda>old. (job_row now job)\<lparr>job_CreatedAt := job_CreatedAt old\<rparr>"
  have db': "db' = db\<lparr>db_jobs := row_upsert job_ID ?merge ?row (db_jobs db)\<rparr>" and refs: "job_refs db ?row"
    using assms(1) by (auto simp: SaveOneWayJob_def Let_def rbind_eq_Inr check_job_refs)
  have "\<forall>j\<in>set (row_upsert job_ID ?merge ?row (db_jobs db)). job_refs db j"
    using set_upsert [of job_ID ?merge ?row "db_jobs db"] refs store_wf_refs(1) [OF wf] by (auto simp: job_refs_def)
  then show ?thesis unfolding db'
    by (intro jobs_table_wf [OF wf]) (simp_all add: keys_distinct_upsert store_wf_jobs [OF wf])
qed

lemma SaveTransfer_wf:
  assumes "SaveTransfer now db tr = Inr db'" and wf: "store_wf db"
  shows "store_wf db'"
proof -
  obtain row merge where db': "db' = db\<lparr>db_transfers := row_upsert tr_ID merge row (db_transfers db)\<rparr>"
    and row: "transfer_refs db row" "tr_ID row = tr_ID tr" "\<And>old. tr_ID (merge old) = tr_ID old"
      "\<And>old. transfer_refs db (merge old) = transfer_refs db old"
    using assms(1) check_transfer_refs [of db tr]
    by (auto simp: SaveTransfer_def Let_def rbind_eq_Inr transfer_row_def transfer_refs_def)
  have "\<forall>t\<in>set (row_upsert tr_ID merge row (db_transfers db)). transfer_refs db t"
    using set_upsert [of tr_ID merge row "db_transfers db"] row store_wf_refs(2) [OF wf] by auto
  then show ?thesis unfolding db'
    by (intro transfers_table_wf [OF wf]) (auto simp: keys_distinct_upsert image_upsert row store_wf_jobs [OF wf])
qed

lemma SaveChunk_wf:
  assumes "SaveChunk db chunk = Inr db'" and wf: "store_wf db"
  shows "store_wf db'"
proof -
  have db': "db' = db\<lparr>db_chunks := row_upsert chunk_key (\<lambda>_. chunk) chunk (db_chunks db)\<rparr>"
    and ref: "transfer_exists db (tc_TransferID chunk)"
    using assms(1) by (auto simp: SaveChunk_def transfer_exists_def split: if_splits)
  have "\<forall>c\<in>set (row_upsert chunk_key (\<lambda>_. chunk) chunk (db_chunks db)). transfer_exists db (tc_TransferID c)"
    using set_upsert [of chunk_key "\<lambda>_. chunk" chunk "db_chunks db"] ref store_wf_refs(3) [OF wf] by auto
  then show ?thesis unfolding db'
    by (intro chunks_table_wf [OF wf]) (simp_all add: keys_distinct_upsert store_wf_jobs [OF wf])
qed

section \<open>Every step keeps the invariant\<close>

lemma commit_wf:
  "CommitSnapshotAndTombstones now db shareID entries revisions requests at = Inr (db', ts) \<Longrightarrow> store_wf db \<Longrightarrow> store_wf db'"
  by (rule index_step_wf [of db]) (auto simp: store_wf_def intro: Commit_wf Commit_others)

lemma apply_wf: "CommitOneWayApply now db c = Inr (db', result) \<Longrightarrow> store_wf db \<Longrightarrow> store_wf db'"
  by (rule index_step_wf [of db]) (auto simp: store_wf_def intro: Apply_keeps)

lemma insertRevision_store_wf: "insertRevision now db r = Inr db' \<Longrightarrow> store_wf db \<Longrightarrow> store_wf db'"
  by (rule index_step_wf [of db]) (auto simp: store_wf_def intro: insertRevision_keeps insertRevision_others)

lemma insertTombstone_store_wf: "insertTombstone now db r = Inr db' \<Longrightarrow> store_wf db \<Longrightarrow> store_wf db'"
  by (rule index_step_wf [of db]) (auto simp: store_wf_def intro: insertTombstone_keeps insertTombstone_others)

lemma RecordDeletion_wf: "RecordDeletion now db tid rid expires = Inr (db', t) \<Longrightarrow> store_wf db \<Longrightarrow> store_wf db'"
  using RecordDeletion_Inr insertTombstone_store_wf by metis

lemma CommitSnapshot_wf: "CommitSnapshot now db shareID entries revisions at = Inr db' \<Longrightarrow> store_wf db \<Longrightarrow> store_wf db'"
  by (auto simp: CommitSnapshot_def rbind_eq_Inr intro: commit_wf)

lemma Record_wf: "Record now db event = Inr db' \<Longrightarrow> store_wf db \<Longrightarrow> store_wf db'"
  by (auto simp: Record_def rbind_eq_Inr recordAuditTx_wf)

lemma RecordRevision_wf: "RecordRevision now db r = Inr db' \<Longrightarrow> store_wf db \<Longrightarrow> store_wf db'"
  by (simp add: RecordRevision_def insertRevision_store_wf)

lemmas operations_wf = TrustDevice_wf RevokeDevice_wf SaveShare_wf SetPermission_wf Record_wf Accept_wf Revoke_wf RecordRevision_wf
  commit_wf CommitSnapshot_wf apply_wf RecordDeletion_wf SaveTransfer_wf SaveChunk_wf CreateWork_wf SaveJob_wf Claim_wf
  UpdateJob_wf Recover_wf

lemma store_step_wf: "store_step db db' \<Longrightarrow> store_wf db \<Longrightarrow> store_wf db'"
  by (erule store_step.cases) (simp_all, (erule (1) operations_wf)+, rule Recover_wf)

lemma empty_db_wf: "store_wf empty_db"
  by (simp add: empty_db_def store_wf_def index_wf_def revisions_wf_def rows_wf_def tombstones_wf_def keys_wf_def refs_wf_def
      keys_distinct_def)

section \<open>Properties\<close>



end
