(* ===== verification/One_Way_Jobs.thy ===== *)
theory One_Way_Jobs
  imports Job_Store
begin

text \<open>
  src/internal/sync/jobs.go: the queue that runs one-way jobs. The store is the one of \<open>Job_Store\<close>;
  what a worker executes is abstract, only its error counts. The goroutines of the queue are steps of
  a transition system on the database and the jobs the workers hold.
\<close>

record OneWayJobQueue =
  ojq_MaxConcurrent :: int
  ojq_PollInterval :: int
  ojq_RetryBase :: int
  ojq_MaxBackoff :: int

datatype OneWayJobControl =
  OneWayJobControlPause | OneWayJobControlResume | OneWayJobControlRetry | OneWayJobControlOther string

datatype job_error = JobInvalid string | ErrActiveOneWayJob OneWayJobState | JobStore store_error

definition millisecond :: int where
  "millisecond = 1000000"

text \<open>The defaults that \<open>Run\<close> fills in before it starts the loop.\<close>

definition queue_defaults :: "OneWayJobQueue \<Rightarrow> job_error + OneWayJobQueue" where
  "queue_defaults q =
     (if ojq_MaxConcurrent q \<le> 0 then Inl (JobInvalid ''max concurrent jobs must be positive'')
      else
        let poll = (if ojq_PollInterval q \<le> 0 then 25 * millisecond else ojq_PollInterval q);
            base = (if ojq_RetryBase q \<le> 0 then poll else ojq_RetryBase q);
            maximum = (if ojq_MaxBackoff q \<le> 0 then 5 * 60 * 1000 * millisecond else ojq_MaxBackoff q) in
        Inr \<lparr> ojq_MaxConcurrent = ojq_MaxConcurrent q, ojq_PollInterval = poll, ojq_RetryBase = base,
              ojq_MaxBackoff = (if maximum < base then base else maximum) \<rparr>)"

text \<open>The loop of \<open>backoff\<close> from one delay to the next; \<open>left\<close> counts the rounds it still has.\<close>

fun backoff_loop :: "int \<Rightarrow> nat \<Rightarrow> int \<Rightarrow> int" where
  "backoff_loop maximum 0 delay = (if maximum < delay then maximum else delay)"
| "backoff_loop maximum (Suc left) delay =
     (if go_div maximum 2 \<le> delay then maximum else backoff_loop maximum left (wrap64 (delay * 2)))"

definition backoff :: "OneWayJobQueue \<Rightarrow> int \<Rightarrow> int" where
  "backoff q retry = backoff_loop (ojq_MaxBackoff q) (nat (retry - 1)) (ojq_RetryBase q)"

text \<open>What a worker writes when its job ends without an error, or with one.\<close>

definition finished_job :: "OneWayJobQueue \<Rightarrow> time \<Rightarrow> string option \<Rightarrow> OneWayJob \<Rightarrow> OneWayJob" where
  "finished_job q now err job =
     (case err of
        None \<Rightarrow> job\<lparr>job_UpdatedAt := now, job_State := OneWayJobCompleted\<rparr>
      | Some msg \<Rightarrow>
          (let updated = job\<lparr>job_UpdatedAt := now, job_RetryCount := job_RetryCount job + 1, job_LastError := msg\<rparr> in
           if job_RetryCount updated < 3
           then updated\<lparr>job_State := OneWayJobRetryWait,
                        job_NextAttemptAt := now + backoff q (job_RetryCount updated)\<rparr>
           else updated\<lparr>job_State := OneWayJobFailed\<rparr>))"

text \<open>One poll: the clock is read once for the list and once for each claim.\<close>

fun poll_loop ::
  "int \<Rightarrow> (nat \<Rightarrow> time) \<Rightarrow> nat \<Rightarrow> DB \<Rightarrow> OneWayJob list \<Rightarrow> OneWayJob list \<Rightarrow> DB \<times> OneWayJob list" where
  "poll_loop cap clock n db active [] = (db, active)"
| "poll_loop cap clock n db active (candidate # candidates) =
     (if cap \<le> int (length active) then (db, active)
      else case ClaimOneWayJob db (job_ID candidate) (clock n) of
        Inl _ \<Rightarrow> poll_loop cap clock (n + 1) db active candidates
      | Inr (db, job) \<Rightarrow> poll_loop cap clock (n + 1) db (active @ [job]) candidates)"

definition poll :: "OneWayJobQueue \<Rightarrow> (nat \<Rightarrow> time) \<Rightarrow> DB \<Rightarrow> OneWayJob list \<Rightarrow> DB \<times> OneWayJob list" where
  "poll q clock db active =
     poll_loop (ojq_MaxConcurrent q) clock 1 db active (ListRunnableOneWayJobs (clock 0) db)"

text \<open>
  \<open>ControlOneWayJob\<close> reads a job, decides what to write, and writes it: \<open>None\<close> when the job is
  already as asked.
\<close>

definition control_update ::
  "OneWayJobControl \<Rightarrow> time \<Rightarrow> OneWayJob \<Rightarrow> job_error + OneWayJob option" where
  "control_update control now job =
     (case control of
        OneWayJobControlPause \<Rightarrow>
          (if job_State job = OneWayJobPaused then Inr None
           else if job_State job = OneWayJobQueued \<or> job_State job = OneWayJobRetryWait
           then Inr (Some (job\<lparr>job_State := OneWayJobPaused, job_NextAttemptAt := 0, job_UpdatedAt := now\<rparr>))
           else Inl (ErrActiveOneWayJob (job_State job)))
      | OneWayJobControlResume \<Rightarrow>
          (if job_State job = OneWayJobQueued then Inr None
           else if job_State job = OneWayJobPaused
           then Inr (Some (job\<lparr>job_State := OneWayJobQueued, job_NextAttemptAt := 0, job_UpdatedAt := now\<rparr>))
           else Inl (JobInvalid ''cannot resume one-way job''))
      | OneWayJobControlRetry \<Rightarrow>
          (if job_State job = OneWayJobQueued then Inr None
           else if job_State job = OneWayJobRetryWait \<or> job_State job = OneWayJobFailed
           then Inr (Some (job\<lparr>job_State := OneWayJobQueued, job_RetryCount := 0, job_NextAttemptAt := 0,
                               job_LastError := [], job_UpdatedAt := now\<rparr>))
           else Inl (JobInvalid ''cannot retry one-way job''))
      | OneWayJobControlOther _ \<Rightarrow> Inl (JobInvalid ''unsupported one-way job control''))"

definition write_control :: "DB \<Rightarrow> OneWayJob \<Rightarrow> OneWayJob option \<Rightarrow> time \<Rightarrow> job_error + DB \<times> OneWayJob" where
  "write_control db job change now =
     (case change of
        None \<Rightarrow> Inr (db, job)
      | Some updated \<Rightarrow>
          (case UpdateOneWayJob now db updated of
             Inl e \<Rightarrow> Inl (JobStore e) | Inr db \<Rightarrow> Inr (db, updated)))"

definition ControlOneWayJob :: "DB \<Rightarrow> string \<Rightarrow> OneWayJobControl \<Rightarrow> time \<Rightarrow> job_error + DB \<times> OneWayJob" where
  "ControlOneWayJob db jobID control now =
     (let jobID = TrimSpace jobID in
      if jobID = [] then Inl (JobInvalid ''one-way job ID is required'')
      else case GetOneWayJob db jobID of
        Inl e \<Rightarrow> Inl (JobStore e)
      | Inr job \<Rightarrow> rbind (control_update control now job) (\<lambda>change. write_control db job change now))"

section \<open>The queue as a transition system\<close>

record QueueState =
  qs_db :: DB
  qs_active :: "OneWayJob list"

definition with_poll :: "OneWayJobQueue \<Rightarrow> (nat \<Rightarrow> time) \<Rightarrow> QueueState \<Rightarrow> QueueState" where
  "with_poll q clock s =
     (case poll q clock (qs_db s) (qs_active s) of (db, active) \<Rightarrow> \<lparr> qs_db = db, qs_active = active \<rparr>)"

inductive queue_step :: "OneWayJobQueue \<Rightarrow> QueueState \<Rightarrow> QueueState \<Rightarrow> bool" for q where
  step_poll: "queue_step q s (with_poll q clock s)"
| step_finish: "job \<in> set (qs_active s) \<Longrightarrow>
    UpdateOneWayJob now (qs_db s) (finished_job q now err job) = Inr db \<Longrightarrow>
    queue_step q s \<lparr> qs_db = db, qs_active = remove1 job (qs_active s) \<rparr>"
| step_lost: "job \<in> set (qs_active s) \<Longrightarrow> queue_step q s (s\<lparr>qs_active := remove1 job (qs_active s)\<rparr>)"
| step_control: "ControlOneWayJob (qs_db s) jobID control now = Inr (db, job) \<Longrightarrow> queue_step q s (s\<lparr>qs_db := db\<rparr>)"
| step_create: "CreateAuthenticatedOneWayWork now (qs_db s) work = Inr (db, again) \<Longrightarrow> queue_step q s (s\<lparr>qs_db := db\<rparr>)"
| step_restart: "qs_active s = [] \<Longrightarrow> queue_step q s (s\<lparr>qs_db := RecoverRunningOneWayJobs now (qs_db s)\<rparr>)"

inductive queue_reach :: "OneWayJobQueue \<Rightarrow> QueueState \<Rightarrow> QueueState \<Rightarrow> bool" for q where
  reach_start: "queue_reach q s s"
| reach_step: "queue_reach q s t \<Longrightarrow> queue_step q t u \<Longrightarrow> queue_reach q s u"

inductive_cases queue_stepE: "queue_step q s t"

definition running :: "DB \<Rightarrow> string \<Rightarrow> bool" where
  "running db jobID =
     (case row_lookup job_ID jobID (db_jobs db) of
        Some row \<Rightarrow> job_State row = OneWayJobRunning | None \<Rightarrow> False)"

definition queue_inv :: "OneWayJobQueue \<Rightarrow> QueueState \<Rightarrow> bool" where
  "queue_inv q s \<longleftrightarrow>
     keys_distinct job_ID (db_jobs (qs_db s)) \<and> distinct (map job_ID (qs_active s)) \<and>
     int (length (qs_active s)) \<le> max 0 (ojq_MaxConcurrent q) \<and>
     list_all (\<lambda>j. running (qs_db s) (job_ID j)) (qs_active s)"

section \<open>Lemmas\<close>

lemma backoff_loop_closed:
  "0 < delay \<Longrightarrow> delay \<le> maximum \<Longrightarrow> maximum < 2 ^ 63 \<Longrightarrow>
   backoff_loop maximum n delay =
     (if n = 0 then delay else if delay * 2 ^ (n - 1) < maximum div 2 then delay * 2 ^ n else maximum)"
proof (induction n arbitrary: delay)
  case (Suc n)
  show ?case
  proof (cases "maximum div 2 \<le> delay")
    case True
    have "delay \<le> delay * 2 ^ n" using Suc.prems(1) by simp
    with True have "\<not> delay * 2 ^ n < maximum div 2" by linarith
    with True show ?thesis using Suc.prems by (simp add: go_div_nonneg)
  next
    case False
    then have v: "0 < delay * 2" "delay * 2 \<le> maximum" using Suc.prems(1) by linarith+
    have "wrap64 (delay * 2) = delay * 2" using v Suc.prems(3) by (intro wrap64_id) (simp add: int64_range_def)
    moreover have "go_div maximum 2 = maximum div 2" using Suc.prems by (simp add: go_div_nonneg)
    ultimately have "backoff_loop maximum (Suc n) delay = backoff_loop maximum n (delay * 2)" using False by simp
    also have "\<dots> = (if n = 0 then delay * 2 else if delay * 2 * 2 ^ (n - 1) < maximum div 2 then delay * 2 * 2 ^ n else maximum)"
      by (rule Suc.IH [OF v Suc.prems(3)])
    finally show ?thesis using False by (cases n) (simp_all add: mult.assoc)
  qed
qed simp

lemma ClaimOneWayJob_Inr:
  assumes "ClaimOneWayJob db jobID now = Inr (db', job)" and dist: "keys_distinct job_ID (db_jobs db)"
  shows "\<exists>row. row_lookup job_ID jobID (db_jobs db) = Some row \<and> waiting (job_State row) \<and> due now row \<and>
      job = row\<lparr>job_State := OneWayJobRunning, job_UpdatedAt := now\<rparr> \<and> job_ID job = jobID"
    and "keys_distinct job_ID (db_jobs db')"
    and "row_lookup job_ID k (db_jobs db') = (if k = jobID then Some job else row_lookup job_ID k (db_jobs db))"
proof -
  let ?sel = "\<lambda>j. job_ID j = jobID \<and> waiting (job_State j) \<and> due now j"
  let ?f = "\<lambda>j. j\<lparr>job_State := OneWayJobRunning, job_UpdatedAt := now\<rparr>"
  have db': "db_jobs db' = row_update ?sel ?f (db_jobs db)" and ex: "list_ex ?sel (db_jobs db)"
    and job: "row_lookup job_ID jobID (db_jobs db') = Some job"
    using assms(1) by (auto simp: ClaimOneWayJob_def Let_def rbind_eq_Inr GetOneWayJob_def split: if_splits option.splits)
  obtain row where row: "row \<in> set (db_jobs db)" "?sel row" using ex by (auto simp: list_ex_iff)
  then have look: "row_lookup job_ID jobID (db_jobs db) = Some row" using dist by (simp add: row_lookup_eq_Some)
  have upd: "row_lookup job_ID k (db_jobs db') = map_option (\<lambda>j. if ?sel j then ?f j else j) (row_lookup job_ID k (db_jobs db))" for k
    unfolding db' by (rule row_lookup_update) simp
  have "job = ?f row" using upd [of jobID] look row job by simp
  then show "\<exists>row. row_lookup job_ID jobID (db_jobs db) = Some row \<and> waiting (job_State row) \<and> due now row \<and>
      job = row\<lparr>job_State := OneWayJobRunning, job_UpdatedAt := now\<rparr> \<and> job_ID job = jobID"
    using look row by auto
  show "keys_distinct job_ID (db_jobs db')" unfolding db' by (rule keys_distinct_update [OF _ dist]) simp
  show "row_lookup job_ID k (db_jobs db') = (if k = jobID then Some job else row_lookup job_ID k (db_jobs db))"
    using upd [of k] job by (cases "row_lookup job_ID k (db_jobs db)") (auto dest: row_lookup_SomeD)
qed

lemma UpdateOneWayJob_Inr:
  assumes "UpdateOneWayJob now db job = Inr db'"
  shows "keys_distinct job_ID (db_jobs db) \<Longrightarrow> keys_distinct job_ID (db_jobs db')"
    and "k \<noteq> job_ID job \<Longrightarrow> row_lookup job_ID k (db_jobs db') = row_lookup job_ID k (db_jobs db)"
proof -
  have db': "db_jobs db' = row_update (\<lambda>j. job_ID j = job_ID job)
      (\<lambda>j. j\<lparr>job_State := job_State job, job_RetryCount := job_RetryCount job, job_NextAttemptAt := job_NextAttemptAt job,
             job_LastError := job_LastError job, job_UpdatedAt := stored_time now (job_UpdatedAt job)\<rparr>) (db_jobs db)"
    using assms by (auto simp: UpdateOneWayJob_def split: if_splits)
  show "keys_distinct job_ID (db_jobs db) \<Longrightarrow> keys_distinct job_ID (db_jobs db')"
    unfolding db' by (rule keys_distinct_update) simp
  show "k \<noteq> job_ID job \<Longrightarrow> row_lookup job_ID k (db_jobs db') = row_lookup job_ID k (db_jobs db)"
    unfolding db' by (subst row_lookup_update)
      (auto simp: map_option_case split: option.splits dest: row_lookup_SomeD)
qed

lemma running_cong: "row_lookup job_ID k (db_jobs db') = row_lookup job_ID k (db_jobs db) \<Longrightarrow> running db' k = running db k"
  by (simp add: running_def)

lemma running_waiting: "row_lookup job_ID k (db_jobs db) = Some row \<Longrightarrow> waiting (job_State row) \<Longrightarrow> \<not> running db k"
  by (auto simp: running_def waiting_def)

lemma poll_loop_inv:
  assumes "poll_loop cap clock n db active candidates = (db', active')"
    and "keys_distinct job_ID (db_jobs db)" "distinct (map job_ID active)" "int (length active) \<le> max 0 cap"
    and "\<forall>j\<in>set active. running db (job_ID j)"
  shows "keys_distinct job_ID (db_jobs db') \<and> distinct (map job_ID active') \<and> int (length active') \<le> max 0 cap \<and>
    (\<forall>j\<in>set active'. running db' (job_ID j))"
  using assms
proof (induction candidates arbitrary: n db active)
  case (Cons c cs)
  show ?case
  proof (cases "cap \<le> int (length active)")
    case True
    then show ?thesis using Cons.prems by simp
  next
    case False
    show ?thesis
    proof (cases "ClaimOneWayJob db (job_ID c) (clock n)")
      case (Inl e)
      then show ?thesis using Cons.IH [of "n + 1" db active] Cons.prems False by simp
    next
      case (Inr p)
      then obtain db1 job where claim: "ClaimOneWayJob db (job_ID c) (clock n) = Inr (db1, job)" by (cases p) simp
      note cl = ClaimOneWayJob_Inr [OF claim Cons.prems(2)]
      obtain row where row: "row_lookup job_ID (job_ID c) (db_jobs db) = Some row" "waiting (job_State row)"
        "job_ID job = job_ID c" "job_State job = OneWayJobRunning" using cl(1) by auto
      then have new: "job_ID c \<notin> job_ID ` set active" using Cons.prems(5) running_waiting by fastforce
      have "running db1 (job_ID c)" using cl(3) [of "job_ID c"] row by (simp add: running_def)
      moreover have "running db1 (job_ID j)" if "j \<in> set active" for j
        using that Cons.prems(5) cl(3) [of "job_ID j"] row(4) by (auto simp: running_def split: if_splits)
      ultimately have "\<forall>j\<in>set (active @ [job]). running db1 (job_ID j)" using row(3) by auto
      moreover have "distinct (map job_ID (active @ [job]))" using Cons.prems(3) new row(3) by simp
      moreover have "int (length (active @ [job])) \<le> max 0 cap" using False by simp
      moreover have "poll_loop cap clock (n + 1) db1 (active @ [job]) cs = (db', active')"
        using Cons.prems(1) False claim by simp
      ultimately show ?thesis using Cons.IH cl(2) by blast
    qed
  qed
qed simp

lemma finished_job_ID [simp]: "job_ID (finished_job q now err job) = job_ID job"
  by (auto simp: finished_job_def Let_def split: option.splits)

lemma ControlOneWayJob_Inr:
  assumes "ControlOneWayJob db jobID control now = Inr (db', job)"
  shows "db' = db \<or> (\<exists>old updated. GetOneWayJob db (job_ID updated) = Inr old \<and> job_State old \<noteq> OneWayJobRunning \<and>
     UpdateOneWayJob now db updated = Inr db')"
proof -
  obtain old change where o: "GetOneWayJob db (TrimSpace jobID) = Inr old" "control_update control now old = Inr change"
    "write_control db old change now = Inr (db', job)"
    using assms by (auto simp: ControlOneWayJob_def Let_def rbind_eq_Inr split: if_splits sum.splits)
  have "job_ID old = TrimSpace jobID" using o(1) by (auto simp: GetOneWayJob_def split: option.splits dest: row_lookup_SomeD)
  show ?thesis
  proof (cases change)
    case None
    then show ?thesis using o(3) by (simp add: write_control_def)
  next
    case (Some updated)
    then have "job_ID updated = job_ID old" "job_State old \<noteq> OneWayJobRunning"
      using o(2) by (auto simp: control_update_def split: OneWayJobControl.splits if_splits)
    moreover have "UpdateOneWayJob now db updated = Inr db'"
      using Some o(3) by (auto simp: write_control_def split: sum.splits)
    ultimately show ?thesis using o(1) \<open>job_ID old = TrimSpace jobID\<close> by metis
  qed
qed

lemma Create_jobs:
  assumes "CreateAuthenticatedOneWayWork now db work = Inr (db', again)"
  shows "db_jobs db' = db_jobs db \<or>
    (\<exists>row. db_jobs db' = db_jobs db @ [row] \<and> \<not> row_exists job_ID (job_ID row) (db_jobs db))"
proof -
  have "db_jobs db2 = db_jobs db1 @ [job_row now job] \<and> \<not> row_exists job_ID (job_ID job) (db_jobs db1)"
    if "insertOneWayJobTx now db1 job = Inr db2" for db1 db2 job
    using that by (auto simp: insertOneWayJobTx_def Let_def rbind_eq_Inr split: if_splits)
  moreover have "db_jobs db2 = db_jobs db1" if "insertTransferTx now db1 tr = Inr db2" for db1 db2 tr
    using that by (auto simp: insertTransferTx_def rbind_eq_Inr split: if_splits)
  moreover have "job_ID (job_row now job) = job_ID job" for job by (simp add: job_row_def)
  ultimately show ?thesis
    using assms by (auto simp: CreateAuthenticatedOneWayWork_def Let_def rbind_eq_Inr split: option.splits if_splits) metis
qed

lemma remove1_key:
  "distinct (map key xs) \<Longrightarrow> a \<in> set xs \<Longrightarrow> b \<in> set (remove1 a xs) \<Longrightarrow> key b \<noteq> key a"
  by (induction xs) (auto split: if_splits, metis imageI)

lemma distinct_map_remove1: "distinct (map key xs) \<Longrightarrow> distinct (map key (remove1 a xs))"
  by (induction xs) (auto, metis imageI notin_set_remove1)

lemma length_remove1_le: "int (length (remove1 a xs)) \<le> c" if "int (length xs) \<le> c"
proof -
  have "length (remove1 a xs) \<le> length xs" by (simp add: length_remove1)
  then show ?thesis using that by linarith
qed

lemma queue_step_inv:
  assumes "queue_step q s t" and inv: "queue_inv q s"
  shows "queue_inv q t"
  using assms(1)
proof (cases rule: queue_step.cases)
  case (step_poll clock)
  obtain db active where p: "poll q clock (qs_db s) (qs_active s) = (db, active)" by fastforce
  then show ?thesis
    using poll_loop_inv [of "ojq_MaxConcurrent q" clock 1] inv step_poll
    by (auto simp: poll_def queue_inv_def with_poll_def list_all_iff)
next
  case (step_finish job now err db)
  note upd = UpdateOneWayJob_Inr [OF step_finish(3)]
  have "running db (job_ID j)" if "j \<in> set (remove1 job (qs_active s))" for j
  proof -
    have "job_ID j \<noteq> job_ID job" "j \<in> set (qs_active s)"
      using that inv step_finish(2) remove1_key [of job_ID "qs_active s" job j] notin_set_remove1 [of j "qs_active s" job]
      by (auto simp: queue_inv_def)
    then show ?thesis using inv upd(2) [of "job_ID j"] by (simp add: queue_inv_def list_all_iff running_def)
  qed
  then show ?thesis
    using inv upd(1) step_finish by (simp add: queue_inv_def list_all_iff length_remove1_le distinct_map_remove1)
next
  case (step_lost job)
  then show ?thesis using inv
    by (auto simp: queue_inv_def list_all_iff length_remove1_le distinct_map_remove1 dest: notin_set_remove1)
next
  case (step_control jobID control now db job)
  show ?thesis
  proof (cases "db = qs_db s")
    case True
    then show ?thesis using inv step_control by simp
  next
    case False
    then obtain old updated where u: "GetOneWayJob (qs_db s) (job_ID updated) = Inr old" "job_State old \<noteq> OneWayJobRunning"
      "UpdateOneWayJob now (qs_db s) updated = Inr db" using ControlOneWayJob_Inr [OF step_control(2)] by auto
    note upd = UpdateOneWayJob_Inr [OF u(3)]
    have "\<not> running (qs_db s) (job_ID updated)" using u by (auto simp: running_def GetOneWayJob_def split: option.splits)
    then have "running db (job_ID j)" if "j \<in> set (qs_active s)" for j
      using that inv running_cong [OF upd(2), of "job_ID j"] by (auto simp: queue_inv_def list_all_iff) metis
    then show ?thesis using inv upd(1) step_control by (simp add: queue_inv_def list_all_iff)
  qed
next
  case (step_create now work db again)
  then show ?thesis
    using Create_jobs [OF step_create(2)] inv
    by (auto simp: queue_inv_def list_all_iff running_def keys_distinct_def row_exists_mem row_lookup_append split: option.splits)
next
  case (step_restart now)
  have "keys_distinct job_ID (db_jobs (RecoverRunningOneWayJobs now (qs_db s)))"
    using inv by (simp add: RecoverRunningOneWayJobs_def queue_inv_def keys_distinct_update)
  then show ?thesis using inv step_restart by (simp add: queue_inv_def)
qed

lemma queue_reach_inv: "queue_reach q s t \<Longrightarrow> queue_inv q s \<Longrightarrow> queue_inv q t"
  by (induction rule: queue_reach.induct) (auto intro: queue_step_inv)

section \<open>Example data\<close>

definition example_job :: OneWayJob where
  "example_job = \<lparr> job_ID = ''j'', job_TransferID = ''t'', job_PeerDeviceID = ''d'', job_ShareID = ''s'',
     job_RevisionID = ''r'', job_RelativePath = ''a'', job_RequiredCapability = CapabilityModify, job_Remote = False,
     job_State = OneWayJobRetryWait, job_RetryCount = 1, job_NextAttemptAt = 0, job_LastError = [],
     job_CreatedAt = 1, job_UpdatedAt = 1 \<rparr>"

definition example_job_db :: DB where
  "example_job_db = empty_db\<lparr>db_jobs := [example_job]\<rparr>"

definition example_queue :: OneWayJobQueue where
  "example_queue = \<lparr> ojq_MaxConcurrent = 2, ojq_PollInterval = 1, ojq_RetryBase = 10, ojq_MaxBackoff = 100 \<rparr>"

lemmas example_job_defs = example_job_def example_job_db_def example_queue_def empty_db_def

lemmas job_eval = ClaimOneWayJob_def GetOneWayJob_def UpdateOneWayJob_def row_update_def waiting_def due_def
  valid_job_state_def row_exists_def stored_time_def Let_def

lemma example_times:
  "FormatRFC3339Nano (60 * second) = ''0001-01-01T00:01:00Z''"
  "FormatRFC3339Nano (60 * second + 500000000) = ''0001-01-01T00:01:00.5Z''"
  by code_simp+

lemma list_less_at: "a < b \<Longrightarrow> xs @ a # ys < xs @ b # zs" for a :: "'a :: order"
  by (induction xs) auto

lemma example_text_order: "''0001-01-01T00:01:00.5Z'' < ''0001-01-01T00:01:00Z''"
proof -
  have "CHR ''.'' < CHR ''Z''" by code_simp
  from list_less_at [OF this, of "''0001-01-01T00:01:00''" "''5Z''" "[]"] show ?thesis by simp
qed

section \<open>Properties\<close>

text \<open>
  C20. One worker per job. From a queue that holds no job, whatever polls, completions, controls,
  creations and restarts happen, and in whatever order, the workers hold distinct jobs, no more than
  the limit, and every job a worker holds is recorded as running. (Each control is one step here.)
\<close>

theorem queue_exclusive:
  assumes "queue_reach q \<lparr> qs_db = db, qs_active = [] \<rparr> s" and "keys_distinct job_ID (db_jobs db)"
  shows "distinct (map job_ID (qs_active s)) \<and> int (length (qs_active s)) \<le> max 0 (ojq_MaxConcurrent q) \<and>
    (\<forall>j\<in>set (qs_active s). \<exists>row. GetOneWayJob (qs_db s) (job_ID j) = Inr row \<and> job_State row = OneWayJobRunning)"
proof -
  have "queue_inv q s" by (rule queue_reach_inv [OF assms(1)]) (simp add: queue_inv_def assms(2))
  then show ?thesis
    by (auto simp: queue_inv_def list_all_iff running_def GetOneWayJob_def split: option.splits)
qed

theorem queue_exclusive_witness:
  "\<exists>s. queue_reach example_queue \<lparr> qs_db = example_job_db, qs_active = [] \<rparr> s \<and> map job_ID (qs_active s) = [''j''] \<and>
     distinct (map job_ID (qs_active s)) \<and> int (length (qs_active s)) \<le> 2"
proof -
  let ?s = "\<lparr> qs_db = example_job_db, qs_active = [] \<rparr>"
  let ?t = "with_poll example_queue (\<lambda>_. 9) ?s"
  have "queue_reach example_queue ?s ?t" by (rule reach_step [OF reach_start step_poll])
  moreover have "map job_ID (qs_active ?t) = [''j'']"
    by (simp add: with_poll_def poll_def ListRunnableOneWayJobs_def job_eval example_job_defs)
  moreover have "keys_distinct job_ID (db_jobs example_job_db)" by (simp add: keys_distinct_def example_job_defs)
  ultimately show ?thesis using queue_exclusive [of example_queue example_job_db ?t]
    by (auto simp: example_queue_def)
qed


text \<open>
  Back-off doubles and is bounded. With the settings \<open>Run\<close> starts the queue with, the delay before
  retry \<open>n\<close> is the base doubled \<open>n - 1\<close> times as long as this stays below the maximum's half at the
  round before, and the maximum from then on; it is always between the base and the maximum, and no
  doubling overflows.
\<close>

theorem backoff_doubles:
  assumes "queue_defaults given = Inr q" and "1 \<le> retry"
    and "ojq_PollInterval given < 2 ^ 63" "ojq_RetryBase given < 2 ^ 63" "ojq_MaxBackoff given < 2 ^ 63"
  shows "backoff q retry =
      (if retry = 1 then ojq_RetryBase q
       else if ojq_RetryBase q * 2 ^ nat (retry - 2) < ojq_MaxBackoff q div 2 then ojq_RetryBase q * 2 ^ nat (retry - 1)
       else ojq_MaxBackoff q) \<and>
    ojq_RetryBase q \<le> backoff q retry \<and> backoff q retry \<le> ojq_MaxBackoff q \<and> 0 < backoff q retry"
proof -
  have q: "0 < ojq_RetryBase q" "ojq_RetryBase q \<le> ojq_MaxBackoff q" "ojq_MaxBackoff q < 2 ^ 63"
    using assms(1,3-5) by (auto simp: queue_defaults_def Let_def millisecond_def split: if_splits)
  have r: "nat (retry - 1) - 1 = nat (retry - 2)" "nat (retry - 1) = 0 \<longleftrightarrow> retry = 1" using assms(2) by linarith+
  have form: "backoff q retry =
      (if retry = 1 then ojq_RetryBase q
       else if ojq_RetryBase q * 2 ^ nat (retry - 2) < ojq_MaxBackoff q div 2 then ojq_RetryBase q * 2 ^ nat (retry - 1)
       else ojq_MaxBackoff q)"
    unfolding backoff_def backoff_loop_closed [OF q] r ..
  have "ojq_RetryBase q \<le> ojq_RetryBase q * 2 ^ nat (retry - 1)" using q(1) by simp
  moreover have "ojq_RetryBase q * 2 ^ nat (retry - 1) \<le> ojq_MaxBackoff q"
    if "retry \<noteq> 1" "ojq_RetryBase q * 2 ^ nat (retry - 2) < ojq_MaxBackoff q div 2"
  proof -
    have "nat (retry - 1) = Suc (nat (retry - 2))" using assms(2) that(1) by simp
    then have "ojq_RetryBase q * 2 ^ nat (retry - 1) = 2 * (ojq_RetryBase q * 2 ^ nat (retry - 2))" by simp
    then show ?thesis using that(2) by linarith
  qed
  ultimately show ?thesis using form q by auto
qed

theorem backoff_doubles_witness:
  "backoff \<lparr> ojq_MaxConcurrent = 1, ojq_PollInterval = 5, ojq_RetryBase = 5, ojq_MaxBackoff = 300000000000 \<rparr> 3 = 20"
  using backoff_doubles [of "\<lparr> ojq_MaxConcurrent = 1, ojq_PollInterval = 5, ojq_RetryBase = 0, ojq_MaxBackoff = 0 \<rparr>" _ 3]
  by (simp add: queue_defaults_def Let_def millisecond_def)




end
