(* ===== verification/Project_Model.thy ===== *)
theory Project_Model
  imports Go_Prelude
begin

text \<open>
  The records of a portable project, src/internal/project/models.go and payloads.go. The record
  header that Go embeds is a field; a pointer that may be nil is an option. The payload of an event
  stays the JSON bytes that the record holds.
\<close>

section \<open>Headers and provenance\<close>

definition MaxListItems :: nat where
  "MaxListItems = 256"

datatype RecordKind =
  RecordProjectManifest | RecordTaskRevision | RecordDependencyGraph | RecordWorkPackage | RecordExecution
| RecordWorkEvent | RecordHandoff | RecordArtifact | RecordKindOther string

record SchemaVersion =
  sv_Family :: string
  sv_Major :: int
  sv_Minor :: int

record Integrity =
  int_Algorithm :: string
  int_Digest :: string

record RecordHeader =
  hdr_Schema :: SchemaVersion
  hdr_RecordKind :: RecordKind
  hdr_RecordID :: string
  hdr_ProjectID :: string
  hdr_Integrity :: Integrity

record Producer =
  prod_WorkerID :: string
  prod_DeviceID :: string
  prod_Trade :: string
  prod_Specialization :: string
  prod_Provider :: string
  prod_Model :: string
  prod_ModelVersion :: string

record Provenance =
  prov_Producer :: Producer
  prov_WorkPackageID :: string
  prov_ExecutionID :: string
  prov_SourceArtifactIDs :: "string list"
  prov_ProjectVersion :: string
  prov_ContextVersion :: string
  prov_InstructionVersion :: string
  prov_CreatedAt :: time

section \<open>Tasks, graphs and work packages\<close>

record WorkScope =
  ws_Allowed :: "string list"
  ws_Inspect :: "string list"
  ws_Forbidden :: "string list"

datatype TaskPriority =
  TaskPriorityLow | TaskPriorityNormal | TaskPriorityHigh | TaskPriorityCritical | TaskPriorityOther string

datatype ProjectRiskLevel = RiskLow | RiskMedium | RiskHigh | RiskCritical | RiskOther string

record RiskDimension =
  rd_Name :: string
  rd_Level :: ProjectRiskLevel

record ResourceConstraints =
  rc_RequiredCapabilities :: "string list"
  rc_RequiredTools :: "string list"
  rc_AllowedOS :: "string list"
  rc_AllowedArchitectures :: "string list"
  rc_MinimumMemoryMB :: int
  rc_MinimumDiskMB :: int

record QualityGateReference =
  qg_GateID :: string
  qg_Version :: int
  qg_Digest :: string
  qg_Required :: bool

record RevisionReference =
  rr_Revision :: int
  rr_Digest :: string

record RegistryReference =
  rref_ID :: string
  rref_Version :: int
  rref_Digest :: string

record TaskRevision =
  task_Header :: RecordHeader
  task_TaskID :: string
  task_Revision :: int
  task_Predecessor :: "RevisionReference option"
  task_Objective :: string
  task_Priority :: TaskPriority
  task_Risk :: "RiskDimension list"
  task_Resources :: "ResourceConstraints option"
  task_GraphRevision :: int
  task_QualityGates :: "QualityGateReference list"
  task_CreatedAt :: time
  task_Provenance :: Provenance

record DependencyGraphMember =
  dgm_WorkPackageID :: string
  dgm_DefinitionRecordID :: string
  dgm_DefinitionDigest :: string

record DependencyGraphRevision =
  dgr_Header :: RecordHeader
  dgr_TaskID :: string
  dgr_TaskRevision :: int
  dgr_Revision :: int
  dgr_Predecessor :: "RevisionReference option"
  dgr_Members :: "DependencyGraphMember list"
  dgr_DependencySetDigest :: string
  dgr_Barriers :: "string list"
  dgr_CreatedAt :: time
  dgr_Provenance :: Provenance

record WorkPackageDefinition =
  wpd_Header :: RecordHeader
  wpd_WorkPackageID :: string
  wpd_Objective :: string
  wpd_Trade :: string
  wpd_Specialization :: string
  wpd_Scope :: WorkScope
  wpd_Dependencies :: "string list"
  wpd_Deliverables :: "string list"
  wpd_AcceptanceCriteria :: "string list"
  wpd_ReviewRequired :: bool
  wpd_TaskID :: string
  wpd_TaskRevision :: int
  wpd_GraphRevision :: int
  wpd_Priority :: TaskPriority
  wpd_Risk :: "RiskDimension list"
  wpd_Resources :: "ResourceConstraints option"
  wpd_QualityGates :: "QualityGateReference list"
  wpd_TradeReference :: "RegistryReference option"
  wpd_CreatedAt :: time
  wpd_Provenance :: Provenance

section \<open>Events\<close>

datatype EventType =
  EventProjectRegistered | EventWorkPackageCreated | EventWorkPackageStateChanged | EventExecutionStarted
| EventExecutionPaused | EventExecutionFailed | EventExecutionCompleted | EventTestRecorded | EventHandoffCreated
| EventReviewRecorded | EventArtifactRecorded | EventWorkAccepted | EventTelemetryRecorded | EventTypeOther string

record Correlation =
  corr_AuditID :: string
  corr_RevisionID :: string

record WorkEvent =
  we_Header :: RecordHeader
  we_EventType :: EventType
  we_OccurredAt :: time
  we_WorkPackageID :: string
  we_ExecutionID :: string
  we_Producer :: Producer
  we_CausationID :: string
  we_Correlation :: "Correlation option"
  we_Payload :: string

datatype WorkPackageState =
  WorkPackagePlanned | WorkPackageReady | WorkPackageInProgress | WorkPackageBlocked | WorkPackageReview
| WorkPackageAccepted | WorkPackageFailed | WorkPackageCanceled | WorkPackageStateOther string

definition ValidWorkPackageTransition :: "WorkPackageState \<Rightarrow> WorkPackageState \<Rightarrow> bool" where
  "ValidWorkPackageTransition from to =
     (case from of
        WorkPackagePlanned \<Rightarrow> to \<in> set [WorkPackageReady, WorkPackageCanceled]
      | WorkPackageReady \<Rightarrow> to \<in> set [WorkPackageInProgress, WorkPackageCanceled]
      | WorkPackageInProgress \<Rightarrow> to \<in> set [WorkPackageBlocked, WorkPackageReview, WorkPackageFailed, WorkPackageCanceled]
      | WorkPackageBlocked \<Rightarrow> to \<in> set [WorkPackageInProgress, WorkPackageFailed, WorkPackageCanceled]
      | WorkPackageReview \<Rightarrow> to \<in> set [WorkPackageInProgress, WorkPackageFailed]
      | WorkPackageFailed \<Rightarrow> to \<in> set [WorkPackageReady, WorkPackageCanceled]
      | _ \<Rightarrow> False)"

datatype ReviewOutcome = ReviewApproved | ReviewRejected | ReviewChangesRequested | ReviewOutcomeOther string

record WorkPackageStateChangedPayload =
  wsc_From :: WorkPackageState
  wsc_To :: WorkPackageState
  wsc_ReasonCode :: string

record ReviewRecordedPayload =
  rrp_Outcome :: ReviewOutcome
  rrp_ReviewerID :: string
  rrp_Summary :: string

end
