(* ===== verification/Task_Graph.thy ===== *)
theory Task_Graph
  imports Project_Model "HOL-Library.AList"
begin

text \<open>
  The dependency graph of a task and its validation, src/internal/orchestration/graph.go. A Go map is
  an association list that is read through \<open>go_get\<close> and written through \<open>go_put\<close>. The hash of the
  digests is an argument, and contexts are not cancelled.
\<close>

section \<open>Maps\<close>

definition go_get :: "'v \<Rightarrow> ('k \<times> 'v) list \<Rightarrow> 'k \<Rightarrow> 'v" where
  "go_get zero m k = (case map_of m k of None \<Rightarrow> zero | Some v \<Rightarrow> v)"

definition go_put :: "'k \<Rightarrow> 'v \<Rightarrow> ('k \<times> 'v) list \<Rightarrow> ('k \<times> 'v) list" where
  "go_put k v m = AList.update k v m"

lemma go_get_put [simp]: "go_get zero (go_put k v m) x = (if x = k then v else go_get zero m x)"
  by (simp add: go_get_def go_put_def update_conv')

lemma go_get_Nil [simp]: "go_get zero [] k = zero"
  by (simp add: go_get_def)

section \<open>Graphs\<close>

definition MaxGraphNodes :: nat where
  "MaxGraphNodes = MaxListItems"

definition MaxGraphEdges :: nat where
  "MaxGraphEdges = 4096"

datatype graph_error = ErrInvalidGraph string | ErrGraphRevisionConflict string

record GraphDefinition =
  gd_Record :: WorkPackageDefinition
  gd_RecordDigest :: string
  gd_RecordPath :: string

record GraphEvent =
  ge_Record :: WorkEvent
  ge_RecordDigest :: string

record Graph =
  g_Task :: TaskRevision
  g_Revision :: DependencyGraphRevision
  g_Definitions :: "(string \<times> GraphDefinition) list"

definition definition_ids :: "(string \<times> GraphDefinition) list \<Rightarrow> string list" where
  "definition_ids definitions = remdups (map fst definitions)"

definition dependencies_of :: "(string \<times> GraphDefinition) list \<Rightarrow> string \<Rightarrow> string list" where
  "dependencies_of definitions wp =
     (case map_of definitions wp of None \<Rightarrow> [] | Some d \<Rightarrow> wpd_Dependencies (gd_Record d))"

subsection \<open>Members and edges\<close>

fun check_members :: "Graph \<Rightarrow> string list \<Rightarrow> DependencyGraphMember list \<Rightarrow> graph_error + string list" where
  "check_members g members [] = Inr members"
| "check_members g members (m # ms) =
     (case map_of (g_Definitions g) (dgm_WorkPackageID m) of
        None \<Rightarrow> Inl (ErrInvalidGraph ''missing work package'')
      | Some d \<Rightarrow>
          let record = gd_Record d; task = g_Task g in
          if hdr_ProjectID (wpd_Header record) \<noteq> hdr_ProjectID (task_Header task) \<or> wpd_TaskID record \<noteq> task_TaskID task \<or>
             wpd_TaskRevision record \<noteq> task_Revision task \<or> wpd_GraphRevision record \<noteq> dgr_Revision (g_Revision g)
          then Inl (ErrInvalidGraph ''cross-project or mismatched work package'')
          else if hdr_RecordID (wpd_Header record) \<noteq> dgm_DefinitionRecordID m \<or> gd_RecordDigest d \<noteq> dgm_DefinitionDigest m
          then Inl (ErrGraphRevisionConflict ''work package definition identity conflict'')
          else if dgm_WorkPackageID m \<in> set members then Inl (ErrInvalidGraph ''duplicate member'')
          else check_members g (members @ [dgm_WorkPackageID m]) ms)"

record EdgeState =
  es_edges :: nat
  es_indegree :: "(string \<times> int) list"
  es_dependents :: "(string \<times> string list) list"

definition add_edge :: "string \<Rightarrow> string \<Rightarrow> EdgeState \<Rightarrow> EdgeState" where
  "add_edge wp dependency st =
     st\<lparr> es_indegree := go_put wp (go_get 0 (es_indegree st) wp + 1) (es_indegree st),
         es_dependents := go_put dependency (go_get [] (es_dependents st) dependency @ [wp]) (es_dependents st) \<rparr>"

fun check_edges :: "string list \<Rightarrow> string \<Rightarrow> string list \<Rightarrow> EdgeState \<Rightarrow> string list \<Rightarrow> graph_error + EdgeState" where
  "check_edges members wp seen st [] = Inr st"
| "check_edges members wp seen st (dependency # ds) =
     (let st = st\<lparr>es_edges := es_edges st + 1\<rparr> in
      if es_edges st > MaxGraphEdges then Inl (ErrInvalidGraph ''graph exceeds edges'')
      else if dependency = wp then Inl (ErrInvalidGraph ''self dependency'')
      else if dependency \<in> set seen then Inl (ErrInvalidGraph ''duplicate edge'')
      else if dependency \<notin> set members then Inl (ErrInvalidGraph ''missing dependency'')
      else check_edges members wp (dependency # seen) (add_edge wp dependency st) ds)"

fun collect_edges ::
  "(string \<times> GraphDefinition) list \<Rightarrow> string list \<Rightarrow> EdgeState \<Rightarrow> string list \<Rightarrow> graph_error + EdgeState" where
  "collect_edges definitions members st [] = Inr st"
| "collect_edges definitions members st (wp # wps) =
     rbind (check_edges members wp [] st (dependencies_of definitions wp)) (\<lambda>st.
     collect_edges definitions members st wps)"

subsection \<open>The topological sort\<close>

fun release :: "(string \<times> int) list \<Rightarrow> string list \<Rightarrow> string list \<Rightarrow> (string \<times> int) list \<times> string list" where
  "release indegree ready [] = (indegree, ready)"
| "release indegree ready (dependent # ds) =
     (let n = go_get 0 indegree dependent - 1; indegree = go_put dependent n indegree in
      release indegree (if n = 0 then ready @ [dependent] else ready) ds)"

text \<open>The loop ends: a package enters the queue only as its positive in-degree reaches zero.\<close>

definition positive :: "(string \<times> int) list \<Rightarrow> nat" where
  "positive m = length (filter (\<lambda>(_, n). 0 < n) m)"

lemma positive_put_nonpos: "n \<le> 0 \<Longrightarrow> positive (go_put k n m) \<le> positive m"
  by (induction m) (auto simp: positive_def go_put_def)

lemma positive_put_pos: "0 < go_get 0 m k \<Longrightarrow> positive (go_put k n m) \<le> positive m"
  by (induction m) (auto simp: positive_def go_put_def go_get_def split: if_splits)

lemma positive_put_zero: "0 < go_get 0 m k \<Longrightarrow> Suc (positive (go_put k 0 m)) = positive m"
  by (induction m) (auto simp: positive_def go_put_def go_get_def split: if_splits)

lemma release_measure:
  "release indegree ready ds = (indegree', ready') \<Longrightarrow>
   length ready' + positive indegree' \<le> length ready + positive indegree"
proof (induction ds arbitrary: indegree ready)
  case (Cons d ds)
  let ?n = "go_get 0 indegree d - 1"
  have "length (if ?n = 0 then ready @ [d] else ready) + positive (go_put d ?n indegree) \<le> length ready + positive indegree"
    using positive_put_zero [of indegree d] positive_put_pos [of indegree d ?n] positive_put_nonpos [of ?n d indegree]
    by (cases "?n = 0"; cases "0 < go_get 0 indegree d") auto
  with Cons show ?case by (fastforce simp: Let_def)
qed simp

function kahn :: "(string \<times> string list) list \<Rightarrow> (string \<times> int) list \<Rightarrow> string list \<Rightarrow> nat \<Rightarrow> nat" where
  "kahn dependents indegree [] visited = visited"
| "kahn dependents indegree (wp # ready) visited =
     (let (indegree, ready) = release indegree ready (go_get [] dependents wp) in
      kahn dependents indegree (sort ready) (visited + 1))"
  by pat_completeness auto
termination
  by (relation "measure (\<lambda>(_, indegree, ready, _). length ready + positive indegree)")
    (auto dest!: release_measure [OF sym])

definition DependencySetBytes :: "(string \<times> GraphDefinition) list \<Rightarrow> string" where
  "DependencySetBytes definitions =
     concat (map (\<lambda>wp. wp @ [CHR 0x00] @
         concat (map (\<lambda>d. d @ [CHR 0x00]) (sort (dependencies_of definitions wp))) @ [CHR 0xFF])
       (sort (definition_ids definitions)))"

definition DependencySetDigest :: "(string \<Rightarrow> string) \<Rightarrow> (string \<times> GraphDefinition) list \<Rightarrow> string" where
  "DependencySetDigest hex_sha256 definitions = hex_sha256 (DependencySetBytes definitions)"

definition ValidateGraph :: "(string \<Rightarrow> string) \<Rightarrow> Graph \<Rightarrow> graph_error + unit" where
  "ValidateGraph hex_sha256 g =
     (let task = g_Task g; revision = g_Revision g; definitions = g_Definitions g in
      if hdr_ProjectID (task_Header task) = [] \<or> hdr_ProjectID (task_Header task) \<noteq> hdr_ProjectID (dgr_Header revision) \<or>
         task_TaskID task \<noteq> dgr_TaskID revision \<or> task_Revision task \<noteq> dgr_TaskRevision revision \<or>
         task_GraphRevision task \<noteq> dgr_Revision revision
      then Inl (ErrGraphRevisionConflict ''task and graph identity do not match'')
      else if dgr_Members revision = [] \<or> length (dgr_Members revision) > MaxGraphNodes \<or>
              length (definition_ids definitions) \<noteq> length (dgr_Members revision)
      then Inl (ErrInvalidGraph ''graph must contain exact members'')
      else
        rbind (check_members g [] (dgr_Members revision)) (\<lambda>members.
        rbind (collect_edges definitions members \<lparr> es_edges = 0, es_indegree = [], es_dependents = [] \<rparr>
                 (map dgm_WorkPackageID (dgr_Members revision))) (\<lambda>st.
        if DependencySetDigest hex_sha256 definitions \<noteq> dgr_DependencySetDigest revision
        then Inl (ErrGraphRevisionConflict ''dependency set digest conflict'')
        else
          let ready = sort (filter (\<lambda>wp. go_get 0 (es_indegree st) wp = 0) members) in
          if kahn (es_dependents st) (es_indegree st) ready 0 \<noteq> length members
          then Inl (ErrInvalidGraph ''dependency cycle'') else ok)))"

section \<open>Lemmas on validation\<close>

definition member_ids :: "Graph \<Rightarrow> string list" where
  "member_ids g = map dgm_WorkPackageID (dgr_Members (g_Revision g))"

definition graph_edges :: "Graph \<Rightarrow> (string \<times> string) set" where
  "graph_edges g = {(d, wp). wp \<in> set (member_ids g) \<and> d \<in> set (dependencies_of (g_Definitions g) wp)}"

text \<open>The definition of a member belongs to the task and is the one the graph names.\<close>

definition member_ok :: "Graph \<Rightarrow> DependencyGraphMember \<Rightarrow> bool" where
  "member_ok g m \<longleftrightarrow>
     (case map_of (g_Definitions g) (dgm_WorkPackageID m) of
        None \<Rightarrow> False
      | Some d \<Rightarrow>
          hdr_ProjectID (wpd_Header (gd_Record d)) = hdr_ProjectID (task_Header (g_Task g)) \<and>
          wpd_TaskID (gd_Record d) = task_TaskID (g_Task g) \<and> wpd_TaskRevision (gd_Record d) = task_Revision (g_Task g) \<and>
          wpd_GraphRevision (gd_Record d) = dgr_Revision (g_Revision g) \<and>
          hdr_RecordID (wpd_Header (gd_Record d)) = dgm_DefinitionRecordID m \<and> gd_RecordDigest d = dgm_DefinitionDigest m)"

lemma check_members_Inr:
  "distinct seen \<Longrightarrow> check_members g seen ms = Inr ids \<longleftrightarrow>
     ids = seen @ map dgm_WorkPackageID ms \<and> distinct ids \<and> (\<forall>m\<in>set ms. member_ok g m)"
  by (induction ms arbitrary: seen) (auto simp: member_ok_def Let_def split: option.splits)

definition with_edge :: "string \<Rightarrow> string \<Rightarrow> EdgeState \<Rightarrow> EdgeState" where
  "with_edge wp d st = add_edge wp d (st\<lparr>es_edges := es_edges st + 1\<rparr>)"

lemma check_edges_Cons:
  "check_edges members wp seen st (d # ds) = Inr st' \<longleftrightarrow>
     Suc (es_edges st) \<le> MaxGraphEdges \<and> d \<noteq> wp \<and> d \<notin> set seen \<and> d \<in> set members \<and>
     check_edges members wp (d # seen) (with_edge wp d st) ds = Inr st'"
  by (auto simp: Let_def with_edge_def)

lemma with_edge_fields [simp]:
  "es_edges (with_edge wp d st) = Suc (es_edges st)"
  "go_get 0 (es_indegree (with_edge wp d st)) x = go_get 0 (es_indegree st) x + (if x = wp then 1 else 0)"
  "go_get [] (es_dependents (with_edge wp d st)) x = go_get [] (es_dependents st) x @ (if x = d then [wp] else [])"
  by (simp_all add: with_edge_def add_edge_def)

lemma check_edges_ok:
  "check_edges members wp seen st ds = Inr st' \<Longrightarrow> es_edges st \<le> MaxGraphEdges \<Longrightarrow>
     (\<forall>d\<in>set ds. d \<noteq> wp \<and> d \<notin> set seen \<and> d \<in> set members) \<and> distinct ds \<and>
     es_edges st' = es_edges st + length ds \<and> es_edges st' \<le> MaxGraphEdges"
proof (induction ds arbitrary: seen st)
  case (Cons d ds)
  then have "check_edges members wp (d # seen) (with_edge wp d st) ds = Inr st'" "Suc (es_edges st) \<le> MaxGraphEdges"
    "d \<noteq> wp \<and> d \<notin> set seen \<and> d \<in> set members" by (simp_all only: check_edges_Cons simp_thms)
  with Cons.IH [OF this(1)] show ?case by auto
qed simp

lemma check_edges_total:
  "\<forall>d\<in>set ds. d \<noteq> wp \<and> d \<notin> set seen \<and> d \<in> set members \<Longrightarrow> distinct ds \<Longrightarrow> es_edges st + length ds \<le> MaxGraphEdges \<Longrightarrow>
   \<exists>st'. check_edges members wp seen st ds = Inr st'"
proof (induction ds arbitrary: seen st)
  case (Cons d ds)
  have "\<forall>e\<in>set ds. e \<noteq> wp \<and> e \<notin> set (d # seen) \<and> e \<in> set members" using Cons.prems(1,2) by auto
  then show ?case using Cons.IH [of "d # seen" "with_edge wp d st"] Cons.prems unfolding check_edges_Cons by simp
qed simp

lemma check_edges_maps:
  "check_edges members wp seen st ds = Inr st' \<Longrightarrow> distinct ds \<Longrightarrow>
     go_get 0 (es_indegree st') x = go_get 0 (es_indegree st) x + (if x = wp then int (length ds) else 0) \<and>
     go_get [] (es_dependents st') x = go_get [] (es_dependents st) x @ (if x \<in> set ds then [wp] else [])"
proof (induction ds arbitrary: seen st)
  case (Cons d ds)
  then have "check_edges members wp (d # seen) (with_edge wp d st) ds = Inr st'" by (simp only: check_edges_Cons)
  from Cons.IH [OF this] Cons.prems(2) show ?case by auto
qed simp

definition edges_ok :: "(string \<times> GraphDefinition) list \<Rightarrow> string list \<Rightarrow> string \<Rightarrow> bool" where
  "edges_ok definitions members wp \<longleftrightarrow>
     distinct (dependencies_of definitions wp) \<and> wp \<notin> set (dependencies_of definitions wp) \<and>
     set (dependencies_of definitions wp) \<subseteq> set members"

definition edge_count :: "(string \<times> GraphDefinition) list \<Rightarrow> string list \<Rightarrow> nat" where
  "edge_count definitions wps = sum_list (map (\<lambda>wp. length (dependencies_of definitions wp)) wps)"

lemma collect_edges_ok:
  "collect_edges definitions members st wps = Inr st' \<Longrightarrow> es_edges st \<le> MaxGraphEdges \<Longrightarrow>
     (\<forall>wp\<in>set wps. edges_ok definitions members wp) \<and> es_edges st' = es_edges st + edge_count definitions wps \<and>
     es_edges st' \<le> MaxGraphEdges"
proof (induction wps arbitrary: st)
  case (Cons wp wps)
  then obtain st1 where st1: "check_edges members wp [] st (dependencies_of definitions wp) = Inr st1"
    "collect_edges definitions members st1 wps = Inr st'" by (auto simp: rbind_eq_Inr)
  have e: "(\<forall>d\<in>set (dependencies_of definitions wp). d \<noteq> wp \<and> d \<in> set members) \<and> distinct (dependencies_of definitions wp) \<and>
     es_edges st1 = es_edges st + length (dependencies_of definitions wp) \<and> es_edges st1 \<le> MaxGraphEdges"
    using check_edges_ok [OF st1(1) Cons.prems(2)] by simp
  then have "edges_ok definitions members wp" by (auto simp: edges_ok_def)
  then show ?case using Cons.IH [OF st1(2)] e by (simp add: edge_count_def)
qed (simp add: edge_count_def)

lemma collect_edges_total:
  "\<forall>wp\<in>set wps. edges_ok definitions members wp \<Longrightarrow> es_edges st + edge_count definitions wps \<le> MaxGraphEdges \<Longrightarrow>
   \<exists>st'. collect_edges definitions members st wps = Inr st'"
proof (induction wps arbitrary: st)
  case (Cons wp wps)
  let ?ds = "dependencies_of definitions wp"
  have pre: "\<forall>d\<in>set ?ds. d \<noteq> wp \<and> d \<notin> set [] \<and> d \<in> set members" "distinct ?ds" "es_edges st + length ?ds \<le> MaxGraphEdges"
    using Cons.prems by (auto simp: edges_ok_def edge_count_def)
  from check_edges_total [OF this] obtain st1 where st1: "check_edges members wp [] st ?ds = Inr st1" by blast
  have "es_edges st1 = es_edges st + length ?ds" using check_edges_ok [OF st1] pre(3) by simp
  with Cons.IH [of st1] Cons.prems st1 show ?case by (auto simp: edge_count_def)
qed simp

lemma collect_edges_maps:
  assumes "collect_edges definitions members st wps = Inr st'" "\<forall>wp\<in>set wps. edges_ok definitions members wp" "distinct wps"
  shows "go_get 0 (es_indegree st') x =
      go_get 0 (es_indegree st) x + (if x \<in> set wps then int (length (dependencies_of definitions x)) else 0) \<and>
    go_get [] (es_dependents st') x =
      go_get [] (es_dependents st) x @ filter (\<lambda>wp. x \<in> set (dependencies_of definitions wp)) wps"
  using assms
proof (induction wps arbitrary: st)
  case (Cons wp wps)
  then obtain st1 where st1: "check_edges members wp [] st (dependencies_of definitions wp) = Inr st1"
    "collect_edges definitions members st1 wps = Inr st'" by (auto simp: rbind_eq_Inr)
  have "distinct (dependencies_of definitions wp)" using Cons.prems by (simp add: edges_ok_def)
  from check_edges_maps [OF st1(1) this, of x] Cons.IH [OF st1(2)] Cons.prems show ?case by auto
qed simp

section \<open>The topological sort finds cycles\<close>

text \<open>
  The loop's invariant. \<open>done\<close> are the packages visited: each is well founded under the edges; the
  in-degree of a package counts its dependencies that are not visited; the queue holds exactly the
  packages with none left.
\<close>

definition kahn_inv ::
  "string set \<Rightarrow> (string \<Rightarrow> string set) \<Rightarrow> string set \<Rightarrow> (string \<times> int) list \<Rightarrow> string list \<Rightarrow> bool" where
  "kahn_inv M deps finished indegree ready \<longleftrightarrow>
     finished \<subseteq> M \<and> (\<forall>wp\<in>finished. deps wp \<subseteq> finished) \<and> finished \<subseteq> Wellfounded.acc {(d, wp). wp \<in> M \<and> d \<in> deps wp} \<and>
     (\<forall>wp\<in>M. go_get 0 indegree wp = int (card (deps wp - finished))) \<and>
     distinct ready \<and> set ready = {wp \<in> M - finished. deps wp \<subseteq> finished}"

lemma release_effect:
  assumes "release indegree ready ds = (indegree', ready')" "distinct ds"
  shows "go_get 0 indegree' x = go_get 0 indegree x - (if x \<in> set ds then 1 else 0) \<and>
    ready' = ready @ filter (\<lambda>d. go_get 0 indegree d = 1) ds"
  using assms
proof (induction ds arbitrary: indegree ready)
  case (Cons d ds)
  let ?n = "go_get 0 indegree d - 1"
  have "release (go_put d ?n indegree) (if ?n = 0 then ready @ [d] else ready) ds = (indegree', ready')"
    using Cons.prems(1) by (simp add: Let_def)
  moreover have "filter (\<lambda>e. go_get 0 (go_put d ?n indegree) e = 1) ds = filter (\<lambda>e. go_get 0 indegree e = 1) ds"
    using Cons.prems(2) by (intro filter_cong) auto
  ultimately show ?case
    using Cons.IH [of "go_put d ?n indegree" "if ?n = 0 then ready @ [d] else ready"] Cons.prems(2) by (cases "?n = 0") simp_all
qed simp

lemma card_minus_one:
  assumes "finite D" "x \<in> D" "x \<notin> F"
  shows "int (card (D - insert x F)) = int (card (D - F)) - 1"
proof -
  have "D - F = insert x (D - insert x F)" "x \<notin> D - insert x F" using assms by auto
  then have "card (D - F) = Suc (card (D - insert x F))" using assms(1) by (metis card_insert_disjoint finite_Diff)
  then show ?thesis by simp
qed

lemma kahn_step_inv:
  assumes inv: "kahn_inv M deps finished indegree (wp # ready)"
    and dependents: "set (go_get [] dependents wp) = {x \<in> M. wp \<in> deps x}" "distinct (go_get [] dependents wp)"
    and fin: "\<And>x. finite (deps x)" and step: "release indegree ready (go_get [] dependents wp) = (indegree', ready')"
  shows "kahn_inv M deps (insert wp finished) indegree' (sort ready')" "wp \<in> M" "wp \<notin> finished"
proof -
  let ?ds = "go_get [] dependents wp"
  have wp: "wp \<in> M" "wp \<notin> finished" "deps wp \<subseteq> finished" using inv by (auto simp: kahn_inv_def)
  note eff = release_effect [OF step dependents(2)]
  have deg: "go_get 0 indegree' x = int (card (deps x - insert wp finished))" if "x \<in> M" for x
  proof (cases "wp \<in> deps x")
    case True
    then show ?thesis using that inv eff [of x] card_minus_one [OF fin True wp(2)] by (simp add: dependents(1) kahn_inv_def)
  next
    case False
    then have "deps x - insert wp finished = deps x - finished" by auto
    then show ?thesis using False that inv eff [of x] by (simp add: dependents(1) kahn_inv_def)
  qed
  have new: "go_get 0 indegree x = 1 \<longleftrightarrow> deps x \<subseteq> insert wp finished" if "x \<in> M" "wp \<in> deps x" for x
  proof -
    have "deps x \<subseteq> insert wp finished \<longleftrightarrow> card (deps x - insert wp finished) = 0" using fin by simp
    moreover have "go_get 0 indegree x - 1 = int (card (deps x - insert wp finished))"
      using deg [OF that(1)] eff [of x] that by (simp add: dependents(1))
    ultimately show ?thesis by linarith
  qed
  have self: "wp \<notin> deps wp" using wp by auto
  have closed: "x \<in> finished \<Longrightarrow> wp \<notin> deps x" for x using inv wp(2) by (auto simp: kahn_inv_def)
  have ready: "set ready = {x \<in> M - finished. deps x \<subseteq> finished} - {wp}" "distinct ready"
    using inv by (auto simp: kahn_inv_def)
  have "set ready' = {x \<in> M - insert wp finished. deps x \<subseteq> insert wp finished}"
  proof -
    have "set ready' = set ready \<union> {x \<in> M. wp \<in> deps x \<and> deps x \<subseteq> insert wp finished}"
      using eff [of wp] new by (auto simp: dependents(1))
    moreover have "x \<in> set ready \<or> (x \<in> M \<and> wp \<in> deps x \<and> deps x \<subseteq> insert wp finished) \<longleftrightarrow>
        x \<in> M \<and> x \<noteq> wp \<and> x \<notin> finished \<and> deps x \<subseteq> insert wp finished" for x
      using ready(1) self closed [of x] wp by (cases "wp \<in> deps x") auto
    ultimately show ?thesis by auto
  qed
  moreover have "distinct ready'" using eff [of wp] ready dependents wp(2) by auto
  moreover have "wp \<in> Wellfounded.acc {(d, x). x \<in> M \<and> d \<in> deps x}"
  proof (rule accI)
    fix y assume "(y, wp) \<in> {(d, x). x \<in> M \<and> d \<in> deps x}"
    then have "y \<in> finished" using wp(3) by auto
    then show "y \<in> Wellfounded.acc {(d, x). x \<in> M \<and> d \<in> deps x}" using inv unfolding kahn_inv_def by blast
  qed
  moreover have "finished \<subseteq> M" "finished \<subseteq> Wellfounded.acc {(d, x). x \<in> M \<and> d \<in> deps x}" "\<forall>x\<in>finished. deps x \<subseteq> finished"
    using inv by (simp_all add: kahn_inv_def)
  ultimately show "kahn_inv M deps (insert wp finished) indegree' (sort ready')"
    using wp deg unfolding kahn_inv_def by (simp add: subset_insertI2)
  show "wp \<in> M" "wp \<notin> finished" using wp by auto
qed

lemma kahn_final:
  assumes "kahn_inv M deps finished indegree ready" "finite M" "\<And>x. finite (deps x)"
    and "\<forall>wp. set (go_get [] dependents wp) = {x \<in> M. wp \<in> deps x} \<and> distinct (go_get [] dependents wp)"
    and "visited = card finished"
  shows "\<exists>all indegree'. kahn_inv M deps all indegree' [] \<and> kahn dependents indegree ready visited = card all"
  using assms
proof (induction dependents indegree ready visited arbitrary: finished rule: kahn.induct)
  case (1 dependents indegree visited)
  then show ?case by auto
next
  case (2 dependents indegree wp ready visited)
  obtain indegree' ready' where step: "release indegree ready (go_get [] dependents wp) = (indegree', ready')" by fastforce
  note inv = kahn_step_inv [OF 2(2) _ _ 2(4) step]
  have inv': "kahn_inv M deps (insert wp finished) indegree' (sort ready')" "wp \<in> M" "wp \<notin> finished"
    using inv 2(5) by blast+
  moreover have "finite finished" using 2(2,3) finite_subset by (auto simp: kahn_inv_def)
  ultimately have "visited + 1 = card (insert wp finished)" using 2(6) by simp
  from 2(1) [OF refl step [symmetric] inv'(1) 2(3,4,5) this] obtain all ind where
    "kahn_inv M deps all ind []" "kahn dependents indegree' (sort ready') (visited + 1) = card all" by auto
  then show ?case using step by auto
qed

lemma kahn_acyclic:
  assumes "finite M" "\<And>x. finite (deps x)" "\<And>x. x \<in> M \<Longrightarrow> deps x \<subseteq> M"
    and "kahn_inv M deps all indegree []"
  shows "card all = card M \<longleftrightarrow> acyclic {(d, wp). wp \<in> M \<and> d \<in> deps wp}" (is "_ \<longleftrightarrow> acyclic ?E")
proof
  have sub: "all \<subseteq> M" using assms(4) by (simp add: kahn_inv_def)
  assume "card all = card M"
  then have "M \<subseteq> Wellfounded.acc ?E" using card_subset_eq [OF assms(1) sub] assms(4) by (auto simp: kahn_inv_def)
  then have "x \<in> Wellfounded.acc ?E" for x by (cases "x \<in> M") (auto intro: accI)
  then show "acyclic ?E" using acc_wfI wf_acyclic by blast
next
  have sub: "all \<subseteq> M" using assms(4) by (simp add: kahn_inv_def)
  assume ac: "acyclic ?E"
  have "?E \<subseteq> M \<times> M" using assms(3) by auto
  then have "finite ?E" using assms(1) finite_subset by blast
  then have wf: "wf ?E" using ac by (rule finite_acyclic_wf)
  have "M - all = {}"
  proof (rule ccontr)
    assume "M - all \<noteq> {}"
    then obtain x where "x \<in> M - all" by blast
    with wf have "\<exists>z\<in>M - all. \<forall>y. (y, z) \<in> ?E \<longrightarrow> y \<notin> M - all" unfolding wf_eq_minimal by blast
    then obtain z where z: "z \<in> M - all" "\<forall>y. (y, z) \<in> ?E \<longrightarrow> y \<notin> M - all" ..
    then have "deps z \<subseteq> all" using assms(3) [of z] by auto
    moreover have "{wp \<in> M - all. deps wp \<subseteq> all} = {}" using assms(4) by (simp add: kahn_inv_def)
    ultimately show False using z(1) by blast
  qed
  then show "card all = card M" using sub by (metis Diff_eq_empty_iff subset_antisym)
qed

definition identity_ok :: "Graph \<Rightarrow> bool" where
  "identity_ok g \<longleftrightarrow>
     hdr_ProjectID (task_Header (g_Task g)) \<noteq> [] \<and>
     hdr_ProjectID (task_Header (g_Task g)) = hdr_ProjectID (dgr_Header (g_Revision g)) \<and>
     task_TaskID (g_Task g) = dgr_TaskID (g_Revision g) \<and> task_Revision (g_Task g) = dgr_TaskRevision (g_Revision g) \<and>
     task_GraphRevision (g_Task g) = dgr_Revision (g_Revision g)"

definition graph_ok :: "Graph \<Rightarrow> bool" where
  "graph_ok g \<longleftrightarrow>
     identity_ok g \<and> member_ids g \<noteq> [] \<and> length (member_ids g) \<le> MaxGraphNodes \<and> distinct (member_ids g) \<and>
     length (definition_ids (g_Definitions g)) = length (member_ids g) \<and> list_all (member_ok g) (dgr_Members (g_Revision g)) \<and>
     list_all (edges_ok (g_Definitions g) (member_ids g)) (member_ids g) \<and>
     edge_count (g_Definitions g) (member_ids g) \<le> MaxGraphEdges"

lemma kahn_decides:
  assumes st: "collect_edges definitions members \<lparr> es_edges = 0, es_indegree = [], es_dependents = [] \<rparr> members = Inr st"
    and ok: "\<forall>wp\<in>set members. edges_ok definitions members wp" and dist: "distinct members"
  shows "kahn (es_dependents st) (es_indegree st) (sort (filter (\<lambda>wp. go_get 0 (es_indegree st) wp = 0) members)) 0 = length members
    \<longleftrightarrow> acyclic {(d, wp). wp \<in> set members \<and> d \<in> set (dependencies_of definitions wp)}"
proof -
  let ?M = "set members" and ?deps = "\<lambda>wp. set (dependencies_of definitions wp)"
  let ?ready = "sort (filter (\<lambda>wp. go_get 0 (es_indegree st) wp = 0) members)"
  note maps = collect_edges_maps [OF st ok dist]
  have deg: "go_get 0 (es_indegree st) wp = int (card (?deps wp))" if "wp \<in> ?M" for wp
    using maps [of wp] that ok by (simp add: edges_ok_def distinct_card)
  have "set ?ready = {wp \<in> ?M - {}. ?deps wp \<subseteq> {}}" using deg by auto
  then have inv: "kahn_inv ?M ?deps {} (es_indegree st) ?ready" using deg dist by (simp add: kahn_inv_def)
  have dependents: "\<forall>wp. set (go_get [] (es_dependents st) wp) = {x \<in> ?M. wp \<in> ?deps x} \<and> distinct (go_get [] (es_dependents st) wp)"
    using maps dist by simp
  obtain all ind where all: "kahn_inv ?M ?deps all ind []" "kahn (es_dependents st) (es_indegree st) ?ready 0 = card all"
    using kahn_final [OF inv _ _ dependents, of 0] by auto
  have "card all = card ?M \<longleftrightarrow> acyclic {(d, wp). wp \<in> ?M \<and> d \<in> ?deps wp}"
    using ok by (intro kahn_acyclic [OF _ _ _ all(1)]) (auto simp: edges_ok_def)
  then show ?thesis using all(2) distinct_card [OF dist] by simp
qed

lemma ValidateGraph_iff:
  "ValidateGraph hex_sha256 g = ok \<longleftrightarrow>
     graph_ok g \<and> DependencySetDigest hex_sha256 (g_Definitions g) = dgr_DependencySetDigest (g_Revision g) \<and>
     acyclic (graph_edges g)" (is "_ \<longleftrightarrow> ?spec")
proof -
  let ?ms = "member_ids g" and ?defs = "g_Definitions g"
  let ?st0 = "\<lparr> es_edges = 0, es_indegree = [], es_dependents = [] \<rparr>"
  let ?shape = "identity_ok g \<and> ?ms \<noteq> [] \<and> length ?ms \<le> MaxGraphNodes \<and> length (definition_ids ?defs) = length ?ms"
  have members: "check_members g [] (dgr_Members (g_Revision g)) = Inr ids \<longleftrightarrow>
      ids = ?ms \<and> distinct ?ms \<and> list_all (member_ok g) (dgr_Members (g_Revision g))" for ids
    by (auto simp: check_members_Inr member_ids_def list_all_iff)
  have edges: "(\<exists>st. collect_edges ?defs ?ms ?st0 ?ms = Inr st) \<longleftrightarrow>
      list_all (edges_ok ?defs ?ms) ?ms \<and> edge_count ?defs ?ms \<le> MaxGraphEdges"
    using collect_edges_ok [of ?defs ?ms ?st0 ?ms] collect_edges_total [of ?ms ?defs ?ms ?st0]
    by (auto simp: list_all_iff)
  have unfold: "ValidateGraph hex_sha256 g = ok \<longleftrightarrow> ?shape \<and> distinct ?ms \<and> list_all (member_ok g) (dgr_Members (g_Revision g)) \<and>
      (\<exists>st. collect_edges ?defs ?ms ?st0 ?ms = Inr st \<and>
        DependencySetDigest hex_sha256 ?defs = dgr_DependencySetDigest (g_Revision g) \<and>
        kahn (es_dependents st) (es_indegree st) (sort (filter (\<lambda>wp. go_get 0 (es_indegree st) wp = 0) ?ms)) 0 = length ?ms)"
    unfolding ValidateGraph_def Let_def
    by (auto simp: rbind_eq_Inr members identity_ok_def simp flip: member_ids_def) (auto simp: member_ids_def)
  show ?thesis
    using unfold edges kahn_decides [of ?defs ?ms] by (auto simp: graph_ok_def graph_edges_def list_all_iff)
qed

section \<open>Properties\<close>

text \<open>
  C7. Validation accepts exactly the well-formed acyclic graphs. A graph passes if and only if the
  identities of task and graph agree, the members are distinct, within the limits and each defined by
  the record the graph names, no package depends on itself, on one package twice or on a package
  outside the graph, the digest is that of the dependency sets, and the dependencies have no cycle.
\<close>

theorem ValidateGraph_acyclic:
  "ValidateGraph hex_sha256 g = ok \<longleftrightarrow>
     graph_ok g \<and> hex_sha256 (DependencySetBytes (g_Definitions g)) = dgr_DependencySetDigest (g_Revision g) \<and>
     acyclic (graph_edges g)"
  by (simp add: ValidateGraph_iff DependencySetDigest_def)

end
