(* ===== verification/Task_Readiness.thy ===== *)
theory Task_Readiness
  imports Task_Graph
begin

text \<open>
  The state of work packages after a history of events, and the readiness of each package of a graph,
  src/internal/orchestration/graph.go. The hash of the watermark and the JSON decoder of the two
  payloads are arguments, contexts are not cancelled, and \<open>sort.Slice\<close> on the events is a stable sort,
  which matters only for events that agree in time, type class and record identifier.
\<close>

section \<open>The states of work packages\<close>

record payload_codec =
  state_changed :: "string \<Rightarrow> WorkPackageStateChangedPayload option"
  review_recorded :: "string \<Rightarrow> ReviewRecordedPayload option"

record PackageStates =
  ps_states :: "(string \<times> WorkPackageState) list"
  ps_approved :: "(string \<times> bool) list"

abbreviation no_state :: WorkPackageState where
  "no_state \<equiv> WorkPackageStateOther []"

definition state_of :: "PackageStates \<Rightarrow> string \<Rightarrow> WorkPackageState" where
  "state_of ps wp = go_get no_state (ps_states ps) wp"

definition approved_of :: "PackageStates \<Rightarrow> string \<Rightarrow> bool" where
  "approved_of ps wp = go_get False (ps_approved ps) wp"

definition applyEvent :: "payload_codec \<Rightarrow> PackageStates \<Rightarrow> WorkEvent \<Rightarrow> PackageStates" where
  "applyEvent codec ps event =
     (let wp = we_WorkPackageID event in
      case we_EventType event of
        EventWorkPackageCreated \<Rightarrow>
          if map_of (ps_states ps) wp = None then ps\<lparr>ps_states := go_put wp WorkPackagePlanned (ps_states ps)\<rparr> else ps
      | EventWorkPackageStateChanged \<Rightarrow>
          (case state_changed codec (we_Payload event) of
             None \<Rightarrow> ps
           | Some p \<Rightarrow>
               if state_of ps wp = wsc_From p \<and> ValidWorkPackageTransition (wsc_From p) (wsc_To p)
               then let ps = ps\<lparr>ps_states := go_put wp (wsc_To p) (ps_states ps)\<rparr> in
                    if wsc_To p \<noteq> WorkPackageReview then ps\<lparr>ps_approved := go_put wp False (ps_approved ps)\<rparr> else ps
               else ps)
      | EventReviewRecorded \<Rightarrow>
          (case review_recorded codec (we_Payload event) of
             None \<Rightarrow> ps
           | Some p \<Rightarrow>
               if state_of ps wp = WorkPackageReview
               then ps\<lparr>ps_approved := go_put wp (rrp_Outcome p = ReviewApproved) (ps_approved ps)\<rparr> else ps)
      | EventWorkAccepted \<Rightarrow>
          if state_of ps wp = WorkPackageReview \<and> approved_of ps wp
          then ps\<lparr>ps_states := go_put wp WorkPackageAccepted (ps_states ps)\<rparr> else ps
      | _ \<Rightarrow> ps)"

definition eventPrecedence :: "EventType \<Rightarrow> nat" where
  "eventPrecedence t =
     (case t of EventWorkPackageCreated \<Rightarrow> 0 | EventWorkPackageStateChanged \<Rightarrow> 1 | EventReviewRecorded \<Rightarrow> 2
      | EventWorkAccepted \<Rightarrow> 3 | _ \<Rightarrow> 4)"

definition sort_events :: "GraphEvent list \<Rightarrow> GraphEvent list" where
  "sort_events events =
     sort_key (\<lambda>e. we_OccurredAt (ge_Record e))
       (sort_key (\<lambda>e. eventPrecedence (we_EventType (ge_Record e)))
         (sort_key (\<lambda>e. hdr_RecordID (we_Header (ge_Record e))) events))"

text \<open>Events of packages outside the graph are skipped; those of no package are hashed.\<close>

definition event_in_graph :: "Graph \<Rightarrow> GraphEvent \<Rightarrow> bool" where
  "event_in_graph g e \<longleftrightarrow>
     map_of (g_Definitions g) (we_WorkPackageID (ge_Record e)) \<noteq> None \<or> we_WorkPackageID (ge_Record e) = []"

definition graph_events :: "Graph \<Rightarrow> GraphEvent list \<Rightarrow> GraphEvent list" where
  "graph_events g events = filter (event_in_graph g) (sort_events events)"

definition package_states :: "payload_codec \<Rightarrow> WorkEvent list \<Rightarrow> PackageStates" where
  "package_states codec events = foldl (applyEvent codec) \<lparr> ps_states = [], ps_approved = [] \<rparr> events"

definition watermark_bytes :: "Graph \<Rightarrow> GraphEvent list \<Rightarrow> string" where
  "watermark_bytes g events =
     dgr_DependencySetDigest (g_Revision g) @ [CHR 0x00] @
     concat (map (\<lambda>e. hdr_RecordID (we_Header (ge_Record e)) @ [CHR 0x00] @ ge_RecordDigest e @ [CHR 0xFF]) events)"

section \<open>Readiness\<close>

datatype ReadinessState =
  ReadinessPlanned | ReadinessWaiting | ReadinessReady | ReadinessBlocked | ReadinessReview
| ReadinessAccepted | ReadinessFailed | ReadinessCanceled | ReadinessOther string

datatype ReadinessReason =
  ReasonWorkPackageNotCreated | ReasonDependencyWaiting | ReasonDependencyFailed | ReasonDependenciesSatisfied
| ReasonExecutionInProgress | ReasonCanonicalBlocked | ReasonReviewRequired | ReasonWorkAccepted | ReasonWorkFailed
| ReasonWorkCanceled | ReasonTaskHasReadyWork | ReasonTaskWaiting | ReasonTaskBlocked | ReasonTaskInReview
| ReasonTaskAccepted | ReasonTaskFailed | ReasonTaskCanceled | ReasonTaskPlanned | ReasonOther string

record NodeReadiness =
  nr_WorkPackageID :: string
  nr_CanonicalState :: WorkPackageState
  nr_State :: ReadinessState
  nr_ExplanationCode :: ReadinessReason
  nr_Dependencies :: "string list"
  nr_Barrier :: bool

record Snapshot =
  sn_ProjectID :: string
  sn_TaskID :: string
  sn_TaskRevision :: int
  sn_GraphRevision :: int
  sn_State :: ReadinessState
  sn_ExplanationCode :: ReadinessReason
  sn_Nodes :: "NodeReadiness list"
  sn_ParallelReady :: "string list"
  sn_EventWatermark :: string

type_synonym nodes = "(string \<times> NodeReadiness) list"

text \<open>The loop over the dependencies: the first that is not accepted decides.\<close>

fun reduce_dependencies :: "nodes \<Rightarrow> string list \<Rightarrow> ReadinessState \<times> ReadinessReason" where
  "reduce_dependencies nodes [] = (ReadinessReady, ReasonDependenciesSatisfied)"
| "reduce_dependencies nodes (dependency # ds) =
     (case map_option nr_State (map_of nodes dependency) of
        Some ReadinessFailed \<Rightarrow> (ReadinessBlocked, ReasonDependencyFailed)
      | Some ReadinessCanceled \<Rightarrow> (ReadinessBlocked, ReasonDependencyFailed)
      | Some ReadinessBlocked \<Rightarrow> (ReadinessBlocked, ReasonDependencyFailed)
      | Some ReadinessAccepted \<Rightarrow> reduce_dependencies nodes ds
      | _ \<Rightarrow> (ReadinessWaiting, ReasonDependencyWaiting))"

definition reduce_state :: "WorkPackageState \<Rightarrow> nodes \<Rightarrow> string list \<Rightarrow> ReadinessState \<times> ReadinessReason" where
  "reduce_state st nodes dependencies =
     (case st of
        WorkPackageStateOther s \<Rightarrow>
          if s = [] then (ReadinessPlanned, ReasonWorkPackageNotCreated) else reduce_dependencies nodes dependencies
      | WorkPackageInProgress \<Rightarrow> (ReadinessWaiting, ReasonExecutionInProgress)
      | WorkPackageBlocked \<Rightarrow> (ReadinessBlocked, ReasonCanonicalBlocked)
      | WorkPackageReview \<Rightarrow> (ReadinessReview, ReasonReviewRequired)
      | WorkPackageAccepted \<Rightarrow> (ReadinessAccepted, ReasonWorkAccepted)
      | WorkPackageFailed \<Rightarrow> (ReadinessFailed, ReasonWorkFailed)
      | WorkPackageCanceled \<Rightarrow> (ReadinessCanceled, ReasonWorkCanceled)
      | _ \<Rightarrow> reduce_dependencies nodes dependencies)"

definition reduceNode :: "string \<Rightarrow> string list \<Rightarrow> WorkPackageState \<Rightarrow> nodes \<Rightarrow> NodeReadiness" where
  "reduceNode wp dependencies st nodes =
     (let (state, code) = reduce_state st nodes dependencies in
      \<lparr> nr_WorkPackageID = wp, nr_CanonicalState = st, nr_State = state, nr_ExplanationCode = code,
        nr_Dependencies = dependencies, nr_Barrier = False \<rparr>)"

definition count_state :: "ReadinessState \<Rightarrow> NodeReadiness list \<Rightarrow> nat" where
  "count_state st nodes = length (filter (\<lambda>n. nr_State n = st) nodes)"

fun first_counted ::
  "NodeReadiness list \<Rightarrow> (ReadinessState \<times> ReadinessReason) list \<Rightarrow> ReadinessState \<times> ReadinessReason" where
  "first_counted nodes [] = (ReadinessPlanned, ReasonTaskPlanned)"
| "first_counted nodes ((st, reason) # rest) = (if count_state st nodes > 0 then (st, reason) else first_counted nodes rest)"

definition summarizeTask :: "NodeReadiness list \<Rightarrow> ReadinessState \<times> ReadinessReason" where
  "summarizeTask nodes =
     (if count_state ReadinessAccepted nodes = length nodes then (ReadinessAccepted, ReasonTaskAccepted)
      else if count_state ReadinessCanceled nodes = length nodes then (ReadinessCanceled, ReasonTaskCanceled)
      else first_counted nodes
        [(ReadinessFailed, ReasonTaskFailed), (ReadinessBlocked, ReasonTaskBlocked), (ReadinessReview, ReasonTaskInReview),
         (ReadinessReady, ReasonTaskHasReadyWork), (ReadinessWaiting, ReasonTaskWaiting), (ReadinessPlanned, ReasonTaskPlanned)])"

subsection \<open>The traversal\<close>

text \<open>One round over the remaining packages; what it leaves is the second component.\<close>

fun resolve_round ::
  "(string \<Rightarrow> string list) \<Rightarrow> (nodes \<Rightarrow> string \<Rightarrow> NodeReadiness) \<Rightarrow> nodes \<Rightarrow> string list \<Rightarrow> nodes \<times> string list" where
  "resolve_round deps node nodes [] = (nodes, [])"
| "resolve_round deps node nodes (wp # wps) =
     (if list_all (\<lambda>d. map_of nodes d \<noteq> None) (deps wp)
      then resolve_round deps node (go_put wp (node nodes wp) nodes) wps
      else let (nodes, left) = resolve_round deps node nodes wps in (nodes, wp # left))"

lemma resolve_round_length: "length (snd (resolve_round deps node nodes wps)) \<le> length wps"
  by (induction wps arbitrary: nodes) (auto simp: Let_def split_beta le_SucI)

function resolve ::
  "(string \<Rightarrow> string list) \<Rightarrow> (nodes \<Rightarrow> string \<Rightarrow> NodeReadiness) \<Rightarrow> nodes \<Rightarrow> string list \<Rightarrow> graph_error + nodes" where
  "resolve deps node nodes remaining =
     (if remaining = [] then Inr nodes
      else
        let (nodes, left) = resolve_round deps node nodes (sort remaining) in
        if length left = length remaining then Inl (ErrInvalidGraph ''traversal could not resolve graph'')
        else resolve deps node nodes left)"
  by pat_completeness auto
termination
proof (relation "measure (\<lambda>(_, _, _, remaining). length remaining)", simp)
  fix deps node nodes remaining p nodes' left
  assume p: "p = resolve_round deps node nodes (sort remaining)" "(nodes', left) = p"
    and ne: "length left \<noteq> length remaining"
  have "snd (resolve_round deps node nodes (sort remaining)) = left" using p(2) unfolding p(1) [symmetric] by (metis snd_conv)
  then have "length left \<le> length remaining"
    using resolve_round_length [of deps node nodes "sort remaining"] by simp
  then show "((deps, node, nodes', left), deps, node, nodes, remaining) \<in> measure (\<lambda>(_, _, _, remaining). length remaining)"
    using ne by simp
qed

declare resolve.simps [simp del]

definition readiness_node ::
  "Graph \<Rightarrow> PackageStates \<Rightarrow> nodes \<Rightarrow> string \<Rightarrow> NodeReadiness" where
  "readiness_node g ps nodes wp =
     (reduceNode wp (dependencies_of (g_Definitions g) wp) (state_of ps wp) nodes)
       \<lparr>nr_Barrier := (wp \<in> set (dgr_Barriers (g_Revision g)))\<rparr>"

definition zero_node :: NodeReadiness where
  "zero_node = \<lparr> nr_WorkPackageID = [], nr_CanonicalState = no_state, nr_State = ReadinessOther [],
     nr_ExplanationCode = ReasonOther [], nr_Dependencies = [], nr_Barrier = False \<rparr>"

definition ReduceReadiness ::
  "(string \<Rightarrow> string) \<Rightarrow> payload_codec \<Rightarrow> Graph \<Rightarrow> GraphEvent list \<Rightarrow> graph_error + Snapshot" where
  "ReduceReadiness hex_sha256 codec g events =
     rbind (ValidateGraph hex_sha256 g) (\<lambda>_.
     let history = graph_events g events; ps = package_states codec (map ge_Record history);
         members = map dgm_WorkPackageID (dgr_Members (g_Revision g)) in
     rbind (resolve (dependencies_of (g_Definitions g)) (readiness_node g ps) [] members) (\<lambda>nodes.
     let listed = map (\<lambda>wp. go_get zero_node nodes wp) members; (state, code) = summarizeTask listed in
     Inr \<lparr> sn_ProjectID = hdr_ProjectID (task_Header (g_Task g)), sn_TaskID = task_TaskID (g_Task g),
           sn_TaskRevision = task_Revision (g_Task g), sn_GraphRevision = dgr_Revision (g_Revision g),
           sn_State = state, sn_ExplanationCode = code, sn_Nodes = listed,
           sn_ParallelReady = sort (map nr_WorkPackageID (filter (\<lambda>n. nr_State n = ReadinessReady) listed)),
           sn_EventWatermark = hex_sha256 (watermark_bytes g history) \<rparr>))"

section \<open>Normal forms of task inputs\<close>

definition NormalizeTaskInputs ::
  "RiskDimension list \<Rightarrow> ResourceConstraints option \<Rightarrow> QualityGateReference list \<Rightarrow> string list \<Rightarrow>
   RiskDimension list \<times> ResourceConstraints option \<times> QualityGateReference list \<times> string list" where
  "NormalizeTaskInputs risk resources gates barriers =
     (sort_key rd_Name risk,
      map_option (\<lambda>r. r\<lparr> rc_RequiredCapabilities := sort (rc_RequiredCapabilities r), rc_RequiredTools := sort (rc_RequiredTools r),
        rc_AllowedOS := sort (rc_AllowedOS r), rc_AllowedArchitectures := sort (rc_AllowedArchitectures r) \<rparr>) resources,
      sort_key qg_GateID (sort_key qg_Version gates), sort barriers)"

section \<open>Resolving readiness\<close>

text \<open>
  What the traversal asks of a reduction: the node of a package depends on the nodes of its
  dependencies only. \<open>consistent\<close> nodes are those that the reduction gives of themselves.
\<close>

locale traversal =
  fixes deps :: "string \<Rightarrow> string list"
    and node :: "nodes \<Rightarrow> string \<Rightarrow> NodeReadiness"
  assumes node_cong: "(\<And>d. d \<in> set (deps wp) \<Longrightarrow> map_of ns d = map_of ns' d) \<Longrightarrow> node ns wp = node ns' wp"
begin

definition consistent :: "nodes \<Rightarrow> bool" where
  "consistent ns \<longleftrightarrow> (\<forall>wp v. map_of ns wp = Some v \<longrightarrow> v = node ns wp \<and> (\<forall>d\<in>set (deps wp). map_of ns d \<noteq> None))"

lemma consistent_put:
  assumes "consistent ns" "map_of ns wp = None" "\<forall>d\<in>set (deps wp). map_of ns d \<noteq> None"
  shows "consistent (go_put wp (node ns wp) ns)"
proof -
  have "node (go_put wp (node ns wp) ns) x = node ns x" if "\<forall>d\<in>set (deps x). map_of ns d \<noteq> None" for x
    using that assms(2) by (intro node_cong) (auto simp: go_put_def update_conv')
  then show ?thesis using assms by (auto simp: consistent_def go_put_def update_conv')
qed

lemma round_correct:
  assumes "resolve_round deps node ns wps = (ns', left)" "consistent ns" "distinct wps" "\<forall>wp\<in>set wps. map_of ns wp = None"
  shows "consistent ns' \<and> set left \<subseteq> set wps \<and> distinct left \<and> (\<forall>wp\<in>set left. map_of ns' wp = None) \<and>
    dom (map_of ns') = dom (map_of ns) \<union> (set wps - set left) \<and>
    (\<forall>wp\<in>set wps. (\<forall>d\<in>set (deps wp). map_of ns d \<noteq> None) \<longrightarrow> wp \<notin> set left)"
  using assms
proof (induction wps arbitrary: ns left)
  case (Cons wp wps)
  show ?case
  proof (cases "\<forall>d\<in>set (deps wp). map_of ns d \<noteq> None")
    case True
    let ?ns = "go_put wp (node ns wp) ns"
    have put: "map_of ?ns = (map_of ns)(wp \<mapsto> node ns wp)" by (simp add: go_put_def update_conv')
    have "resolve_round deps node ?ns wps = (ns', left)" using Cons.prems(1) True by (simp add: list_all_iff)
    moreover have "consistent ?ns" using consistent_put [OF Cons.prems(2) _ True] Cons.prems(4) by simp
    moreover have "\<forall>x\<in>set wps. map_of ?ns x = None" using Cons.prems(3,4) by (auto simp: put)
    ultimately have ih: "consistent ns' \<and> set left \<subseteq> set wps \<and> distinct left \<and> (\<forall>wp\<in>set left. map_of ns' wp = None) \<and>
        dom (map_of ns') = dom (map_of ?ns) \<union> (set wps - set left) \<and>
        (\<forall>x\<in>set wps. (\<forall>d\<in>set (deps x). map_of ?ns d \<noteq> None) \<longrightarrow> x \<notin> set left)"
      using Cons.IH [of ?ns left] Cons.prems(3) by simp
    have "x \<notin> set left" if "x \<in> set wps" "\<forall>d\<in>set (deps x). map_of ns d \<noteq> None" for x
      using that ih by (simp add: put)
    moreover have "dom (map_of ns') = dom (map_of ns) \<union> (set (wp # wps) - set left)"
      using ih Cons.prems(3) by (auto simp: put)
    moreover have "wp \<notin> set left" using ih Cons.prems(3) by auto
    ultimately show ?thesis using ih by auto
  next
    case False
    then obtain left' where left': "resolve_round deps node ns wps = (ns', left')" "left = wp # left'"
      using Cons.prems(1) by (auto simp: list_all_iff Let_def split: prod.splits if_splits)
    have ih: "consistent ns' \<and> set left' \<subseteq> set wps \<and> distinct left' \<and> (\<forall>wp\<in>set left'. map_of ns' wp = None) \<and>
        dom (map_of ns') = dom (map_of ns) \<union> (set wps - set left') \<and>
        (\<forall>x\<in>set wps. (\<forall>d\<in>set (deps x). map_of ns d \<noteq> None) \<longrightarrow> x \<notin> set left')"
      using Cons.IH [OF left'(1) Cons.prems(2)] Cons.prems(3,4) by simp
    have new: "wp \<notin> set wps" "map_of ns wp = None" using Cons.prems(3,4) by auto
    then have "map_of ns' wp = None" using ih by (metis DiffD1 Un_iff domIff)
    moreover have "dom (map_of ns') = dom (map_of ns) \<union> (set (wp # wps) - set left)" using ih new left'(2) by auto
    ultimately show ?thesis using ih new left'(2) False by auto
  qed
qed simp

lemma resolve_correct:
  assumes "wf E" "\<And>wp d. wp \<in> set remaining \<Longrightarrow> d \<in> set (deps wp) \<Longrightarrow> (d, wp) \<in> E"
    and "\<And>wp. wp \<in> set remaining \<Longrightarrow> set (deps wp) \<subseteq> dom (map_of ns) \<union> set remaining"
    and "consistent ns" "distinct remaining" "\<forall>wp\<in>set remaining. map_of ns wp = None"
  shows "\<exists>ns'. resolve deps node ns remaining = Inr ns' \<and> consistent ns' \<and> dom (map_of ns') = dom (map_of ns) \<union> set remaining"
  using assms(2-)
proof (induction "length remaining" arbitrary: remaining ns rule: less_induct)
  case less
  show ?case
  proof (cases "remaining = []")
    case True
    then show ?thesis using less.prems(3) by (simp add: resolve.simps)
  next
    case False
    obtain ns' left where r: "resolve_round deps node ns (sort remaining) = (ns', left)" by fastforce
    have c: "consistent ns' \<and> set left \<subseteq> set remaining \<and> distinct left \<and> (\<forall>wp\<in>set left. map_of ns' wp = None) \<and>
        dom (map_of ns') = dom (map_of ns) \<union> (set remaining - set left) \<and>
        (\<forall>wp\<in>set remaining. (\<forall>d\<in>set (deps wp). map_of ns d \<noteq> None) \<longrightarrow> wp \<notin> set left)"
      using round_correct [OF r less.prems(3)] less.prems(4,5) by simp
    obtain z where z: "z \<in> set remaining" "\<forall>y. (y, z) \<in> E \<longrightarrow> y \<notin> set remaining"
      using \<open>wf E\<close> False unfolding wf_eq_minimal by (metis set_empty2 ex_in_conv)
    then have "\<forall>d\<in>set (deps z). map_of ns d \<noteq> None" using less.prems(1,2) [OF z(1)] by blast
    then have "z \<notin> set left" using c z(1) by blast
    then have "card (set left) < card (set remaining)" using c z(1) by (intro psubset_card_mono) auto
    then have shorter: "length left < length remaining" using c less.prems(4) by (simp add: distinct_card)
    have "set (deps wp) \<subseteq> dom (map_of ns') \<union> set left" if "wp \<in> set left" for wp
      using less.prems(2) [of wp] c that by auto
    then obtain ns2 where "resolve deps node ns' left = Inr ns2" "consistent ns2" "dom (map_of ns2) = dom (map_of ns') \<union> set left"
      using less.hyps [OF shorter, of ns'] less.prems(1) c by blast
    moreover have "dom (map_of ns') \<union> set left = dom (map_of ns) \<union> set remaining" using c by auto
    ultimately show ?thesis using False shorter r by (simp add: resolve.simps [of deps node ns remaining])
  qed
qed

end

lemma reduce_dependencies_cong:
  "(\<And>d. d \<in> set ds \<Longrightarrow> map_of ns d = map_of ns' d) \<Longrightarrow> reduce_dependencies ns ds = reduce_dependencies ns' ds"
  by (induction ds) (auto split: option.splits ReadinessState.splits)

interpretation readiness: traversal "dependencies_of (g_Definitions g)" "readiness_node g ps" for g ps
proof
  fix wp and ns ns' :: nodes assume "\<And>d. d \<in> set (dependencies_of (g_Definitions g) wp) \<Longrightarrow> map_of ns d = map_of ns' d"
  then have "reduce_dependencies ns (dependencies_of (g_Definitions g) wp) = reduce_dependencies ns' (dependencies_of (g_Definitions g) wp)"
    by (rule reduce_dependencies_cong)
  then show "readiness_node g ps ns wp = readiness_node g ps ns' wp"
    by (simp add: readiness_node_def reduceNode_def reduce_state_def split: WorkPackageState.splits)
qed

text \<open>A package that was created, is not under way and is not finished.\<close>

definition startable :: "WorkPackageState \<Rightarrow> bool" where
  "startable st \<longleftrightarrow> st \<noteq> no_state \<and> st \<notin> {WorkPackageInProgress, WorkPackageBlocked, WorkPackageReview,
     WorkPackageAccepted, WorkPackageFailed, WorkPackageCanceled}"

lemma reduce_dependencies_ready:
  "fst (reduce_dependencies ns ds) = ReadinessReady \<longleftrightarrow>
     (\<forall>d\<in>set ds. \<exists>n. map_of ns d = Some n \<and> nr_State n = ReadinessAccepted)"
  by (induction ds) (auto split: option.splits ReadinessState.splits)

lemma reduce_dependencies_range:
  "fst (reduce_dependencies ns ds) \<in> {ReadinessReady, ReadinessBlocked, ReadinessWaiting}"
  by (induction ds) (auto split: option.splits ReadinessState.splits)

lemma readiness_node_fields:
  "nr_WorkPackageID (readiness_node g ps ns wp) = wp" "nr_CanonicalState (readiness_node g ps ns wp) = state_of ps wp"
  "nr_Dependencies (readiness_node g ps ns wp) = dependencies_of (g_Definitions g) wp"
  "nr_State (readiness_node g ps ns wp) = fst (reduce_state (state_of ps wp) ns (dependencies_of (g_Definitions g) wp))"
  by (simp_all add: readiness_node_def reduceNode_def split_beta Let_def)

lemma reduce_state_ready:
  "fst (reduce_state st ns ds) = ReadinessReady \<longleftrightarrow> startable st \<and> fst (reduce_dependencies ns ds) = ReadinessReady"
  by (auto simp: reduce_state_def startable_def split: WorkPackageState.splits)

lemma reduce_state_accepted: "fst (reduce_state st ns ds) = ReadinessAccepted \<longleftrightarrow> st = WorkPackageAccepted"
  using reduce_dependencies_range [of ns ds] by (auto simp: reduce_state_def split: WorkPackageState.splits)

lemma readiness_node_ready:
  assumes "\<forall>wp\<in>set ms. map_of nodes wp = Some (readiness_node g ps nodes wp)" "wp \<in> set ms"
    and "\<forall>wp\<in>set ms. set (dependencies_of (g_Definitions g) wp) \<subseteq> set ms"
  shows "nr_State (readiness_node g ps nodes wp) = ReadinessReady \<longleftrightarrow> startable (state_of ps wp) \<and>
    (\<forall>d\<in>set (dependencies_of (g_Definitions g) wp). state_of ps d = WorkPackageAccepted)"
proof -
  have "map_of nodes d = Some (readiness_node g ps nodes d)" if "d \<in> set (dependencies_of (g_Definitions g) wp)" for d
    using assms that by blast
  then show ?thesis
    by (simp add: readiness_node_fields reduce_state_ready reduce_dependencies_ready reduce_state_accepted)
qed

lemma length_filter_all: "length (filter P xs) = length xs \<longleftrightarrow> (\<forall>x\<in>set xs. P x)"
proof (induction xs)
  case (Cons x xs)
  have "length (filter P xs) \<noteq> Suc (length xs)" using length_filter_le [of P xs] by linarith
  then show ?case using Cons by simp
qed simp

lemma summarizeTask_accepted: "fst (summarizeTask nodes) = ReadinessAccepted \<longleftrightarrow> (\<forall>n\<in>set nodes. nr_State n = ReadinessAccepted)"
proof -
  have "count_state ReadinessAccepted nodes = length nodes \<longleftrightarrow> (\<forall>n\<in>set nodes. nr_State n = ReadinessAccepted)"
    by (simp add: count_state_def length_filter_all)
  moreover have "fst (first_counted nodes rest) \<noteq> ReadinessAccepted" if "\<forall>(st, _)\<in>set rest. st \<noteq> ReadinessAccepted" for rest
    using that by (induction nodes rest rule: first_counted.induct) auto
  ultimately show ?thesis by (auto simp: summarizeTask_def)
qed

lemma wf_least: "wf R \<Longrightarrow> x \<in> Q \<Longrightarrow> \<exists>z\<in>Q. \<forall>y. (y, z) \<in> R \<longrightarrow> y \<notin> Q"
  unfolding wf_eq_minimal by blast

lemma valid_graph_wf:
  assumes "ValidateGraph hex_sha256 g = ok"
  shows "wf (graph_edges g)" "\<forall>wp\<in>set (member_ids g). set (dependencies_of (g_Definitions g) wp) \<subseteq> set (member_ids g)"
proof -
  show closed: "\<forall>wp\<in>set (member_ids g). set (dependencies_of (g_Definitions g) wp) \<subseteq> set (member_ids g)"
    using assms by (auto simp: ValidateGraph_iff graph_ok_def list_all_iff edges_ok_def)
  then have "graph_edges g \<subseteq> set (member_ids g) \<times> set (member_ids g)" by (auto simp: graph_edges_def)
  then have "finite (graph_edges g)" by (rule finite_subset) simp
  then show "wf (graph_edges g)" using assms by (intro finite_acyclic_wf) (simp_all add: ValidateGraph_iff)
qed

lemma ReduceReadiness_nodes:
  fixes codec events
  assumes "ValidateGraph hex_sha256 g = ok"
  defines "ps \<equiv> package_states codec (map ge_Record (graph_events g events))"
  shows "\<exists>s nodes. ReduceReadiness hex_sha256 codec g events = Inr s \<and>
    sn_Nodes s = map (\<lambda>wp. readiness_node g ps nodes wp) (member_ids g) \<and>
    (\<forall>wp\<in>set (member_ids g). map_of nodes wp = Some (readiness_node g ps nodes wp)) \<and>
    sn_ParallelReady s = sort (map nr_WorkPackageID (filter (\<lambda>n. nr_State n = ReadinessReady) (sn_Nodes s))) \<and>
    sn_State s = fst (summarizeTask (sn_Nodes s))"
proof -
  have ok: "graph_ok g" using assms(1) by (simp add: ValidateGraph_iff)
  note closed = valid_graph_wf(2) [OF assms(1)]
  from readiness.resolve_correct [OF valid_graph_wf(1) [OF assms(1)], of "member_ids g" g "[]" ps] obtain nodes where
    nodes: "resolve (dependencies_of (g_Definitions g)) (readiness_node g ps) [] (member_ids g) = Inr nodes"
      "readiness.consistent g ps nodes" "dom (map_of nodes) = set (member_ids g)"
    using closed ok by (auto simp: graph_edges_def graph_ok_def readiness.consistent_def)
  have each: "map_of nodes wp = Some (readiness_node g ps nodes wp)" if "wp \<in> set (member_ids g)" for wp
    using nodes(2,3) that unfolding readiness.consistent_def by blast
  then have listed: "map (\<lambda>wp. go_get zero_node nodes wp) (member_ids g) = map (readiness_node g ps nodes) (member_ids g)"
    by (simp add: go_get_def)
  show ?thesis
    using assms(1) nodes(1) each listed
    by (simp add: ReduceReadiness_def Let_def split_beta ps_def flip: member_ids_def) blast
qed

section \<open>Reviews and acceptance\<close>

lemma package_states_snoc:
  "package_states codec (events @ [e]) = applyEvent codec (package_states codec events) e"
  by (simp add: package_states_def)

lemma package_states_Nil [simp]: "state_of (package_states codec []) wp = no_state" "\<not> approved_of (package_states codec []) wp"
  by (simp_all add: package_states_def state_of_def approved_of_def)

definition approving :: "payload_codec \<Rightarrow> string \<Rightarrow> WorkEvent \<Rightarrow> bool" where
  "approving codec wp e \<longleftrightarrow> we_EventType e = EventReviewRecorded \<and> we_WorkPackageID e = wp \<and>
     (case review_recorded codec (we_Payload e) of None \<Rightarrow> False | Some p \<Rightarrow> rrp_Outcome p = ReviewApproved)"

lemma approving_iff:
  "approving codec wp e \<longleftrightarrow> we_EventType e = EventReviewRecorded \<and> we_WorkPackageID e = wp \<and>
     map_option rrp_Outcome (review_recorded codec (we_Payload e)) = Some ReviewApproved"
  by (auto simp: approving_def split: option.splits)

lemma applyEvent_other:
  assumes "we_WorkPackageID e \<noteq> wp"
  shows "state_of (applyEvent codec ps e) wp = state_of ps wp" "approved_of (applyEvent codec ps e) wp = approved_of ps wp"
  using assms by (auto simp: applyEvent_def Let_def state_of_def approved_of_def split: EventType.splits option.splits)

lemma created_state: "map_of (ps_states ps) wp = None \<Longrightarrow> state_of ps wp = no_state"
  by (simp add: state_of_def go_get_def)

lemma applyEvent_accepted:
  assumes "state_of (applyEvent codec ps e) wp = WorkPackageAccepted" "state_of ps wp \<noteq> WorkPackageAccepted"
  shows "we_EventType e = EventWorkAccepted \<and> we_WorkPackageID e = wp \<and> state_of ps wp = WorkPackageReview \<and> approved_of ps wp"
  using assms
  by (auto simp: applyEvent_def Let_def state_of_def ValidWorkPackageTransition_def
      split: EventType.splits option.splits if_splits WorkPackageState.splits)

lemma applyEvent_approved:
  assumes "approved_of (applyEvent codec ps e) wp" "approved_of ps wp \<Longrightarrow> state_of ps wp \<in> {WorkPackageReview, WorkPackageAccepted}"
  shows "state_of (applyEvent codec ps e) wp = WorkPackageAccepted \<or>
    (state_of (applyEvent codec ps e) wp = WorkPackageReview \<and>
     (approved_of ps wp \<and> state_of ps wp = WorkPackageReview \<or> approving codec wp e \<and> state_of ps wp = WorkPackageReview))"
proof (cases "we_WorkPackageID e = wp")
  case True
  show ?thesis
  proof (cases "we_EventType e")
    case EventWorkPackageStateChanged
    then show ?thesis using assms True
      by (auto simp: applyEvent_def Let_def state_of_def approved_of_def ValidWorkPackageTransition_def
          split: option.splits if_splits WorkPackageState.splits)
  next
    case EventReviewRecorded
    then show ?thesis using assms True
      by (auto simp: applyEvent_def Let_def state_of_def approved_of_def approving_def split: option.splits if_splits)
  next
    case EventWorkPackageCreated
    then show ?thesis using assms created_state [of ps wp] True
      by (auto simp: applyEvent_def Let_def approved_of_def split: if_splits)
  qed (use assms True in \<open>auto simp: applyEvent_def Let_def state_of_def approved_of_def split: if_splits\<close>)
next
  case False
  then show ?thesis using assms by (auto simp: applyEvent_other)
qed

text \<open>The history holds an approval of the package, which has been in review ever since.\<close>

definition approved_since :: "payload_codec \<Rightarrow> string \<Rightarrow> WorkEvent list \<Rightarrow> bool" where
  "approved_since codec wp events \<longleftrightarrow>
     (\<exists>before review between. events = before @ review # between \<and> approving codec wp review \<and>
        (\<forall>k \<le> length between. state_of (package_states codec (before @ review # take k between)) wp = WorkPackageReview))"

lemma take_snoc_all:
  assumes "\<forall>k \<le> length xs. P (take k xs)" "P (xs @ [e])"
  shows "\<forall>k \<le> length (xs @ [e]). P (take k (xs @ [e]))"
  using assms by (auto simp: le_Suc_eq)

lemma approved_since_snoc:
  assumes "approved_since codec wp events" "state_of (package_states codec (events @ [e])) wp = WorkPackageReview"
  shows "approved_since codec wp (events @ [e])"
proof -
  obtain before review between where h: "events = before @ review # between" "approving codec wp review"
    "\<forall>k \<le> length between. state_of (package_states codec (before @ review # take k between)) wp = WorkPackageReview"
    using assms(1) unfolding approved_since_def by blast
  show ?thesis unfolding approved_since_def h(1)
    using take_snoc_all [where P = "\<lambda>es. state_of (package_states codec (before @ review # es)) wp = WorkPackageReview", OF h(3)]
      h(2) assms(2) [unfolded h(1)]
    by (intro exI [of _ before] exI [of _ review] exI [of _ "between @ [e]"]) simp
qed

lemma approved_history:
  "approved_of (package_states codec events) wp \<Longrightarrow>
     state_of (package_states codec events) wp = WorkPackageAccepted \<or>
     state_of (package_states codec events) wp = WorkPackageReview \<and> approved_since codec wp events"
proof (induction events rule: rev_induct)
  case (snoc e events)
  let ?ps = "package_states codec events"
  have cases: "state_of (applyEvent codec ?ps e) wp = WorkPackageAccepted \<or>
    (state_of (applyEvent codec ?ps e) wp = WorkPackageReview \<and>
     (approved_of ?ps wp \<and> state_of ?ps wp = WorkPackageReview \<or> approving codec wp e \<and> state_of ?ps wp = WorkPackageReview))"
    using applyEvent_approved [of codec ?ps e wp] snoc by (auto simp: package_states_snoc)
  show ?case
  proof (cases "state_of (applyEvent codec ?ps e) wp = WorkPackageAccepted")
    case False
    then have review: "state_of (package_states codec (events @ [e])) wp = WorkPackageReview"
      using cases by (simp add: package_states_snoc)
    have "approved_since codec wp (events @ [e])" if "approving codec wp e"
      unfolding approved_since_def using that review by (intro exI [of _ events] exI [of _ e] exI [of _ "[]"]) simp
    moreover have "approved_since codec wp (events @ [e])" if "approved_of ?ps wp" "state_of ?ps wp = WorkPackageReview"
      using snoc.IH [OF that(1)] that(2) approved_since_snoc [OF _ review] by auto
    ultimately show ?thesis using cases False review by blast
  qed (simp add: package_states_snoc)
qed simp

lemma applyEvent_keeps_accepted:
  assumes "state_of ps wp = WorkPackageAccepted"
  shows "state_of (applyEvent codec ps e) wp = WorkPackageAccepted"
proof (cases "we_WorkPackageID e = wp")
  case True
  have "map_of (ps_states ps) wp \<noteq> None" using assms created_state [of ps wp] by auto
  then show ?thesis using assms True
    by (cases "we_EventType e") (auto simp: applyEvent_def Let_def ValidWorkPackageTransition_def state_of_def split: option.splits)
qed (simp add: applyEvent_other assms)

lemma accepted_history:
  "state_of (package_states codec events) wp = WorkPackageAccepted \<Longrightarrow>
   \<exists>before accept after. events = before @ accept # after \<and> we_EventType accept = EventWorkAccepted \<and>
     we_WorkPackageID accept = wp \<and> approved_since codec wp before \<and>
     (\<forall>k \<le> length after. state_of (package_states codec (before @ accept # take k after)) wp = WorkPackageAccepted)"
proof (induction events rule: rev_induct)
  case (snoc e events)
  show ?case
  proof (cases "state_of (package_states codec events) wp = WorkPackageAccepted")
    case True
    with snoc.IH obtain before accept after where h: "events = before @ accept # after"
      "we_EventType accept = EventWorkAccepted" "we_WorkPackageID accept = wp" "approved_since codec wp before"
      "\<forall>k \<le> length after. state_of (package_states codec (before @ accept # take k after)) wp = WorkPackageAccepted" by blast
    show ?thesis
      using take_snoc_all [where P = "\<lambda>es. state_of (package_states codec (before @ accept # es)) wp = WorkPackageAccepted", OF h(5)]
        snoc.prems h
      by (intro exI [of _ before] exI [of _ accept] exI [of _ "after @ [e]"]) simp
  next
    case False
    let ?ps = "package_states codec events"
    have e: "we_EventType e = EventWorkAccepted" "we_WorkPackageID e = wp" "state_of ?ps wp = WorkPackageReview" "approved_of ?ps wp"
      using applyEvent_accepted [of codec ?ps e wp] snoc.prems False by (simp_all add: package_states_snoc)
    then have "approved_since codec wp events" using approved_history [OF e(4)] by simp
    then show ?thesis using e(1,2) snoc.prems by (intro exI [of _ events] exI [of _ e] exI [of _ "[]"]) simp
  qed
qed simp

section \<open>Example data\<close>

definition example_header :: "string \<Rightarrow> RecordHeader" where
  "example_header recordID = \<lparr> hdr_Schema = \<lparr> sv_Family = [], sv_Major = 1, sv_Minor = 4 \<rparr>, hdr_RecordKind = RecordWorkPackage,
     hdr_RecordID = recordID, hdr_ProjectID = ''p'', hdr_Integrity = \<lparr> int_Algorithm = [], int_Digest = [] \<rparr> \<rparr>"

definition example_producer :: Producer where
  "example_producer = \<lparr> prod_WorkerID = [], prod_DeviceID = ''d'', prod_Trade = [], prod_Specialization = [],
     prod_Provider = [], prod_Model = [], prod_ModelVersion = [] \<rparr>"

definition example_provenance :: Provenance where
  "example_provenance = \<lparr> prov_Producer = example_producer, prov_WorkPackageID = [], prov_ExecutionID = [],
     prov_SourceArtifactIDs = [], prov_ProjectVersion = [], prov_ContextVersion = [], prov_InstructionVersion = [], prov_CreatedAt = 1 \<rparr>"

definition example_package :: "string \<Rightarrow> string list \<Rightarrow> GraphDefinition" where
  "example_package wp deps = \<lparr> gd_Record = \<lparr> wpd_Header = example_header wp, wpd_WorkPackageID = wp, wpd_Objective = [],
     wpd_Trade = [], wpd_Specialization = [], wpd_Scope = \<lparr> ws_Allowed = [], ws_Inspect = [], ws_Forbidden = [] \<rparr>,
     wpd_Dependencies = deps, wpd_Deliverables = [], wpd_AcceptanceCriteria = [], wpd_ReviewRequired = True,
     wpd_TaskID = ''t'', wpd_TaskRevision = 1, wpd_GraphRevision = 1, wpd_Priority = TaskPriorityNormal, wpd_Risk = [],
     wpd_Resources = None, wpd_QualityGates = [], wpd_TradeReference = None, wpd_CreatedAt = 1,
     wpd_Provenance = example_provenance \<rparr>, gd_RecordDigest = [], gd_RecordPath = [] \<rparr>"

definition example_graph :: Graph where
  "example_graph = \<lparr>
     g_Task = \<lparr> task_Header = example_header ''task'', task_TaskID = ''t'', task_Revision = 1, task_Predecessor = None,
       task_Objective = [], task_Priority = TaskPriorityNormal, task_Risk = [], task_Resources = None, task_GraphRevision = 1,
       task_QualityGates = [], task_CreatedAt = 1, task_Provenance = example_provenance \<rparr>,
     g_Revision = \<lparr> dgr_Header = example_header ''graph'', dgr_TaskID = ''t'', dgr_TaskRevision = 1, dgr_Revision = 1,
       dgr_Predecessor = None,
       dgr_Members = map (\<lambda>wp. \<lparr> dgm_WorkPackageID = wp, dgm_DefinitionRecordID = wp, dgm_DefinitionDigest = [] \<rparr>) [''b'', ''a''],
       dgr_DependencySetDigest = ''h'', dgr_Barriers = [], dgr_CreatedAt = 1, dgr_Provenance = example_provenance \<rparr>,
     g_Definitions = [(''a'', example_package ''a'' []), (''b'', example_package ''b'' [''a''])] \<rparr>"

definition example_event :: "string \<Rightarrow> EventType \<Rightarrow> string \<Rightarrow> string \<Rightarrow> time \<Rightarrow> GraphEvent" where
  "example_event recordID type wp payload at = \<lparr> ge_Record = \<lparr> we_Header = example_header recordID, we_EventType = type,
     we_OccurredAt = at, we_WorkPackageID = wp, we_ExecutionID = [], we_Producer = example_producer, we_CausationID = [],
     we_Correlation = None, we_Payload = payload \<rparr>, ge_RecordDigest = [] \<rparr>"

definition example_codec :: payload_codec where
  "example_codec = \<lparr>
     state_changed = (\<lambda>s.
       if s = ''ready'' then Some \<lparr> wsc_From = WorkPackagePlanned, wsc_To = WorkPackageReady, wsc_ReasonCode = [] \<rparr>
       else if s = ''start'' then Some \<lparr> wsc_From = WorkPackageReady, wsc_To = WorkPackageInProgress, wsc_ReasonCode = [] \<rparr>
       else if s = ''submit'' then Some \<lparr> wsc_From = WorkPackageInProgress, wsc_To = WorkPackageReview, wsc_ReasonCode = [] \<rparr>
       else None),
     review_recorded = (\<lambda>s. if s = ''approve'' then Some \<lparr> rrp_Outcome = ReviewApproved, rrp_ReviewerID = [], rrp_Summary = [] \<rparr>
       else None) \<rparr>"

definition example_history :: "GraphEvent list" where
  "example_history =
     [example_event ''7'' EventWorkPackageCreated ''b'' [] 1, example_event ''6'' EventWorkAccepted ''a'' [] 5,
      example_event ''1'' EventWorkPackageCreated ''a'' [] 1, example_event ''2'' EventWorkPackageStateChanged ''a'' ''ready'' 2,
      example_event ''3'' EventWorkPackageStateChanged ''a'' ''start'' 3, example_event ''4'' EventWorkPackageStateChanged ''a'' ''submit'' 4,
      example_event ''5'' EventReviewRecorded ''a'' ''approve'' 4]"

lemma example_graph_ok: "ValidateGraph (\<lambda>_. ''h'') example_graph = ok"
  by code_simp

lemma example_readiness:
  "\<exists>s. ReduceReadiness (\<lambda>_. ''h'') example_codec example_graph example_history = Inr s \<and> sn_ParallelReady s = [''b''] \<and>
     sn_State s = ReadinessReady"
proof -
  have "(case ReduceReadiness (\<lambda>_. ''h'') example_codec example_graph example_history of
      Inl _ \<Rightarrow> False | Inr s \<Rightarrow> sn_ParallelReady s = [''b''] \<and> sn_State s = ReadinessReady)"
    by code_simp
  then show ?thesis by (simp split: sum.splits)
qed

lemma example_canonical:
  "\<exists>s. ReduceReadiness (\<lambda>_. ''h'') example_codec example_graph example_history = Inr s \<and>
     map nr_CanonicalState (sn_Nodes s) = [WorkPackagePlanned, WorkPackageAccepted]"
proof -
  have "(case ReduceReadiness (\<lambda>_. ''h'') example_codec example_graph example_history of
      Inl _ \<Rightarrow> False | Inr s \<Rightarrow> map nr_CanonicalState (sn_Nodes s) = [WorkPackagePlanned, WorkPackageAccepted])"
    by code_simp
  then show ?thesis by (simp split: sum.splits)
qed

section \<open>Properties\<close>

text \<open>
  C8. Readiness of a valid graph. The traversal of a graph that validates always ends with a snapshot,
  one node per member in the order of the graph. A package is ready exactly when it was created, is
  neither under way nor finished, and every dependency is accepted; the list for parallel dispatch
  is sorted, free of repetitions and holds exactly the ready packages; the task is accepted
  exactly when every package is.
\<close>

theorem ReduceReadiness_ready:
  assumes "ValidateGraph hex_sha256 g = ok"
  shows "\<exists>s. ReduceReadiness hex_sha256 codec g events = Inr s \<and> map nr_WorkPackageID (sn_Nodes s) = member_ids g \<and>
    (\<forall>n\<in>set (sn_Nodes s).
       nr_CanonicalState n = state_of (package_states codec (map ge_Record (graph_events g events))) (nr_WorkPackageID n) \<and>
       (nr_State n = ReadinessReady \<longleftrightarrow> startable (nr_CanonicalState n) \<and>
          (\<forall>d\<in>set (dependencies_of (g_Definitions g) (nr_WorkPackageID n)).
             \<exists>m\<in>set (sn_Nodes s). nr_WorkPackageID m = d \<and> nr_CanonicalState m = WorkPackageAccepted))) \<and>
    sorted (sn_ParallelReady s) \<and> distinct (sn_ParallelReady s) \<and>
    set (sn_ParallelReady s) = {nr_WorkPackageID n |n. n \<in> set (sn_Nodes s) \<and> nr_State n = ReadinessReady} \<and>
    (sn_State s = ReadinessAccepted \<longleftrightarrow> (\<forall>n\<in>set (sn_Nodes s). nr_CanonicalState n = WorkPackageAccepted))"
proof -
  let ?ps = "package_states codec (map ge_Record (graph_events g events))" and ?ms = "member_ids g"
  obtain s nodes where s: "ReduceReadiness hex_sha256 codec g events = Inr s"
    "sn_Nodes s = map (\<lambda>wp. readiness_node g ?ps nodes wp) ?ms"
    "\<forall>wp\<in>set ?ms. map_of nodes wp = Some (readiness_node g ?ps nodes wp)"
    "sn_ParallelReady s = sort (map nr_WorkPackageID (filter (\<lambda>n. nr_State n = ReadinessReady) (sn_Nodes s)))"
    "sn_State s = fst (summarizeTask (sn_Nodes s))"
    using ReduceReadiness_nodes [OF assms, of codec events] by blast
  have ok: "distinct ?ms" "\<forall>wp\<in>set ?ms. set (dependencies_of (g_Definitions g) wp) \<subseteq> set ?ms"
    using assms by (auto simp: ValidateGraph_iff graph_ok_def list_all_iff edges_ok_def)
  have ids: "map nr_WorkPackageID (sn_Nodes s) = ?ms" by (simp add: s(2) readiness_node_fields comp_def)
  have accepted: "nr_State n = ReadinessAccepted \<longleftrightarrow> nr_CanonicalState n = WorkPackageAccepted" if "n \<in> set (sn_Nodes s)" for n
    using that by (auto simp: s(2) readiness_node_fields reduce_state_accepted)
  note ready = readiness_node_ready [OF s(3) _ ok(2)]
  have dep: "(\<exists>m\<in>set (sn_Nodes s). nr_WorkPackageID m = d \<and> nr_CanonicalState m = WorkPackageAccepted) \<longleftrightarrow>
      d \<in> set ?ms \<and> state_of ?ps d = WorkPackageAccepted" for d
    by (auto simp: s(2) readiness_node_fields)
  have nodes: "\<forall>n\<in>set (sn_Nodes s). nr_CanonicalState n = state_of ?ps (nr_WorkPackageID n) \<and>
      (nr_State n = ReadinessReady \<longleftrightarrow> startable (nr_CanonicalState n) \<and>
         (\<forall>d\<in>set (dependencies_of (g_Definitions g) (nr_WorkPackageID n)).
            \<exists>m\<in>set (sn_Nodes s). nr_WorkPackageID m = d \<and> nr_CanonicalState m = WorkPackageAccepted))"
    unfolding dep using ready ok(2) by (auto simp: s(2) readiness_node_fields(1-3))
  have "distinct (map nr_WorkPackageID (sn_Nodes s))" using ids ok(1) by simp
  then have "distinct (sn_ParallelReady s)" unfolding s(4) by (simp add: distinct_map_filter)
  moreover have "set (sn_ParallelReady s) = {nr_WorkPackageID n |n. n \<in> set (sn_Nodes s) \<and> nr_State n = ReadinessReady}"
    unfolding s(4) by auto
  moreover have "sn_State s = ReadinessAccepted \<longleftrightarrow> (\<forall>n\<in>set (sn_Nodes s). nr_CanonicalState n = WorkPackageAccepted)"
    unfolding s(5) summarizeTask_accepted using accepted by blast
  ultimately show ?thesis using s(1,4) ids nodes by (intro exI [of _ s]) simp
qed

theorem ReduceReadiness_ready_witness:
  "\<exists>s. ReduceReadiness (\<lambda>_. ''h'') example_codec example_graph example_history = Inr s \<and>
     map nr_WorkPackageID (sn_Nodes s) = [''b'', ''a''] \<and> sn_ParallelReady s = [''b''] \<and> sn_State s \<noteq> ReadinessAccepted"
proof -
  obtain s where s: "ReduceReadiness (\<lambda>_. ''h'') example_codec example_graph example_history = Inr s"
    "sn_ParallelReady s = [''b'']" "sn_State s = ReadinessReady"
    using example_readiness by blast
  moreover obtain t where "ReduceReadiness (\<lambda>_. ''h'') example_codec example_graph example_history = Inr t"
    "map nr_WorkPackageID (sn_Nodes t) = member_ids example_graph"
    using ReduceReadiness_ready [OF example_graph_ok, of example_codec example_history] by blast
  moreover have "member_ids example_graph = [''b'', ''a'']" by (simp add: member_ids_def example_graph_def)
  ultimately show ?thesis by (intro exI [of _ s]) simp
qed

text \<open>
  C21. No deadlock. While some package of the graph is not accepted, and every package was created and
  is planned, ready or accepted, at least one package is ready for dispatch.
\<close>

theorem readiness_progress:
  assumes "ReduceReadiness hex_sha256 codec g events = Inr s"
    and "\<forall>n\<in>set (sn_Nodes s). nr_CanonicalState n \<in> {WorkPackagePlanned, WorkPackageReady, WorkPackageAccepted}"
    and "\<exists>n\<in>set (sn_Nodes s). nr_CanonicalState n \<noteq> WorkPackageAccepted"
  shows "sn_ParallelReady s \<noteq> []"
proof -
  let ?ps = "package_states codec (map ge_Record (graph_events g events))" and ?ms = "member_ids g"
  have valid: "ValidateGraph hex_sha256 g = ok" using assms(1) by (auto simp: ReduceReadiness_def rbind_eq_Inr)
  obtain t nodes where t: "ReduceReadiness hex_sha256 codec g events = Inr t"
    "sn_Nodes t = map (\<lambda>wp. readiness_node g ?ps nodes wp) ?ms"
    "\<forall>wp\<in>set ?ms. map_of nodes wp = Some (readiness_node g ?ps nodes wp)"
    "sn_ParallelReady t = sort (map nr_WorkPackageID (filter (\<lambda>n. nr_State n = ReadinessReady) (sn_Nodes t)))"
    using ReduceReadiness_nodes [OF valid, of codec events] by blast
  have "t = s" using t(1) assms(1) by simp
  note s = t(2-4) [unfolded this]
  note wf = valid_graph_wf(1) [OF valid] and deps = valid_graph_wf(2) [OF valid]
  obtain x where x: "x \<in> {wp \<in> set ?ms. state_of ?ps wp \<noteq> WorkPackageAccepted}"
    using assms(3) by (auto simp: s(1) readiness_node_fields)
  from wf_least [OF wf x] obtain z where z: "z \<in> set ?ms" "state_of ?ps z \<noteq> WorkPackageAccepted"
    "\<forall>y. (y, z) \<in> graph_edges g \<longrightarrow> y \<notin> {wp \<in> set ?ms. state_of ?ps wp \<noteq> WorkPackageAccepted}" by auto
  then have "\<forall>d\<in>set (dependencies_of (g_Definitions g) z). state_of ?ps d = WorkPackageAccepted"
    using deps by (auto simp: graph_edges_def)
  moreover have "startable (state_of ?ps z)" using assms(2) z(1,2) by (auto simp: s(1) readiness_node_fields startable_def)
  ultimately have "nr_State (readiness_node g ?ps nodes z) = ReadinessReady"
    using readiness_node_ready [OF s(2) z(1) deps] by simp
  then have "z \<in> set (sn_ParallelReady s)" using z(1) by (force simp: s(1,3) readiness_node_fields(1))
  then show ?thesis by auto
qed

theorem readiness_progress_witness:
  "\<exists>s. ReduceReadiness (\<lambda>_. ''h'') example_codec example_graph example_history = Inr s \<and> sn_ParallelReady s \<noteq> []"
proof -
  obtain s where s: "ReduceReadiness (\<lambda>_. ''h'') example_codec example_graph example_history = Inr s"
    "map nr_CanonicalState (sn_Nodes s) = [WorkPackagePlanned, WorkPackageAccepted]"
    using example_canonical by (elim exE conjE) (rule that)
  obtain x y where "sn_Nodes s = [x, y]" "nr_CanonicalState x = WorkPackagePlanned" "nr_CanonicalState y = WorkPackageAccepted"
    using s(2) by (auto simp: map_eq_Cons_conv)
  then have c: "\<forall>n\<in>set (sn_Nodes s). nr_CanonicalState n \<in> {WorkPackagePlanned, WorkPackageReady, WorkPackageAccepted}"
    "\<exists>n\<in>set (sn_Nodes s). nr_CanonicalState n \<noteq> WorkPackageAccepted" by simp_all
  show ?thesis by (intro exI [of _ s] conjI s(1) readiness_progress [OF s(1) c])
qed

text \<open>
  C14. Work is accepted only after an approving review, and acceptance is final. When a package is
  accepted after a history, the history holds an acceptance of it; before that there is an approval of
  it recorded while it was in review, and it stayed in review from the approval to the acceptance, so
  that the approval is not of an earlier submission; and it stays accepted from then on.
\<close>

theorem accepted_after_review:
  assumes "state_of (package_states codec events) wp = WorkPackageAccepted"
  shows "\<exists>before accept after. events = before @ accept # after \<and> we_EventType accept = EventWorkAccepted \<and>
    we_WorkPackageID accept = wp \<and>
    (\<exists>earlier review between. before = earlier @ review # between \<and> we_EventType review = EventReviewRecorded \<and>
       we_WorkPackageID review = wp \<and> map_option rrp_Outcome (review_recorded codec (we_Payload review)) = Some ReviewApproved \<and>
       (\<forall>k \<le> length between. state_of (package_states codec (earlier @ review # take k between)) wp = WorkPackageReview)) \<and>
    (\<forall>k \<le> length after. state_of (package_states codec (before @ accept # take k after)) wp = WorkPackageAccepted)"
proof -
  have unfold: "approved_since codec wp before \<longleftrightarrow>
    (\<exists>earlier review between. before = earlier @ review # between \<and> we_EventType review = EventReviewRecorded \<and>
       we_WorkPackageID review = wp \<and> map_option rrp_Outcome (review_recorded codec (we_Payload review)) = Some ReviewApproved \<and>
       (\<forall>k \<le> length between. state_of (package_states codec (earlier @ review # take k between)) wp = WorkPackageReview))" for before
    by (simp only: approved_since_def approving_iff conj_assoc)
  show ?thesis unfolding unfold [symmetric] by (rule accepted_history [OF assms])
qed

theorem accepted_after_review_witness:
  "\<exists>review\<in>set example_history. approving example_codec ''a'' (ge_Record review)"
proof -
  let ?events = "map ge_Record (graph_events example_graph example_history)"
  have "state_of (package_states example_codec ?events) ''a'' = WorkPackageAccepted" by code_simp
  from accepted_after_review [OF this] obtain before accept after earlier review between where
    "?events = before @ accept # after" "before = earlier @ review # between" "we_EventType review = EventReviewRecorded"
    "we_WorkPackageID review = ''a''" "map_option rrp_Outcome (review_recorded example_codec (we_Payload review)) = Some ReviewApproved"
    by (elim exE conjE) (rule that)
  then have "review \<in> set ?events" "approving example_codec ''a'' review" by (simp_all only: approving_iff set_append set_simps) simp
  moreover have "set (graph_events example_graph example_history) \<subseteq> set example_history"
    by (auto simp: graph_events_def sort_events_def)
  ultimately show ?thesis by auto
qed

end
