(* ===== verification/Assignment_Store.thy ===== *)
theory Assignment_Store
  imports Sync_Store
begin

text \<open>
  The durable state of orchestration assignments, src/internal/storage/orchestration_control.go and
  src/internal/storage/sqlite/orchestration_control.go: assignments with their attempts, leases, resource
  and contract bindings, gates, operator decisions, recorded operations and audit events. The
  constraints of the schema (src/internal/storage/migrations.go, versions 14 and 15) are errors, or make
  an \<open>INSERT OR IGNORE\<close> do nothing. \<open>now\<close> is the clock that \<open>formatTime\<close> reads for the zero time;
  \<open>json.Valid\<close> and the digest of recovery audit identifiers are arguments.
\<close>

section \<open>src/internal/storage/orchestration\_control.go\<close>

datatype AssignmentState =
  AssignmentPlanned | AssignmentLeased | AssignmentPreparing | AssignmentRunning | AssignmentPaused | AssignmentCollecting
| AssignmentAwaitingGates | AssignmentAccepted | AssignmentFailed | AssignmentCanceled | AssignmentExpired
| AssignmentStateOther string

datatype RecoveryDisposition = RecoveryNone | RecoveryResume | RecoveryReconcile | RecoveryNeedsOperator | RecoveryOther string

datatype LeaseState = LeaseActive | LeaseReleased | LeaseExpired

datatype GateState = GatePending | GateSatisfied | GateFailed | GateWaived | GateStateOther string

record OrchestrationAssignment =
  oa_AssignmentID :: string
  oa_ProjectID :: string
  oa_TaskID :: string
  oa_TaskRevision :: int
  oa_GraphRevision :: int
  oa_WorkPackageID :: string
  oa_ExecutionID :: string
  oa_ContractID :: string
  oa_ContractVersion :: int
  oa_ContractDigest :: string
  oa_WorkerID :: string
  oa_NodeID :: string
  oa_State :: AssignmentState
  oa_CurrentAttemptID :: string
  oa_CurrentAttempt :: int
  oa_IdempotencyDigest :: string
  oa_RecoveryDisposition :: RecoveryDisposition
  oa_FailureCode :: string
  oa_CreatedAt :: time
  oa_UpdatedAt :: time

record OrchestrationAttempt =
  ot_AttemptID :: string
  ot_AssignmentID :: string
  ot_ProjectID :: string
  ot_WorkPackageID :: string
  ot_ExecutionID :: string
  ot_AttemptNumber :: int
  ot_SupersedesAttemptID :: string
  ot_State :: AssignmentState
  ot_LeaseGeneration :: int
  ot_RuntimeSessionID :: string
  ot_WorkspaceID :: string
  ot_IdempotencyDigest :: string
  ot_RecoveryDisposition :: RecoveryDisposition
  ot_FailureCode :: string
  ot_CreatedAt :: time
  ot_UpdatedAt :: time

record OrchestrationLease =
  ol_LeaseID :: string
  ol_AssignmentID :: string
  ol_AttemptID :: string
  ol_Generation :: int
  ol_OwnerNodeID :: string
  ol_OwnerRuntime :: string
  ol_FencingDigest :: string
  ol_State :: LeaseState
  ol_AcquiredAt :: time
  ol_HeartbeatAt :: time
  ol_ExpiresAt :: time
  ol_ReleasedAt :: time

record OrchestrationResourceBinding =
  orb_AttemptID :: string
  orb_LeaseGeneration :: int
  orb_RuntimeSessionID :: string
  orb_RuntimeResumeKey :: string
  orb_RuntimeState :: string
  orb_WorkspaceID :: string
  orb_WorkspaceGeneration :: int
  orb_WorkspaceState :: string
  orb_UpdatedAt :: time

record OrchestrationAttemptBinding =
  oab_AttemptID :: string
  oab_ContractID :: string
  oab_ContractVersion :: int
  oab_ContractDigest :: string
  oab_ContextDigest :: string
  oab_ContextCompilerVersion :: string
  oab_BindingDigest :: string
  oab_BindingJSON :: string
  oab_CreatedAt :: time

record OrchestrationGateStatus =
  og_AssignmentID :: string
  og_AttemptID :: string
  og_GateID :: string
  og_GateVersion :: int
  og_GateDigest :: string
  og_Status :: GateState
  og_EvidenceID :: string
  og_ReasonCode :: string
  og_UpdatedAt :: time

record OrchestrationOperatorDecision =
  od_DecisionID :: string
  od_AssignmentID :: string
  od_AttemptID :: string
  od_Decision :: string
  od_ReasonCode :: string
  od_ActorID :: string
  od_IdempotencyDigest :: string
  od_DecidedAt :: time

record OrchestrationAuditEvent =
  oe_AuditID :: string
  oe_AssignmentID :: string
  oe_AttemptID :: string
  oe_Action :: string
  oe_FromState :: AssignmentState
  oe_ToState :: AssignmentState
  oe_ReasonCode :: string
  oe_ActorID :: string
  oe_LeaseGeneration :: int
  oe_OccurredAt :: time

record OrchestrationSnapshot =
  os_Assignment :: OrchestrationAssignment
  os_Attempt :: OrchestrationAttempt
  os_Lease :: "OrchestrationLease option"
  os_Resources :: "OrchestrationResourceBinding option"
  os_Binding :: "OrchestrationAttemptBinding option"
  os_Gates :: "OrchestrationGateStatus list"
  os_Decisions :: "OrchestrationOperatorDecision list"

record OrchestrationWriteResult =
  ow_AlreadyPresent :: bool
  ow_Snapshot :: OrchestrationSnapshot

record OrchestrationPlanRequest =
  opr_Assignment :: OrchestrationAssignment
  opr_Attempt :: OrchestrationAttempt
  opr_Binding :: OrchestrationAttemptBinding
  opr_OperationID :: string
  opr_OperationDigest :: string
  opr_Audit :: OrchestrationAuditEvent

record OrchestrationClaimRequest =
  ocr_AssignmentID :: string
  ocr_AttemptID :: string
  ocr_ExpectedState :: AssignmentState
  ocr_Lease :: OrchestrationLease
  ocr_OperationID :: string
  ocr_OperationDigest :: string
  ocr_Audit :: OrchestrationAuditEvent

record OrchestrationTransitionRequest =
  otr_AssignmentID :: string
  otr_AttemptID :: string
  otr_ExpectedState :: AssignmentState
  otr_TargetState :: AssignmentState
  otr_LeaseGeneration :: int
  otr_FencingDigest :: string
  otr_FailureCode :: string
  otr_Recovery :: RecoveryDisposition
  otr_OperationID :: string
  otr_OperationDigest :: string
  otr_UpdatedAt :: time
  otr_Audit :: OrchestrationAuditEvent

record OrchestrationResourceRequest =
  osr_AssignmentID :: string
  osr_AttemptID :: string
  osr_ExpectedState :: AssignmentState
  osr_LeaseGeneration :: int
  osr_FencingDigest :: string
  osr_Resources :: OrchestrationResourceBinding
  osr_OperationID :: string
  osr_OperationDigest :: string
  osr_Audit :: OrchestrationAuditEvent

record OrchestrationHeartbeatRequest =
  ohr_AssignmentID :: string
  ohr_AttemptID :: string
  ohr_LeaseID :: string
  ohr_LeaseGeneration :: int
  ohr_FencingDigest :: string
  ohr_HeartbeatAt :: time
  ohr_ExpiresAt :: time

record OrchestrationRetryRequest =
  ort_AssignmentID :: string
  ort_PreviousAttemptID :: string
  ort_WorkerID :: string
  ort_Attempt :: OrchestrationAttempt
  ort_OperationID :: string
  ort_OperationDigest :: string
  ort_Audit :: OrchestrationAuditEvent

section \<open>The tables\<close>

record OperationRow =
  opn_OperationID :: string
  opn_OperationDigest :: string
  opn_AssignmentID :: string
  opn_AttemptID :: string
  opn_ResultingState :: AssignmentState
  opn_OccurredAt :: time

record OCDB =
  oc_projects :: "string list"
  oc_assignments :: "OrchestrationAssignment list"
  oc_attempts :: "OrchestrationAttempt list"
  oc_leases :: "OrchestrationLease list"
  oc_resources :: "OrchestrationResourceBinding list"
  oc_bindings :: "OrchestrationAttemptBinding list"
  oc_gates :: "OrchestrationGateStatus list"
  oc_decisions :: "OrchestrationOperatorDecision list"
  oc_operations :: "OperationRow list"
  oc_audit :: "OrchestrationAuditEvent list"

definition empty_ocdb :: "string list \<Rightarrow> OCDB" where
  "empty_ocdb projects = \<lparr> oc_projects = projects, oc_assignments = [], oc_attempts = [], oc_leases = [], oc_resources = [],
     oc_bindings = [], oc_gates = [], oc_decisions = [], oc_operations = [], oc_audit = [] \<rparr>"

definition valid_state :: "AssignmentState \<Rightarrow> bool" where
  "valid_state st = (case st of AssignmentStateOther _ \<Rightarrow> False | _ \<Rightarrow> True)"

definition valid_recovery :: "RecoveryDisposition \<Rightarrow> bool" where
  "valid_recovery r = (case r of RecoveryOther _ \<Rightarrow> False | _ \<Rightarrow> True)"

definition active_state :: "AssignmentState \<Rightarrow> bool" where
  "active_state st \<longleftrightarrow> st \<in> set [AssignmentPlanned, AssignmentLeased, AssignmentPreparing, AssignmentRunning, AssignmentPaused,
     AssignmentCollecting, AssignmentAwaitingGates]"

definition assignment_exists :: "OCDB \<Rightarrow> string \<Rightarrow> bool" where
  "assignment_exists db aid = row_exists oa_AssignmentID aid (oc_assignments db)"

definition attempt_exists :: "OCDB \<Rightarrow> string \<Rightarrow> bool" where
  "attempt_exists db tid = row_exists ot_AttemptID tid (oc_attempts db)"

text \<open>
  The constraints of each table, which SQLite checks on the rows that a statement would leave. A Go
  string is written as a text, never as NULL, in the columns that may not be NULL.
\<close>

definition work_key :: "OrchestrationAttempt \<Rightarrow> string \<times> string" where
  "work_key t = (ot_ProjectID t, ot_WorkPackageID t)"

definition assignments_ok :: "OrchestrationAssignment list \<Rightarrow> bool" where
  "assignments_ok rows \<longleftrightarrow> keys_distinct oa_AssignmentID rows \<and> keys_distinct (\<lambda>a. (oa_ProjectID a, oa_WorkPackageID a)) rows \<and>
     list_all (\<lambda>a. 0 < oa_TaskRevision a \<and> 0 < oa_GraphRevision a \<and> 0 < oa_ContractVersion a \<and> 0 < oa_CurrentAttempt a \<and>
       valid_state (oa_State a) \<and> valid_recovery (oa_RecoveryDisposition a)) rows"

definition attempts_ok :: "OCDB \<Rightarrow> OrchestrationAttempt list \<Rightarrow> bool" where
  "attempts_ok db rows \<longleftrightarrow> keys_distinct ot_AttemptID rows \<and> keys_distinct (\<lambda>t. (ot_AssignmentID t, ot_AttemptNumber t)) rows \<and>
     keys_distinct (\<lambda>t. (work_key t, ot_AttemptNumber t)) rows \<and> keys_distinct (\<lambda>t. (work_key t, ot_IdempotencyDigest t)) rows \<and>
     keys_distinct work_key (filter (\<lambda>t. active_state (ot_State t)) rows) \<and>
     list_all (\<lambda>t. 0 < ot_AttemptNumber t \<and> 0 \<le> ot_LeaseGeneration t \<and> valid_state (ot_State t) \<and>
       valid_recovery (ot_RecoveryDisposition t) \<and> assignment_exists db (ot_AssignmentID t) \<and>
       (ot_SupersedesAttemptID t = [] \<or> row_exists ot_AttemptID (ot_SupersedesAttemptID t) rows)) rows"

definition leases_ok :: "OCDB \<Rightarrow> OrchestrationLease list \<Rightarrow> bool" where
  "leases_ok db rows \<longleftrightarrow> keys_distinct ol_LeaseID rows \<and> keys_distinct (\<lambda>l. (ol_AttemptID l, ol_Generation l)) rows \<and>
     keys_distinct ol_AttemptID (filter (\<lambda>l. ol_State l = LeaseActive) rows) \<and>
     list_all (\<lambda>l. 0 < ol_Generation l \<and> assignment_exists db (ol_AssignmentID l) \<and> attempt_exists db (ol_AttemptID l)) rows"

definition resources_ok :: "OCDB \<Rightarrow> OrchestrationResourceBinding list \<Rightarrow> bool" where
  "resources_ok db rows \<longleftrightarrow> keys_distinct orb_AttemptID rows \<and>
     list_all (\<lambda>r. 0 < orb_LeaseGeneration r \<and> 0 < orb_WorkspaceGeneration r \<and> attempt_exists db (orb_AttemptID r) \<and>
       orb_RuntimeState r \<in> set [''preparing'', ''running'', ''paused'', ''stopped'', ''unknown''] \<and>
       orb_WorkspaceState r \<in> set [''allocated'', ''releasing'', ''released'', ''unknown'']) rows"

definition bindings_ok :: "OCDB \<Rightarrow> OrchestrationAttemptBinding list \<Rightarrow> bool" where
  "bindings_ok db rows \<longleftrightarrow> keys_distinct oab_AttemptID rows \<and> keys_distinct oab_BindingDigest rows \<and>
     list_all (\<lambda>b. 0 < oab_ContractVersion b \<and> oab_BindingJSON b \<noteq> [] \<and> int (length (oab_BindingJSON b)) \<le> 1048576 \<and>
       attempt_exists db (oab_AttemptID b)) rows"

definition gate_key :: "OrchestrationGateStatus \<Rightarrow> string \<times> string \<times> int" where
  "gate_key g = (og_AttemptID g, og_GateID g, og_GateVersion g)"

definition gates_ok :: "OCDB \<Rightarrow> OrchestrationGateStatus list \<Rightarrow> bool" where
  "gates_ok db rows \<longleftrightarrow> keys_distinct gate_key rows \<and>
     list_all (\<lambda>g. 0 < og_GateVersion g \<and> (case og_Status g of GateStateOther _ \<Rightarrow> False | _ \<Rightarrow> True) \<and>
       assignment_exists db (og_AssignmentID g) \<and> attempt_exists db (og_AttemptID g)) rows"

definition validOperatorDecision :: "string \<Rightarrow> bool" where
  "validOperatorDecision decision \<longleftrightarrow> decision \<in> set [''cancel'', ''retry'', ''accept'', ''gate_waive'', ''reconcile'']"

definition audit_ok :: "OCDB \<Rightarrow> OrchestrationAuditEvent list \<Rightarrow> bool" where
  "audit_ok db rows \<longleftrightarrow> keys_distinct oe_AuditID rows \<and>
     list_all (\<lambda>e. 0 \<le> oe_LeaseGeneration e \<and> assignment_exists db (oe_AssignmentID e) \<and> attempt_exists db (oe_AttemptID e)) rows"

definition constrained :: "bool \<Rightarrow> string \<Rightarrow> 'a \<Rightarrow> store_error + 'a" where
  "constrained b table x = (if b then Inr x else Inl (StoreConstraint table))"

section \<open>Reading\<close>

definition latest_lease :: "OCDB \<Rightarrow> string \<Rightarrow> OrchestrationLease option" where
  "latest_lease db tid =
     (case sort_key (\<lambda>l. - ol_Generation l) (filter (\<lambda>l. ol_AttemptID l = tid) (oc_leases db)) of [] \<Rightarrow> None | l # _ \<Rightarrow> Some l)"

definition orchestrationSnapshot :: "OCDB \<Rightarrow> string \<Rightarrow> store_error + OrchestrationSnapshot" where
  "orchestrationSnapshot db aid =
     (case row_lookup oa_AssignmentID aid (oc_assignments db) of
        None \<Rightarrow> Inl (StoreNotFound ''assignment'')
      | Some a \<Rightarrow>
          (case row_lookup ot_AttemptID (oa_CurrentAttemptID a) (oc_attempts db) of
             None \<Rightarrow> Inl (StoreInvalid ''no rows in result set'')
           | Some t \<Rightarrow>
               Inr \<lparr> os_Assignment = a, os_Attempt = t, os_Lease = latest_lease db (ot_AttemptID t),
                     os_Resources = row_lookup orb_AttemptID (ot_AttemptID t) (oc_resources db),
                     os_Binding = row_lookup oab_AttemptID (ot_AttemptID t) (oc_bindings db),
                     os_Gates = sort_key og_GateID (sort_key og_GateVersion
                       (filter (\<lambda>g. og_AttemptID g = ot_AttemptID t) (oc_gates db))),
                     os_Decisions = sort_key (\<lambda>d. FormatRFC3339Nano (od_DecidedAt d)) (sort_key od_DecisionID
                       (filter (\<lambda>d. od_AttemptID d = ot_AttemptID t) (oc_decisions db))) \<rparr>))"

definition orchestrationOperationReplay ::
  "OCDB \<Rightarrow> string \<Rightarrow> string \<Rightarrow> store_error + OrchestrationSnapshot option" where
  "orchestrationOperationReplay db operationID digest =
     (case row_lookup opn_OperationID operationID (oc_operations db) of
        None \<Rightarrow> Inr None
      | Some row \<Rightarrow>
          if opn_OperationDigest row \<noteq> digest then Inl (StoreConflict ''operation digest'')
          else rbind (orchestrationSnapshot db (opn_AssignmentID row)) (\<lambda>s. Inr (Some s)))"

definition fencedSnapshot ::
  "OCDB \<Rightarrow> string \<Rightarrow> string \<Rightarrow> AssignmentState \<Rightarrow> int \<Rightarrow> string \<Rightarrow> time \<Rightarrow> store_error + OrchestrationSnapshot" where
  "fencedSnapshot db aid tid state generation digest at =
     rbind (orchestrationSnapshot db aid) (\<lambda>s.
     if ot_AttemptID (os_Attempt s) \<noteq> tid \<or> ot_State (os_Attempt s) \<noteq> state \<or> ot_LeaseGeneration (os_Attempt s) \<noteq> generation \<or>
        (case os_Lease s of
           None \<Rightarrow> True
         | Some l \<Rightarrow> ol_Generation l \<noteq> generation \<or> ol_FencingDigest l \<noteq> digest \<or> ol_State l \<noteq> LeaseActive \<or> \<not> at < ol_ExpiresAt l)
     then Inl (StoreConflict ''stale orchestration fence'') else Inr s)"

section \<open>Writing\<close>

definition insertOrchestrationAttempt :: "time \<Rightarrow> OCDB \<Rightarrow> OrchestrationAttempt \<Rightarrow> store_error + OCDB" where
  "insertOrchestrationAttempt now db t =
     (let rows = oc_attempts db @ [t\<lparr>ot_CreatedAt := stored_time now (ot_CreatedAt t), ot_UpdatedAt := stored_time now (ot_UpdatedAt t)\<rparr>] in
      constrained (attempts_ok db rows) ''orchestration_attempts'' (db\<lparr>oc_attempts := rows\<rparr>))"

definition validProjectionHash :: "string \<Rightarrow> bool" where
  "validProjectionHash s \<longleftrightarrow> length s = 64 \<and> list_all (\<lambda>c. c \<in> set ''0123456789abcdef'') s"

definition validOrchestrationAttemptBinding :: "(string \<Rightarrow> bool) \<Rightarrow> OrchestrationAttemptBinding \<Rightarrow> bool" where
  "validOrchestrationAttemptBinding json_valid b \<longleftrightarrow>
     oab_AttemptID b \<noteq> [] \<and> oab_ContractID b \<noteq> [] \<and> 0 < oab_ContractVersion b \<and> validProjectionHash (oab_ContractDigest b) \<and>
     validProjectionHash (oab_ContextDigest b) \<and> oab_ContextCompilerVersion b \<noteq> [] \<and> validProjectionHash (oab_BindingDigest b) \<and>
     oab_BindingJSON b \<noteq> [] \<and> int (length (oab_BindingJSON b)) \<le> 1048576 \<and> json_valid (oab_BindingJSON b) \<and> oab_CreatedAt b \<noteq> 0"

definition insertOrchestrationAttemptBinding ::
  "(string \<Rightarrow> bool) \<Rightarrow> OCDB \<Rightarrow> OrchestrationAttemptBinding \<Rightarrow> store_error + OCDB" where
  "insertOrchestrationAttemptBinding json_valid db b =
     (if \<not> validOrchestrationAttemptBinding json_valid b then Inl (StoreConflict ''invalid orchestration attempt binding'')
      else constrained (bindings_ok db (oc_bindings db @ [b])) ''orchestration_attempt_bindings''
             (db\<lparr>oc_bindings := oc_bindings db @ [b]\<rparr>))"

definition updateAttemptState ::
  "time \<Rightarrow> OCDB \<Rightarrow> string \<Rightarrow> string \<Rightarrow> AssignmentState \<Rightarrow> AssignmentState \<Rightarrow> int \<Rightarrow> string \<Rightarrow> RecoveryDisposition \<Rightarrow> time \<Rightarrow>
   store_error + OCDB" where
  "updateAttemptState now db aid tid expected target generation failure recovery updatedAt =
     (let at = stored_time now updatedAt;
          sel = (\<lambda>t. ot_AttemptID t = tid \<and> ot_AssignmentID t = aid \<and> ot_State t = expected);
          rows = row_update sel (\<lambda>t. t\<lparr> ot_State := target, ot_LeaseGeneration := generation, ot_FailureCode := failure,
            ot_RecoveryDisposition := recovery, ot_UpdatedAt := at \<rparr>) (oc_attempts db);
          asel = (\<lambda>a. oa_AssignmentID a = aid \<and> oa_CurrentAttemptID a = tid \<and> oa_State a = expected);
          arows = row_update asel (\<lambda>a. a\<lparr> oa_State := target, oa_FailureCode := failure, oa_RecoveryDisposition := recovery,
            oa_UpdatedAt := at \<rparr>) (oc_assignments db) in
      rbind (constrained (attempts_ok db rows) ''orchestration_attempts'' ()) (\<lambda>_.
      if length (filter sel (oc_attempts db)) \<noteq> 1 then Inl (StoreConflict ''stale orchestration attempt state'')
      else
        rbind (constrained (assignments_ok arows) ''orchestration_assignments'' ()) (\<lambda>_.
        if length (filter asel (oc_assignments db)) \<noteq> 1 then Inl (StoreConflict ''stale orchestration assignment state'')
        else Inr (db\<lparr>oc_attempts := rows, oc_assignments := arows\<rparr>))))"

definition recordOrchestrationOperation ::
  "time \<Rightarrow> OCDB \<Rightarrow> string \<Rightarrow> string \<Rightarrow> string \<Rightarrow> string \<Rightarrow> AssignmentState \<Rightarrow> time \<Rightarrow> store_error + OCDB" where
  "recordOrchestrationOperation now db opID digest aid tid state at =
     constrained (\<not> row_exists opn_OperationID opID (oc_operations db)) ''orchestration_operations''
       (db\<lparr>oc_operations := oc_operations db @ [\<lparr> opn_OperationID = opID, opn_OperationDigest = digest, opn_AssignmentID = aid,
          opn_AttemptID = tid, opn_ResultingState = state, opn_OccurredAt = stored_time now at \<rparr>]\<rparr>)"

definition recordOrchestrationAudit :: "time \<Rightarrow> OCDB \<Rightarrow> OrchestrationAuditEvent \<Rightarrow> store_error + OCDB" where
  "recordOrchestrationAudit now db e =
     (let rows = oc_audit db @ [e\<lparr>oe_OccurredAt := stored_time now (oe_OccurredAt e)\<rparr>] in
      constrained (audit_ok db rows) ''orchestration_audit_events'' (db\<lparr>oc_audit := rows\<rparr>))"

section \<open>Operations\<close>

text \<open>Every control operation begins with the replay check and ends with the same records.\<close>

definition with_replay ::
  "OCDB \<Rightarrow> string \<Rightarrow> string \<Rightarrow> store_error + OCDB \<times> OrchestrationWriteResult \<Rightarrow> store_error + OCDB \<times> OrchestrationWriteResult" where
  "with_replay db operationID digest body =
     rbind (orchestrationOperationReplay db operationID digest) (\<lambda>replay.
     case replay of
       Some s \<Rightarrow> Inr (db, \<lparr> ow_AlreadyPresent = True, ow_Snapshot = s \<rparr>)
     | None \<Rightarrow> body)"

definition finish ::
  "time \<Rightarrow> OCDB \<Rightarrow> string \<Rightarrow> string \<Rightarrow> string \<Rightarrow> string \<Rightarrow> AssignmentState \<Rightarrow> time \<Rightarrow> OrchestrationAuditEvent \<Rightarrow>
   store_error + OCDB \<times> OrchestrationWriteResult" where
  "finish now db opID digest aid tid state at audit =
     rbind (recordOrchestrationOperation now db opID digest aid tid state at) (\<lambda>db.
     rbind (recordOrchestrationAudit now db audit) (\<lambda>db.
     rbind (orchestrationSnapshot db aid) (\<lambda>s.
     Inr (db, \<lparr> ow_AlreadyPresent = False, ow_Snapshot = s \<rparr>))))"

definition PlanAssignment ::
  "(string \<Rightarrow> bool) \<Rightarrow> time \<Rightarrow> OCDB \<Rightarrow> OrchestrationPlanRequest \<Rightarrow> store_error + OCDB \<times> OrchestrationWriteResult" where
  "PlanAssignment json_valid now db request =
     with_replay db (opr_OperationID request) (opr_OperationDigest request)
       (let a = opr_Assignment request; aid = oa_AssignmentID a;
            row = a\<lparr>oa_CreatedAt := stored_time now (oa_CreatedAt a), oa_UpdatedAt := stored_time now (oa_UpdatedAt a)\<rparr>;
            rows = oc_assignments db @ [row] in
        if \<not> assignments_ok rows
        then (case orchestrationSnapshot db aid of
                Inl _ \<Rightarrow> Inl (StoreConflict ''orchestration assignment already exists'')
              | Inr existing \<Rightarrow>
                  if oa_IdempotencyDigest (os_Assignment existing) \<noteq> oa_IdempotencyDigest a \<or>
                     oa_ContractDigest (os_Assignment existing) \<noteq> oa_ContractDigest a \<or>
                     oa_CurrentAttemptID (os_Assignment existing) \<noteq> oa_CurrentAttemptID a
                  then Inl (StoreConflict ''orchestration assignment already exists'')
                  else Inr (db, \<lparr> ow_AlreadyPresent = True, ow_Snapshot = existing \<rparr>))
        else
          rbind (constrained (oa_ProjectID a \<in> set (oc_projects db)) ''orchestration_assignments''
                   (db\<lparr>oc_assignments := rows\<rparr>)) (\<lambda>db.
          rbind (insertOrchestrationAttempt now db (opr_Attempt request)) (\<lambda>db.
          rbind (insertOrchestrationAttemptBinding json_valid db (opr_Binding request)) (\<lambda>db.
          finish now db (opr_OperationID request) (opr_OperationDigest request) aid (ot_AttemptID (opr_Attempt request))
            (oa_State a) (oa_CreatedAt a) (opr_Audit request)))))"

definition insert_lease :: "time \<Rightarrow> OCDB \<Rightarrow> OrchestrationLease \<Rightarrow> store_error + OCDB" where
  "insert_lease now db l =
     (let rows = oc_leases db @ [l\<lparr> ol_State := LeaseActive, ol_AcquiredAt := stored_time now (ol_AcquiredAt l),
            ol_HeartbeatAt := stored_time now (ol_HeartbeatAt l), ol_ExpiresAt := stored_time now (ol_ExpiresAt l), ol_ReleasedAt := 0 \<rparr>] in
      constrained (leases_ok db rows) ''orchestration_leases'' (db\<lparr>oc_leases := rows\<rparr>))"

definition ClaimAssignment ::
  "time \<Rightarrow> OCDB \<Rightarrow> OrchestrationClaimRequest \<Rightarrow> store_error + OCDB \<times> OrchestrationWriteResult" where
  "ClaimAssignment now db request =
     with_replay db (ocr_OperationID request) (ocr_OperationDigest request)
       (rbind (orchestrationSnapshot db (ocr_AssignmentID request)) (\<lambda>s.
        if ot_AttemptID (os_Attempt s) \<noteq> ocr_AttemptID request \<or> ot_State (os_Attempt s) \<noteq> ocr_ExpectedState request \<or>
           oa_CurrentAttemptID (os_Assignment s) \<noteq> ocr_AttemptID request
        then Inl (StoreConflict ''assignment is not claimable'')
        else
          let lease = (ocr_Lease request)\<lparr> ol_Generation := ot_LeaseGeneration (os_Attempt s) + 1,
                ol_AssignmentID := ocr_AssignmentID request, ol_AttemptID := ocr_AttemptID request \<rparr> in
          rbind (insert_lease now db lease) (\<lambda>db.
          rbind (updateAttemptState now db (ocr_AssignmentID request) (ocr_AttemptID request) (ocr_ExpectedState request)
                   AssignmentLeased (ol_Generation lease) [] RecoveryNone (ol_AcquiredAt lease)) (\<lambda>db.
          finish now db (ocr_OperationID request) (ocr_OperationDigest request) (ocr_AssignmentID request) (ocr_AttemptID request)
            AssignmentLeased (ol_AcquiredAt lease) ((ocr_Audit request)\<lparr>oe_LeaseGeneration := ol_Generation lease\<rparr>)))))"

definition insert_resources :: "time \<Rightarrow> OCDB \<Rightarrow> OrchestrationResourceBinding \<Rightarrow> store_error + OCDB" where
  "insert_resources now db r =
     (let rows = oc_resources db @ [r\<lparr>orb_UpdatedAt := stored_time now (orb_UpdatedAt r)\<rparr>] in
      constrained (resources_ok db rows) ''orchestration_resource_bindings'' (db\<lparr>oc_resources := rows\<rparr>))"

definition BindAttemptResources ::
  "time \<Rightarrow> OCDB \<Rightarrow> OrchestrationResourceRequest \<Rightarrow> store_error + OCDB \<times> OrchestrationWriteResult" where
  "BindAttemptResources now db request =
     with_replay db (osr_OperationID request) (osr_OperationDigest request)
       (let aid = osr_AssignmentID request; tid = osr_AttemptID request; resources = osr_Resources request in
        rbind (fencedSnapshot db aid tid (osr_ExpectedState request) (osr_LeaseGeneration request) (osr_FencingDigest request)
                 (orb_UpdatedAt resources)) (\<lambda>s.
        rbind (insert_resources now db resources) (\<lambda>db.
        let db = db\<lparr>oc_attempts := row_update (\<lambda>t. ot_AttemptID t = tid)
              (\<lambda>t. t\<lparr>ot_RuntimeSessionID := orb_RuntimeSessionID resources, ot_WorkspaceID := orb_WorkspaceID resources\<rparr>) (oc_attempts db)\<rparr> in
        rbind (updateAttemptState now db aid tid (osr_ExpectedState request) AssignmentPreparing (ot_LeaseGeneration (os_Attempt s))
                 [] RecoveryNone (orb_UpdatedAt resources)) (\<lambda>db.
        finish now db (osr_OperationID request) (osr_OperationDigest request) aid tid AssignmentPreparing (orb_UpdatedAt resources)
          (osr_Audit request)))))"

definition terminalAssignmentState :: "AssignmentState \<Rightarrow> bool" where
  "terminalAssignmentState st \<longleftrightarrow> st = AssignmentAccepted \<or> st = AssignmentFailed \<or> st = AssignmentCanceled \<or> st = AssignmentExpired"

definition retryableTerminalState :: "AssignmentState \<Rightarrow> bool" where
  "retryableTerminalState st \<longleftrightarrow> st = AssignmentFailed \<or> st = AssignmentCanceled \<or> st = AssignmentExpired"

definition recoveryAuditID :: "(string \<Rightarrow> string) \<Rightarrow> string \<Rightarrow> string \<Rightarrow> string \<Rightarrow> time \<Rightarrow> string" where
  "recoveryAuditID hex16 action aid tid at =
     ''audit:'' @ action @ '':'' @ hex16 (action @ [CHR 0x00] @ aid @ [CHR 0x00] @ tid @ [CHR 0x00] @ FormatRFC3339Nano at)"

definition end_lease :: "time \<Rightarrow> OCDB \<Rightarrow> (OrchestrationLease \<Rightarrow> bool) \<Rightarrow> LeaseState \<Rightarrow> time \<Rightarrow> OCDB" where
  "end_lease now db sel state at =
     db\<lparr>oc_leases := row_update (\<lambda>l. sel l \<and> ol_State l = LeaseActive)
          (\<lambda>l. l\<lparr>ol_State := state, ol_ReleasedAt := stored_time now at\<rparr>) (oc_leases db)\<rparr>"

definition release_terminal ::
  "(string \<Rightarrow> string) \<Rightarrow> time \<Rightarrow> OCDB \<Rightarrow> OrchestrationTransitionRequest \<Rightarrow> store_error + OCDB" where
  "release_terminal hex16 now db request =
     (let tid = otr_AttemptID request; target = otr_TargetState request;
          sel = (\<lambda>l. ol_AttemptID l = tid \<and> ol_Generation l = otr_LeaseGeneration request) in
      if \<not> terminalAssignmentState target then Inr db
      else if length (filter (\<lambda>l. sel l \<and> ol_State l = LeaseActive) (oc_leases db)) \<noteq> 1
      then Inl (StoreConflict ''orchestration lease was not active'')
      else
        recordOrchestrationAudit now
          (end_lease now db sel (if target = AssignmentExpired then LeaseExpired else LeaseReleased) (otr_UpdatedAt request))
          \<lparr> oe_AuditID = recoveryAuditID hex16 ''release'' (otr_AssignmentID request) tid (otr_UpdatedAt request),
            oe_AssignmentID = otr_AssignmentID request, oe_AttemptID = tid, oe_Action = ''release'', oe_FromState = target,
            oe_ToState = target, oe_ReasonCode = (if target = AssignmentExpired then ''lease_expired'' else ''lease_released''),
            oe_ActorID = oe_ActorID (otr_Audit request), oe_LeaseGeneration = otr_LeaseGeneration request,
            oe_OccurredAt = otr_UpdatedAt request \<rparr>)"

definition TransitionAssignment ::
  "(string \<Rightarrow> string) \<Rightarrow> time \<Rightarrow> OCDB \<Rightarrow> OrchestrationTransitionRequest \<Rightarrow> store_error + OCDB \<times> OrchestrationWriteResult" where
  "TransitionAssignment hex16 now db request =
     with_replay db (otr_OperationID request) (otr_OperationDigest request)
       (let aid = otr_AssignmentID request; tid = otr_AttemptID request; target = otr_TargetState request in
        rbind (fencedSnapshot db aid tid (otr_ExpectedState request) (otr_LeaseGeneration request) (otr_FencingDigest request)
                 (otr_UpdatedAt request)) (\<lambda>s.
        rbind (updateAttemptState now db aid tid (otr_ExpectedState request) target (ot_LeaseGeneration (os_Attempt s))
                 (otr_FailureCode request) (otr_Recovery request) (otr_UpdatedAt request)) (\<lambda>db.
        rbind (release_terminal hex16 now db request) (\<lambda>db.
        finish now db (otr_OperationID request) (otr_OperationDigest request) aid tid target (otr_UpdatedAt request)
          (otr_Audit request)))))"

definition HeartbeatLease ::
  "time \<Rightarrow> OCDB \<Rightarrow> OrchestrationHeartbeatRequest \<Rightarrow> store_error + OCDB \<times> OrchestrationSnapshot" where
  "HeartbeatLease now db request =
     rbind (orchestrationSnapshot db (ohr_AssignmentID request)) (\<lambda>s.
     if ot_AttemptID (os_Attempt s) \<noteq> ohr_AttemptID request \<or>
        (case os_Lease s of
           None \<Rightarrow> True
         | Some l \<Rightarrow> ol_LeaseID l \<noteq> ohr_LeaseID request \<or> ol_Generation l \<noteq> ohr_LeaseGeneration request \<or>
             ol_FencingDigest l \<noteq> ohr_FencingDigest request \<or> ol_State l \<noteq> LeaseActive \<or> \<not> ohr_HeartbeatAt request < ol_ExpiresAt l)
     then Inl (StoreConflict ''stale or expired orchestration lease'')
     else if \<not> ohr_HeartbeatAt request < ohr_ExpiresAt request then Inl (StoreInvalid ''lease expiry must follow heartbeat'')
     else
       let db = db\<lparr> oc_leases := row_update
              (\<lambda>l. ol_LeaseID l = ohr_LeaseID request \<and> ol_Generation l = ohr_LeaseGeneration request \<and> ol_State l = LeaseActive)
              (\<lambda>l. l\<lparr>ol_HeartbeatAt := stored_time now (ohr_HeartbeatAt request), ol_ExpiresAt := stored_time now (ohr_ExpiresAt request)\<rparr>)
              (oc_leases db),
            oc_assignments := row_update (\<lambda>a. oa_AssignmentID a = ohr_AssignmentID request)
              (\<lambda>a. a\<lparr>oa_UpdatedAt := stored_time now (ohr_HeartbeatAt request)\<rparr>) (oc_assignments db) \<rparr> in
       rbind (orchestrationSnapshot db (ohr_AssignmentID request)) (\<lambda>s. Inr (db, s)))"

definition RetryAssignment ::
  "time \<Rightarrow> OCDB \<Rightarrow> OrchestrationRetryRequest \<Rightarrow> store_error + OCDB \<times> OrchestrationWriteResult" where
  "RetryAssignment now db request =
     with_replay db (ort_OperationID request) (ort_OperationDigest request)
       (let aid = ort_AssignmentID request; t = ort_Attempt request in
        rbind (orchestrationSnapshot db aid) (\<lambda>s.
        if ot_AttemptID (os_Attempt s) \<noteq> ort_PreviousAttemptID request \<or> \<not> retryableTerminalState (ot_State (os_Attempt s)) \<or>
           ot_AttemptNumber t \<noteq> ot_AttemptNumber (os_Attempt s) + 1 \<or> ot_SupersedesAttemptID t \<noteq> ot_AttemptID (os_Attempt s) \<or>
           ort_WorkerID request = []
        then Inl (StoreConflict ''orchestration attempt cannot be retried'')
        else
          rbind (insertOrchestrationAttempt now db t) (\<lambda>db.
          let rows = row_update (\<lambda>a. oa_AssignmentID a = aid \<and> oa_CurrentAttemptID a = ort_PreviousAttemptID request)
                (\<lambda>a. a\<lparr> oa_State := AssignmentPlanned, oa_CurrentAttemptID := ot_AttemptID t, oa_CurrentAttempt := ot_AttemptNumber t,
                   oa_WorkerID := ort_WorkerID request, oa_IdempotencyDigest := ot_IdempotencyDigest t,
                   oa_RecoveryDisposition := RecoveryNone, oa_FailureCode := [], oa_UpdatedAt := stored_time now (ot_UpdatedAt t) \<rparr>)
                (oc_assignments db) in
          rbind (constrained (assignments_ok rows) ''orchestration_assignments'' (db\<lparr>oc_assignments := rows\<rparr>)) (\<lambda>db.
          finish now db (ort_OperationID request) (ort_OperationDigest request) aid (ot_AttemptID t) AssignmentPlanned
            (ot_CreatedAt t) (ort_Audit request)))))"

section \<open>Startup reconciliation\<close>

definition recoveryDisposition :: "AssignmentState \<Rightarrow> bool \<Rightarrow> RecoveryDisposition" where
  "recoveryDisposition state hasResources =
     (case state of
        AssignmentPlanned \<Rightarrow> RecoveryResume
      | AssignmentAwaitingGates \<Rightarrow> RecoveryResume
      | AssignmentLeased \<Rightarrow> if hasResources then RecoveryNeedsOperator else RecoveryReconcile
      | AssignmentPreparing \<Rightarrow> RecoveryNeedsOperator
      | AssignmentRunning \<Rightarrow> RecoveryNeedsOperator
      | AssignmentPaused \<Rightarrow> RecoveryNeedsOperator
      | AssignmentCollecting \<Rightarrow> RecoveryNeedsOperator
      | _ \<Rightarrow> RecoveryNone)"

definition recovery_name :: "RecoveryDisposition \<Rightarrow> string" where
  "recovery_name r =
     (case r of RecoveryNone \<Rightarrow> ''none'' | RecoveryResume \<Rightarrow> ''resume'' | RecoveryReconcile \<Rightarrow> ''reconcile''
      | RecoveryNeedsOperator \<Rightarrow> ''needs_operator'' | RecoveryOther s \<Rightarrow> s)"

definition recovery_event ::
  "(string \<Rightarrow> string) \<Rightarrow> string \<Rightarrow> OrchestrationSnapshot \<Rightarrow> string \<Rightarrow> AssignmentState \<Rightarrow> AssignmentState \<Rightarrow> string \<Rightarrow> string \<Rightarrow> time \<Rightarrow>
   OrchestrationAuditEvent" where
  "recovery_event hex16 action s aid from to reason actorID now =
     (let t = os_Attempt s in
      \<lparr> oe_AuditID = recoveryAuditID hex16 action aid (ot_AttemptID t) now, oe_AssignmentID = aid, oe_AttemptID = ot_AttemptID t,
        oe_Action = action, oe_FromState = from, oe_ToState = to, oe_ReasonCode = reason, oe_ActorID = actorID,
        oe_LeaseGeneration = ot_LeaseGeneration t, oe_OccurredAt = now \<rparr>)"

text \<open>One round of the loop over the assignments that are not terminal.\<close>

definition lease_lapsed :: "time \<Rightarrow> OrchestrationSnapshot \<Rightarrow> bool" where
  "lease_lapsed now s = (case os_Lease s of None \<Rightarrow> False | Some l \<Rightarrow> ol_State l = LeaseActive \<and> \<not> now < ol_ExpiresAt l)"

definition expire_attempt ::
  "(string \<Rightarrow> string) \<Rightarrow> time \<Rightarrow> time \<Rightarrow> string \<Rightarrow> OCDB \<Rightarrow> string \<Rightarrow> OrchestrationSnapshot \<Rightarrow> store_error + OCDB" where
  "expire_attempt hex16 clock now actorID db aid s =
     (let from = ot_State (os_Attempt s); tid = ot_AttemptID (os_Attempt s);
          recovery = (if from = AssignmentLeased \<and> os_Resources s = None then RecoveryReconcile else RecoveryNeedsOperator);
          db = end_lease clock db (\<lambda>l. Some (ol_LeaseID l) = map_option ol_LeaseID (os_Lease s)) LeaseExpired now in
      rbind (recordOrchestrationAudit clock db
               (recovery_event hex16 ''release'' s aid AssignmentExpired AssignmentExpired ''lease_expired'' actorID now)) (\<lambda>db.
      if from = AssignmentExpired
      then Inr (db\<lparr> oc_attempts := row_update (\<lambda>t. ot_AttemptID t = tid)
                   (\<lambda>t. t\<lparr>ot_RecoveryDisposition := recovery, ot_UpdatedAt := stored_time clock now\<rparr>) (oc_attempts db),
                 oc_assignments := row_update (\<lambda>a. oa_AssignmentID a = aid)
                   (\<lambda>a. a\<lparr>oa_RecoveryDisposition := recovery, oa_UpdatedAt := stored_time clock now\<rparr>) (oc_assignments db) \<rparr>)
      else
        rbind (updateAttemptState clock db aid tid from AssignmentExpired (ot_LeaseGeneration (os_Attempt s)) ''lease_expired'' recovery now) (\<lambda>db.
        recordOrchestrationAudit clock db
          (recovery_event hex16 ''timeout'' s aid from AssignmentExpired ''lease_expired'' actorID now))))"

definition reconcile_one ::
  "(string \<Rightarrow> string) \<Rightarrow> time \<Rightarrow> time \<Rightarrow> string \<Rightarrow> OCDB \<times> OrchestrationSnapshot list \<Rightarrow> string \<Rightarrow>
   store_error + OCDB \<times> OrchestrationSnapshot list" where
  "reconcile_one hex16 clock now actorID st aid =
     (case st of (db, snapshots) \<Rightarrow>
     rbind (orchestrationSnapshot db aid) (\<lambda>s.
     let from = ot_State (os_Attempt s); recovery = recoveryDisposition from (os_Resources s \<noteq> None) in
     rbind (if lease_lapsed now s then expire_attempt hex16 clock now actorID db aid s
            else Inr (db\<lparr> oc_attempts := row_update (\<lambda>t. ot_AttemptID t = ot_AttemptID (os_Attempt s))
                   (\<lambda>t. t\<lparr>ot_RecoveryDisposition := recovery, ot_UpdatedAt := stored_time clock now\<rparr>) (oc_attempts db),
                 oc_assignments := row_update (\<lambda>a. oa_AssignmentID a = aid)
                   (\<lambda>a. a\<lparr>oa_RecoveryDisposition := recovery, oa_UpdatedAt := stored_time clock now\<rparr>) (oc_assignments db) \<rparr>)) (\<lambda>db.
     let target = (if lease_lapsed now s then AssignmentExpired else from);
         reason = (if lease_lapsed now s then ''lease_expired'' else ''startup_'' @ recovery_name recovery) in
     rbind (recordOrchestrationAudit clock db (recovery_event hex16 ''recovery'' s aid target target reason actorID now)) (\<lambda>db.
     rbind (orchestrationSnapshot db aid) (\<lambda>updated.
     Inr (db, snapshots @ [updated]))))))"

definition ReconcileAssignments ::
  "(string \<Rightarrow> string) \<Rightarrow> time \<Rightarrow> OCDB \<Rightarrow> time \<Rightarrow> string \<Rightarrow> store_error + OCDB \<times> OrchestrationSnapshot list" where
  "ReconcileAssignments hex16 clock db now actorID =
     fold_result (reconcile_one hex16 clock now actorID) (db, [])
       (sort (map oa_AssignmentID (filter (\<lambda>a. active_state (oa_State a)) (oc_assignments db))))"

section \<open>Gates, decisions and audit\<close>

definition validGateTransition :: "GateState \<Rightarrow> GateState \<Rightarrow> bool" where
  "validGateTransition current target \<longleftrightarrow>
     current = GatePending \<and> (target = GateSatisfied \<or> target = GateFailed \<or> target = GateWaived)"

definition SaveGateStatus ::
  "time \<Rightarrow> OCDB \<Rightarrow> OrchestrationGateStatus \<Rightarrow> OrchestrationAuditEvent \<Rightarrow> store_error + OCDB \<times> bool" where
  "SaveGateStatus now db gate audit =
     (let stored = gate\<lparr>og_UpdatedAt := stored_time now (og_UpdatedAt gate)\<rparr> in
      case row_lookup gate_key (gate_key gate) (oc_gates db) of
        None \<Rightarrow>
          rbind (constrained (gates_ok db (oc_gates db @ [stored])) ''orchestration_gate_status''
                   (db\<lparr>oc_gates := oc_gates db @ [stored]\<rparr>)) (\<lambda>db.
          rbind (recordOrchestrationAudit now db audit) (\<lambda>db. Inr (db, False)))
      | Some g \<Rightarrow>
          if og_AssignmentID g \<noteq> og_AssignmentID gate \<or> og_GateDigest g \<noteq> og_GateDigest gate then Inl (StoreConflict ''gate'')
          else if og_Status g = og_Status gate \<and> og_EvidenceID g = og_EvidenceID gate \<and> og_ReasonCode g = og_ReasonCode gate
          then Inr (db, True)
          else if \<not> validGateTransition (og_Status g) (og_Status gate) then Inl (StoreConflict ''gate'')
          else
            let db = db\<lparr>oc_gates := row_update (\<lambda>r. gate_key r = gate_key gate \<and> og_Status r = og_Status g)
                  (\<lambda>r. r\<lparr> og_Status := og_Status gate, og_EvidenceID := og_EvidenceID gate, og_ReasonCode := og_ReasonCode gate,
                          og_UpdatedAt := og_UpdatedAt stored \<rparr>) (oc_gates db)\<rparr> in
            rbind (recordOrchestrationAudit now db audit) (\<lambda>db. Inr (db, False)))"

definition SaveOperatorDecision ::
  "time \<Rightarrow> OCDB \<Rightarrow> OrchestrationOperatorDecision \<Rightarrow> OrchestrationAuditEvent \<Rightarrow> store_error + OCDB \<times> bool" where
  "SaveOperatorDecision now db d audit =
     (case row_lookup od_DecisionID (od_DecisionID d) (oc_decisions db) of
        Some e \<Rightarrow>
          if od_AssignmentID e \<noteq> od_AssignmentID d \<or> od_AttemptID e \<noteq> od_AttemptID d \<or> od_Decision e \<noteq> od_Decision d \<or>
             od_ReasonCode e \<noteq> od_ReasonCode d \<or> od_ActorID e \<noteq> od_ActorID d \<or> od_IdempotencyDigest e \<noteq> od_IdempotencyDigest d
          then Inl (StoreConflict ''operator decision'') else Inr (db, True)
      | None \<Rightarrow>
          if \<not> validOperatorDecision (od_Decision d) then Inl (StoreInvalid ''no rows in result set'')
          else
            rbind (constrained (assignment_exists db (od_AssignmentID d) \<and> attempt_exists db (od_AttemptID d))
                     ''orchestration_operator_decisions''
                     (db\<lparr>oc_decisions := oc_decisions db @ [d\<lparr>od_DecidedAt := stored_time now (od_DecidedAt d)\<rparr>]\<rparr>)) (\<lambda>db.
            rbind (recordOrchestrationAudit now db audit) (\<lambda>db. Inr (db, False))))"

definition ListOrchestrationAudit :: "OCDB \<Rightarrow> string \<Rightarrow> OrchestrationAuditEvent list" where
  "ListOrchestrationAudit db aid =
     sort_key (\<lambda>e. FormatRFC3339Nano (oe_OccurredAt e)) (sort_key oe_AuditID (filter (\<lambda>e. oe_AssignmentID e = aid) (oc_audit db)))"

end
