(* ===== verification/Assignment_Control.thy ===== *)
theory Assignment_Control
  imports Assignment_Store
begin

text \<open>
  The control service of assignments, src/internal/orchestration/control.go: the state reducers, the
  checks on requests and the operations that it passes to the store. \<open>now\<close> is the clock of the service;
  the store is never nil and contexts are not cancelled.
\<close>

section \<open>Requests\<close>

datatype control_error =
  ErrInvalidControl | ErrInvalidTransition | ErrStaleFence string | ErrControlConflict | ErrControlStore store_error

record PlanRequest =
  pl_AssignmentID :: string
  pl_AttemptID :: string
  pl_ProjectID :: string
  pl_TaskID :: string
  pl_TaskRevision :: int
  pl_GraphRevision :: int
  pl_WorkPackageID :: string
  pl_ExecutionID :: string
  pl_ContractID :: string
  pl_ContractVersion :: int
  pl_ContractDigest :: string
  pl_WorkerID :: string
  pl_NodeID :: string
  pl_IdempotencyDigest :: string
  pl_OperationID :: string
  pl_OperationDigest :: string
  pl_AuditID :: string
  pl_ActorID :: string
  pl_AssignmentReason :: string
  pl_Binding :: OrchestrationAttemptBinding

record ClaimRequest =
  cl_AssignmentID :: string
  cl_AttemptID :: string
  cl_LeaseID :: string
  cl_OwnerNodeID :: string
  cl_OwnerRuntimeID :: string
  cl_FencingDigest :: string
  cl_OperationID :: string
  cl_OperationDigest :: string
  cl_AuditID :: string
  cl_ActorID :: string

record BindResourcesRequest =
  br_AssignmentID :: string
  br_AttemptID :: string
  br_LeaseGeneration :: int
  br_FencingDigest :: string
  br_RuntimeSessionID :: string
  br_RuntimeResumeKey :: string
  br_WorkspaceID :: string
  br_WorkspaceGeneration :: int
  br_OperationID :: string
  br_OperationDigest :: string
  br_AuditID :: string
  br_ActorID :: string

record TransitionRequest =
  trq_AssignmentID :: string
  trq_AttemptID :: string
  trq_TargetState :: AssignmentState
  trq_LeaseGeneration :: int
  trq_FencingDigest :: string
  trq_FailureCode :: string
  trq_Recovery :: RecoveryDisposition
  trq_OperationID :: string
  trq_OperationDigest :: string
  trq_AuditID :: string
  trq_ActorID :: string

record HeartbeatRequest =
  hb_AssignmentID :: string
  hb_AttemptID :: string
  hb_LeaseID :: string
  hb_LeaseGeneration :: int
  hb_FencingDigest :: string
  hb_ExtendBy :: duration

record RetryRequest =
  rq_AssignmentID :: string
  rq_PreviousAttemptID :: string
  rq_AttemptID :: string
  rq_WorkerID :: string
  rq_Action :: string
  rq_ReasonCode :: string
  rq_IdempotencyDigest :: string
  rq_OperationID :: string
  rq_OperationDigest :: string
  rq_AuditID :: string
  rq_ActorID :: string

record GateStatusRequest =
  gs_AssignmentID :: string
  gs_AttemptID :: string
  gs_GateID :: string
  gs_GateVersion :: int
  gs_GateDigest :: string
  gs_Status :: GateState
  gs_EvidenceID :: string
  gs_ReasonCode :: string
  gs_AuditID :: string
  gs_ActorID :: string

record OperatorDecisionRequest =
  dr_DecisionID :: string
  dr_AssignmentID :: string
  dr_AttemptID :: string
  dr_Decision :: string
  dr_ReasonCode :: string
  dr_ActorID :: string
  dr_IdempotencyDigest :: string
  dr_AuditID :: string

section \<open>Reducers\<close>

definition ReduceAssignmentState :: "AssignmentState \<Rightarrow> AssignmentState \<Rightarrow> control_error + unit" where
  "ReduceAssignmentState current target =
     (if target \<in> set (case current of
          AssignmentPlanned \<Rightarrow> [AssignmentLeased, AssignmentCanceled]
        | AssignmentLeased \<Rightarrow> [AssignmentPreparing, AssignmentExpired, AssignmentCanceled]
        | AssignmentPreparing \<Rightarrow> [AssignmentRunning, AssignmentPaused, AssignmentCollecting, AssignmentFailed, AssignmentCanceled, AssignmentExpired]
        | AssignmentRunning \<Rightarrow> [AssignmentPaused, AssignmentCollecting, AssignmentFailed, AssignmentCanceled, AssignmentExpired]
        | AssignmentPaused \<Rightarrow> [AssignmentRunning, AssignmentCollecting, AssignmentFailed, AssignmentCanceled, AssignmentExpired]
        | AssignmentCollecting \<Rightarrow> [AssignmentAwaitingGates, AssignmentFailed, AssignmentCanceled]
        | AssignmentAwaitingGates \<Rightarrow> [AssignmentAccepted, AssignmentFailed, AssignmentCanceled]
        | _ \<Rightarrow> [])
      then ok else Inl ErrInvalidTransition)"

definition RecoveryForState :: "AssignmentState \<Rightarrow> bool \<Rightarrow> RecoveryDisposition" where
  "RecoveryForState state hasResources =
     (case state of
        AssignmentPlanned \<Rightarrow> RecoveryResume
      | AssignmentAwaitingGates \<Rightarrow> RecoveryResume
      | AssignmentLeased \<Rightarrow> if hasResources then RecoveryNeedsOperator else RecoveryReconcile
      | AssignmentPreparing \<Rightarrow> RecoveryNeedsOperator
      | AssignmentRunning \<Rightarrow> RecoveryNeedsOperator
      | AssignmentPaused \<Rightarrow> RecoveryNeedsOperator
      | AssignmentCollecting \<Rightarrow> RecoveryNeedsOperator
      | _ \<Rightarrow> RecoveryNone)"

definition ReduceGateState :: "GateState \<Rightarrow> GateState \<Rightarrow> control_error + unit" where
  "ReduceGateState current target =
     (if current = target \<or> (current = GatePending \<and> (target = GateSatisfied \<or> target = GateFailed \<or> target = GateWaived))
      then ok else Inl ErrInvalidTransition)"

section \<open>Checks\<close>

definition id_start :: "char \<Rightarrow> bool" where
  "id_start c \<longleftrightarrow> c \<in> set ''ABCDEFGHIJKLMNOPQRSTUVWXYZabcdefghijklmnopqrstuvwxyz0123456789''"

text \<open>The pattern \<open>^[A-Za-z0-9][A-Za-z0-9._:-]{0,127}$\<close>.\<close>

definition validID :: "string \<Rightarrow> bool" where
  "validID s = (case s of [] \<Rightarrow> False | c # cs \<Rightarrow> id_start c \<and> length cs \<le> 127 \<and> list_all (\<lambda>c. id_start c \<or> c \<in> set ''._:-'') cs)"

definition validDigest :: "string \<Rightarrow> bool" where
  "validDigest s \<longleftrightarrow> length s = 64 \<and> list_all (\<lambda>c. c \<in> set ''0123456789abcdef'') s"

definition validGateState :: "GateState \<Rightarrow> bool" where
  "validGateState st = (case st of GateStateOther _ \<Rightarrow> False | _ \<Rightarrow> True)"

definition validAttemptBinding :: "OrchestrationAttemptBinding \<Rightarrow> string \<Rightarrow> string \<Rightarrow> int \<Rightarrow> string \<Rightarrow> bool" where
  "validAttemptBinding b attemptID contractID contractVersion contractDigest \<longleftrightarrow>
     oab_AttemptID b = attemptID \<and> oab_ContractID b = contractID \<and> oab_ContractVersion b = contractVersion \<and>
     oab_ContractDigest b = contractDigest \<and> validDigest (oab_ContextDigest b) \<and> validID (oab_ContextCompilerVersion b) \<and>
     validDigest (oab_BindingDigest b) \<and> oab_BindingJSON b \<noteq> [] \<and> int (length (oab_BindingJSON b)) \<le> 1048576 \<and> oab_CreatedAt b \<noteq> 0"

definition validatePlan :: "PlanRequest \<Rightarrow> control_error + unit" where
  "validatePlan r =
     (if pl_TaskRevision r < 1 \<or> pl_GraphRevision r < 1 \<or> pl_ContractVersion r < 1 \<or>
         \<not> list_all validID [pl_AssignmentID r, pl_AttemptID r, pl_ProjectID r, pl_TaskID r, pl_WorkPackageID r, pl_ExecutionID r,
             pl_ContractID r, pl_WorkerID r, pl_NodeID r, pl_OperationID r, pl_AuditID r, pl_ActorID r] \<or>
         \<not> list_all validDigest [pl_ContractDigest r, pl_IdempotencyDigest r, pl_OperationDigest r] \<or>
         (pl_AssignmentReason r \<noteq> [] \<and> \<not> validID (pl_AssignmentReason r)) \<or>
         \<not> validAttemptBinding (pl_Binding r) (pl_AttemptID r) (pl_ContractID r) (pl_ContractVersion r) (pl_ContractDigest r)
      then Inl ErrInvalidControl else ok)"

definition second_ns :: int where
  "second_ns = 1000000000"

definition defaultLeaseDuration :: duration where
  "defaultLeaseDuration = 300 * second_ns"

definition maxLeaseDuration :: duration where
  "maxLeaseDuration = 86400 * second_ns"

definition leaseDuration :: "duration \<Rightarrow> control_error + duration" where
  "leaseDuration configured =
     (if configured < 0 \<or> configured > maxLeaseDuration then Inl ErrInvalidControl
      else if configured > 0 then Inr configured else Inr defaultLeaseDuration)"

definition audit ::
  "string \<Rightarrow> string \<Rightarrow> string \<Rightarrow> string \<Rightarrow> AssignmentState \<Rightarrow> AssignmentState \<Rightarrow> string \<Rightarrow> string \<Rightarrow> int \<Rightarrow> time \<Rightarrow> OrchestrationAuditEvent" where
  "audit auditID aid tid action from to reason actor generation at =
     \<lparr> oe_AuditID = auditID, oe_AssignmentID = aid, oe_AttemptID = tid, oe_Action = action, oe_FromState = from, oe_ToState = to,
       oe_ReasonCode = reason, oe_ActorID = actor, oe_LeaseGeneration = generation, oe_OccurredAt = at \<rparr>"

definition state_name :: "AssignmentState \<Rightarrow> string" where
  "state_name st =
     (case st of AssignmentPlanned \<Rightarrow> ''planned'' | AssignmentLeased \<Rightarrow> ''leased'' | AssignmentPreparing \<Rightarrow> ''preparing''
      | AssignmentRunning \<Rightarrow> ''running'' | AssignmentPaused \<Rightarrow> ''paused'' | AssignmentCollecting \<Rightarrow> ''collecting''
      | AssignmentAwaitingGates \<Rightarrow> ''awaiting_gates'' | AssignmentAccepted \<Rightarrow> ''accepted'' | AssignmentFailed \<Rightarrow> ''failed''
      | AssignmentCanceled \<Rightarrow> ''canceled'' | AssignmentExpired \<Rightarrow> ''expired'' | AssignmentStateOther s \<Rightarrow> s)"

definition transitionAction :: "AssignmentState \<Rightarrow> AssignmentState \<Rightarrow> string" where
  "transitionAction current target =
     (case target of
        AssignmentRunning \<Rightarrow> if current = AssignmentPaused then ''resume'' else ''start''
      | AssignmentPaused \<Rightarrow> ''pause''
      | AssignmentCanceled \<Rightarrow> ''cancel''
      | AssignmentExpired \<Rightarrow> ''timeout''
      | AssignmentAccepted \<Rightarrow> ''gate_decision''
      | _ \<Rightarrow> state_name target)"

definition fenceError :: "store_error \<Rightarrow> control_error" where
  "fenceError e = (case e of StoreConflict s \<Rightarrow> ErrStaleFence s | _ \<Rightarrow> ErrControlStore e)"

definition fenced :: "store_error + 'a \<Rightarrow> control_error + 'a" where
  "fenced r = (case r of Inl e \<Rightarrow> Inl (fenceError e) | Inr x \<Rightarrow> Inr x)"

definition stored :: "store_error + 'a \<Rightarrow> control_error + 'a" where
  "stored r = (case r of Inl e \<Rightarrow> Inl (ErrControlStore e) | Inr x \<Rightarrow> Inr x)"

section \<open>The service\<close>

text \<open>The settings and surroundings of a call: the two clocks, the lease duration and the outside functions.\<close>

record ControlService =
  cs_now :: time
  cs_store_clock :: time
  cs_LeaseDuration :: duration
  cs_json_valid :: "string \<Rightarrow> bool"
  cs_hex16 :: "string \<Rightarrow> string"

type_synonym control_result = "control_error + OCDB \<times> OrchestrationWriteResult"

definition Plan :: "ControlService \<Rightarrow> OCDB \<Rightarrow> PlanRequest \<Rightarrow> control_result" where
  "Plan service db r =
     (let now = cs_now service; reason = (if pl_AssignmentReason r = [] then ''planned'' else pl_AssignmentReason r);
          assignment = \<lparr> oa_AssignmentID = pl_AssignmentID r, oa_ProjectID = pl_ProjectID r, oa_TaskID = pl_TaskID r,
            oa_TaskRevision = pl_TaskRevision r, oa_GraphRevision = pl_GraphRevision r, oa_WorkPackageID = pl_WorkPackageID r,
            oa_ExecutionID = pl_ExecutionID r, oa_ContractID = pl_ContractID r, oa_ContractVersion = pl_ContractVersion r,
            oa_ContractDigest = pl_ContractDigest r, oa_WorkerID = pl_WorkerID r, oa_NodeID = pl_NodeID r,
            oa_State = AssignmentPlanned, oa_CurrentAttemptID = pl_AttemptID r, oa_CurrentAttempt = 1,
            oa_IdempotencyDigest = pl_IdempotencyDigest r, oa_RecoveryDisposition = RecoveryNone, oa_FailureCode = [],
            oa_CreatedAt = now, oa_UpdatedAt = now \<rparr>;
          attempt = \<lparr> ot_AttemptID = pl_AttemptID r, ot_AssignmentID = pl_AssignmentID r, ot_ProjectID = pl_ProjectID r,
            ot_WorkPackageID = pl_WorkPackageID r, ot_ExecutionID = pl_ExecutionID r, ot_AttemptNumber = 1,
            ot_SupersedesAttemptID = [], ot_State = AssignmentPlanned, ot_LeaseGeneration = 0, ot_RuntimeSessionID = [],
            ot_WorkspaceID = [], ot_IdempotencyDigest = pl_IdempotencyDigest r, ot_RecoveryDisposition = RecoveryNone,
            ot_FailureCode = [], ot_CreatedAt = now, ot_UpdatedAt = now \<rparr> in
      rbind (validatePlan r) (\<lambda>_.
      stored (PlanAssignment (cs_json_valid service) (cs_store_clock service) db
        \<lparr> opr_Assignment = assignment, opr_Attempt = attempt, opr_Binding = pl_Binding r, opr_OperationID = pl_OperationID r,
          opr_OperationDigest = pl_OperationDigest r,
          opr_Audit = audit (pl_AuditID r) (pl_AssignmentID r) (pl_AttemptID r) ''assign'' (AssignmentStateOther []) AssignmentPlanned
            reason (pl_ActorID r) 0 now \<rparr>)))"

definition Claim :: "ControlService \<Rightarrow> OCDB \<Rightarrow> ClaimRequest \<Rightarrow> control_result" where
  "Claim service db r =
     (let now = cs_now service in
      if \<not> list_all validID [cl_AssignmentID r, cl_AttemptID r, cl_LeaseID r, cl_OwnerNodeID r, cl_OwnerRuntimeID r,
             cl_OperationID r, cl_AuditID r, cl_ActorID r] \<or> \<not> list_all validDigest [cl_FencingDigest r, cl_OperationDigest r]
      then Inl ErrInvalidControl
      else
        rbind (leaseDuration (cs_LeaseDuration service)) (\<lambda>duration.
        let lease = \<lparr> ol_LeaseID = cl_LeaseID r, ol_AssignmentID = cl_AssignmentID r, ol_AttemptID = cl_AttemptID r,
              ol_Generation = 1, ol_OwnerNodeID = cl_OwnerNodeID r, ol_OwnerRuntime = cl_OwnerRuntimeID r,
              ol_FencingDigest = cl_FencingDigest r, ol_State = LeaseActive, ol_AcquiredAt = now, ol_HeartbeatAt = now,
              ol_ExpiresAt = now + duration, ol_ReleasedAt = 0 \<rparr> in
        stored (ClaimAssignment (cs_store_clock service) db
          \<lparr> ocr_AssignmentID = cl_AssignmentID r, ocr_AttemptID = cl_AttemptID r, ocr_ExpectedState = AssignmentPlanned,
            ocr_Lease = lease, ocr_OperationID = cl_OperationID r, ocr_OperationDigest = cl_OperationDigest r,
            ocr_Audit = audit (cl_AuditID r) (cl_AssignmentID r) (cl_AttemptID r) ''claim'' AssignmentPlanned AssignmentLeased
              ''leased'' (cl_ActorID r) 1 now \<rparr>)))"

definition BindResources :: "ControlService \<Rightarrow> OCDB \<Rightarrow> BindResourcesRequest \<Rightarrow> control_result" where
  "BindResources service db r =
     (let now = cs_now service in
      if br_LeaseGeneration r < 1 \<or> br_WorkspaceGeneration r < 1 \<or>
         \<not> list_all validID [br_AssignmentID r, br_AttemptID r, br_RuntimeSessionID r, br_WorkspaceID r, br_OperationID r,
             br_AuditID r, br_ActorID r] \<or> \<not> list_all validDigest [br_FencingDigest r, br_RuntimeResumeKey r, br_OperationDigest r]
      then Inl ErrInvalidControl
      else
        fenced (BindAttemptResources (cs_store_clock service) db
          \<lparr> osr_AssignmentID = br_AssignmentID r, osr_AttemptID = br_AttemptID r, osr_ExpectedState = AssignmentLeased,
            osr_LeaseGeneration = br_LeaseGeneration r, osr_FencingDigest = br_FencingDigest r,
            osr_Resources = \<lparr> orb_AttemptID = br_AttemptID r, orb_LeaseGeneration = br_LeaseGeneration r,
              orb_RuntimeSessionID = br_RuntimeSessionID r, orb_RuntimeResumeKey = br_RuntimeResumeKey r,
              orb_RuntimeState = ''preparing'', orb_WorkspaceID = br_WorkspaceID r, orb_WorkspaceGeneration = br_WorkspaceGeneration r,
              orb_WorkspaceState = ''allocated'', orb_UpdatedAt = now \<rparr>,
            osr_OperationID = br_OperationID r, osr_OperationDigest = br_OperationDigest r,
            osr_Audit = audit (br_AuditID r) (br_AssignmentID r) (br_AttemptID r) ''prepare'' AssignmentLeased AssignmentPreparing
              ''resources_bound'' (br_ActorID r) (br_LeaseGeneration r) now \<rparr>))"

definition Transition :: "ControlService \<Rightarrow> OCDB \<Rightarrow> TransitionRequest \<Rightarrow> control_result" where
  "Transition service db r =
     (let now = cs_now service in
      if trq_LeaseGeneration r < 1 \<or>
         \<not> list_all validID [trq_AssignmentID r, trq_AttemptID r, trq_OperationID r, trq_AuditID r, trq_ActorID r] \<or>
         \<not> list_all validDigest [trq_FencingDigest r, trq_OperationDigest r] \<or>
         (trq_FailureCode r \<noteq> [] \<and> \<not> validID (trq_FailureCode r))
      then Inl ErrInvalidControl
      else
        rbind (stored (orchestrationSnapshot db (trq_AssignmentID r))) (\<lambda>current.
        let state = ot_State (os_Attempt current) in
        if ot_AttemptID (os_Attempt current) \<noteq> trq_AttemptID r \<or> ot_LeaseGeneration (os_Attempt current) \<noteq> trq_LeaseGeneration r
        then Inl (ErrStaleFence [])
        else
          rbind (ReduceAssignmentState state (trq_TargetState r)) (\<lambda>_.
          let recovery = (if trq_Recovery r = RecoveryOther [] then RecoveryNone else trq_Recovery r);
              reason = (if trq_FailureCode r = [] then state_name (trq_TargetState r) else trq_FailureCode r) in
          fenced (TransitionAssignment (cs_hex16 service) (cs_store_clock service) db
            \<lparr> otr_AssignmentID = trq_AssignmentID r, otr_AttemptID = trq_AttemptID r, otr_ExpectedState = state,
              otr_TargetState = trq_TargetState r, otr_LeaseGeneration = trq_LeaseGeneration r,
              otr_FencingDigest = trq_FencingDigest r, otr_FailureCode = trq_FailureCode r, otr_Recovery = recovery,
              otr_OperationID = trq_OperationID r, otr_OperationDigest = trq_OperationDigest r, otr_UpdatedAt = now,
              otr_Audit = audit (trq_AuditID r) (trq_AssignmentID r) (trq_AttemptID r) (transitionAction state (trq_TargetState r))
                state (trq_TargetState r) reason (trq_ActorID r) (trq_LeaseGeneration r) now \<rparr>))))"

definition Heartbeat :: "ControlService \<Rightarrow> OCDB \<Rightarrow> HeartbeatRequest \<Rightarrow> control_error + OCDB \<times> OrchestrationSnapshot" where
  "Heartbeat service db r =
     (if hb_LeaseGeneration r < 1 \<or> hb_ExtendBy r \<le> 0 \<or> hb_ExtendBy r > maxLeaseDuration \<or>
         \<not> list_all validID [hb_AssignmentID r, hb_AttemptID r, hb_LeaseID r] \<or> \<not> validDigest (hb_FencingDigest r)
      then Inl ErrInvalidControl
      else
        fenced (HeartbeatLease (cs_store_clock service) db
          \<lparr> ohr_AssignmentID = hb_AssignmentID r, ohr_AttemptID = hb_AttemptID r, ohr_LeaseID = hb_LeaseID r,
            ohr_LeaseGeneration = hb_LeaseGeneration r, ohr_FencingDigest = hb_FencingDigest r,
            ohr_HeartbeatAt = cs_now service, ohr_ExpiresAt = cs_now service + hb_ExtendBy r \<rparr>))"

definition Retry :: "ControlService \<Rightarrow> OCDB \<Rightarrow> RetryRequest \<Rightarrow> control_result" where
  "Retry service db r =
     (let now = cs_now service in
      if \<not> list_all validID [rq_AssignmentID r, rq_PreviousAttemptID r, rq_AttemptID r, rq_OperationID r, rq_AuditID r, rq_ActorID r] \<or>
         \<not> list_all validDigest [rq_IdempotencyDigest r, rq_OperationDigest r]
      then Inl ErrInvalidControl
      else
        rbind (stored (orchestrationSnapshot db (rq_AssignmentID r))) (\<lambda>current.
        let t = os_Attempt current; a = os_Assignment current; replayCandidate = (ot_AttemptID t = rq_AttemptID r);
            workerID = (if rq_WorkerID r = [] then oa_WorkerID a else rq_WorkerID r);
            action = (if rq_Action r = [] then ''retry'' else rq_Action r);
            reason = (if rq_ReasonCode r = [] then ''operator_retry'' else rq_ReasonCode r) in
        if \<not> replayCandidate \<and> (ot_AttemptID t \<noteq> rq_PreviousAttemptID r \<or>
             (ot_State t \<noteq> AssignmentFailed \<and> ot_State t \<noteq> AssignmentCanceled \<and> ot_State t \<noteq> AssignmentExpired))
        then Inl ErrInvalidTransition
        else if \<not> replayCandidate \<and> ot_IdempotencyDigest t = rq_IdempotencyDigest r then Inl ErrControlConflict
        else if \<not> validID workerID then Inl ErrInvalidControl
        else if (action \<noteq> ''retry'' \<and> action \<noteq> ''reassign'') \<or> \<not> validID reason then Inl ErrInvalidControl
        else
          let attempt = \<lparr> ot_AttemptID = rq_AttemptID r, ot_AssignmentID = rq_AssignmentID r, ot_ProjectID = oa_ProjectID a,
                ot_WorkPackageID = oa_WorkPackageID a, ot_ExecutionID = oa_ExecutionID a,
                ot_AttemptNumber = (if replayCandidate then ot_AttemptNumber t else ot_AttemptNumber t + 1),
                ot_SupersedesAttemptID = rq_PreviousAttemptID r, ot_State = AssignmentPlanned, ot_LeaseGeneration = 0,
                ot_RuntimeSessionID = [], ot_WorkspaceID = [], ot_IdempotencyDigest = rq_IdempotencyDigest r,
                ot_RecoveryDisposition = RecoveryNone, ot_FailureCode = [], ot_CreatedAt = now, ot_UpdatedAt = now \<rparr> in
          stored (RetryAssignment (cs_store_clock service) db
            \<lparr> ort_AssignmentID = rq_AssignmentID r, ort_PreviousAttemptID = rq_PreviousAttemptID r, ort_WorkerID = workerID,
              ort_Attempt = attempt, ort_OperationID = rq_OperationID r, ort_OperationDigest = rq_OperationDigest r,
              ort_Audit = audit (rq_AuditID r) (rq_AssignmentID r) (rq_AttemptID r) action (ot_State t) AssignmentPlanned reason
                (rq_ActorID r) 0 now \<rparr>)))"

definition Reconcile :: "ControlService \<Rightarrow> OCDB \<Rightarrow> string \<Rightarrow> control_error + OCDB \<times> OrchestrationSnapshot list" where
  "Reconcile service db actorID =
     (if \<not> validID actorID then Inl ErrInvalidControl
      else stored (ReconcileAssignments (cs_hex16 service) (cs_store_clock service) db (cs_now service) actorID))"

definition GetAssignment :: "OCDB \<Rightarrow> string \<Rightarrow> control_error + OrchestrationSnapshot" where
  "GetAssignment db aid = (if \<not> validID aid then Inl ErrInvalidControl else stored (orchestrationSnapshot db aid))"

definition ListAudit :: "OCDB \<Rightarrow> string \<Rightarrow> control_error + OrchestrationAuditEvent list" where
  "ListAudit db aid = (if \<not> validID aid then Inl ErrInvalidControl else Inr (ListOrchestrationAudit db aid))"

definition RecordGateStatus :: "ControlService \<Rightarrow> OCDB \<Rightarrow> GateStatusRequest \<Rightarrow> control_error + OCDB \<times> bool" where
  "RecordGateStatus service db r =
     (if gs_GateVersion r < 1 \<or>
         \<not> list_all validID [gs_AssignmentID r, gs_AttemptID r, gs_GateID r, gs_ReasonCode r, gs_AuditID r, gs_ActorID r] \<or>
         \<not> validDigest (gs_GateDigest r) \<or> (gs_EvidenceID r \<noteq> [] \<and> \<not> validID (gs_EvidenceID r)) \<or> \<not> validGateState (gs_Status r)
      then Inl ErrInvalidControl
      else
        rbind (stored (orchestrationSnapshot db (gs_AssignmentID r))) (\<lambda>s.
        if ot_AttemptID (os_Attempt s) \<noteq> gs_AttemptID r then Inl (ErrStaleFence [])
        else
          stored (SaveGateStatus (cs_store_clock service) db
            \<lparr> og_AssignmentID = gs_AssignmentID r, og_AttemptID = gs_AttemptID r, og_GateID = gs_GateID r,
              og_GateVersion = gs_GateVersion r, og_GateDigest = gs_GateDigest r, og_Status = gs_Status r,
              og_EvidenceID = gs_EvidenceID r, og_ReasonCode = gs_ReasonCode r, og_UpdatedAt = cs_now service \<rparr>
            (audit (gs_AuditID r) (gs_AssignmentID r) (gs_AttemptID r) ''gate'' (ot_State (os_Attempt s)) (ot_State (os_Attempt s))
               (gs_ReasonCode r) (gs_ActorID r) (ot_LeaseGeneration (os_Attempt s)) (cs_now service)))))"

definition RecordOperatorDecision :: "ControlService \<Rightarrow> OCDB \<Rightarrow> OperatorDecisionRequest \<Rightarrow> control_error + OCDB \<times> bool" where
  "RecordOperatorDecision service db r =
     (if \<not> list_all validID [dr_DecisionID r, dr_AssignmentID r, dr_AttemptID r, dr_Decision r, dr_ReasonCode r, dr_ActorID r, dr_AuditID r] \<or>
         \<not> validDigest (dr_IdempotencyDigest r) \<or> \<not> validOperatorDecision (dr_Decision r)
      then Inl ErrInvalidControl
      else
        rbind (stored (orchestrationSnapshot db (dr_AssignmentID r))) (\<lambda>s.
        if ot_AttemptID (os_Attempt s) \<noteq> dr_AttemptID r then Inl (ErrStaleFence [])
        else
          stored (SaveOperatorDecision (cs_store_clock service) db
            \<lparr> od_DecisionID = dr_DecisionID r, od_AssignmentID = dr_AssignmentID r, od_AttemptID = dr_AttemptID r,
              od_Decision = dr_Decision r, od_ReasonCode = dr_ReasonCode r, od_ActorID = dr_ActorID r,
              od_IdempotencyDigest = dr_IdempotencyDigest r, od_DecidedAt = cs_now service \<rparr>
            (audit (dr_AuditID r) (dr_AssignmentID r) (dr_AttemptID r) (''operator_'' @ dr_Decision r) (ot_State (os_Attempt s))
               (ot_State (os_Attempt s)) (dr_ReasonCode r) (dr_ActorID r) (ot_LeaseGeneration (os_Attempt s)) (cs_now service)))))"

end
