(* ===== verification/Assignment_Invariant.thy ===== *)
theory Assignment_Invariant
  imports Assignment_Control
begin

text \<open>
  What holds of the assignment tables in every reachable state of the control service: one current
  attempt per assignment, an active lease exactly for the attempts that are being worked on, and the
  states that an attempt may pass through.
\<close>

section \<open>The invariant\<close>

definition att :: "OCDB \<Rightarrow> string \<Rightarrow> OrchestrationAttempt option" where
  "att db tid = row_lookup ot_AttemptID tid (oc_attempts db)"

definition asg :: "OCDB \<Rightarrow> string \<Rightarrow> OrchestrationAssignment option" where
  "asg db aid = row_lookup oa_AssignmentID aid (oc_assignments db)"

definition asg_key :: "OrchestrationAssignment \<Rightarrow> string \<times> string" where
  "asg_key a = (oa_ProjectID a, oa_WorkPackageID a)"

text \<open>The states in which somebody works on an attempt.\<close>

definition leased_state :: "AssignmentState \<Rightarrow> bool" where
  "leased_state st \<longleftrightarrow> st \<in> {AssignmentLeased, AssignmentPreparing, AssignmentRunning, AssignmentPaused, AssignmentCollecting,
     AssignmentAwaitingGates}"

definition lease_key :: "OrchestrationLease \<Rightarrow> string \<times> int" where
  "lease_key l = (ol_AttemptID l, ol_Generation l)"

definition current_ok :: "OCDB \<Rightarrow> OrchestrationAssignment \<Rightarrow> bool" where
  "current_ok db a \<longleftrightarrow>
     (\<exists>t. att db (oa_CurrentAttemptID a) = Some t \<and> ot_AssignmentID t = oa_AssignmentID a \<and> ot_State t = oa_State a)"

definition attempt_ok :: "OCDB \<Rightarrow> OrchestrationAttempt \<Rightarrow> bool" where
  "attempt_ok db t \<longleftrightarrow>
     (\<exists>a. asg db (ot_AssignmentID t) = Some a \<and> work_key t = asg_key a \<and>
        (oa_CurrentAttemptID a = ot_AttemptID t \<or> retryableTerminalState (ot_State t)))"

definition lease_ok :: "OrchestrationLease list \<Rightarrow> OrchestrationAttempt \<Rightarrow> bool" where
  "lease_ok leases t \<longleftrightarrow>
     (leased_state (ot_State t) \<longleftrightarrow> (\<exists>l\<in>set leases. ol_AttemptID l = ot_AttemptID t \<and> ol_State l = LeaseActive)) \<and>
     (\<forall>l\<in>set leases. ol_AttemptID l = ot_AttemptID t \<longrightarrow> ol_Generation l \<le> ot_LeaseGeneration t \<and>
        (ol_State l = LeaseActive \<longrightarrow> ol_Generation l = ot_LeaseGeneration t))"

definition oc_inv :: "OCDB \<Rightarrow> bool" where
  "oc_inv db \<longleftrightarrow>
     keys_distinct oa_AssignmentID (oc_assignments db) \<and> keys_distinct asg_key (oc_assignments db) \<and>
     keys_distinct ot_AttemptID (oc_attempts db) \<and> keys_distinct ol_LeaseID (oc_leases db) \<and> keys_distinct lease_key (oc_leases db) \<and>
     (\<forall>a\<in>set (oc_assignments db). current_ok db a) \<and>
     (\<forall>t\<in>set (oc_attempts db). attempt_ok db t \<and> lease_ok (oc_leases db) t) \<and>
     (\<forall>l\<in>set (oc_leases db). att db (ol_AttemptID l) \<noteq> None)"

section \<open>What the operations write\<close>

text \<open>The tables that the invariant speaks of.\<close>

definition core :: "OCDB \<Rightarrow> OrchestrationAssignment list \<times> OrchestrationAttempt list \<times> OrchestrationLease list" where
  "core db = (oc_assignments db, oc_attempts db, oc_leases db)"

lemma oc_inv_core: "core db' = core db \<Longrightarrow> oc_inv db' = oc_inv db"
  by (simp add: core_def oc_inv_def current_ok_def attempt_ok_def att_def asg_def)

lemma att_core: "core db' = core db \<Longrightarrow> att db' = att db"
  by (simp add: fun_eq_iff core_def att_def)

lemma constrained_Inr [simp]: "constrained b table x = Inr y \<longleftrightarrow> b \<and> y = x"
  by (auto simp: constrained_def)

lemma recordOperation_core: "recordOrchestrationOperation now db i d aid tid st at = Inr db' \<Longrightarrow> core db' = core db"
  by (auto simp: recordOrchestrationOperation_def core_def)

lemma recordAudit_core: "recordOrchestrationAudit now db e = Inr db' \<Longrightarrow> core db' = core db"
  by (auto simp: recordOrchestrationAudit_def Let_def core_def)

lemma finish_core: "finish now db i d aid tid st at e = Inr (db', res) \<Longrightarrow> core db' = core db"
  by (auto simp: finish_def rbind_eq_Inr dest!: recordOperation_core recordAudit_core)

lemma insert_resources_core: "insert_resources now db r = Inr db' \<Longrightarrow> core db' = core db"
  by (auto simp: insert_resources_def Let_def core_def)

lemma insert_binding_core: "insertOrchestrationAttemptBinding j db b = Inr db' \<Longrightarrow> core db' = core db"
  by (auto simp: insertOrchestrationAttemptBinding_def core_def split: if_splits)

lemma with_replay_Inr:
  "with_replay db i d body = Inr (db', res) \<Longrightarrow>
     (db' = db \<and> ow_AlreadyPresent res) \<or> (orchestrationOperationReplay db i d = Inr None \<and> body = Inr (db', res))"
  by (auto simp: with_replay_def rbind_eq_Inr split: option.splits)

lemma orchestrationSnapshot_Inr:
  "orchestrationSnapshot db aid = Inr s \<Longrightarrow>
     asg db aid = Some (os_Assignment s) \<and> att db (oa_CurrentAttemptID (os_Assignment s)) = Some (os_Attempt s) \<and>
     oa_AssignmentID (os_Assignment s) = aid \<and> oa_CurrentAttemptID (os_Assignment s) = ot_AttemptID (os_Attempt s) \<and>
     os_Lease s = latest_lease db (ot_AttemptID (os_Attempt s))"
  by (auto simp: orchestrationSnapshot_def asg_def att_def split: option.splits dest: row_lookup_SomeD)

lemma latest_lease_Some:
  assumes "latest_lease db tid = Some l"
  shows "l \<in> set (oc_leases db)" "ol_AttemptID l = tid"
proof -
  obtain ls where "sort_key (\<lambda>l. - ol_Generation l) (filter (\<lambda>l. ol_AttemptID l = tid) (oc_leases db)) = l # ls"
    using assms by (auto simp: latest_lease_def split: list.splits)
  then have "l \<in> set (sort_key (\<lambda>l. - ol_Generation l) (filter (\<lambda>l. ol_AttemptID l = tid) (oc_leases db)))" by simp
  then show "l \<in> set (oc_leases db)" "ol_AttemptID l = tid" by simp_all
qed

section \<open>Preservation by updates of one attempt\<close>

lemma att_SomeD: "att db tid = Some t \<Longrightarrow> t \<in> set (oc_attempts db) \<and> ot_AttemptID t = tid"
  by (auto simp: att_def dest: row_lookup_SomeD)

lemma asg_SomeD: "asg db aid = Some a \<Longrightarrow> a \<in> set (oc_assignments db) \<and> oa_AssignmentID a = aid"
  by (auto simp: asg_def dest: row_lookup_SomeD)

lemma updateAttemptState_Inr:
  assumes "updateAttemptState now db aid tid expected target generation failure recovery at = Inr db'"
  shows "\<exists>f g. oc_attempts db' = row_update (\<lambda>t. ot_AttemptID t = tid \<and> ot_AssignmentID t = aid \<and> ot_State t = expected) f (oc_attempts db) \<and>
    oc_assignments db' = row_update (\<lambda>a. oa_AssignmentID a = aid \<and> oa_CurrentAttemptID a = tid \<and> oa_State a = expected) g (oc_assignments db) \<and>
    oc_leases db' = oc_leases db \<and>
    (\<forall>t. ot_AttemptID (f t) = ot_AttemptID t \<and> ot_AssignmentID (f t) = ot_AssignmentID t \<and> work_key (f t) = work_key t \<and>
         ot_State (f t) = target \<and> ot_LeaseGeneration (f t) = generation) \<and>
    (\<forall>a. oa_AssignmentID (g a) = oa_AssignmentID a \<and> oa_CurrentAttemptID (g a) = oa_CurrentAttemptID a \<and>
         asg_key (g a) = asg_key a \<and> oa_State (g a) = target)"
  using assms
  by (auto simp: updateAttemptState_def Let_def rbind_eq_Inr work_key_def asg_key_def split: if_splits
      intro!: exI [of _ "\<lambda>t. t\<lparr> ot_State := target, ot_LeaseGeneration := generation, ot_FailureCode := failure,
            ot_RecoveryDisposition := recovery, ot_UpdatedAt := stored_time now at \<rparr>"]
        exI [of _ "\<lambda>a. a\<lparr> oa_State := target, oa_FailureCode := failure, oa_RecoveryDisposition := recovery,
            oa_UpdatedAt := stored_time now at \<rparr>"])

lemma oc_invD:
  assumes "oc_inv db"
  shows "asg db aid = Some a \<Longrightarrow> current_ok db a"
    "att db tid = Some t \<Longrightarrow> attempt_ok db t" "att db tid = Some t \<Longrightarrow> lease_ok (oc_leases db) t"
    "t \<in> set (oc_attempts db) \<Longrightarrow> att db (ot_AttemptID t) = Some t"
    "a \<in> set (oc_assignments db) \<Longrightarrow> asg db (oa_AssignmentID a) = Some a"
    "l \<in> set (oc_leases db) \<Longrightarrow> \<exists>t. att db (ol_AttemptID l) = Some t"
  using assms by (auto simp: oc_inv_def att_def asg_def row_lookup_eq_Some dest: row_lookup_SomeD)

lemma oc_invI:
  assumes "keys_distinct oa_AssignmentID (oc_assignments db)" "keys_distinct asg_key (oc_assignments db)"
    "keys_distinct ot_AttemptID (oc_attempts db)" "keys_distinct ol_LeaseID (oc_leases db)" "keys_distinct lease_key (oc_leases db)"
    "\<And>a. a \<in> set (oc_assignments db) \<Longrightarrow> current_ok db a"
    "\<And>t. t \<in> set (oc_attempts db) \<Longrightarrow> attempt_ok db t \<and> lease_ok (oc_leases db) t"
    "\<And>l. l \<in> set (oc_leases db) \<Longrightarrow> att db (ol_AttemptID l) \<noteq> None"
  shows "oc_inv db"
  using assms by (auto simp: oc_inv_def)

lemma keys_distinct_map: "(\<And>r. key (f r) = key r) \<Longrightarrow> keys_distinct key (map f rows) = keys_distinct key rows"
  by (simp add: keys_distinct_def comp_def)

lemma att_map:
  "oc_attempts db' = map f (oc_attempts db) \<Longrightarrow> (\<And>t. ot_AttemptID (f t) = ot_AttemptID t) \<Longrightarrow>
     att db' tid = map_option f (att db tid)"
  by (simp add: att_def row_lookup_map)

lemma asg_map:
  "oc_assignments db' = map g (oc_assignments db) \<Longrightarrow> (\<And>a. oa_AssignmentID (g a) = oa_AssignmentID a) \<Longrightarrow>
     asg db' aid = map_option g (asg db aid)"
  by (simp add: asg_def row_lookup_map)

text \<open>Rows change in place; the identities of the rows and the links between them stay.\<close>

lemma oc_inv_map:
  assumes inv: "oc_inv db"
    and tabs: "oc_attempts db' = map f (oc_attempts db)" "oc_assignments db' = map g (oc_assignments db)"
    and f: "\<And>t. ot_AttemptID (f t) = ot_AttemptID t \<and> ot_AssignmentID (f t) = ot_AssignmentID t \<and> work_key (f t) = work_key t"
    and g: "\<And>a. oa_AssignmentID (g a) = oa_AssignmentID a \<and> oa_CurrentAttemptID (g a) = oa_CurrentAttemptID a \<and> asg_key (g a) = asg_key a"
    and state: "\<And>a t. asg db (ot_AssignmentID t) = Some a \<Longrightarrow> att db (ot_AttemptID t) = Some t \<Longrightarrow>
       oa_CurrentAttemptID a = ot_AttemptID t \<Longrightarrow> ot_State t = oa_State a \<Longrightarrow> ot_State (f t) = oa_State (g a)"
    and final: "\<And>t. t \<in> set (oc_attempts db) \<Longrightarrow> retryableTerminalState (ot_State t) \<Longrightarrow> ot_State (f t) = ot_State t"
    and leases: "\<And>t. att db (ot_AttemptID t) = Some t \<Longrightarrow> lease_ok (oc_leases db') (f t)"
    and lkeys: "keys_distinct ol_LeaseID (oc_leases db')" "keys_distinct lease_key (oc_leases db')"
    and lrefs: "\<And>l. l \<in> set (oc_leases db') \<Longrightarrow> att db (ol_AttemptID l) \<noteq> None"
  shows "oc_inv db'"
proof (rule oc_invI)
  have att': "att db' tid = map_option f (att db tid)" for tid using tabs(1) f by (simp add: att_map)
  have asg': "asg db' aid = map_option g (asg db aid)" for aid using tabs(2) g by (simp add: asg_map)
  show "keys_distinct oa_AssignmentID (oc_assignments db')" "keys_distinct asg_key (oc_assignments db')"
    "keys_distinct ot_AttemptID (oc_attempts db')"
    using inv tabs f g by (simp_all add: oc_inv_def keys_distinct_map)
  show "keys_distinct ol_LeaseID (oc_leases db')" "keys_distinct lease_key (oc_leases db')" by (fact lkeys)+
  show "att db' (ol_AttemptID l) \<noteq> None" if "l \<in> set (oc_leases db')" for l using lrefs [OF that] att' by simp
  show "current_ok db' a'" if mem: "a' \<in> set (oc_assignments db')" for a'
  proof -
    obtain a where a: "a' = g a" "asg db (oa_AssignmentID a) = Some a" using mem tabs(2) oc_invD(5) [OF inv] by auto
    obtain t where t: "att db (oa_CurrentAttemptID a) = Some t" "ot_AssignmentID t = oa_AssignmentID a" "ot_State t = oa_State a"
      using oc_invD(1) [OF inv a(2)] by (auto simp: current_ok_def)
    have id: "ot_AttemptID t = oa_CurrentAttemptID a" using att_SomeD [OF t(1)] by simp
    have "ot_State (f t) = oa_State (g a)" by (rule state) (simp_all add: id a(2) t)
    then show ?thesis using a t f g att' by (simp add: current_ok_def)
  qed
  show "attempt_ok db' t' \<and> lease_ok (oc_leases db') t'" if mem: "t' \<in> set (oc_attempts db')" for t'
  proof
    obtain t where t: "t' = f t" "t \<in> set (oc_attempts db)" "att db (ot_AttemptID t) = Some t"
      using mem tabs(1) oc_invD(4) [OF inv] by auto
    obtain a where a: "asg db (ot_AssignmentID t) = Some a" "work_key t = asg_key a"
        "oa_CurrentAttemptID a = ot_AttemptID t \<or> retryableTerminalState (ot_State t)"
      using oc_invD(2) [OF inv t(3)] by (auto simp: attempt_ok_def)
    show "attempt_ok db' t'" using a t f g asg' final [OF t(2)] by (auto simp: attempt_ok_def)
    show "lease_ok (oc_leases db') t'" using leases t by simp
  qed
qed

section \<open>Frames\<close>

text \<open>Writes of fields that the invariant does not read.\<close>

definition same_attempt :: "OrchestrationAttempt \<Rightarrow> OrchestrationAttempt \<Rightarrow> bool" where
  "same_attempt t' t \<longleftrightarrow> ot_AttemptID t' = ot_AttemptID t \<and> ot_AssignmentID t' = ot_AssignmentID t \<and> work_key t' = work_key t \<and>
     ot_State t' = ot_State t \<and> ot_LeaseGeneration t' = ot_LeaseGeneration t"

definition same_assignment :: "OrchestrationAssignment \<Rightarrow> OrchestrationAssignment \<Rightarrow> bool" where
  "same_assignment a' a \<longleftrightarrow> oa_AssignmentID a' = oa_AssignmentID a \<and> oa_CurrentAttemptID a' = oa_CurrentAttemptID a \<and>
     asg_key a' = asg_key a \<and> oa_State a' = oa_State a"

definition same_lease :: "OrchestrationLease \<Rightarrow> OrchestrationLease \<Rightarrow> bool" where
  "same_lease l' l \<longleftrightarrow> ol_LeaseID l' = ol_LeaseID l \<and> lease_key l' = lease_key l \<and> ol_State l' = ol_State l"

lemma lease_ok_same:
  assumes "same_attempt t' t" "\<And>l. same_lease (h l) l"
  shows "lease_ok (map h leases) t' = lease_ok leases t"
proof -
  have "ol_AttemptID (h l) = ol_AttemptID l" "ol_Generation (h l) = ol_Generation l" "ol_State (h l) = ol_State l" for l
    using assms(2) [of l] by (simp_all add: same_lease_def lease_key_def)
  then show ?thesis using assms(1) by (simp add: lease_ok_def same_attempt_def)
qed

lemma oc_inv_same:
  assumes inv: "oc_inv db"
    and tabs: "oc_attempts db' = map f (oc_attempts db)" "oc_assignments db' = map g (oc_assignments db)" "oc_leases db' = map h (oc_leases db)"
    and f: "\<And>t. same_attempt (f t) t" and g: "\<And>a. same_assignment (g a) a" and h: "\<And>l. same_lease (h l) l"
  shows "oc_inv db'"
proof (rule oc_inv_map [OF inv tabs(1,2)])
  show "keys_distinct ol_LeaseID (oc_leases db')" "keys_distinct lease_key (oc_leases db')"
    using inv h by (simp_all add: oc_inv_def tabs keys_distinct_map same_lease_def)
  show "lease_ok (oc_leases db') (f t)" if "att db (ot_AttemptID t) = Some t" for t
    using oc_invD(3) [OF inv that] lease_ok_same [of "f t" t h] f h by (simp add: tabs)
  show "att db (ol_AttemptID l) \<noteq> None" if mem: "l \<in> set (oc_leases db')" for l
  proof -
    obtain l0 where "l = h l0" "l0 \<in> set (oc_leases db)" using mem tabs(3) by auto
    then show ?thesis using oc_invD(6) [OF inv, of l0] h [of l0] by (auto simp: same_lease_def lease_key_def)
  qed
qed (use f g in \<open>auto simp: same_attempt_def same_assignment_def\<close>)

section \<open>A change of state\<close>

text \<open>Leases that match the attempt \<open>tid\<close> in the state \<open>st\<close> with the generation \<open>gen\<close>.\<close>

definition leases_for :: "OrchestrationLease list \<Rightarrow> string \<Rightarrow> AssignmentState \<Rightarrow> int \<Rightarrow> bool" where
  "leases_for leases tid st gen \<longleftrightarrow>
     (leased_state st \<longleftrightarrow> (\<exists>l\<in>set leases. ol_AttemptID l = tid \<and> ol_State l = LeaseActive)) \<and>
     (\<forall>l\<in>set leases. ol_AttemptID l = tid \<longrightarrow> ol_Generation l \<le> gen \<and> (ol_State l = LeaseActive \<longrightarrow> ol_Generation l = gen))"

lemma lease_ok_for: "lease_ok leases t = leases_for leases (ot_AttemptID t) (ot_State t) (ot_LeaseGeneration t)"
  by (simp add: lease_ok_def leases_for_def)

lemma leases_for_cong:
  assumes "\<And>l. ol_AttemptID l = tid \<Longrightarrow> l \<in> set leases' \<longleftrightarrow> l \<in> set leases"
  shows "leases_for leases' tid st gen = leases_for leases tid st gen"
  using assms unfolding leases_for_def by blast

definition only_state :: "OCDB \<Rightarrow> OCDB \<Rightarrow> string \<Rightarrow> AssignmentState \<Rightarrow> bool" where
  "only_state db db' tid target \<longleftrightarrow>
     (\<forall>k t. att db k = Some t \<longrightarrow> (\<exists>t'. att db' k = Some t' \<and> ot_State t' = (if k = tid then target else ot_State t)))"

lemma state_change:
  assumes inv: "oc_inv db"
    and from_db: "oc_attempts db0 = oc_attempts db" "oc_assignments db0 = oc_assignments db"
    and upd: "updateAttemptState now db0 aid tid from target gen failure recovery at = Inr db1"
    and to_db: "oc_attempts db' = oc_attempts db1" "oc_assignments db' = oc_assignments db1"
    and cur: "asg db aid = Some a" "oa_CurrentAttemptID a = tid" "att db tid = Some t" "ot_State t = from"
    and not_final: "\<not> retryableTerminalState from"
    and other: "\<And>l. ol_AttemptID l \<noteq> tid \<Longrightarrow> l \<in> set (oc_leases db') \<longleftrightarrow> l \<in> set (oc_leases db)"
    and leases: "leases_for (oc_leases db') tid target gen"
    and lkeys: "keys_distinct ol_LeaseID (oc_leases db')" "keys_distinct lease_key (oc_leases db')"
  shows "oc_inv db'" "only_state db db' tid target"
proof -
  let ?sel = "\<lambda>t. ot_AttemptID t = tid \<and> ot_AssignmentID t = aid \<and> ot_State t = from"
  let ?asel = "\<lambda>a. oa_AssignmentID a = aid \<and> oa_CurrentAttemptID a = tid \<and> oa_State a = from"
  obtain f g where fg: "oc_attempts db1 = row_update ?sel f (oc_attempts db0)" "oc_assignments db1 = row_update ?asel g (oc_assignments db0)"
    "oc_leases db1 = oc_leases db0"
    "\<forall>t. ot_AttemptID (f t) = ot_AttemptID t \<and> ot_AssignmentID (f t) = ot_AssignmentID t \<and> work_key (f t) = work_key t \<and>
         ot_State (f t) = target \<and> ot_LeaseGeneration (f t) = gen"
    "\<forall>a. oa_AssignmentID (g a) = oa_AssignmentID a \<and> oa_CurrentAttemptID (g a) = oa_CurrentAttemptID a \<and>
         asg_key (g a) = asg_key a \<and> oa_State (g a) = target"
    using updateAttemptState_Inr [OF upd] by (elim exE conjE) (rule that)
  have tabs: "oc_attempts db' = map (\<lambda>t. if ?sel t then f t else t) (oc_attempts db)"
      "oc_assignments db' = map (\<lambda>a. if ?asel a then g a else a) (oc_assignments db)"
    by (simp_all add: to_db fg(1,2) from_db row_update_def)
  note f = fg(4) [rule_format] and g = fg(5) [rule_format]
  have t: "ot_AttemptID t = tid" "ot_AssignmentID t = aid" "oa_State a = from" "oa_AssignmentID a = aid"
    using cur att_SomeD [OF cur(3)] asg_SomeD [OF cur(1)] oc_invD(1) [OF inv cur(1)] by (auto simp: current_ok_def)
  have sel: "?sel t0 \<longleftrightarrow> k = tid" if "att db k = Some t0" for k t0 using that cur t att_SomeD [OF that] by auto
  show "oc_inv db'"
  proof (rule oc_inv_map [OF inv tabs])
    show "ot_State (if ?sel t0 then f t0 else t0) = oa_State (if ?asel a0 then g a0 else a0)"
      if "asg db (ot_AssignmentID t0) = Some a0" "att db (ot_AttemptID t0) = Some t0" "oa_CurrentAttemptID a0 = ot_AttemptID t0"
        "ot_State t0 = oa_State a0" for a0 t0
      using that f g asg_SomeD [OF that(1)] by auto
    show "lease_ok (oc_leases db') (if ?sel t0 then f t0 else t0)" if "att db (ot_AttemptID t0) = Some t0" for t0
    proof (cases "ot_AttemptID t0 = tid")
      case True
      then show ?thesis using sel [OF that] f leases by (simp add: lease_ok_for)
    next
      case False
      then show ?thesis using oc_invD(3) [OF inv that] leases_for_cong [of "ot_AttemptID t0" "oc_leases db'" "oc_leases db"] other
        by (simp add: lease_ok_for)
    qed
    show "att db (ol_AttemptID l) \<noteq> None" if "l \<in> set (oc_leases db')" for l
      using that other [of l] oc_invD(6) [OF inv, of l] cur(3) by (cases "ol_AttemptID l = tid") auto
  qed (use f g not_final lkeys in auto)
  show "only_state db db' tid target"
    using sel f by (auto simp: only_state_def att_map [OF tabs(1)])
qed

section \<open>A new attempt\<close>

lemma oc_inv_fresh:
  assumes inv: "oc_inv db"
    and tabs: "oc_attempts db' = oc_attempts db @ [t]" "oc_leases db' = oc_leases db"
    and fresh: "att db (ot_AttemptID t) = None" and planned: "ot_State t = AssignmentPlanned"
    and akeys: "keys_distinct oa_AssignmentID (oc_assignments db')" "keys_distinct asg_key (oc_assignments db')"
    and asg': "\<And>k. asg db' k = (if k = ot_AssignmentID t then Some a' else asg db k)"
    and a': "oa_CurrentAttemptID a' = ot_AttemptID t" "asg_key a' = work_key t" "oa_State a' = AssignmentPlanned"
    and old: "\<And>a. asg db (ot_AssignmentID t) = Some a \<Longrightarrow> retryableTerminalState (oa_State a) \<and> asg_key a = work_key t"
  shows "oc_inv db'" "att db k = Some t0 \<Longrightarrow> att db' k = Some t0"
proof -
  have keep: "att db' k = (if k = ot_AttemptID t then Some t else att db k)" for k
    using fresh by (auto simp: att_def tabs row_lookup_append split: option.splits)
  show "att db k = Some t0 \<Longrightarrow> att db' k = Some t0" using fresh keep by auto
  show "oc_inv db'"
  proof (rule oc_invI)
    show "keys_distinct ot_AttemptID (oc_attempts db')"
      using inv fresh by (auto simp: tabs oc_inv_def att_def row_exists_iff intro!: keys_distinct_snoc)
    show "current_ok db' a" if mem: "a \<in> set (oc_assignments db')" for a
    proof -
      have a: "asg db' (oa_AssignmentID a) = Some a" using mem akeys(1) by (simp add: asg_def row_lookup_eq_Some)
      show ?thesis
      proof (cases "oa_AssignmentID a = ot_AssignmentID t")
        case True
        then show ?thesis using a asg' a' planned keep by (auto simp: current_ok_def)
      next
        case False
        then obtain t1 where "att db (oa_CurrentAttemptID a) = Some t1" "ot_AssignmentID t1 = oa_AssignmentID a" "ot_State t1 = oa_State a"
          using a asg' oc_invD(1) [OF inv, of "oa_AssignmentID a" a] by (auto simp: current_ok_def)
        then show ?thesis using fresh keep by (auto simp: current_ok_def)
      qed
    qed
    show "attempt_ok db' t1 \<and> lease_ok (oc_leases db') t1" if mem: "t1 \<in> set (oc_attempts db')" for t1
    proof (cases "t1 = t")
      case True
      have "ol_AttemptID l \<noteq> ot_AttemptID t" if "l \<in> set (oc_leases db)" for l using oc_invD(6) [OF inv that] fresh by auto
      then show ?thesis using True a' asg' planned tabs(2) by (auto simp: attempt_ok_def lease_ok_def leased_state_def)
    next
      case False
      then have t1: "att db (ot_AttemptID t1) = Some t1" using mem tabs(1) oc_invD(4) [OF inv, of t1] by simp
      obtain a where a: "asg db (ot_AssignmentID t1) = Some a" "work_key t1 = asg_key a"
          "oa_CurrentAttemptID a = ot_AttemptID t1 \<or> retryableTerminalState (ot_State t1)"
        using oc_invD(2) [OF inv t1] by (auto simp: attempt_ok_def)
      have "retryableTerminalState (ot_State t1)" if "ot_AssignmentID t1 = ot_AssignmentID t"
        using a that old [of a] oc_invD(1) [OF inv a(1)] t1 by (auto simp: current_ok_def)
      then have "attempt_ok db' t1" using a asg' a'(2) old [of a] by (auto simp: attempt_ok_def)
      then show ?thesis using oc_invD(3) [OF inv t1] tabs(2) by simp
    qed
    show "att db' (ol_AttemptID l) \<noteq> None" if "l \<in> set (oc_leases db')" for l
      using oc_invD(6) [OF inv, of l] that tabs(2) keep by auto
  qed (use inv akeys tabs in \<open>simp_all add: oc_inv_def\<close>)
qed

section \<open>The operations of the store\<close>

definition keeps_attempts :: "OCDB \<Rightarrow> OCDB \<Rightarrow> bool" where
  "keeps_attempts db db' \<longleftrightarrow> (\<forall>k t. att db k = Some t \<longrightarrow> (\<exists>t'. att db' k = Some t' \<and> ot_State t' = ot_State t))"

lemma keeps_attempts_core: "core db' = core db \<Longrightarrow> keeps_attempts db db'"
  using att_core [of db' db] by (simp add: keeps_attempts_def)

lemma core_fields:
  "core db' = core db \<Longrightarrow> oc_assignments db' = oc_assignments db"
  "core db' = core db \<Longrightarrow> oc_attempts db' = oc_attempts db"
  "core db' = core db \<Longrightarrow> oc_leases db' = oc_leases db"
  by (simp_all add: core_def)

lemma keys_distinct_snocD: "keys_distinct key (rows @ [r]) \<Longrightarrow> row_lookup key (key r) rows = None"
  by (simp add: keys_distinct_def row_lookup_None image_iff) metis

lemma assignments_okD: "assignments_ok rows \<Longrightarrow> keys_distinct oa_AssignmentID rows \<and> keys_distinct asg_key rows"
  by (simp add: assignments_ok_def asg_key_def [abs_def])

lemma attempts_okD: "attempts_ok db rows \<Longrightarrow> keys_distinct ot_AttemptID rows"
  by (simp add: attempts_ok_def)

lemma leases_okD: "leases_ok db rows \<Longrightarrow> keys_distinct ol_LeaseID rows \<and> keys_distinct lease_key rows"
  by (simp add: leases_ok_def lease_key_def [abs_def])

lemma PlanAssignment_inv:
  assumes inv: "oc_inv db" and run: "PlanAssignment j now db r = Inr (db', res)"
    and req: "oa_CurrentAttemptID (opr_Assignment r) = ot_AttemptID (opr_Attempt r)" "ot_AssignmentID (opr_Attempt r) = oa_AssignmentID (opr_Assignment r)"
      "asg_key (opr_Assignment r) = work_key (opr_Attempt r)" "oa_State (opr_Assignment r) = AssignmentPlanned"
      "ot_State (opr_Attempt r) = AssignmentPlanned"
  shows "oc_inv db' \<and> keeps_attempts db db'"
proof -
  let ?a = "(opr_Assignment r)\<lparr>oa_CreatedAt := stored_time now (oa_CreatedAt (opr_Assignment r)),
    oa_UpdatedAt := stored_time now (oa_UpdatedAt (opr_Assignment r))\<rparr>"
  let ?t = "(opr_Attempt r)\<lparr>ot_CreatedAt := stored_time now (ot_CreatedAt (opr_Attempt r)),
    ot_UpdatedAt := stored_time now (ot_UpdatedAt (opr_Attempt r))\<rparr>"
  have "db' = db \<or> (assignments_ok (oc_assignments db @ [?a]) \<and> (\<exists>db1. attempts_ok db1 (oc_attempts db @ [?t])) \<and>
      core db' = (oc_assignments db @ [?a], oc_attempts db @ [?t], oc_leases db))"
    using with_replay_Inr [OF run [unfolded PlanAssignment_def]]
    by (auto simp: Let_def rbind_eq_Inr insertOrchestrationAttempt_def core_def
        split: if_splits sum.splits dest!: finish_core insert_binding_core)
  then show ?thesis
  proof
    assume "db' = db"
    then show ?thesis using inv by (simp add: keeps_attempts_core)
  next
    assume wrote: "assignments_ok (oc_assignments db @ [?a]) \<and> (\<exists>db1. attempts_ok db1 (oc_attempts db @ [?t])) \<and>
      core db' = (oc_assignments db @ [?a], oc_attempts db @ [?t], oc_leases db)"
    define a t where "a = ?a" and "t = ?t"
    have at: "oa_CurrentAttemptID a = ot_AttemptID t" "asg_key a = work_key t" "oa_State a = AssignmentPlanned"
      "ot_AssignmentID t = oa_AssignmentID a" "ot_State t = AssignmentPlanned"
      using req by (simp_all add: a_def t_def asg_key_def work_key_def)
    obtain db1 where ok: "assignments_ok (oc_assignments db @ [a])" "attempts_ok db1 (oc_attempts db @ [t])"
        "core db' = (oc_assignments db @ [a], oc_attempts db @ [t], oc_leases db)"
      using wrote unfolding a_def [symmetric] t_def [symmetric] by (elim exE conjE) (rule that)
    have tabs: "oc_assignments db' = oc_assignments db @ [a]" "oc_attempts db' = oc_attempts db @ [t]" "oc_leases db' = oc_leases db"
      using ok(3) by (simp_all add: core_def)
    have akeys: "keys_distinct oa_AssignmentID (oc_assignments db')" "keys_distinct asg_key (oc_assignments db')"
      using assignments_okD [OF ok(1)] by (simp_all add: tabs)
    have fresh: "att db (ot_AttemptID t) = None" using keys_distinct_snocD [OF attempts_okD [OF ok(2)]] by (simp add: att_def)
    have new: "asg db (oa_AssignmentID a) = None"
      using keys_distinct_snocD [of oa_AssignmentID "oc_assignments db" a] akeys(1) by (simp add: asg_def tabs)
    have asg': "asg db' k = (if k = ot_AssignmentID t then Some a else asg db k)" for k
      using new at(4) by (auto simp: asg_def tabs row_lookup_append split: option.splits)
    note inv' = oc_inv_fresh [OF inv tabs(2,3) fresh at(5) akeys asg' at(1-3)]
    show ?thesis using inv' new at(4) by (simp add: keeps_attempts_def)
  qed
qed

lemma leased_state_iff: "leased_state st \<longleftrightarrow> active_state st \<and> st \<noteq> AssignmentPlanned"
  by (auto simp: leased_state_def active_state_def)

lemma leased_not_final: "leased_state st \<Longrightarrow> \<not> retryableTerminalState st \<and> st \<noteq> AssignmentPlanned"
  by (auto simp: leased_state_def retryableTerminalState_def)

lemma active_lease:
  assumes "oc_inv db" "att db tid = Some t" "l \<in> set (oc_leases db)" "ol_AttemptID l = tid" "ol_State l = LeaseActive"
  shows "leased_state (ot_State t)" "ol_Generation l = ot_LeaseGeneration t"
  using oc_invD(3) [OF assms(1,2)] att_SomeD [OF assms(2)] assms(3-5) by (auto simp: lease_ok_def)

lemma active_lease_unique:
  assumes "oc_inv db" "l \<in> set (oc_leases db)" "l' \<in> set (oc_leases db)" "ol_AttemptID l' = ol_AttemptID l"
    "ol_State l = LeaseActive" "ol_State l' = LeaseActive"
  shows "l' = l"
proof -
  obtain t where t: "att db (ol_AttemptID l) = Some t" using oc_invD(6) [OF assms(1,2)] by blast
  have "lease_key l' = lease_key l"
    using active_lease(2) [OF assms(1) t assms(2) refl assms(5)] active_lease(2) [OF assms(1) t assms(3,4,6)] assms(4)
    by (simp add: lease_key_def)
  moreover have "inj_on lease_key (set (oc_leases db))" using assms(1) by (simp add: oc_inv_def keys_distinct_def distinct_map)
  ultimately show ?thesis using assms(2,3) by (simp add: inj_on_def)
qed

text \<open>The state in which a snapshot finds the current attempt.\<close>

lemma snapshot_current:
  assumes "orchestrationSnapshot db aid = Inr s" "ot_AttemptID (os_Attempt s) = tid"
  shows "asg db aid = Some (os_Assignment s)" "oa_CurrentAttemptID (os_Assignment s) = tid" "att db tid = Some (os_Attempt s)"
  using orchestrationSnapshot_Inr [OF assms(1)] assms(2) by auto

lemma snapshot_leased:
  assumes "oc_inv db" "orchestrationSnapshot db aid = Inr s" "os_Lease s = Some l" "ol_State l = LeaseActive"
  shows "leased_state (ot_State (os_Attempt s))" "ol_Generation l = ot_LeaseGeneration (os_Attempt s)" "l \<in> set (oc_leases db)"
    "ol_AttemptID l = ot_AttemptID (os_Attempt s)"
proof -
  note s = orchestrationSnapshot_Inr [OF assms(2)]
  have l: "l \<in> set (oc_leases db)" "ol_AttemptID l = ot_AttemptID (os_Attempt s)"
    using latest_lease_Some [of db "ot_AttemptID (os_Attempt s)" l] s assms(3) by simp_all
  show "leased_state (ot_State (os_Attempt s))" "ol_Generation l = ot_LeaseGeneration (os_Attempt s)"
    using active_lease [OF assms(1) snapshot_current(3) [OF assms(2) refl] l assms(4)] .
  show "l \<in> set (oc_leases db)" "ol_AttemptID l = ot_AttemptID (os_Attempt s)" by (fact l)+
qed

lemma fencedSnapshot_Inr:
  assumes "fencedSnapshot db aid tid st gen digest at = Inr s"
  shows "orchestrationSnapshot db aid = Inr s" "ot_AttemptID (os_Attempt s) = tid" "ot_State (os_Attempt s) = st"
    "ot_LeaseGeneration (os_Attempt s) = gen"
    "\<exists>l. os_Lease s = Some l \<and> ol_Generation l = gen \<and> ol_FencingDigest l = digest \<and> ol_State l = LeaseActive \<and> at < ol_ExpiresAt l"
  using assms by (auto simp: fencedSnapshot_def rbind_eq_Inr split: if_splits option.splits)

section \<open>Claiming\<close>

lemma leases_for_claim:
  assumes "oc_inv db" "att db tid = Some t" "ot_State t = AssignmentPlanned" "ol_AttemptID l = tid"
    "ol_Generation l = ot_LeaseGeneration t + 1" "ol_State l = LeaseActive"
  shows "leases_for (oc_leases db @ [l]) tid AssignmentLeased (ot_LeaseGeneration t + 1)"
proof -
  have ok: "lease_ok (oc_leases db) t" "ot_AttemptID t = tid" using oc_invD(3) [OF assms(1,2)] att_SomeD [OF assms(2)] by simp_all
  have "\<forall>l\<in>set (oc_leases db). ol_AttemptID l = tid \<longrightarrow> ol_State l \<noteq> LeaseActive \<and> ol_Generation l \<le> ot_LeaseGeneration t"
    using ok assms(3) by (auto simp: lease_ok_def leased_state_def)
  then show ?thesis using assms(4-6) by (auto simp: leases_for_def leased_state_def)
qed

lemma ClaimAssignment_inv:
  assumes inv: "oc_inv db" and run: "ClaimAssignment now db r = Inr (db', res)" and req: "ocr_ExpectedState r = AssignmentPlanned"
  shows "oc_inv db' \<and> (db' = db \<and> ow_AlreadyPresent res \<or>
    (\<exists>t. att db (ocr_AttemptID r) = Some t \<and> ot_State t = AssignmentPlanned \<and> only_state db db' (ocr_AttemptID r) AssignmentLeased))"
proof -
  let ?l = "\<lambda>s. (ocr_Lease r)\<lparr> ol_Generation := ot_LeaseGeneration (os_Attempt s) + 1, ol_AssignmentID := ocr_AssignmentID r,
    ol_AttemptID := ocr_AttemptID r, ol_State := LeaseActive, ol_AcquiredAt := stored_time now (ol_AcquiredAt (ocr_Lease r)),
    ol_HeartbeatAt := stored_time now (ol_HeartbeatAt (ocr_Lease r)), ol_ExpiresAt := stored_time now (ol_ExpiresAt (ocr_Lease r)),
    ol_ReleasedAt := 0 \<rparr>"
  have "(db' = db \<and> ow_AlreadyPresent res) \<or> (\<exists>s db2. orchestrationSnapshot db (ocr_AssignmentID r) = Inr s \<and> ot_AttemptID (os_Attempt s) = ocr_AttemptID r \<and>
      ot_State (os_Attempt s) = AssignmentPlanned \<and> leases_ok db (oc_leases db @ [?l s]) \<and>
      updateAttemptState now (db\<lparr>oc_leases := oc_leases db @ [?l s]\<rparr>) (ocr_AssignmentID r) (ocr_AttemptID r) AssignmentPlanned
        AssignmentLeased (ot_LeaseGeneration (os_Attempt s) + 1) [] RecoveryNone (ol_AcquiredAt (ocr_Lease r)) = Inr db2 \<and>
      core db' = core db2)"
    using with_replay_Inr [OF run [unfolded ClaimAssignment_def]] req
    by (auto simp: Let_def rbind_eq_Inr insert_lease_def split: if_splits dest!: finish_core)
  then show ?thesis
  proof (elim disjE exE conjE)
    assume "db' = db" "ow_AlreadyPresent res"
    then show ?thesis using inv by simp
  next
    fix s db2
    assume 2: "orchestrationSnapshot db (ocr_AssignmentID r) = Inr s" "ot_AttemptID (os_Attempt s) = ocr_AttemptID r"
      "ot_State (os_Attempt s) = AssignmentPlanned" "leases_ok db (oc_leases db @ [?l s])"
      "updateAttemptState now (db\<lparr>oc_leases := oc_leases db @ [?l s]\<rparr>) (ocr_AssignmentID r) (ocr_AttemptID r) AssignmentPlanned
        AssignmentLeased (ot_LeaseGeneration (os_Attempt s) + 1) [] RecoveryNone (ol_AcquiredAt (ocr_Lease r)) = Inr db2"
      "core db' = core db2"
    define l where "l = ?l s"
    have l: "ol_AttemptID l = ocr_AttemptID r" "ol_Generation l = ot_LeaseGeneration (os_Attempt s) + 1" "ol_State l = LeaseActive"
      by (simp_all add: l_def)
    note wrote = 2(4,5) [folded l_def]
    note cur = snapshot_current [OF 2(1,2)]
    have leases: "oc_leases db' = oc_leases db @ [l]" using updateAttemptState_Inr [OF wrote(2)] 2(6) by (auto simp: core_def)
    note change = state_change [OF inv _ _ wrote(2) core_fields(2,1) [OF 2(6)] cur 2(3)]
    have "oc_inv db' \<and> only_state db db' (ocr_AttemptID r) AssignmentLeased"
      using change leases_for_claim [OF inv cur(3) 2(3) l] leases_okD [OF wrote(1)] l(1)
      by (auto simp: leases retryableTerminalState_def)
    then show ?thesis using cur(3) 2(3) by blast
  qed
qed

section \<open>Fenced operations\<close>

lemma leases_for_state: "leased_state st = leased_state st' \<Longrightarrow> leases_for leases tid st gen = leases_for leases tid st' gen"
  by (simp add: leases_for_def)

lemma row_update_map: "row_update sel f rows = map (\<lambda>r. if sel r then f r else r) rows"
  by (simp add: row_update_def)

lemma only_state_trans:
  assumes "keeps_attempts db db1" "only_state db1 db' tid target"
  shows "only_state db db' tid target"
  using assms unfolding keeps_attempts_def only_state_def by metis

text \<open>An update of an attempt in place that changes neither its state nor its lease.\<close>

lemma touch_attempts:
  assumes inv: "oc_inv db" and f: "\<And>t. same_attempt (f t) t" and g: "\<And>a. same_assignment (g a) a"
    and tabs: "oc_attempts db' = map f (oc_attempts db)" "oc_assignments db' = map g (oc_assignments db)" "oc_leases db' = oc_leases db"
  shows "oc_inv db'" "keeps_attempts db db'" "att db k = Some t \<Longrightarrow> att db' k = Some (f t)" "asg db k = Some a \<Longrightarrow> asg db' k = Some (g a)"
proof -
  show "oc_inv db'" by (rule oc_inv_same [OF inv tabs(1,2), of id]) (simp_all add: tabs f g same_lease_def)
  have att: "att db' k = map_option f (att db k)" for k by (rule att_map [OF tabs(1)]) (use f in \<open>simp add: same_attempt_def\<close>)
  have asg: "asg db' k = map_option g (asg db k)" for k by (rule asg_map [OF tabs(2)]) (use g in \<open>simp add: same_assignment_def\<close>)
  show "att db k = Some t \<Longrightarrow> att db' k = Some (f t)" "asg db k = Some a \<Longrightarrow> asg db' k = Some (g a)" by (simp_all add: att asg)
  show "keeps_attempts db db'" using f by (auto simp: keeps_attempts_def att same_attempt_def)
qed

lemma BindAttemptResources_inv:
  assumes inv: "oc_inv db" and run: "BindAttemptResources now db r = Inr (db', res)"
  shows "oc_inv db' \<and> (db' = db \<and> ow_AlreadyPresent res \<or>
    (\<exists>t. att db (osr_AttemptID r) = Some t \<and> leased_state (ot_State t) \<and> ot_State t = osr_ExpectedState r \<and>
       only_state db db' (osr_AttemptID r) AssignmentPreparing))"
proof -
  let ?aid = "osr_AssignmentID r" and ?tid = "osr_AttemptID r" and ?res = "osr_Resources r"
  let ?f = "\<lambda>t. if ot_AttemptID t = ?tid then t\<lparr>ot_RuntimeSessionID := orb_RuntimeSessionID ?res, ot_WorkspaceID := orb_WorkspaceID ?res\<rparr> else t"
  have "(db' = db \<and> ow_AlreadyPresent res) \<or> (\<exists>s db1 db2.
      fencedSnapshot db ?aid ?tid (osr_ExpectedState r) (osr_LeaseGeneration r) (osr_FencingDigest r) (orb_UpdatedAt ?res) = Inr s \<and>
      core db1 = core db \<and>
      updateAttemptState now (db1\<lparr>oc_attempts := map ?f (oc_attempts db1)\<rparr>) ?aid ?tid (osr_ExpectedState r) AssignmentPreparing
        (ot_LeaseGeneration (os_Attempt s)) [] RecoveryNone (orb_UpdatedAt ?res) = Inr db2 \<and> core db' = core db2)"
    using with_replay_Inr [OF run [unfolded BindAttemptResources_def]]
    by (auto simp: Let_def rbind_eq_Inr row_update_def dest!: finish_core insert_resources_core)
  then show ?thesis
  proof (elim disjE exE conjE)
    assume "db' = db" "ow_AlreadyPresent res"
    then show ?thesis using inv by simp
  next
    fix s db1 db2
    assume fence: "fencedSnapshot db ?aid ?tid (osr_ExpectedState r) (osr_LeaseGeneration r) (osr_FencingDigest r) (orb_UpdatedAt ?res) = Inr s"
      and core1: "core db1 = core db" and upd: "updateAttemptState now (db1\<lparr>oc_attempts := map ?f (oc_attempts db1)\<rparr>) ?aid ?tid (osr_ExpectedState r)
        AssignmentPreparing (ot_LeaseGeneration (os_Attempt s)) [] RecoveryNone (orb_UpdatedAt ?res) = Inr db2" and core2: "core db' = core db2"
    note s = fencedSnapshot_Inr [OF fence]
    note cur = snapshot_current [OF s(1,2)]
    obtain l where l: "os_Lease s = Some l" "ol_State l = LeaseActive" using s(5) by blast
    note leased = snapshot_leased(1) [OF inv s(1) l]
    define db0 where "db0 = db1\<lparr>oc_attempts := map ?f (oc_attempts db1)\<rparr>"
    have tabs: "oc_attempts db0 = map ?f (oc_attempts db)" "oc_assignments db0 = map id (oc_assignments db)" "oc_leases db0 = oc_leases db"
      using core_fields [OF core1] by (simp_all add: db0_def)
    have "same_attempt (?f t) t" "same_assignment (id a) a" for t a by (simp_all add: same_attempt_def same_assignment_def work_key_def)
    note touched = touch_attempts [OF inv this tabs]
    have leases: "oc_leases db' = oc_leases db0" using updateAttemptState_Inr [OF upd [folded db0_def]] core_fields(3) [OF core2] by auto
    have ok: "leases_for (oc_leases db) ?tid AssignmentPreparing (ot_LeaseGeneration (os_Attempt s))"
      using oc_invD(3) [OF inv cur(3)] s(2) leased leases_for_state [of AssignmentPreparing "ot_State (os_Attempt s)"]
      by (simp add: lease_ok_for leased_state_def)
    have st: "ot_State (?f (os_Attempt s)) = osr_ExpectedState r" using s(3) by simp
    have "oc_inv db' \<and> only_state db0 db' ?tid AssignmentPreparing"
      using state_change [OF touched(1) refl refl upd [folded db0_def] core_fields(2,1) [OF core2] touched(4) [OF cur(1)] _ touched(3) [OF cur(3)] st]
        cur(2) ok leased_not_final [OF leased] s(3) touched(1) leases tabs(3) by (simp add: oc_inv_def)
    then show ?thesis using cur(3) s(3) leased only_state_trans [OF touched(2)] by blast
  qed
qed

text \<open>Ending the active lease of an attempt.\<close>

lemma ended_lease:
  assumes inv: "oc_inv db" and t: "att db tid = Some t" and l: "l \<in> set (oc_leases db)" "ol_AttemptID l = tid" "ol_State l = LeaseActive"
    and sel: "\<And>l'. l' \<in> set (oc_leases db) \<Longrightarrow> ol_State l' = LeaseActive \<Longrightarrow> sel l' \<longleftrightarrow> l' = l"
    and st: "st \<noteq> LeaseActive" "\<not> leased_state target"
    and leases_eq: "leases = oc_leases (end_lease now db sel st at)"
  shows "leases_for leases tid target (ot_LeaseGeneration t)"
    "ol_AttemptID k \<noteq> tid \<Longrightarrow> k \<in> set leases \<longleftrightarrow> k \<in> set (oc_leases db)"
    "keys_distinct ol_LeaseID leases" "keys_distinct lease_key leases"
proof -
  define h where "h = (\<lambda>k. if sel k \<and> ol_State k = LeaseActive then k\<lparr>ol_State := st, ol_ReleasedAt := stored_time now at\<rparr> else k)"
  have leases: "leases = map h (oc_leases db)" by (simp add: leases_eq end_lease_def row_update_map h_def)
  show "keys_distinct ol_LeaseID leases" "keys_distinct lease_key leases"
    using inv by (simp_all add: leases keys_distinct_map oc_inv_def lease_key_def h_def)
  have keep: "h k = k" if "k \<in> set (oc_leases db)" "ol_AttemptID k \<noteq> tid" for k using sel [OF that(1)] that(2) l(2) by (auto simp: h_def)
  have id: "ol_AttemptID (h k) = ol_AttemptID k" "ol_Generation (h k) = ol_Generation k" for k by (simp_all add: h_def)
  show "k \<in> set leases \<longleftrightarrow> k \<in> set (oc_leases db)" if other: "ol_AttemptID k \<noteq> tid"
  proof
    assume "k \<in> set leases"
    then obtain k0 where k0: "k = h k0" "k0 \<in> set (oc_leases db)" unfolding leases set_map by (rule imageE)
    then have "ol_AttemptID k0 \<noteq> tid" using other id(1) [of k0] by simp
    then show "k \<in> set (oc_leases db)" using keep [OF k0(2)] k0 by simp
  next
    assume mem: "k \<in> set (oc_leases db)"
    show "k \<in> set leases" using imageI [OF mem, of h] keep [OF mem other] by (simp only: leases set_map)
  qed
  have none: "ol_State (h k) \<noteq> LeaseActive" if "k \<in> set (oc_leases db)" "ol_AttemptID k = tid" for k
    using sel [OF that(1)] active_lease_unique [OF inv l(1) that(1)] that(2) l(2,3) st(1) by (auto simp: h_def)
  have "ol_Generation k \<le> ot_LeaseGeneration t" if "k \<in> set (oc_leases db)" "ol_AttemptID k = tid" for k
    using oc_invD(3) [OF inv t] att_SomeD [OF t] that by (auto simp: lease_ok_def)
  then show "leases_for leases tid target (ot_LeaseGeneration t)" using none st(2) id by (simp add: leases leases_for_def)
qed

lemma end_lease_fields [simp]:
  "oc_attempts (end_lease now db sel st at) = oc_attempts db" "oc_assignments (end_lease now db sel st at) = oc_assignments db"
  by (simp_all add: end_lease_def)

lemma end_lease_cong: "oc_leases db1 = oc_leases db \<Longrightarrow> oc_leases (end_lease now db1 sel st at) = oc_leases (end_lease now db sel st at)"
  by (simp add: end_lease_def)

lemma release_terminal_Inr:
  assumes "release_terminal hex now db r = Inr db'"
  shows "(\<not> terminalAssignmentState (otr_TargetState r) \<and> db' = db) \<or> (terminalAssignmentState (otr_TargetState r) \<and>
    (\<exists>st. st \<noteq> LeaseActive \<and> core db' = core (end_lease now db
       (\<lambda>l. ol_AttemptID l = otr_AttemptID r \<and> ol_Generation l = otr_LeaseGeneration r) st (otr_UpdatedAt r))))"
  using assms
  by (auto simp: release_terminal_def Let_def split: if_splits dest!: recordAudit_core)

lemma TransitionAssignment_inv:
  assumes inv: "oc_inv db" and run: "TransitionAssignment hex now db r = Inr (db', res)"
    and req: "leased_state (otr_ExpectedState r) \<Longrightarrow> leased_state (otr_TargetState r) \<or> terminalAssignmentState (otr_TargetState r)"
  shows "oc_inv db' \<and> (db' = db \<and> ow_AlreadyPresent res \<or>
    (\<exists>t. att db (otr_AttemptID r) = Some t \<and> leased_state (ot_State t) \<and> ot_State t = otr_ExpectedState r \<and>
       only_state db db' (otr_AttemptID r) (otr_TargetState r)))"
proof -
  let ?aid = "otr_AssignmentID r" and ?tid = "otr_AttemptID r" and ?target = "otr_TargetState r"
  have "(db' = db \<and> ow_AlreadyPresent res) \<or> (\<exists>s db1 db2.
      fencedSnapshot db ?aid ?tid (otr_ExpectedState r) (otr_LeaseGeneration r) (otr_FencingDigest r) (otr_UpdatedAt r) = Inr s \<and>
      updateAttemptState now db ?aid ?tid (otr_ExpectedState r) ?target (ot_LeaseGeneration (os_Attempt s)) (otr_FailureCode r)
        (otr_Recovery r) (otr_UpdatedAt r) = Inr db1 \<and> release_terminal hex now db1 r = Inr db2 \<and> core db' = core db2)"
    using with_replay_Inr [OF run [unfolded TransitionAssignment_def]]
    by (auto simp: Let_def rbind_eq_Inr dest!: finish_core)
  then show ?thesis
  proof (elim disjE exE conjE)
    assume "db' = db" "ow_AlreadyPresent res"
    then show ?thesis using inv by simp
  next
    fix s db1 db2
    assume fence: "fencedSnapshot db ?aid ?tid (otr_ExpectedState r) (otr_LeaseGeneration r) (otr_FencingDigest r) (otr_UpdatedAt r) = Inr s"
      and upd: "updateAttemptState now db ?aid ?tid (otr_ExpectedState r) ?target (ot_LeaseGeneration (os_Attempt s)) (otr_FailureCode r)
        (otr_Recovery r) (otr_UpdatedAt r) = Inr db1" and rel: "release_terminal hex now db1 r = Inr db2" and core2: "core db' = core db2"
    note s = fencedSnapshot_Inr [OF fence]
    note cur = snapshot_current [OF s(1,2)]
    obtain l where l: "os_Lease s = Some l" "ol_State l = LeaseActive" "ol_Generation l = otr_LeaseGeneration r" using s(5) by blast
    note leased = snapshot_leased [OF inv s(1) l(1,2)]
    have leases1: "oc_leases db1 = oc_leases db" using updateAttemptState_Inr [OF upd] by auto
    have rest: "oc_attempts db' = oc_attempts db1" "oc_assignments db' = oc_assignments db1"
      using release_terminal_Inr [OF rel] core_fields [OF core2] by (auto simp: core_def)
    have final: "\<not> leased_state ?target" if "terminalAssignmentState ?target"
      using that by (auto simp: terminalAssignmentState_def leased_state_def)
    have sel: "(\<lambda>l. ol_AttemptID l = ?tid \<and> ol_Generation l = otr_LeaseGeneration r) l' \<longleftrightarrow> l' = l"
      if "l' \<in> set (oc_leases db)" "ol_State l' = LeaseActive" for l'
      using active_lease_unique [OF inv leased(3) that(1) _ l(2) that(2)] leased(4) l(3) s(2) by auto
    have "leases_for (oc_leases db') ?tid ?target (ot_LeaseGeneration (os_Attempt s)) \<and>
        (\<forall>k. ol_AttemptID k \<noteq> ?tid \<longrightarrow> k \<in> set (oc_leases db') \<longleftrightarrow> k \<in> set (oc_leases db)) \<and>
        keys_distinct ol_LeaseID (oc_leases db') \<and> keys_distinct lease_key (oc_leases db')"
    proof (cases "terminalAssignmentState ?target")
      case True
      then obtain st where st: "st \<noteq> LeaseActive" "core db2 = core (end_lease now db1
          (\<lambda>l. ol_AttemptID l = ?tid \<and> ol_Generation l = otr_LeaseGeneration r) st (otr_UpdatedAt r))"
        using release_terminal_Inr [OF rel] by blast
      have eq: "oc_leases db' = oc_leases (end_lease now db (\<lambda>l. ol_AttemptID l = ?tid \<and> ol_Generation l = otr_LeaseGeneration r) st (otr_UpdatedAt r))"
        unfolding core_fields(3) [OF core2] core_fields(3) [OF st(2)] by (rule end_lease_cong [OF leases1])
      have "ol_AttemptID l = ?tid" using leased(4) s(2) by simp
      note ended = ended_lease [OF inv cur(3) leased(3) this l(2) sel st(1) final [OF True] eq]
      show ?thesis by (intro conjI allI impI ended)
    next
      case False
      then have "leased_state ?target" using req leased(1) s(3) by simp
      then show ?thesis
        using release_terminal_Inr [OF rel] False oc_invD(3) [OF inv cur(3)] leased(1) s(2) inv leases1 core_fields(3) [OF core2]
          leases_for_state [of ?target "ot_State (os_Attempt s)"] by (auto simp: lease_ok_for oc_inv_def)
    qed
    then have "oc_inv db' \<and> only_state db db' ?tid ?target"
      using state_change [OF inv refl refl upd rest cur s(3)] leased_not_final [OF leased(1)] s(3) by simp
    then show ?thesis using cur(3) s(3) leased(1) by blast
  qed
qed

lemma HeartbeatLease_Inr:
  assumes inv: "oc_inv db" and run: "HeartbeatLease now db r = Inr (db', s)"
  shows "oc_inv db'" "keeps_attempts db db'" "\<exists>t. att db (ohr_AttemptID r) = Some t \<and> leased_state (ot_State t)"
proof -
  let ?h = "\<lambda>l. if ol_LeaseID l = ohr_LeaseID r \<and> ol_Generation l = ohr_LeaseGeneration r \<and> ol_State l = LeaseActive
    then l\<lparr>ol_HeartbeatAt := stored_time now (ohr_HeartbeatAt r), ol_ExpiresAt := stored_time now (ohr_ExpiresAt r)\<rparr> else l"
  let ?g = "\<lambda>a. if oa_AssignmentID a = ohr_AssignmentID r then a\<lparr>oa_UpdatedAt := stored_time now (ohr_HeartbeatAt r)\<rparr> else a"
  obtain s0 l where s0: "orchestrationSnapshot db (ohr_AssignmentID r) = Inr s0" "ot_AttemptID (os_Attempt s0) = ohr_AttemptID r"
      "os_Lease s0 = Some l" "ol_State l = LeaseActive"
    using run by (auto simp: HeartbeatLease_def rbind_eq_Inr split: if_splits option.splits)
  have tabs: "oc_attempts db' = map id (oc_attempts db)" "oc_assignments db' = map ?g (oc_assignments db)" "oc_leases db' = map ?h (oc_leases db)"
    using run by (auto simp: HeartbeatLease_def Let_def rbind_eq_Inr row_update_def split: if_splits option.splits)
  show "oc_inv db'" by (rule oc_inv_same [OF inv tabs]) (simp_all add: same_attempt_def same_assignment_def same_lease_def lease_key_def asg_key_def)
  show "keeps_attempts db db'" using att_map [OF tabs(1)] by (simp add: keeps_attempts_def)
  show "\<exists>t. att db (ohr_AttemptID r) = Some t \<and> leased_state (ot_State t)"
    using snapshot_current(3) [OF s0(1,2)] snapshot_leased(1) [OF inv s0(1,3,4)] by blast
qed

section \<open>Retrying\<close>

lemma RetryAssignment_inv:
  assumes inv: "oc_inv db" and run: "RetryAssignment now db r = Inr (db', res)"
    and req: "ot_AssignmentID (ort_Attempt r) = ort_AssignmentID r" "ot_State (ort_Attempt r) = AssignmentPlanned"
      "\<And>a. asg db (ort_AssignmentID r) = Some a \<Longrightarrow> asg_key a = work_key (ort_Attempt r)"
  shows "oc_inv db' \<and> keeps_attempts db db'"
proof -
  let ?t = "(ort_Attempt r)\<lparr>ot_CreatedAt := stored_time now (ot_CreatedAt (ort_Attempt r)),
    ot_UpdatedAt := stored_time now (ot_UpdatedAt (ort_Attempt r))\<rparr>"
  let ?g = "\<lambda>a. a\<lparr> oa_State := AssignmentPlanned, oa_CurrentAttemptID := ot_AttemptID (ort_Attempt r),
    oa_CurrentAttempt := ot_AttemptNumber (ort_Attempt r), oa_WorkerID := ort_WorkerID r,
    oa_IdempotencyDigest := ot_IdempotencyDigest (ort_Attempt r), oa_RecoveryDisposition := RecoveryNone, oa_FailureCode := [],
    oa_UpdatedAt := stored_time now (ot_UpdatedAt (ort_Attempt r)) \<rparr>"
  let ?sel = "\<lambda>a. oa_AssignmentID a = ort_AssignmentID r \<and> oa_CurrentAttemptID a = ort_PreviousAttemptID r"
  have "db' = db \<or> (\<exists>s. orchestrationSnapshot db (ort_AssignmentID r) = Inr s \<and> ot_AttemptID (os_Attempt s) = ort_PreviousAttemptID r \<and>
      retryableTerminalState (ot_State (os_Attempt s)) \<and> attempts_ok db (oc_attempts db @ [?t]) \<and>
      assignments_ok (row_update ?sel ?g (oc_assignments db)) \<and>
      core db' = (row_update ?sel ?g (oc_assignments db), oc_attempts db @ [?t], oc_leases db))"
    using with_replay_Inr [OF run [unfolded RetryAssignment_def]]
    by (auto simp: Let_def rbind_eq_Inr insertOrchestrationAttempt_def core_def split: if_splits dest!: finish_core)
  then show ?thesis
  proof (elim disjE exE conjE)
    assume "db' = db"
    then show ?thesis using inv by (simp add: keeps_attempts_core)
  next
    fix s
    assume s: "orchestrationSnapshot db (ort_AssignmentID r) = Inr s" "ot_AttemptID (os_Attempt s) = ort_PreviousAttemptID r"
        "retryableTerminalState (ot_State (os_Attempt s))"
      and ok: "attempts_ok db (oc_attempts db @ [?t])" "assignments_ok (row_update ?sel ?g (oc_assignments db))"
      and core: "core db' = (row_update ?sel ?g (oc_assignments db), oc_attempts db @ [?t], oc_leases db)"
    define t a' where "t = ?t" and "a' = ?g (os_Assignment s)"
    have t: "ot_AssignmentID t = ort_AssignmentID r" "ot_State t = AssignmentPlanned" "work_key t = work_key (ort_Attempt r)"
      using req by (simp_all add: t_def work_key_def)
    note cur = snapshot_current [OF s(1,2)]
    have a': "oa_CurrentAttemptID a' = ot_AttemptID t" "asg_key a' = work_key t" "oa_State a' = AssignmentPlanned"
      using req(3) [OF cur(1)] t(3) by (simp_all add: a'_def t_def asg_key_def)
    have tabs: "oc_assignments db' = row_update ?sel ?g (oc_assignments db)" "oc_attempts db' = oc_attempts db @ [t]" "oc_leases db' = oc_leases db"
      using core by (simp_all add: core_def t_def)
    have fresh: "att db (ot_AttemptID t) = None" using keys_distinct_snocD [OF attempts_okD [OF ok(1)]] by (simp add: att_def t_def)
    have akeys: "keys_distinct oa_AssignmentID (oc_assignments db')" "keys_distinct asg_key (oc_assignments db')"
      using assignments_okD [OF ok(2)] by (simp_all add: tabs)
    have asg': "asg db' k = (if k = ot_AssignmentID t then Some a' else asg db k)" for k
    proof -
      have lookup: "asg db' k = map_option (\<lambda>a. if ?sel a then ?g a else a) (asg db k)"
        by (rule asg_map) (simp_all add: tabs row_update_map)
      show ?thesis
      proof (cases "k = ort_AssignmentID r")
        case True
        then show ?thesis using cur(1,2) t(1) asg_SomeD [OF cur(1)] unfolding lookup by (simp add: a'_def)
      next
        case False
        then show ?thesis using t(1) asg_SomeD [of db k] unfolding lookup by (cases "asg db k") simp_all
      qed
    qed
    have old: "retryableTerminalState (oa_State a) \<and> asg_key a = work_key t" if "asg db (ot_AssignmentID t) = Some a" for a
      using that cur s(3) req(3) [of a] oc_invD(1) [OF inv cur(1)] t by (auto simp: current_ok_def)
    show ?thesis using oc_inv_fresh [OF inv tabs(2,3) fresh t(2) akeys asg' a' old] by (simp add: keeps_attempts_def)
  qed
qed

section \<open>Reconciling\<close>

definition lapses :: "OCDB \<Rightarrow> OCDB \<Rightarrow> bool" where
  "lapses db db' \<longleftrightarrow> (\<forall>k t. att db k = Some t \<longrightarrow> (\<exists>t'. att db' k = Some t' \<and>
     (ot_State t' = ot_State t \<or> (leased_state (ot_State t) \<and> ot_State t' = AssignmentExpired))))"

lemma lapses_trans: "lapses db db1 \<Longrightarrow> lapses db1 db' \<Longrightarrow> lapses db db'"
  unfolding lapses_def leased_state_def by (metis (no_types, lifting) AssignmentState.distinct insertE singletonD)

lemma keeps_lapses: "keeps_attempts db db' \<Longrightarrow> lapses db db'"
  by (auto simp: keeps_attempts_def lapses_def)

lemma only_state_lapses:
  assumes "att db tid = Some t" "leased_state (ot_State t)" "only_state db db' tid AssignmentExpired"
  shows "lapses db db'"
  unfolding lapses_def
proof (intro allI impI)
  fix k t0
  assume k: "att db k = Some t0"
  then obtain t' where "att db' k = Some t'" "ot_State t' = (if k = tid then AssignmentExpired else ot_State t0)"
    using assms(3) by (auto simp: only_state_def)
  then show "\<exists>t'. att db' k = Some t' \<and> (ot_State t' = ot_State t0 \<or> (leased_state (ot_State t0) \<and> ot_State t' = AssignmentExpired))"
    using assms(1,2) k by auto
qed

lemma expire_attempt_inv:
  assumes inv: "oc_inv db" and snap: "orchestrationSnapshot db aid = Inr s" and lapsed: "lease_lapsed now s"
    and run: "expire_attempt hex clock now actor db aid s = Inr db'"
  shows "oc_inv db' \<and> lapses db db'"
proof -
  let ?tid = "ot_AttemptID (os_Attempt s)" and ?from = "ot_State (os_Attempt s)"
  obtain l where l: "os_Lease s = Some l" "ol_State l = LeaseActive" using lapsed by (auto simp: lease_lapsed_def split: option.splits)
  note leased = snapshot_leased [OF inv snap l]
  note cur = snapshot_current [OF snap refl]
  let ?sel = "\<lambda>k. Some (ol_LeaseID k) = map_option ol_LeaseID (os_Lease s)"
  have "?from \<noteq> AssignmentExpired" using leased(1) by (auto simp: leased_state_def)
  then obtain db0 db1 recovery where core0: "core db0 = core (end_lease clock db ?sel LeaseExpired now)"
      and upd: "updateAttemptState clock db0 aid ?tid ?from AssignmentExpired (ot_LeaseGeneration (os_Attempt s)) ''lease_expired'' recovery now = Inr db1"
      and core1: "core db' = core db1"
    using run unfolding expire_attempt_def Let_def rbind_eq_Inr by (auto simp: rbind_eq_Inr dest!: recordAudit_core)
  have sel: "?sel k \<longleftrightarrow> k = l" if "k \<in> set (oc_leases db)" "ol_State k = LeaseActive" for k
    using inv that(1) leased(3) l(1) by (auto simp: oc_inv_def keys_distinct_def distinct_map inj_on_def)
  have leases: "oc_leases db' = oc_leases (end_lease clock db ?sel LeaseExpired now)"
    using updateAttemptState_Inr [OF upd] core_fields(3) [OF core0] core_fields(3) [OF core1] by auto
  have final: "\<not> leased_state AssignmentExpired" by (simp add: leased_state_def)
  note ended = ended_lease [OF inv cur(3) leased(3,4) l(2) sel _ final leases]
  have base: "oc_attempts db0 = oc_attempts db" "oc_assignments db0 = oc_assignments db" using core_fields [OF core0] by simp_all
  have "oc_inv db' \<and> only_state db db' ?tid AssignmentExpired"
    using state_change [OF inv base upd core_fields(2,1) [OF core1] cur refl] ended leased_not_final [OF leased(1)] by simp
  then show ?thesis using only_state_lapses [OF cur(3) leased(1)] by blast
qed

lemma reconcile_one_inv:
  assumes inv: "oc_inv (fst st)" and run: "reconcile_one hex clock now actor st aid = Inr st'"
  shows "oc_inv (fst st') \<and> lapses (fst st) (fst st')"
proof -
  obtain db snaps where st: "st = (db, snaps)" by (cases st)
  obtain s where s: "orchestrationSnapshot db aid = Inr s" using run by (auto simp: reconcile_one_def st rbind_eq_Inr)
  let ?f = "\<lambda>t. if ot_AttemptID t = ot_AttemptID (os_Attempt s) then t\<lparr>ot_RecoveryDisposition :=
    recoveryDisposition (ot_State (os_Attempt s)) (os_Resources s \<noteq> None), ot_UpdatedAt := stored_time clock now\<rparr> else t"
  let ?g = "\<lambda>a. if oa_AssignmentID a = aid then a\<lparr>oa_RecoveryDisposition :=
    recoveryDisposition (ot_State (os_Attempt s)) (os_Resources s \<noteq> None), oa_UpdatedAt := stored_time clock now\<rparr> else a"
  obtain db1 where db1: "(if lease_lapsed now s then expire_attempt hex clock now actor db aid s
      else Inr (db\<lparr>oc_attempts := map ?f (oc_attempts db), oc_assignments := map ?g (oc_assignments db)\<rparr>)) = Inr db1"
    and core1: "core (fst st') = core db1"
    using run s unfolding reconcile_one_def st Let_def prod.case rbind_eq_Inr row_update_def
    by (elim exE conjE) (auto dest!: recordAudit_core simp: rbind_eq_Inr)
  have "oc_inv db1 \<and> lapses db db1"
  proof (cases "lease_lapsed now s")
    case True
    then show ?thesis using expire_attempt_inv [OF inv [unfolded st fst_conv] s True] db1 by simp
  next
    case False
    then have tabs: "oc_attempts db1 = map ?f (oc_attempts db)" "oc_assignments db1 = map ?g (oc_assignments db)" "oc_leases db1 = oc_leases db"
      using db1 by auto
    have "same_attempt (?f t) t" "same_assignment (?g a) a" for t a
      by (simp_all add: same_attempt_def same_assignment_def work_key_def asg_key_def)
    note touched = touch_attempts [OF inv [unfolded st fst_conv] this tabs]
    show ?thesis using touched(1) keeps_lapses [OF touched(2)] by blast
  qed
  then show ?thesis using oc_inv_core [OF core1] keeps_lapses [OF keeps_attempts_core [OF core1]] lapses_trans [of db db1 "fst st'"]
    by (simp add: st)
qed

lemma ReconcileAssignments_inv:
  assumes "oc_inv db" and "ReconcileAssignments hex clock db now actor = Inr (db', snaps)"
  shows "oc_inv db' \<and> lapses db db'"
proof -
  have "oc_inv (fst (db', snaps)) \<and> lapses db (fst (db', snaps))"
  proof (rule fold_result_invariant [OF assms(2) [unfolded ReconcileAssignments_def], where P = "\<lambda>st. oc_inv (fst st) \<and> lapses db (fst st)"])
    show "oc_inv (fst (db, [])) \<and> lapses db (fst (db, []))" using assms(1) by (simp add: keeps_lapses keeps_attempts_core)
  qed (use reconcile_one_inv lapses_trans in blast)
  then show ?thesis by simp
qed

end
