(* ===== verification/Assignment_Safety.thy ===== *)
theory Assignment_Safety
  imports Assignment_Invariant
begin

text \<open>
  The runs of the control service: every sequence of the calls of control.go from an empty database.
  One worker at a time holds a work package, an attempt moves through its states as the reducer
  says, a worker that lost its attempt is locked out, and a call that is repeated with the same
  operation is answered from the record.
\<close>

section \<open>Runs\<close>

inductive control_step :: "OCDB \<Rightarrow> OCDB \<Rightarrow> bool" where
  step_Plan: "Plan service db r = Inr (db', res) \<Longrightarrow> control_step db db'"
| step_Claim: "Claim service db r = Inr (db', res) \<Longrightarrow> control_step db db'"
| step_BindResources: "BindResources service db r = Inr (db', res) \<Longrightarrow> control_step db db'"
| step_Transition: "Transition service db r = Inr (db', res) \<Longrightarrow> control_step db db'"
| step_Heartbeat: "Heartbeat service db r = Inr (db', s) \<Longrightarrow> control_step db db'"
| step_Retry: "Retry service db r = Inr (db', res) \<Longrightarrow> control_step db db'"
| step_Reconcile: "Reconcile service db actor = Inr (db', ss) \<Longrightarrow> control_step db db'"
| step_RecordGateStatus: "RecordGateStatus service db r = Inr (db', present) \<Longrightarrow> control_step db db'"
| step_RecordOperatorDecision: "RecordOperatorDecision service db r = Inr (db', present) \<Longrightarrow> control_step db db'"

abbreviation control_run :: "OCDB \<Rightarrow> OCDB \<Rightarrow> bool" where
  "control_run \<equiv> control_step\<^sup>*\<^sup>*"

text \<open>The moves of one attempt in one call.\<close>

definition moves :: "AssignmentState \<Rightarrow> AssignmentState \<Rightarrow> bool" where
  "moves from to \<longleftrightarrow> to = from \<or> (from = AssignmentPlanned \<and> to = AssignmentLeased) \<or>
     (leased_state from \<and> (ReduceAssignmentState from to = ok \<or> to = AssignmentExpired))"

definition attempts_move :: "OCDB \<Rightarrow> OCDB \<Rightarrow> bool" where
  "attempts_move db db' \<longleftrightarrow> (\<forall>k t. att db k = Some t \<longrightarrow> (\<exists>t'. att db' k = Some t' \<and> moves (ot_State t) (ot_State t')))"

lemma keeps_move: "keeps_attempts db db' \<Longrightarrow> attempts_move db db'"
  by (auto simp: keeps_attempts_def attempts_move_def moves_def)

lemma lapses_move: "lapses db db' \<Longrightarrow> attempts_move db db'"
  unfolding lapses_def attempts_move_def moves_def by meson

lemma only_state_move:
  assumes "only_state db db' tid target" "att db tid = Some t" "moves (ot_State t) target"
  shows "attempts_move db db'"
  unfolding attempts_move_def
proof (intro allI impI)
  fix k t0
  assume k: "att db k = Some t0"
  then obtain t' where "att db' k = Some t'" "ot_State t' = (if k = tid then target else ot_State t0)"
    using assms(1) by (auto simp: only_state_def)
  then show "\<exists>t'. att db' k = Some t' \<and> moves (ot_State t0) (ot_State t')" using assms(2,3) k by (auto simp: moves_def)
qed

lemma stored_Inr [simp]: "stored x = Inr y \<longleftrightarrow> x = Inr y"
  by (auto simp: stored_def split: sum.splits)

lemma fenced_Inr [simp]: "fenced x = Inr y \<longleftrightarrow> x = Inr y"
  by (auto simp: fenced_def split: sum.splits)

lemma reduce_leased:
  assumes "ReduceAssignmentState from to = ok" "leased_state from"
  shows "leased_state to \<or> terminalAssignmentState to"
  using assms by (cases "from") (auto simp: ReduceAssignmentState_def leased_state_def terminalAssignmentState_def split: if_splits)

section \<open>Each call\<close>

lemma Plan_inv: "oc_inv db \<Longrightarrow> Plan service db r = Inr (db', res) \<Longrightarrow> oc_inv db' \<and> attempts_move db db'"
  using PlanAssignment_inv keeps_move
  by (auto simp: Plan_def Let_def rbind_eq_Inr asg_key_def work_key_def)

lemma Claim_Inr:
  assumes "oc_inv db" "Claim service db r = Inr (db', res)"
  shows "oc_inv db'" "db' = db \<and> ow_AlreadyPresent res \<or> (\<exists>t. att db (cl_AttemptID r) = Some t \<and> ot_State t = AssignmentPlanned \<and>
    only_state db db' (cl_AttemptID r) AssignmentLeased)"
proof -
  obtain req where req: "ClaimAssignment (cs_store_clock service) db req = Inr (db', res)" "ocr_ExpectedState req = AssignmentPlanned"
      "ocr_AttemptID req = cl_AttemptID r"
    using assms(2) by (auto simp: Claim_def Let_def rbind_eq_Inr split: if_splits)
  show "oc_inv db'" "db' = db \<and> ow_AlreadyPresent res \<or> (\<exists>t. att db (cl_AttemptID r) = Some t \<and> ot_State t = AssignmentPlanned \<and>
    only_state db db' (cl_AttemptID r) AssignmentLeased)"
    using ClaimAssignment_inv [OF assms(1) req(1,2)] req(3) by auto
qed

lemma BindResources_Inr:
  assumes "oc_inv db" "BindResources service db r = Inr (db', res)"
  shows "oc_inv db'" "db' = db \<and> ow_AlreadyPresent res \<or> (\<exists>t. att db (br_AttemptID r) = Some t \<and> ot_State t = AssignmentLeased \<and>
    only_state db db' (br_AttemptID r) AssignmentPreparing)"
proof -
  obtain req where req: "BindAttemptResources (cs_store_clock service) db req = Inr (db', res)"
      "osr_ExpectedState req = AssignmentLeased" "osr_AttemptID req = br_AttemptID r"
    using assms(2) by (auto simp: BindResources_def Let_def split: if_splits)
  show "oc_inv db'" "db' = db \<and> ow_AlreadyPresent res \<or> (\<exists>t. att db (br_AttemptID r) = Some t \<and> ot_State t = AssignmentLeased \<and>
    only_state db db' (br_AttemptID r) AssignmentPreparing)"
    using BindAttemptResources_inv [OF assms(1) req(1)] req(2,3) by auto
qed

lemma Transition_Inr:
  assumes inv: "oc_inv db" and run: "Transition service db r = Inr (db', res)"
  shows "oc_inv db'" "db' = db \<and> ow_AlreadyPresent res \<or> (\<exists>t. att db (trq_AttemptID r) = Some t \<and> leased_state (ot_State t) \<and>
      ReduceAssignmentState (ot_State t) (trq_TargetState r) = ok \<and> only_state db db' (trq_AttemptID r) (trq_TargetState r))"
    "\<exists>t. att db (trq_AttemptID r) = Some t \<and> ReduceAssignmentState (ot_State t) (trq_TargetState r) = ok"
proof -
  obtain s req where s: "orchestrationSnapshot db (trq_AssignmentID r) = Inr s" "ot_AttemptID (os_Attempt s) = trq_AttemptID r"
      "ReduceAssignmentState (ot_State (os_Attempt s)) (trq_TargetState r) = ok"
    and req: "TransitionAssignment (cs_hex16 service) (cs_store_clock service) db req = Inr (db', res)"
      "otr_ExpectedState req = ot_State (os_Attempt s)" "otr_TargetState req = trq_TargetState r" "otr_AttemptID req = trq_AttemptID r"
    using run by (auto simp: Transition_def Let_def rbind_eq_Inr split: if_splits)
  note cur = snapshot_current(3) [OF s(1,2)]
  show "\<exists>t. att db (trq_AttemptID r) = Some t \<and> ReduceAssignmentState (ot_State t) (trq_TargetState r) = ok" using cur s(3) by blast
  have ok: "leased_state (otr_ExpectedState req) \<Longrightarrow> leased_state (otr_TargetState req) \<or> terminalAssignmentState (otr_TargetState req)"
    using reduce_leased [OF s(3)] req(2,3) by simp
  show "oc_inv db'" "db' = db \<and> ow_AlreadyPresent res \<or> (\<exists>t. att db (trq_AttemptID r) = Some t \<and> leased_state (ot_State t) \<and>
      ReduceAssignmentState (ot_State t) (trq_TargetState r) = ok \<and> only_state db db' (trq_AttemptID r) (trq_TargetState r))"
    using TransitionAssignment_inv [OF inv req(1) ok] req(2-4) s(3) cur by auto
qed

lemma Retry_inv:
  assumes inv: "oc_inv db" and run: "Retry service db r = Inr (db', res)"
  shows "oc_inv db' \<and> attempts_move db db'"
proof -
  obtain s req where s: "orchestrationSnapshot db (rq_AssignmentID r) = Inr s"
    and req: "RetryAssignment (cs_store_clock service) db req = Inr (db', res)"
      "ot_AssignmentID (ort_Attempt req) = ort_AssignmentID req" "ot_State (ort_Attempt req) = AssignmentPlanned"
      "work_key (ort_Attempt req) = asg_key (os_Assignment s)" "ort_AssignmentID req = rq_AssignmentID r"
    using run unfolding Retry_def Let_def
    by (auto simp: rbind_eq_Inr if_Inl_eq_Inr work_key_def asg_key_def)
  show ?thesis
    using RetryAssignment_inv [OF inv req(1-3)] snapshot_current(1) [OF s refl] req(4,5) keeps_move by auto
qed

lemma Heartbeat_Inr:
  assumes "oc_inv db" "Heartbeat service db r = Inr (db', s)"
  shows "oc_inv db'" "keeps_attempts db db'" "\<exists>t. att db (hb_AttemptID r) = Some t \<and> leased_state (ot_State t)"
proof -
  obtain req where req: "HeartbeatLease (cs_store_clock service) db req = Inr (db', s)" "ohr_AttemptID req = hb_AttemptID r"
    using assms(2) by (auto simp: Heartbeat_def split: if_splits)
  show "oc_inv db'" "keeps_attempts db db'" "\<exists>t. att db (hb_AttemptID r) = Some t \<and> leased_state (ot_State t)"
    using HeartbeatLease_Inr [OF assms(1) req(1)] req(2) by simp_all
qed

lemma SaveGateStatus_core: "SaveGateStatus now db g a = Inr (db', present) \<Longrightarrow> core db' = core db"
  by (auto simp: SaveGateStatus_def Let_def rbind_eq_Inr core_def split: option.splits if_splits dest!: recordAudit_core)

lemma SaveOperatorDecision_core: "SaveOperatorDecision now db d a = Inr (db', present) \<Longrightarrow> core db' = core db"
  by (auto simp: SaveOperatorDecision_def rbind_eq_Inr core_def split: option.splits if_splits dest!: recordAudit_core)

section \<open>All calls\<close>

lemma control_step_inv:
  assumes "control_step db db'" "oc_inv db"
  shows "oc_inv db' \<and> attempts_move db db'"
  using assms
proof cases
  case (step_Claim service r res)
  have "moves AssignmentPlanned AssignmentLeased" by (simp add: moves_def)
  then show ?thesis
    using Claim_Inr [OF assms(2) step_Claim] only_state_move [of db db' "cl_AttemptID r" AssignmentLeased]
    by (auto simp: keeps_move keeps_attempts_core)
next
  case (step_BindResources service r res)
  have "moves AssignmentLeased AssignmentPreparing" by (simp add: moves_def leased_state_def ReduceAssignmentState_def)
  then show ?thesis
    using BindResources_Inr [OF assms(2) step_BindResources] only_state_move [of db db' "br_AttemptID r" AssignmentPreparing]
    by (auto simp: keeps_move keeps_attempts_core)
next
  case (step_Transition service r res)
  have "moves (ot_State t) (trq_TargetState r)"
    if "leased_state (ot_State t)" "ReduceAssignmentState (ot_State t) (trq_TargetState r) = ok" for t using that by (simp add: moves_def)
  then show ?thesis
    using Transition_Inr(1,2) [OF assms(2) step_Transition] only_state_move [of db db' "trq_AttemptID r" "trq_TargetState r"]
    by (auto simp: keeps_move keeps_attempts_core)
next
  case (step_Heartbeat service r s)
  then show ?thesis using Heartbeat_Inr [OF assms(2)] keeps_move by blast
next
  case (step_Reconcile service actor ss)
  then show ?thesis using ReconcileAssignments_inv [OF assms(2)] lapses_move by (auto simp: Reconcile_def if_Inl_eq_Inr)
next
  case (step_RecordGateStatus service r present)
  then have "core db' = core db" by (auto simp: RecordGateStatus_def rbind_eq_Inr if_Inl_eq_Inr dest: SaveGateStatus_core)
  then show ?thesis using assms(2) oc_inv_core keeps_move keeps_attempts_core by blast
next
  case (step_RecordOperatorDecision service r present)
  then have "core db' = core db" by (auto simp: RecordOperatorDecision_def rbind_eq_Inr if_Inl_eq_Inr dest: SaveOperatorDecision_core)
  then show ?thesis using assms(2) oc_inv_core keeps_move keeps_attempts_core by blast
qed (use Plan_inv Retry_inv assms(2) in blast)+

lemma oc_inv_empty: "oc_inv (empty_ocdb projects)"
  by (simp add: oc_inv_def empty_ocdb_def keys_distinct_def)

lemma control_run_inv: "control_run db db' \<Longrightarrow> oc_inv db \<Longrightarrow> oc_inv db'"
  by (induction rule: rtranclp_induct) (simp_all add: control_step_inv)

lemma control_run_final:
  assumes "control_run db db'" "oc_inv db" "att db k = Some t" "terminalAssignmentState (ot_State t)"
  shows "\<exists>t'. att db' k = Some t' \<and> ot_State t' = ot_State t"
  using assms
proof (induction rule: rtranclp_induct)
  case (step db1 db2)
  then obtain t1 where t1: "att db1 k = Some t1" "ot_State t1 = ot_State t" by blast
  have "attempts_move db1 db2" using control_step_inv [OF step(2)] control_run_inv [OF step(1) step(4)] by blast
  then obtain t2 where "att db2 k = Some t2" "moves (ot_State t1) (ot_State t2)" using t1(1) by (auto simp: attempts_move_def)
  then show ?case using t1(2) step(6) by (auto simp: moves_def leased_state_def terminalAssignmentState_def)
qed simp

section \<open>Who holds a work package\<close>

definition holders :: "OCDB \<Rightarrow> string \<times> string \<Rightarrow> OrchestrationLease list" where
  "holders db key = filter (\<lambda>l. ol_State l = LeaseActive \<and>
     (case att db (ol_AttemptID l) of None \<Rightarrow> False | Some t \<Rightarrow> work_key t = key)) (oc_leases db)"

lemma mem_holders:
  "l \<in> set (holders db key) \<longleftrightarrow> l \<in> set (oc_leases db) \<and> ol_State l = LeaseActive \<and>
     (\<exists>t. att db (ol_AttemptID l) = Some t \<and> work_key t = key)"
  by (auto simp: holders_def split: option.splits)

lemma holder_is_current:
  assumes inv: "oc_inv db" and a: "a \<in> set (oc_assignments db)" and l: "l \<in> set (holders db (asg_key a))"
  shows "ol_AttemptID l = oa_CurrentAttemptID a" "leased_state (oa_State a)"
proof -
  obtain t where t: "att db (ol_AttemptID l) = Some t" "work_key t = asg_key a" using l by (auto simp: mem_holders)
  have leased: "leased_state (ot_State t)" using active_lease(1) [OF inv t(1)] l by (auto simp: mem_holders)
  obtain a' where a': "asg db (ot_AssignmentID t) = Some a'" "work_key t = asg_key a'" "oa_CurrentAttemptID a' = ot_AttemptID t"
    using oc_invD(2) [OF inv t(1)] leased_not_final [OF leased] by (auto simp: attempt_ok_def)
  have "inj_on asg_key (set (oc_assignments db))" using inv by (simp add: oc_inv_def keys_distinct_def distinct_map)
  then have "a' = a" using a asg_SomeD [OF a'(1)] a'(2) t(2) by (auto simp: inj_on_def)
  then show "ol_AttemptID l = oa_CurrentAttemptID a" "leased_state (oa_State a)"
    using a'(1,3) att_SomeD [OF t(1)] leased oc_invD(1) [OF inv a'(1)] t(1) by (auto simp: current_ok_def)
qed

lemma current_has_holder:
  assumes inv: "oc_inv db" and a: "a \<in> set (oc_assignments db)" and leased: "leased_state (oa_State a)"
  shows "holders db (asg_key a) \<noteq> []"
proof -
  obtain t where t: "att db (oa_CurrentAttemptID a) = Some t" "ot_AssignmentID t = oa_AssignmentID a" "ot_State t = oa_State a"
    using oc_invD(1) [OF inv oc_invD(5) [OF inv a]] by (auto simp: current_ok_def)
  obtain l where "l \<in> set (oc_leases db)" "ol_AttemptID l = ot_AttemptID t" "ol_State l = LeaseActive"
    using oc_invD(3) [OF inv t(1)] leased t(3) by (auto simp: lease_ok_def)
  moreover have "work_key t = asg_key a" using oc_invD(2) [OF inv t(1)] oc_invD(5) [OF inv a] t(2) by (auto simp: attempt_ok_def)
  ultimately have "l \<in> set (holders db (asg_key a))" using t(1) att_SomeD [OF t(1)] by (auto simp: mem_holders)
  then show ?thesis by auto
qed

lemma at_most_one:
  assumes "distinct xs" "\<And>x y. x \<in> set xs \<Longrightarrow> y \<in> set xs \<Longrightarrow> x = y"
  shows "xs = [] \<or> (\<exists>x. xs = [x])"
proof (rule ccontr)
  assume "\<not> ?thesis"
  then obtain x y zs where xs: "xs = x # y # zs" by (cases xs; cases "tl xs") simp_all
  then have "x = y" by (intro assms(2)) simp_all
  then show False using assms(1) xs by simp
qed

lemma holders_of_assignment:
  assumes inv: "oc_inv db" and a: "a \<in> set (oc_assignments db)"
  shows "map ol_AttemptID (holders db (asg_key a)) = (if leased_state (oa_State a) then [oa_CurrentAttemptID a] else [])"
proof -
  have "distinct (holders db (asg_key a))" using inv by (simp add: holders_def oc_inv_def keys_distinct_def distinct_map)
  moreover have "l = l'" if "l \<in> set (holders db (asg_key a))" "l' \<in> set (holders db (asg_key a))" for l l'
    using active_lease_unique [OF inv, of l' l] holder_is_current(1) [OF inv a that(1)] holder_is_current(1) [OF inv a that(2)] that
    by (simp add: mem_holders)
  ultimately consider "holders db (asg_key a) = []" | l where "holders db (asg_key a) = [l]" using at_most_one by blast
  then show ?thesis
  proof cases
    case 1
    then show ?thesis using current_has_holder [OF inv a] by auto
  next
    case (2 l)
    then show ?thesis using holder_is_current [OF inv a, of l] by simp
  qed
qed

section \<open>Examples\<close>

definition zeros :: string where
  "zeros = replicate 64 CHR ''0''"

definition example_service :: ControlService where
  "example_service = \<lparr> cs_now = 1000, cs_store_clock = 1000, cs_LeaseDuration = 0, cs_json_valid = (\<lambda>_. True), cs_hex16 = (\<lambda>_. ''0'') \<rparr>"

definition example_plan :: PlanRequest where
  "example_plan = \<lparr> pl_AssignmentID = ''A'', pl_AttemptID = ''A'', pl_ProjectID = ''A'', pl_TaskID = ''A'', pl_TaskRevision = 1,
     pl_GraphRevision = 1, pl_WorkPackageID = ''B'', pl_ExecutionID = ''A'', pl_ContractID = ''A'', pl_ContractVersion = 1,
     pl_ContractDigest = zeros, pl_WorkerID = ''A'', pl_NodeID = ''A'', pl_IdempotencyDigest = zeros,
     pl_OperationID = ''A'', pl_OperationDigest = zeros, pl_AuditID = ''A'', pl_ActorID = ''A'', pl_AssignmentReason = [],
     pl_Binding = \<lparr> oab_AttemptID = ''A'', oab_ContractID = ''A'', oab_ContractVersion = 1, oab_ContractDigest = zeros,
       oab_ContextDigest = zeros, oab_ContextCompilerVersion = ''A'', oab_BindingDigest = zeros,
       oab_BindingJSON = ''{}'', oab_CreatedAt = 1000 \<rparr> \<rparr>"

definition example_claim :: ClaimRequest where
  "example_claim = \<lparr> cl_AssignmentID = ''A'', cl_AttemptID = ''A'', cl_LeaseID = ''A'', cl_OwnerNodeID = ''A'', cl_OwnerRuntimeID = ''A'',
     cl_FencingDigest = zeros, cl_OperationID = ''B'', cl_OperationDigest = zeros, cl_AuditID = ''B'', cl_ActorID = ''A'' \<rparr>"

definition example_cancel :: TransitionRequest where
  "example_cancel = \<lparr> trq_AssignmentID = ''A'', trq_AttemptID = ''A'', trq_TargetState = AssignmentCanceled, trq_LeaseGeneration = 1,
     trq_FencingDigest = zeros, trq_FailureCode = [], trq_Recovery = RecoveryNone, trq_OperationID = ''C'',
     trq_OperationDigest = zeros, trq_AuditID = ''C'', trq_ActorID = ''A'' \<rparr>"

definition after :: "control_result \<Rightarrow> OCDB" where
  "after r = (case r of Inl _ \<Rightarrow> empty_ocdb [] | Inr (db, _) \<Rightarrow> db)"

definition example_planned :: OCDB where
  "example_planned = after (Plan example_service (empty_ocdb [''A'']) example_plan)"

definition example_leased :: OCDB where
  "example_leased = after (Claim example_service example_planned example_claim)"

definition example_canceled :: OCDB where
  "example_canceled = after (Transition example_service example_leased example_cancel)"

lemma after_Inr: "is_ok r \<Longrightarrow> \<exists>res. r = Inr (after r, res)"
  by (auto simp: is_ok_iff after_def)

lemma example_ok:
  "is_ok (Plan example_service (empty_ocdb [''A'']) example_plan)"
  "is_ok (Claim example_service example_planned example_claim)"
  "is_ok (Transition example_service example_leased example_cancel)"
  by code_simp+

lemma example_runs:
  "control_step (empty_ocdb [''A'']) example_planned" "control_step example_planned example_leased"
  "control_step example_leased example_canceled"
proof -
  show "control_step (empty_ocdb [''A'']) example_planned"
    using after_Inr [OF example_ok(1), folded example_planned_def] by (elim exE) (rule step_Plan)
  show "control_step example_planned example_leased"
    using after_Inr [OF example_ok(2), folded example_leased_def] by (elim exE) (rule step_Claim)
  show "control_step example_leased example_canceled"
    using after_Inr [OF example_ok(3), folded example_canceled_def] by (elim exE) (rule step_Transition)
qed

lemma example_run:
  "control_run (empty_ocdb [''A'']) example_leased" "control_run (empty_ocdb [''A'']) example_canceled"
  using example_runs by (meson rtranclp.rtrancl_refl rtranclp.rtrancl_into_rtrancl)+

section \<open>Properties\<close>

text \<open>
  C1. Work is exclusive: after every run of the service, the active leases on a work package are
  none, or exactly one, that of the current attempt of its assignment, and this is so exactly while the
  assignment is leased, preparing, running, paused, collecting or awaiting gates; every active lease
  belongs to an assignment.
\<close>

theorem one_worker_per_package:
  assumes "control_run (empty_ocdb projects) db"
  shows "(\<forall>a\<in>set (oc_assignments db). map ol_AttemptID (holders db (asg_key a)) =
            (if leased_state (oa_State a) then [oa_CurrentAttemptID a] else [])) \<and>
         (\<forall>l\<in>set (oc_leases db). ol_State l = LeaseActive \<longrightarrow> (\<exists>a\<in>set (oc_assignments db). l \<in> set (holders db (asg_key a))))"
proof (intro conjI ballI impI)
  note inv = control_run_inv [OF assms oc_inv_empty]
  show "map ol_AttemptID (holders db (asg_key a)) = (if leased_state (oa_State a) then [oa_CurrentAttemptID a] else [])"
    if "a \<in> set (oc_assignments db)" for a by (rule holders_of_assignment [OF inv that])
  fix l
  assume l: "l \<in> set (oc_leases db)" "ol_State l = LeaseActive"
  obtain t where t: "att db (ol_AttemptID l) = Some t" using oc_invD(6) [OF inv l(1)] by blast
  obtain a where "asg db (ot_AssignmentID t) = Some a" "work_key t = asg_key a" using oc_invD(2) [OF inv t] by (auto simp: attempt_ok_def)
  then show "\<exists>a\<in>set (oc_assignments db). l \<in> set (holders db (asg_key a))" using l t asg_SomeD by (fastforce simp: mem_holders)
qed

theorem one_worker_per_package_witness:
  "map ol_AttemptID (holders example_leased (''A'', ''B'')) = [''A'']"
proof -
  have "list_ex (\<lambda>a. asg_key a = (''A'', ''B'') \<and> leased_state (oa_State a) \<and> oa_CurrentAttemptID a = ''A'') (oc_assignments example_leased)"
    by code_simp
  then show ?thesis using one_worker_per_package [OF example_run(1)] by (auto simp: list_ex_iff)
qed

text \<open>
  C6. A worker whose attempt has ended is locked out: once an attempt is accepted, failed, canceled or
  expired it stays so for good, and whatever else happens in the meantime, with any clock, lease generation
  and digest, no heartbeat and no transition for it succeeds, and claiming it or binding resources to it
  changes nothing (the answer is an error or the record of an earlier call).
\<close>

theorem ended_attempt_locked_out:
  assumes "control_run (empty_ocdb projects) db" "att db tid = Some t" "terminalAssignmentState (ot_State t)" "control_run db db'"
  shows "(\<exists>t'. att db' tid = Some t' \<and> ot_State t' = ot_State t) \<and>
    (hb_AttemptID h = tid \<longrightarrow> \<not> is_ok (Heartbeat service db' h)) \<and> (trq_AttemptID r = tid \<longrightarrow> \<not> is_ok (Transition service db' r)) \<and>
    (br_AttemptID b = tid \<longrightarrow> BindResources service db' b = Inr (db'', res) \<longrightarrow> db'' = db' \<and> ow_AlreadyPresent res) \<and>
    (cl_AttemptID c = tid \<longrightarrow> Claim service db' c = Inr (db'', res) \<longrightarrow> db'' = db' \<and> ow_AlreadyPresent res)"
proof -
  have inv: "oc_inv db" "oc_inv db'" using control_run_inv oc_inv_empty assms(1,4) by blast+
  obtain t' where t': "att db' tid = Some t'" "ot_State t' = ot_State t" using control_run_final [OF assms(4) inv(1) assms(2,3)] by blast
  have final: "\<not> leased_state (ot_State t')" "ot_State t' \<noteq> AssignmentLeased" "ot_State t' \<noteq> AssignmentPlanned"
    using assms(3) t'(2) by (auto simp: leased_state_def terminalAssignmentState_def)
  have "ReduceAssignmentState (ot_State t') target \<noteq> ok" for target
    using assms(3) t'(2) by (auto simp: ReduceAssignmentState_def terminalAssignmentState_def)
  then have "\<not> is_ok (Transition service db' r)" if "trq_AttemptID r = tid"
    using Transition_Inr(3) [OF inv(2)] that t'(1) by (fastforce simp: is_ok_iff)
  moreover have "\<not> is_ok (Heartbeat service db' h)" if "hb_AttemptID h = tid"
    using Heartbeat_Inr(3) [OF inv(2)] that t'(1) final(1) by (fastforce simp: is_ok_iff)
  moreover have "db'' = db' \<and> ow_AlreadyPresent res" if "br_AttemptID b = tid" "BindResources service db' b = Inr (db'', res)"
    using BindResources_Inr(2) [OF inv(2) that(2)] that(1) t'(1) final(2) by auto
  moreover have "db'' = db' \<and> ow_AlreadyPresent res" if "cl_AttemptID c = tid" "Claim service db' c = Inr (db'', res)"
    using Claim_Inr(2) [OF inv(2) that(2)] that(1) t'(1) final(3) by auto
  ultimately show ?thesis using t' by blast
qed

theorem ended_attempt_locked_out_witness:
  "\<not> is_ok (Transition example_service example_canceled example_cancel)"
proof -
  have "case att example_canceled ''A'' of None \<Rightarrow> False | Some t \<Rightarrow> terminalAssignmentState (ot_State t)" by code_simp
  then obtain t where t: "att example_canceled ''A'' = Some t" "terminalAssignmentState (ot_State t)" by (auto split: option.splits)
  have "trq_AttemptID example_cancel = ''A''" by (simp add: example_cancel_def)
  then show ?thesis using ended_attempt_locked_out [OF example_run(2) t rtranclp.rtrancl_refl] by blast
qed

definition example_bind :: BindResourcesRequest where
  "example_bind = \<lparr> br_AssignmentID = ''A'', br_AttemptID = ''A'', br_LeaseGeneration = 1, br_FencingDigest = zeros,
     br_RuntimeSessionID = ''A'', br_RuntimeResumeKey = zeros, br_WorkspaceID = ''A'', br_WorkspaceGeneration = 1,
     br_OperationID = ''C'', br_OperationDigest = zeros, br_AuditID = ''C'', br_ActorID = ''A'' \<rparr>"

definition example_collect :: TransitionRequest where
  "example_collect = \<lparr> trq_AssignmentID = ''A'', trq_AttemptID = ''A'', trq_TargetState = AssignmentCollecting, trq_LeaseGeneration = 1,
     trq_FencingDigest = zeros, trq_FailureCode = [], trq_Recovery = RecoveryNone, trq_OperationID = ''D'',
     trq_OperationDigest = zeros, trq_AuditID = ''D'', trq_ActorID = ''A'' \<rparr>"

definition example_prepared :: OCDB where
  "example_prepared = after (BindResources example_service example_leased example_bind)"

definition example_collecting :: OCDB where
  "example_collecting = after (Transition example_service example_prepared example_collect)"

text \<open>The same service ten minutes later, when the lease of five minutes has run out.\<close>

definition later_service :: ControlService where
  "later_service = example_service\<lparr>cs_now := 600000000000, cs_store_clock := 600000000000\<rparr>"

definition example_lapsed :: OCDB where
  "example_lapsed = (case Reconcile later_service example_collecting ''A'' of Inl _ \<Rightarrow> empty_ocdb [] | Inr (db, _) \<Rightarrow> db)"

lemma example_lapse_ok:
  "is_ok (BindResources example_service example_leased example_bind)"
  "is_ok (Transition example_service example_prepared example_collect)"
  "is_ok (Reconcile later_service example_collecting ''A'')"
  by code_simp+

lemma example_collecting_run: "control_run (empty_ocdb [''A'']) example_collecting"
proof -
  have "control_step example_leased example_prepared"
    using after_Inr [OF example_lapse_ok(1), folded example_prepared_def] by (elim exE) (rule step_BindResources)
  moreover have "control_step example_prepared example_collecting"
    using after_Inr [OF example_lapse_ok(2), folded example_collecting_def] by (elim exE) (rule step_Transition)
  ultimately show ?thesis using example_run(1) by (meson rtranclp.rtrancl_into_rtrancl)
qed

lemma example_lapse: "control_step example_collecting example_lapsed"
proof -
  obtain x where x: "Reconcile later_service example_collecting ''A'' = Inr x" using example_lapse_ok(3) by (auto simp: is_ok_iff)
  then have "Reconcile later_service example_collecting ''A'' = Inr (example_lapsed, snd x)"
    by (simp add: example_lapsed_def split: prod.splits)
  then show ?thesis by (rule step_Reconcile)
qed

text \<open>
  C22. The states of an attempt: in one call of the service, on any database that it has reached, an attempt is not
  lost, and it stays in its state, or goes from planned to leased, or, while it is leased, goes where the
  reducer allows it or to expired. In particular a planned attempt is never canceled, although the reducer
  allows it, and an attempt that is collecting or awaiting gates may expire, although the reducer does not.
\<close>

theorem attempt_moves:
  assumes "control_run (empty_ocdb projects) db" "control_step db db'" "att db tid = Some t"
  shows "\<exists>t'. att db' tid = Some t' \<and>
    (ot_State t' = ot_State t \<or> (ot_State t = AssignmentPlanned \<and> ot_State t' = AssignmentLeased) \<or>
     (leased_state (ot_State t) \<and> (ReduceAssignmentState (ot_State t) (ot_State t') = ok \<or> ot_State t' = AssignmentExpired)))"
  using control_step_inv [OF assms(2) control_run_inv [OF assms(1) oc_inv_empty]] assms(3)
  by (auto simp: attempts_move_def moves_def)

theorem attempt_moves_witness:
  "map_option ot_State (att example_collecting ''A'') = Some AssignmentCollecting \<and>
   map_option ot_State (att example_lapsed ''A'') = Some AssignmentExpired \<and>
   ReduceAssignmentState AssignmentCollecting AssignmentExpired = Inl ErrInvalidTransition"
proof -
  have st: "map_option ot_State (att example_collecting ''A'') = Some AssignmentCollecting"
    "map_option ot_State (att example_lapsed ''A'') = Some AssignmentExpired" by code_simp+
  then obtain t where "att example_collecting ''A'' = Some t" by auto
  from attempt_moves [OF example_collecting_run example_lapse this] st show ?thesis by (simp add: ReduceAssignmentState_def)
qed

end
