(* ===== verification/Assignment_Replay.thy ===== *)
theory Assignment_Replay
  imports Assignment_Safety
begin

text \<open>
  Calls of the control service that are repeated with the same operation: the store keeps a record of
  every operation and answers from it.
\<close>

section \<open>Repeated calls\<close>

text \<open>The record that a call leaves answers the same call later.\<close>

lemma finish_Inr:
  assumes "finish now db i d aid tid st at e = Inr (db', res)"
  shows "orchestrationOperationReplay db' i d = Inr (Some (ow_Snapshot res))" "orchestrationSnapshot db' aid = Inr (ow_Snapshot res)"
proof -
  let ?row = "\<lparr> opn_OperationID = i, opn_OperationDigest = d, opn_AssignmentID = aid, opn_AttemptID = tid, opn_ResultingState = st,
    opn_OccurredAt = stored_time now at \<rparr>"
  have ops: "row_lookup opn_OperationID i (oc_operations db) = None" "oc_operations db' = oc_operations db @ [?row]"
    and snap: "orchestrationSnapshot db' aid = Inr (ow_Snapshot res)"
    using assms by (auto simp: finish_def rbind_eq_Inr recordOrchestrationOperation_def recordOrchestrationAudit_def Let_def row_exists_iff)
  have "row_lookup opn_OperationID i (oc_operations db') = Some ?row" using ops by (simp add: row_lookup_append)
  then show "orchestrationOperationReplay db' i d = Inr (Some (ow_Snapshot res))" using snap by (simp add: orchestrationOperationReplay_def)
  show "orchestrationSnapshot db' aid = Inr (ow_Snapshot res)" by (rule snap)
qed

lemma with_replay_again:
  assumes run: "with_replay db i d body = Inr (db', res)"
    and rec: "body = Inr (db', res) \<Longrightarrow> orchestrationOperationReplay db i d = Inr None \<Longrightarrow> orchestrationOperationReplay db' i d = Inr (Some (ow_Snapshot res))"
  shows "with_replay db' i d body' = Inr (db', res\<lparr>ow_AlreadyPresent := True\<rparr>)"
proof -
  have "orchestrationOperationReplay db' i d = Inr (Some (ow_Snapshot res))"
  proof (cases "orchestrationOperationReplay db i d")
    case (Inr replay)
    then show ?thesis using run rec by (cases replay) (auto simp: with_replay_def)
  qed (use run in \<open>simp add: with_replay_def\<close>)
  then show ?thesis by (simp add: with_replay_def)
qed

lemma ClaimAssignment_again:
  assumes "ClaimAssignment now db r = Inr (db', res)" "ocr_OperationID r' = ocr_OperationID r" "ocr_OperationDigest r' = ocr_OperationDigest r"
  shows "ClaimAssignment now' db' r' = Inr (db', res\<lparr>ow_AlreadyPresent := True\<rparr>)"
  unfolding ClaimAssignment_def assms(2,3)
  by (rule with_replay_again [OF assms(1) [unfolded ClaimAssignment_def]])
    (auto simp: rbind_eq_Inr Let_def if_Inl_eq_Inr dest: finish_Inr)

lemma BindAttemptResources_again:
  assumes "BindAttemptResources now db r = Inr (db', res)" "osr_OperationID r' = osr_OperationID r" "osr_OperationDigest r' = osr_OperationDigest r"
  shows "BindAttemptResources now' db' r' = Inr (db', res\<lparr>ow_AlreadyPresent := True\<rparr>)"
  unfolding BindAttemptResources_def assms(2,3)
  by (rule with_replay_again [OF assms(1) [unfolded BindAttemptResources_def]])
    (auto simp: rbind_eq_Inr Let_def dest: finish_Inr)

lemma RetryAssignment_again:
  assumes "RetryAssignment now db r = Inr (db', res)" "ort_OperationID r' = ort_OperationID r" "ort_OperationDigest r' = ort_OperationDigest r"
  shows "RetryAssignment now' db' r' = Inr (db', res\<lparr>ow_AlreadyPresent := True\<rparr>)"
  unfolding RetryAssignment_def assms(2,3)
  by (rule with_replay_again [OF assms(1) [unfolded RetryAssignment_def]])
    (auto simp: rbind_eq_Inr Let_def if_Inl_eq_Inr dest: finish_Inr)

lemma Claim_again:
  "Claim service db r = Inr (db', res) \<Longrightarrow> Claim (service\<lparr>cs_now := n, cs_store_clock := c\<rparr>) db' r = Inr (db', res\<lparr>ow_AlreadyPresent := True\<rparr>)"
  by (auto simp: Claim_def Let_def rbind_eq_Inr if_Inl_eq_Inr) (erule ClaimAssignment_again; simp)

lemma BindResources_again:
  "BindResources service db r = Inr (db', res) \<Longrightarrow>
     BindResources (service\<lparr>cs_now := n, cs_store_clock := c\<rparr>) db' r = Inr (db', res\<lparr>ow_AlreadyPresent := True\<rparr>)"
  by (auto simp: BindResources_def Let_def if_Inl_eq_Inr intro: BindAttemptResources_again)

lemma assignments_ok_times: "assignments_ok (rows @ [a\<lparr>oa_CreatedAt := x, oa_UpdatedAt := y\<rparr>]) = assignments_ok (rows @ [a])"
  by (simp add: assignments_ok_def keys_distinct_def)

lemma PlanAssignment_again:
  assumes run: "PlanAssignment j now db r = Inr (db', res)"
    and req: "opr_OperationID r' = opr_OperationID r" "opr_OperationDigest r' = opr_OperationDigest r"
      "opr_Assignment r' = (opr_Assignment r)\<lparr>oa_CreatedAt := x, oa_UpdatedAt := y\<rparr>"
  shows "PlanAssignment j now' db' r' = Inr (db', res\<lparr>ow_AlreadyPresent := True\<rparr>)"
proof (cases "orchestrationOperationReplay db' (opr_OperationID r) (opr_OperationDigest r) = Inr (Some (ow_Snapshot res))")
  case True
  then show ?thesis by (simp add: PlanAssignment_def with_replay_def req)
next
  case False
  let ?a = "opr_Assignment r" and ?s = "ow_Snapshot res"
  let ?existing = "if oa_IdempotencyDigest (os_Assignment ?s) \<noteq> oa_IdempotencyDigest ?a \<or> oa_ContractDigest (os_Assignment ?s) \<noteq> oa_ContractDigest ?a \<or>
     oa_CurrentAttemptID (os_Assignment ?s) \<noteq> oa_CurrentAttemptID ?a then Inl (StoreConflict ''orchestration assignment already exists'')
     else Inr (db, \<lparr> ow_AlreadyPresent = True, ow_Snapshot = ?s \<rparr>)"
  have none: "orchestrationOperationReplay db (opr_OperationID r) (opr_OperationDigest r) = Inr None"
  proof (rule ccontr)
    assume "\<not> ?thesis"
    then show False using run False by (cases "orchestrationOperationReplay db (opr_OperationID r) (opr_OperationDigest r)")
        (auto simp: PlanAssignment_def with_replay_def split: option.splits)
  qed
  have taken: "\<not> assignments_ok (oc_assignments db @ [?a])"
  proof
    assume "assignments_ok (oc_assignments db @ [?a])"
    then have "\<exists>db1 aid tid st at e. finish now db1 (opr_OperationID r) (opr_OperationDigest r) aid tid st at e = Inr (db', res)"
      using run none unfolding PlanAssignment_def with_replay_def Let_def assignments_ok_times by (simp add: rbind_eq_Inr) blast
    then show False using False finish_Inr(1) by blast
  qed
  then have "(case orchestrationSnapshot db (oa_AssignmentID ?a) of Inl _ \<Rightarrow> Inl (StoreConflict ''orchestration assignment already exists'')
      | Inr existing \<Rightarrow>
          if oa_IdempotencyDigest (os_Assignment existing) \<noteq> oa_IdempotencyDigest ?a \<or> oa_ContractDigest (os_Assignment existing) \<noteq> oa_ContractDigest ?a \<or>
             oa_CurrentAttemptID (os_Assignment existing) \<noteq> oa_CurrentAttemptID ?a
          then Inl (StoreConflict ''orchestration assignment already exists'')
          else Inr (db, \<lparr> ow_AlreadyPresent = True, ow_Snapshot = existing \<rparr>)) = Inr (db', res)"
    using run none by (simp add: PlanAssignment_def with_replay_def Let_def assignments_ok_times)
  then have "db' = db" "orchestrationSnapshot db (oa_AssignmentID ?a) = Inr ?s" "?existing = Inr (db, \<lparr> ow_AlreadyPresent = True, ow_Snapshot = ?s \<rparr>)"
    by (auto split: sum.splits if_splits)
  then show ?thesis using none taken by (simp add: PlanAssignment_def with_replay_def req Let_def assignments_ok_times del: if_Inl_eq_Inr)
qed

lemma Plan_again:
  "Plan service db r = Inr (db', res) \<Longrightarrow> Plan (service\<lparr>cs_now := n, cs_store_clock := c\<rparr>) db' r = Inr (db', res\<lparr>ow_AlreadyPresent := True\<rparr>)"
  by (auto simp: Plan_def Let_def rbind_eq_Inr if_Inl_eq_Inr) (erule PlanAssignment_again [where x = n and y = n]; simp)+

text \<open>After a retry the new attempt is the current one, so that the checks of the service let the repeated call through.\<close>

lemma RetryAssignment_current:
  assumes "RetryAssignment now db r = Inr (db', res)"
  shows "(db' = db \<and> ow_AlreadyPresent res) \<or> (\<exists>s. orchestrationSnapshot db' (ort_AssignmentID r) = Inr s \<and>
    ot_AttemptID (os_Attempt s) = ot_AttemptID (ort_Attempt r) \<and> oa_WorkerID (os_Assignment s) = ort_WorkerID r)"
proof -
  let ?sel = "\<lambda>a. oa_AssignmentID a = ort_AssignmentID r \<and> oa_CurrentAttemptID a = ort_PreviousAttemptID r"
  let ?g = "\<lambda>a. a\<lparr> oa_State := AssignmentPlanned, oa_CurrentAttemptID := ot_AttemptID (ort_Attempt r),
    oa_CurrentAttempt := ot_AttemptNumber (ort_Attempt r), oa_WorkerID := ort_WorkerID r,
    oa_IdempotencyDigest := ot_IdempotencyDigest (ort_Attempt r), oa_RecoveryDisposition := RecoveryNone, oa_FailureCode := [],
    oa_UpdatedAt := stored_time now (ot_UpdatedAt (ort_Attempt r)) \<rparr>"
  have "(db' = db \<and> ow_AlreadyPresent res) \<or> (\<exists>s db1 i d tid at e.
      finish now (db1\<lparr>oc_assignments := row_update ?sel ?g (oc_assignments db)\<rparr>) i d (ort_AssignmentID r) tid AssignmentPlanned at e = Inr (db', res) \<and>
      orchestrationSnapshot db (ort_AssignmentID r) = Inr s \<and>
      ot_AttemptID (os_Attempt s) = ort_PreviousAttemptID r)"
    using with_replay_Inr [OF assms [unfolded RetryAssignment_def]]
    by (auto simp: Let_def rbind_eq_Inr if_Inl_eq_Inr insertOrchestrationAttempt_def)
  then show ?thesis
  proof (elim disjE exE conjE)
    fix s db1 i d tid at e
    assume fin: "finish now (db1\<lparr>oc_assignments := row_update ?sel ?g (oc_assignments db)\<rparr>) i d (ort_AssignmentID r) tid AssignmentPlanned at e = Inr (db', res)"
      and s: "orchestrationSnapshot db (ort_AssignmentID r) = Inr s" "ot_AttemptID (os_Attempt s) = ort_PreviousAttemptID r"
    note s' = finish_Inr(2) [OF fin]
    have tab: "oc_assignments db' = row_update ?sel ?g (oc_assignments db)" using core_fields(1) [OF finish_core [OF fin]] by simp
    note cur = snapshot_current [OF s]
    have "asg db' (ort_AssignmentID r) = map_option (\<lambda>a. if ?sel a then ?g a else a) (asg db (ort_AssignmentID r))"
      by (rule asg_map) (simp_all add: tab row_update_map)
    then have "asg db' (ort_AssignmentID r) = Some (?g (os_Assignment s))" using cur(1,2) asg_SomeD [OF cur(1)] by simp
    then have a: "os_Assignment (ow_Snapshot res) = ?g (os_Assignment s)" using orchestrationSnapshot_Inr [OF s'] by simp
    have "ot_AttemptID (os_Attempt (ow_Snapshot res)) = ot_AttemptID (ort_Attempt r)"
      "oa_WorkerID (os_Assignment (ow_Snapshot res)) = ort_WorkerID r"
      using orchestrationSnapshot_Inr [OF s'] unfolding a by simp_all
    then show ?thesis using s' by blast
  qed simp
qed

lemma Retry_again:
  assumes run: "Retry service db r = Inr (db', res)"
  shows "Retry (service\<lparr>cs_now := n, cs_store_clock := c\<rparr>) db' r = Inr (db', res\<lparr>ow_AlreadyPresent := True\<rparr>)"
proof -
  let ?worker = "\<lambda>s. if rq_WorkerID r = [] then oa_WorkerID (os_Assignment s) else rq_WorkerID r"
  obtain s req where s: "orchestrationSnapshot db (rq_AssignmentID r) = Inr s"
    and req: "RetryAssignment (cs_store_clock service) db req = Inr (db', res)" "ort_AssignmentID req = rq_AssignmentID r"
      "ort_OperationID req = rq_OperationID r" "ort_OperationDigest req = rq_OperationDigest r"
      "ot_AttemptID (ort_Attempt req) = rq_AttemptID r" "ort_WorkerID req = ?worker s"
    using run unfolding Retry_def Let_def by (auto simp: rbind_eq_Inr if_Inl_eq_Inr)
  have again: "RetryAssignment c db' req' = Inr (db', res\<lparr>ow_AlreadyPresent := True\<rparr>)"
    if "ort_OperationID req' = rq_OperationID r" "ort_OperationDigest req' = rq_OperationDigest r" for req'
    using RetryAssignment_again [OF req(1), of req' c] that req(3,4) by simp
  consider "db' = db" | s' where "orchestrationSnapshot db' (rq_AssignmentID r) = Inr s'" "ot_AttemptID (os_Attempt s') = rq_AttemptID r"
      "oa_WorkerID (os_Assignment s') = ?worker s"
    using RetryAssignment_current [OF req(1)] req(2,5,6) by auto
  then show ?thesis
  proof cases
    case 1
    have result: "(case RetryAssignment c db req' of Inl e \<Rightarrow> Inl (ErrControlStore e) | Inr x \<Rightarrow> Inr x) = Inr (db, res\<lparr>ow_AlreadyPresent := True\<rparr>)"
      if "ort_OperationID req' = rq_OperationID r" "ort_OperationDigest req' = rq_OperationDigest r" for req' using again [OF that] 1 by simp
    show ?thesis using run unfolding 1 Retry_def Let_def s stored_def sum.case rbind_Inr if_Inl_eq_Inr
      by (elim conjE, intro conjI) (assumption | simp add: result)+
  next
    case (2 s')
    have worker: "?worker s' = ?worker s" using 2(3) by simp
    have "\<not> (\<not> list_all validID [rq_AssignmentID r, rq_PreviousAttemptID r, rq_AttemptID r, rq_OperationID r, rq_AuditID r, rq_ActorID r] \<or>
         \<not> list_all validDigest [rq_IdempotencyDigest r, rq_OperationDigest r])" "validID (?worker s)"
      "\<not> (((if rq_Action r = [] then ''retry'' else rq_Action r) \<noteq> ''retry'' \<and> (if rq_Action r = [] then ''retry'' else rq_Action r) \<noteq> ''reassign'') \<or>
        \<not> validID (if rq_ReasonCode r = [] then ''operator_retry'' else rq_ReasonCode r))"
      using run unfolding Retry_def Let_def s stored_def sum.case rbind_Inr if_Inl_eq_Inr by (elim conjE, simp only: not_not)+
    note checks = this
    show ?thesis
      unfolding Retry_def Let_def using checks again
      by (simp add: 2(1,2) worker stored_def)
  qed
qed



lemma reduce_irreflexive: "ReduceAssignmentState st st \<noteq> ok"
  by (cases st) (simp_all add: ReduceAssignmentState_def)

text \<open>
  C34. A transition is the exception: after a run of the service, when a transition succeeds and is not itself a repetition,
  the same request made again, at any time, is refused, although the store has a record of it, because the service checks
  the new state of the attempt first.
\<close>

theorem repeated_transition_refused:
  assumes "control_run (empty_ocdb projects) db" "Transition service db r = Inr (db', res)" "\<not> ow_AlreadyPresent res"
  shows "\<not> is_ok (Transition service' db' r)"
proof
  note inv = control_run_inv [OF assms(1) oc_inv_empty]
  note inv' = Transition_Inr(1) [OF inv assms(2)]
  assume "is_ok (Transition service' db' r)"
  then obtain t where t: "att db' (trq_AttemptID r) = Some t" "ReduceAssignmentState (ot_State t) (trq_TargetState r) = ok"
    using Transition_Inr(3) [OF inv'] by (fastforce simp: is_ok_iff)
  obtain t0 where "att db (trq_AttemptID r) = Some t0" "only_state db db' (trq_AttemptID r) (trq_TargetState r)"
    using Transition_Inr(2) [OF inv assms(2)] assms(3) by blast
  then have "ot_State t = trq_TargetState r" using t(1) by (fastforce simp: only_state_def)
  then show False using t(2) reduce_irreflexive by simp
qed

theorem repeated_transition_refused_witness:
  "is_ok (Transition example_service example_leased example_cancel) \<and> \<not> is_ok (Transition later_service example_canceled example_cancel)"
proof -
  obtain res where res: "Transition example_service example_leased example_cancel = Inr (example_canceled, res)"
    using after_Inr [OF example_ok(3), folded example_canceled_def] by (elim exE)
  have "case Transition example_service example_leased example_cancel of Inl _ \<Rightarrow> False | Inr (_, res) \<Rightarrow> \<not> ow_AlreadyPresent res" by code_simp
  then have "\<not> ow_AlreadyPresent res" unfolding res by simp
  then show ?thesis using repeated_transition_refused [OF example_run(1) res] example_ok(3) by simp
qed

end
