(* ===== verification/Registry_Store.thy ===== *)
theory Registry_Store
  imports Tables Assignment_Control "HOL-Library.Word" "HOL-Library.Product_Lexorder"
begin

text \<open>
  The registry of trades and workers: the types of src/internal/storage/registry.go, the paging of
  src/internal/storage/admin\_queries.go, the tables of src/internal/storage/sqlite/registry.go and
  the service of src/internal/registry/service.go. The JSON encoder and the hash are arguments; a score
  is the 64 bits of a floating-point number, which nothing computes with.
\<close>

section \<open>Types\<close>

datatype RegistryLifecycle = RegistryActive | RegistryDeprecated | RegistryDisabled | RegistryLifecycleOther string

record RegistryEvidence =
  rev_Source :: string
  rev_ObservedAt :: time
  rev_Score :: "64 word option"
  rev_SampleCount :: int
  rev_EvidenceNote :: string

record TradeDefinition =
  td_TradeID :: string
  td_Version :: int
  td_Name :: string
  td_Lifecycle :: RegistryLifecycle
  td_CapabilityTags :: "string list"
  td_RequiredCapabilities :: "string list"
  td_OptionalCapabilities :: "string list"
  td_Description :: string
  td_Evidence :: RegistryEvidence
  td_ContentHash :: string
  td_CreatedAt :: time

record WorkerProfile =
  wp_WorkerID :: string
  wp_Version :: int
  wp_Name :: string
  wp_Lifecycle :: RegistryLifecycle
  wp_TradeID :: string
  wp_TradeVersion :: int
  wp_InstructionID :: string
  wp_InstructionVer :: int
  wp_RuntimeID :: string
  wp_RuntimeVersion :: int
  wp_Provider :: string
  wp_Model :: string
  wp_ModelVersion :: string
  wp_ToolPolicyID :: string
  wp_ToolPolicyVer :: int
  wp_CapabilityTags :: "string list"
  wp_Evidence :: RegistryEvidence
  wp_ContentHash :: string
  wp_CreatedAt :: time

record ProjectTradeAdaptation =
  pa_ProjectID :: string
  pa_AdaptationID :: string
  pa_Version :: int
  pa_TradeID :: string
  pa_TradeVersion :: int
  pa_Lifecycle :: RegistryLifecycle
  pa_RequiredCapabilities :: "string list"
  pa_OptionalCapabilities :: "string list"
  pa_Notes :: string
  pa_ContentHash :: string
  pa_CreatedAt :: time

record RegistryAuditEvent =
  ra_AuditID :: string
  ra_Action :: string
  ra_SubjectKind :: string
  ra_SubjectID :: string
  ra_SubjectVer :: int
  ra_ProjectID :: string
  ra_ActorID :: string
  ra_ContentHash :: string
  ra_OccurredAt :: time

section \<open>Pages\<close>

record PageCursor =
  pc_Timestamp :: time
  pc_ID :: string
  pc_SecondaryID :: string
  pc_Version :: int

record PageRequest =
  pq_Limit :: int
  pq_Cursor :: PageCursor

record 'a Page =
  pg_Items :: "'a list"
  pg_NextCursor :: "PageCursor option"

definition DefaultAdminPageLimit :: int where "DefaultAdminPageLimit = 50"
definition MaxAdminPageLimit :: int where "MaxAdminPageLimit = 200"
definition maxAdminFilterBytes :: int where "maxAdminFilterBytes = 256"

definition zero_cursor :: PageCursor where
  "zero_cursor = \<lparr> pc_Timestamp = 0, pc_ID = [], pc_SecondaryID = [], pc_Version = 0 \<rparr>"

definition NormalizePageRequest :: "PageRequest \<Rightarrow> store_error + PageRequest" where
  "NormalizePageRequest request =
     (let request = (if pq_Limit request = 0 then request\<lparr>pq_Limit := DefaultAdminPageLimit\<rparr> else request) in
      if pq_Limit request < 1 \<or> pq_Limit request > MaxAdminPageLimit then Inl (StoreInvalid ''page limit must be between 1 and 200'')
      else if int (length (pc_ID (pq_Cursor request))) > maxAdminFilterBytes \<or>
         int (length (pc_SecondaryID (pq_Cursor request))) > maxAdminFilterBytes
      then Inl (StoreInvalid ''page cursor is too long'')
      else if pc_Version (pq_Cursor request) < 0 then Inl (StoreInvalid ''page cursor version cannot be negative'')
      else Inr request)"

definition pageItems :: "'a list \<Rightarrow> int \<Rightarrow> ('a \<Rightarrow> PageCursor) \<Rightarrow> 'a Page" where
  "pageItems items limit cursor =
     (if int (length items) \<le> limit then \<lparr> pg_Items = items, pg_NextCursor = None \<rparr>
      else let items = take (nat limit) items in \<lparr> pg_Items = items, pg_NextCursor = Some (cursor (last items)) \<rparr>)"

definition ValidateAdminFilter :: "string \<Rightarrow> bool" where
  "ValidateAdminFilter value \<longleftrightarrow> int (length value) \<le> maxAdminFilterBytes"

text \<open>
  The queries that list versions: the rows after the cursor in the order of identifier and version,
  one more than the limit.
\<close>

definition version_page :: "('r \<Rightarrow> string \<times> int) \<Rightarrow> ('r \<Rightarrow> bool) \<Rightarrow> 'r list \<Rightarrow> PageRequest \<Rightarrow> 'r Page" where
  "version_page key sel rows page =
     (let cursor = (pc_ID (pq_Cursor page), pc_Version (pq_Cursor page));
          found = sort_key key (filter (\<lambda>r. sel r \<and> (pc_ID (pq_Cursor page) = [] \<or> cursor < key r)) rows) in
      pageItems (take (nat (pq_Limit page + 1)) found) (pq_Limit page)
        (\<lambda>r. zero_cursor\<lparr> pc_ID := fst (key r), pc_Version := snd (key r) \<rparr>))"

section \<open>Tables\<close>

record RGDB =
  rg_projects :: "string list"
  rg_trades :: "TradeDefinition list"
  rg_workers :: "WorkerProfile list"
  rg_adaptations :: "ProjectTradeAdaptation list"
  rg_audit :: "RegistryAuditEvent list"

definition trade_key :: "TradeDefinition \<Rightarrow> string \<times> int" where
  "trade_key v = (td_TradeID v, td_Version v)"

definition worker_key :: "WorkerProfile \<Rightarrow> string \<times> int" where
  "worker_key v = (wp_WorkerID v, wp_Version v)"

definition adaptation_key :: "ProjectTradeAdaptation \<Rightarrow> string \<times> string \<times> int" where
  "adaptation_key v = (pa_ProjectID v, pa_AdaptationID v, pa_Version v)"

definition ValidateProjectProjectionID :: "string \<Rightarrow> bool" where
  "ValidateProjectProjectionID value = (let value = TrimSpace value in value \<noteq> [] \<and> int (length value) \<le> 256)"

definition validateRegistryKey :: "string \<Rightarrow> int \<Rightarrow> bool" where
  "validateRegistryKey i version \<longleftrightarrow> ValidateProjectProjectionID i \<and> 1 \<le> version"

definition validLifecycle :: "RegistryLifecycle \<Rightarrow> bool" where
  "validLifecycle v \<longleftrightarrow> v = RegistryActive \<or> v = RegistryDeprecated \<or> v = RegistryDisabled"

definition validHash :: "string \<Rightarrow> bool" where
  "validHash v \<longleftrightarrow> int (length v) = 64 \<and> list_all (\<lambda>c. c \<in> set ''0123456789abcdef'') v"

definition store_validateTrade :: "TradeDefinition \<Rightarrow> bool" where
  "store_validateTrade v \<longleftrightarrow> validateRegistryKey (td_TradeID v) (td_Version v) \<and> td_Name v \<noteq> [] \<and> validLifecycle (td_Lifecycle v) \<and>
     validHash (td_ContentHash v) \<and> td_CreatedAt v \<noteq> 0"

definition store_validateWorker :: "WorkerProfile \<Rightarrow> bool" where
  "store_validateWorker v \<longleftrightarrow> validateRegistryKey (wp_WorkerID v) (wp_Version v) \<and>
     list_all (\<lambda>(i, version). validateRegistryKey i version) [(wp_TradeID v, wp_TradeVersion v), (wp_InstructionID v, wp_InstructionVer v),
       (wp_RuntimeID v, wp_RuntimeVersion v), (wp_ToolPolicyID v, wp_ToolPolicyVer v)] \<and>
     wp_Name v \<noteq> [] \<and> wp_Provider v \<noteq> [] \<and> wp_Model v \<noteq> [] \<and> wp_ModelVersion v \<noteq> [] \<and> validLifecycle (wp_Lifecycle v) \<and>
     validHash (wp_ContentHash v) \<and> wp_CreatedAt v \<noteq> 0"

definition store_validateAdaptation :: "ProjectTradeAdaptation \<Rightarrow> bool" where
  "store_validateAdaptation v \<longleftrightarrow> validateRegistryKey (pa_ProjectID v) 1 \<and> validateRegistryKey (pa_AdaptationID v) (pa_Version v) \<and>
     validateRegistryKey (pa_TradeID v) (pa_TradeVersion v) \<and> validLifecycle (pa_Lifecycle v) \<and> validHash (pa_ContentHash v) \<and>
     pa_CreatedAt v \<noteq> 0"

definition validateAudit :: "RegistryAuditEvent \<Rightarrow> bool" where
  "validateAudit v \<longleftrightarrow> validateRegistryKey (ra_AuditID v) 1 \<and> validateRegistryKey (ra_SubjectID v) (ra_SubjectVer v) \<and> ra_Action v \<noteq> [] \<and>
     ra_SubjectKind v \<noteq> [] \<and> ra_ActorID v \<noteq> [] \<and> validHash (ra_ContentHash v) \<and> ra_OccurredAt v \<noteq> 0"

text \<open>
  \<open>INSERT OR IGNORE\<close> and \<open>registryWriteResult\<close>: a row whose key is taken is compared by its hash; \<open>fits\<close>
  tells whether the encoded columns keep within the limit of the schema, without which the row is ignored as well.
\<close>

definition insert_version :: "('r \<Rightarrow> 'k) \<Rightarrow> ('r \<Rightarrow> string) \<Rightarrow> bool \<Rightarrow> 'r list \<Rightarrow> 'r \<Rightarrow> store_error + 'r list \<times> bool" where
  "insert_version key hash fits rows row =
     (case row_lookup key (key row) rows of
        None \<Rightarrow> if fits then Inr (rows @ [row], False) else Inl (StoreInvalid ''no rows in result set'')
      | Some existing \<Rightarrow>
          if hash existing \<noteq> hash row then Inl (StoreConflict ''immutable registry version'') else Inr (rows, True))"

definition SaveTradeDefinition :: "(TradeDefinition \<Rightarrow> bool) \<Rightarrow> RGDB \<Rightarrow> TradeDefinition \<Rightarrow> store_error + RGDB \<times> bool" where
  "SaveTradeDefinition fits db v =
     (if \<not> store_validateTrade v then Inl (StoreInvalid ''trade definition is incomplete'')
      else rbind (insert_version trade_key td_ContentHash (fits v) (rg_trades db) v) (\<lambda>(rows, present).
        Inr (db\<lparr>rg_trades := rows\<rparr>, present)))"

definition GetTradeDefinition :: "RGDB \<Rightarrow> string \<Rightarrow> int \<Rightarrow> store_error + TradeDefinition" where
  "GetTradeDefinition db i version =
     (if \<not> validateRegistryKey i version then Inl (StoreInvalid ''positive version is required'')
      else case row_lookup trade_key (i, version) (rg_trades db) of
        None \<Rightarrow> Inl (StoreNotFound ''trade definition'') | Some v \<Rightarrow> Inr v)"

definition ListTradeDefinitions :: "RGDB \<Rightarrow> string \<Rightarrow> RegistryLifecycle \<Rightarrow> PageRequest \<Rightarrow> store_error + TradeDefinition Page" where
  "ListTradeDefinitions db tradeID lifecycle request =
     rbind (NormalizePageRequest request) (\<lambda>page.
     if \<not> ValidateAdminFilter tradeID \<or> (case lifecycle of RegistryLifecycleOther s \<Rightarrow> \<not> ValidateAdminFilter s | _ \<Rightarrow> False)
     then Inl (StoreInvalid ''administration query filter is too long'')
     else Inr (version_page trade_key (\<lambda>v. (tradeID = [] \<or> td_TradeID v = tradeID) \<and>
       (lifecycle = RegistryLifecycleOther [] \<or> td_Lifecycle v = lifecycle)) (rg_trades db) page))"

text \<open>The foreign key of a worker and of an adaptation names a stored trade version.\<close>

definition trade_exists :: "RGDB \<Rightarrow> string \<Rightarrow> int \<Rightarrow> bool" where
  "trade_exists db i version = row_exists trade_key (i, version) (rg_trades db)"

definition SaveWorkerProfile :: "(WorkerProfile \<Rightarrow> bool) \<Rightarrow> RGDB \<Rightarrow> WorkerProfile \<Rightarrow> store_error + RGDB \<times> bool" where
  "SaveWorkerProfile fits db v =
     (if \<not> store_validateWorker v then Inl (StoreInvalid ''worker profile is incomplete'')
      else rbind (insert_version worker_key wp_ContentHash (fits v) (rg_workers db) v) (\<lambda>(rows, present).
        if \<not> present \<and> \<not> trade_exists db (wp_TradeID v) (wp_TradeVersion v) then Inl (StoreConstraint ''registry_worker_versions'')
        else Inr (db\<lparr>rg_workers := rows\<rparr>, present)))"

definition GetWorkerProfile :: "RGDB \<Rightarrow> string \<Rightarrow> int \<Rightarrow> store_error + WorkerProfile" where
  "GetWorkerProfile db i version =
     (if \<not> validateRegistryKey i version then Inl (StoreInvalid ''positive version is required'')
      else case row_lookup worker_key (i, version) (rg_workers db) of
        None \<Rightarrow> Inl (StoreNotFound ''worker profile'') | Some v \<Rightarrow> Inr v)"

definition ListWorkerProfiles ::
  "RGDB \<Rightarrow> string \<Rightarrow> string \<Rightarrow> RegistryLifecycle \<Rightarrow> PageRequest \<Rightarrow> store_error + WorkerProfile Page" where
  "ListWorkerProfiles db workerID tradeID lifecycle request =
     rbind (NormalizePageRequest request) (\<lambda>page.
     if \<not> ValidateAdminFilter workerID \<or> \<not> ValidateAdminFilter tradeID \<or>
        (case lifecycle of RegistryLifecycleOther s \<Rightarrow> \<not> ValidateAdminFilter s | _ \<Rightarrow> False)
     then Inl (StoreInvalid ''administration query filter is too long'')
     else Inr (version_page worker_key (\<lambda>v. (workerID = [] \<or> wp_WorkerID v = workerID) \<and> (tradeID = [] \<or> wp_TradeID v = tradeID) \<and>
       (lifecycle = RegistryLifecycleOther [] \<or> wp_Lifecycle v = lifecycle)) (rg_workers db) page))"

definition SaveProjectTradeAdaptation ::
  "(ProjectTradeAdaptation \<Rightarrow> bool) \<Rightarrow> RGDB \<Rightarrow> ProjectTradeAdaptation \<Rightarrow> store_error + RGDB \<times> bool" where
  "SaveProjectTradeAdaptation fits db v =
     (if \<not> store_validateAdaptation v then Inl (StoreInvalid ''project adaptation is incomplete'')
      else rbind (insert_version adaptation_key pa_ContentHash (fits v) (rg_adaptations db) v) (\<lambda>(rows, present).
        if \<not> present \<and> (\<not> trade_exists db (pa_TradeID v) (pa_TradeVersion v) \<or> pa_ProjectID v \<notin> set (rg_projects db))
        then Inl (StoreConstraint ''registry_project_trade_adaptations'')
        else Inr (db\<lparr>rg_adaptations := rows\<rparr>, present)))"

definition GetProjectTradeAdaptation :: "RGDB \<Rightarrow> string \<Rightarrow> string \<Rightarrow> int \<Rightarrow> store_error + ProjectTradeAdaptation" where
  "GetProjectTradeAdaptation db projectID i version =
     (if \<not> validateRegistryKey projectID 1 \<or> \<not> validateRegistryKey i version then Inl (StoreInvalid ''positive version is required'')
      else case row_lookup adaptation_key (projectID, i, version) (rg_adaptations db) of
        None \<Rightarrow> Inl (StoreNotFound ''project trade adaptation'') | Some v \<Rightarrow> Inr v)"

definition ListProjectTradeAdaptations :: "RGDB \<Rightarrow> string \<Rightarrow> string \<Rightarrow> PageRequest \<Rightarrow> store_error + ProjectTradeAdaptation Page" where
  "ListProjectTradeAdaptations db projectID tradeID request =
     rbind (NormalizePageRequest request) (\<lambda>page.
     if \<not> ValidateAdminFilter projectID \<or> \<not> ValidateAdminFilter tradeID
     then Inl (StoreInvalid ''administration query filter is too long'')
     else if projectID = [] then Inl (StoreInvalid ''project id is required'')
     else Inr (version_page (\<lambda>v. (pa_AdaptationID v, pa_Version v))
       (\<lambda>v. pa_ProjectID v = projectID \<and> (tradeID = [] \<or> pa_TradeID v = tradeID)) (rg_adaptations db) page))"

definition RecordRegistryAudit :: "RGDB \<Rightarrow> RegistryAuditEvent \<Rightarrow> store_error + RGDB" where
  "RecordRegistryAudit db v =
     (if \<not> validateAudit v then Inl (StoreInvalid ''registry audit event is incomplete'')
      else if row_exists ra_AuditID (ra_AuditID v) (rg_audit db) then Inl (StoreNotFound ''registry audit event'')
      else Inr (db\<lparr>rg_audit := rg_audit db @ [v]\<rparr>))"

end
