(* ===== verification/Registry_Service.thy ===== *)
theory Registry_Service
  imports Registry_Store
begin

text \<open>
  The registry service, src/internal/registry/service.go. Saving a definition and recording its audit
  event are two writes, so an operation returns the database together with its result: what was written
  before an error stays.
\<close>

section \<open>Checks\<close>

datatype registry_error = ErrInvalidDefinition string | ErrRegistryConflict | ErrUnauthorized | ErrRegistryStore store_error

record Reference =
  rf_ID :: string
  rf_Version :: int
  rf_Digest :: string

definition registry_namespaced :: "string \<Rightarrow> string \<Rightarrow> bool" where
  "registry_namespaced v pre \<longleftrightarrow> validID v \<and> HasPrefix v pre"

fun check_tags :: "string list \<Rightarrow> string list \<Rightarrow> bool" where
  "check_tags seen [] = True"
| "check_tags seen (v # vs) = (if \<not> validID v \<or> v \<in> set seen then False else check_tags (v # seen) vs)"

definition validateTags :: "string list list \<Rightarrow> registry_error + unit" where
  "validateTags tags = (if list_all (check_tags []) tags then ok else Inl (ErrInvalidDefinition ''capability tags''))"

definition validateTrade :: "TradeDefinition \<Rightarrow> registry_error + unit" where
  "validateTrade v =
     (if \<not> registry_namespaced (td_TradeID v) ''trade:'' \<or> td_Version v < 1 \<or> TrimSpace (td_Name v) = [] \<or> \<not> validLifecycle (td_Lifecycle v) \<or>
         rev_SampleCount (td_Evidence v) < 0
      then Inl (ErrInvalidDefinition ''trade'')
      else validateTags [td_CapabilityTags v, td_RequiredCapabilities v, td_OptionalCapabilities v])"

definition validateWorker :: "WorkerProfile \<Rightarrow> registry_error + unit" where
  "validateWorker v =
     (if \<not> registry_namespaced (wp_WorkerID v) ''worker:'' \<or> wp_Version v < 1 \<or> \<not> registry_namespaced (wp_TradeID v) ''trade:'' \<or>
         wp_TradeVersion v < 1 \<or> \<not> registry_namespaced (wp_InstructionID v) ''instruction:'' \<or> wp_InstructionVer v < 1 \<or>
         \<not> registry_namespaced (wp_RuntimeID v) ''runtime:'' \<or> wp_RuntimeVersion v < 1 \<or>
         \<not> registry_namespaced (wp_ToolPolicyID v) ''tool-policy:'' \<or> wp_ToolPolicyVer v < 1 \<or> TrimSpace (wp_Name v) = [] \<or>
         TrimSpace (wp_Provider v) = [] \<or> TrimSpace (wp_Model v) = [] \<or> TrimSpace (wp_ModelVersion v) = [] \<or>
         \<not> validLifecycle (wp_Lifecycle v) \<or> rev_SampleCount (wp_Evidence v) < 0
      then Inl (ErrInvalidDefinition ''worker'')
      else validateTags [wp_CapabilityTags v])"

definition validateAdaptation :: "ProjectTradeAdaptation \<Rightarrow> registry_error + unit" where
  "validateAdaptation v =
     (if \<not> validID (pa_ProjectID v) \<or> \<not> registry_namespaced (pa_AdaptationID v) ''adaptation:'' \<or> pa_Version v < 1 \<or>
         \<not> registry_namespaced (pa_TradeID v) ''trade:'' \<or> pa_TradeVersion v < 1 \<or> \<not> validLifecycle (pa_Lifecycle v)
      then Inl (ErrInvalidDefinition ''project adaptation'')
      else validateTags [pa_RequiredCapabilities v, pa_OptionalCapabilities v])"

definition normalizeTrade :: "TradeDefinition \<Rightarrow> TradeDefinition" where
  "normalizeTrade v = v\<lparr> td_CapabilityTags := sort (td_CapabilityTags v), td_RequiredCapabilities := sort (td_RequiredCapabilities v),
     td_OptionalCapabilities := sort (td_OptionalCapabilities v) \<rparr>"

definition normalizeWorker :: "WorkerProfile \<Rightarrow> WorkerProfile" where
  "normalizeWorker v = v\<lparr> wp_CapabilityTags := sort (wp_CapabilityTags v) \<rparr>"

definition normalizeAdaptation :: "ProjectTradeAdaptation \<Rightarrow> ProjectTradeAdaptation" where
  "normalizeAdaptation v = v\<lparr> pa_RequiredCapabilities := sort (pa_RequiredCapabilities v),
     pa_OptionalCapabilities := sort (pa_OptionalCapabilities v) \<rparr>"

record CapabilityMatch =
  cm_Exact :: bool
  cm_MissingRequired :: "string list"
  cm_MatchedOptional :: "string list"

definition MatchCapabilities :: "string list \<Rightarrow> string list \<Rightarrow> string list \<Rightarrow> CapabilityMatch" where
  "MatchCapabilities offered required optional =
     (let missing = filter (\<lambda>tag. tag \<notin> set (sort offered)) (sort required);
          matched = filter (\<lambda>tag. tag \<in> set (sort offered)) (sort optional) in
      \<lparr> cm_Exact = (missing = [] \<and> length matched = length (sort optional)), cm_MissingRequired = missing, cm_MatchedOptional = matched \<rparr>)"

section \<open>The service\<close>

text \<open>The clock, the hashes of the JSON encodings and the size limits of the columns.\<close>

record RegistryService =
  rs_now :: time
  rs_hash_trade :: "TradeDefinition \<Rightarrow> string"
  rs_hash_worker :: "WorkerProfile \<Rightarrow> string"
  rs_hash_adaptation :: "ProjectTradeAdaptation \<Rightarrow> string"
  rs_hash_strings :: "string list \<Rightarrow> string"
  rs_int_text :: "int \<Rightarrow> string"
  rs_fits_trade :: "TradeDefinition \<Rightarrow> bool"
  rs_fits_worker :: "WorkerProfile \<Rightarrow> bool"
  rs_fits_adaptation :: "ProjectTradeAdaptation \<Rightarrow> bool"

definition mapConflict :: "store_error \<Rightarrow> registry_error" where
  "mapConflict e = (case e of StoreConflict _ \<Rightarrow> ErrRegistryConflict | _ \<Rightarrow> ErrRegistryStore e)"

definition registry_audit ::
  "RegistryService \<Rightarrow> RGDB \<Rightarrow> string \<Rightarrow> string \<Rightarrow> string \<Rightarrow> string \<Rightarrow> int \<Rightarrow> string \<Rightarrow> string \<Rightarrow> store_error + RGDB" where
  "registry_audit service db actor action kind i version projectID digest =
     RecordRegistryAudit db
       \<lparr> ra_AuditID = ''registry-audit:'' @ take 32 (rs_hash_strings service [action, kind, i, rs_int_text service version, projectID, digest]),
         ra_Action = action, ra_SubjectKind = kind, ra_SubjectID = i, ra_SubjectVer = version, ra_ProjectID = projectID,
         ra_ActorID = actor, ra_ContentHash = digest, ra_OccurredAt = rs_now service \<rparr>"

text \<open>The common end of the three save operations: write, and audit what was written.\<close>

definition save_and_audit ::
  "RegistryService \<Rightarrow> RGDB \<Rightarrow> string \<Rightarrow> string \<Rightarrow> string \<Rightarrow> int \<Rightarrow> string \<Rightarrow> string \<Rightarrow> store_error + RGDB \<times> bool \<Rightarrow>
   RGDB \<times> (registry_error + Reference)" where
  "save_and_audit service db actor kind i version projectID digest written =
     (case written of
        Inl e \<Rightarrow> (db, Inl (mapConflict e))
      | Inr (db, present) \<Rightarrow>
          let reference = \<lparr> rf_ID = i, rf_Version = version, rf_Digest = digest \<rparr> in
          if present then (db, Inr reference)
          else (case registry_audit service db actor ''create'' kind i version projectID digest of
                  Inl e \<Rightarrow> (db, Inl (ErrRegistryStore e))
                | Inr db \<Rightarrow> (db, Inr reference)))"

definition SaveTrade :: "RegistryService \<Rightarrow> RGDB \<Rightarrow> string \<Rightarrow> TradeDefinition \<Rightarrow> RGDB \<times> (registry_error + Reference)" where
  "SaveTrade service db actorID value =
     (if \<not> validID actorID then (db, Inl (ErrInvalidDefinition ''actor id''))
      else
        let v = normalizeTrade value in
        case validateTrade v of Inl e \<Rightarrow> (db, Inl e) | Inr _ \<Rightarrow>
        let v = (if td_CreatedAt v = 0 then v\<lparr>td_CreatedAt := rs_now service\<rparr> else v);
            v = v\<lparr>td_ContentHash := rs_hash_trade service (v\<lparr>td_ContentHash := []\<rparr>)\<rparr> in
        save_and_audit service db actorID ''trade'' (td_TradeID v) (td_Version v) [] (td_ContentHash v)
          (SaveTradeDefinition (rs_fits_trade service) db v))"

definition SaveWorker :: "RegistryService \<Rightarrow> RGDB \<Rightarrow> string \<Rightarrow> WorkerProfile \<Rightarrow> RGDB \<times> (registry_error + Reference)" where
  "SaveWorker service db actorID value =
     (if \<not> validID actorID then (db, Inl (ErrInvalidDefinition ''actor id''))
      else
        let v = normalizeWorker value in
        case validateWorker v of Inl e \<Rightarrow> (db, Inl e) | Inr _ \<Rightarrow>
        (case GetTradeDefinition db (wp_TradeID v) (wp_TradeVersion v) of
           Inl _ \<Rightarrow> (db, Inl (ErrInvalidDefinition ''worker trade reference''))
         | Inr trade \<Rightarrow>
             if td_Lifecycle trade = RegistryDisabled then (db, Inl (ErrInvalidDefinition ''worker cannot bind disabled trade''))
             else
               let v = (if wp_CreatedAt v = 0 then v\<lparr>wp_CreatedAt := rs_now service\<rparr> else v);
                   v = v\<lparr>wp_ContentHash := rs_hash_worker service (v\<lparr>wp_ContentHash := []\<rparr>)\<rparr> in
               save_and_audit service db actorID ''worker'' (wp_WorkerID v) (wp_Version v) [] (wp_ContentHash v)
                 (SaveWorkerProfile (rs_fits_worker service) db v)))"

definition SaveProjectAdaptation ::
  "RegistryService \<Rightarrow> RGDB \<Rightarrow> string \<Rightarrow> string \<Rightarrow> ProjectTradeAdaptation \<Rightarrow> RGDB \<times> (registry_error + Reference)" where
  "SaveProjectAdaptation service db actorID authorizedProjectID value =
     (if \<not> validID actorID then (db, Inl (ErrInvalidDefinition ''actor id''))
      else if authorizedProjectID = [] \<or> pa_ProjectID value \<noteq> authorizedProjectID then (db, Inl ErrUnauthorized)
      else if authorizedProjectID \<notin> set (rg_projects db) then (db, Inl ErrUnauthorized)
      else
        let v = normalizeAdaptation value in
        case validateAdaptation v of Inl e \<Rightarrow> (db, Inl e) | Inr _ \<Rightarrow>
        (case GetTradeDefinition db (pa_TradeID v) (pa_TradeVersion v) of
           Inl _ \<Rightarrow> (db, Inl (ErrInvalidDefinition ''adaptation trade reference''))
         | Inr _ \<Rightarrow>
             let v = (if pa_CreatedAt v = 0 then v\<lparr>pa_CreatedAt := rs_now service\<rparr> else v);
                 v = v\<lparr>pa_ContentHash := rs_hash_adaptation service (v\<lparr>pa_ContentHash := []\<rparr>)\<rparr> in
             save_and_audit service db actorID ''project_trade_adaptation'' (pa_AdaptationID v) (pa_Version v) (pa_ProjectID v)
               (pa_ContentHash v) (SaveProjectTradeAdaptation (rs_fits_adaptation service) db v)))"

section \<open>Export and import\<close>

text \<open>The loops that read page after page: \<open>listTrades\<close>, \<open>listWorkers\<close> and \<open>listAdaptations\<close>.\<close>

partial_function (option) list_pages ::
  "(PageRequest \<Rightarrow> store_error + 'r Page) \<Rightarrow> 'r list \<Rightarrow> PageRequest \<Rightarrow> (store_error + 'r list) option" where
  "list_pages fetch out page =
     (case fetch page of
        Inl e \<Rightarrow> Some (Inl e)
      | Inr r \<Rightarrow>
          (case pg_NextCursor r of
             None \<Rightarrow> Some (Inr (out @ pg_Items r))
           | Some cursor \<Rightarrow> list_pages fetch (out @ pg_Items r) (page\<lparr>pq_Cursor := cursor\<rparr>)))"

definition first_page :: PageRequest where
  "first_page = \<lparr> pq_Limit = MaxAdminPageLimit, pq_Cursor = zero_cursor \<rparr>"

definition listAllTrades :: "RGDB \<Rightarrow> (store_error + TradeDefinition list) option" where
  "listAllTrades db = list_pages (ListTradeDefinitions db [] (RegistryLifecycleOther [])) [] first_page"

definition listAllWorkers :: "RGDB \<Rightarrow> (store_error + WorkerProfile list) option" where
  "listAllWorkers db = list_pages (ListWorkerProfiles db [] [] (RegistryLifecycleOther [])) [] first_page"

definition listAllAdaptations :: "RGDB \<Rightarrow> string \<Rightarrow> (store_error + ProjectTradeAdaptation list) option" where
  "listAllAdaptations db projectID = list_pages (ListProjectTradeAdaptations db projectID []) [] first_page"

record Bundle =
  bu_Schema :: string
  bu_Trades :: "TradeDefinition list"
  bu_Workers :: "WorkerProfile list"
  bu_Adaptations :: "ProjectTradeAdaptation list"

definition bundleSchema :: string where
  "bundleSchema = ''syncgate.registry.v1''"

text \<open>The bundle that \<open>Export\<close> encodes; \<open>None\<close> would be a listing that does not end.\<close>

definition Export :: "RGDB \<Rightarrow> string \<Rightarrow> (registry_error + Bundle) option" where
  "Export db projectID =
     (case listAllTrades db of None \<Rightarrow> None | Some (Inl e) \<Rightarrow> Some (Inl (ErrRegistryStore e)) | Some (Inr trades) \<Rightarrow>
     (case listAllWorkers db of None \<Rightarrow> None | Some (Inl e) \<Rightarrow> Some (Inl (ErrRegistryStore e)) | Some (Inr workers) \<Rightarrow>
     if projectID = []
     then Some (Inr \<lparr> bu_Schema = bundleSchema, bu_Trades = trades, bu_Workers = workers, bu_Adaptations = [] \<rparr>)
     else if projectID \<notin> set (rg_projects db) then Some (Inl ErrUnauthorized)
     else (case listAllAdaptations db projectID of
         None \<Rightarrow> None
       | Some (Inl e) \<Rightarrow> Some (Inl (ErrRegistryStore e))
       | Some (Inr adaptations) \<Rightarrow>
           Some (Inr \<lparr> bu_Schema = bundleSchema, bu_Trades = trades, bu_Workers = workers, bu_Adaptations = adaptations \<rparr>))))"

fun save_each :: "(RGDB \<Rightarrow> 'v \<Rightarrow> RGDB \<times> (registry_error + Reference)) \<Rightarrow> RGDB \<Rightarrow> 'v list \<Rightarrow> RGDB \<times> (registry_error + unit)" where
  "save_each save db [] = (db, ok)"
| "save_each save db (v # vs) =
     (case save db v of (db', Inl e) \<Rightarrow> (db', Inl e) | (db', Inr _) \<Rightarrow> save_each save db' vs)"

text \<open>\<open>Import\<close> of a decoded bundle.\<close>

definition Import :: "RegistryService \<Rightarrow> RGDB \<Rightarrow> string \<Rightarrow> string \<Rightarrow> Bundle \<Rightarrow> RGDB \<times> (registry_error + unit)" where
  "Import service db actorID authorizedProjectID bundle =
     (if \<not> validID actorID then (db, Inl (ErrInvalidDefinition ''actor id''))
      else if bu_Schema bundle \<noteq> bundleSchema then (db, Inl (ErrInvalidDefinition ''unsupported bundle schema''))
      else
        case save_each (\<lambda>db. SaveTrade service db actorID) db (sort_key trade_key (bu_Trades bundle)) of
          (db, Inl e) \<Rightarrow> (db, Inl e)
        | (db, Inr _) \<Rightarrow>
            (case save_each (\<lambda>db. SaveWorker service db actorID) db (sort_key worker_key (bu_Workers bundle)) of
               (db, Inl e) \<Rightarrow> (db, Inl e)
             | (db, Inr _) \<Rightarrow>
                 save_each (\<lambda>db. SaveProjectAdaptation service db actorID authorizedProjectID) db
                   (sort_key adaptation_key (bu_Adaptations bundle))))"

end
