(* ===== verification/Registry_Safety.thy ===== *)
theory Registry_Safety
  imports Registry_Service "HOL-Library.Multiset"
begin

text \<open>
  What the registry keeps: versions are written once and well formed, the paged listings give every
  version exactly once, and an exported registry can be imported again.
\<close>

section \<open>Reading page after page\<close>

lemma strict_filter_drop:
  assumes "sorted_wrt (\<lambda>a b. key a < (key b :: 'k :: linorder)) xs" "0 < n" "n \<le> length xs"
  shows "filter (\<lambda>x. key (xs ! (n - 1)) < key x) xs = drop n xs"
proof -
  have "filter (\<lambda>x. key (xs ! (n - 1)) < key x) (take n xs) = []"
  proof (rule filter_False, intro ballI notI)
    fix x
    assume "x \<in> set (take n xs)" and less: "key (xs ! (n - 1)) < key x"
    then obtain i where i: "i < n" "x = xs ! i" using assms(3) by (auto simp: in_set_conv_nth)
    have "key x \<le> key (xs ! (n - 1))"
      using sorted_wrt_nth_less [OF assms(1), of i "n - 1"] i assms(2,3) by (cases "i = n - 1") (auto simp: less_imp_le)
    then show False using less by simp
  qed
  moreover have "filter (\<lambda>x. key (xs ! (n - 1)) < key x) (drop n xs) = drop n xs"
  proof (rule filter_True, intro ballI)
    fix x
    assume "x \<in> set (drop n xs)"
    then obtain i where i: "i < length xs - n" "x = xs ! (n + i)" using assms(3) by (auto simp: in_set_conv_nth)
    then show "key (xs ! (n - 1)) < key x" using sorted_wrt_nth_less [OF assms(1), of "n - 1" "n + i"] assms(2) by auto
  qed
  ultimately show ?thesis using filter_append [of _ "take n xs" "drop n xs"] by simp
qed

lemma sorted_strict:
  assumes "keys_distinct key xs"
  shows "sorted_wrt (\<lambda>a b. key a < (key b :: 'k :: linorder)) (sort_key key xs)"
proof -
  have "sorted_wrt (<) (map key (sort_key key xs))"
    using assms by (simp add: strict_sorted_iff keys_distinct_def distinct_map)
  then show ?thesis by (simp add: sorted_wrt_map)
qed

lemma pageItems_found:
  assumes "0 < n"
  shows "pageItems (take (n + 1) xs) (int n) f =
    (if length xs \<le> n then \<lparr> pg_Items = xs, pg_NextCursor = None \<rparr> else \<lparr> pg_Items = take n xs, pg_NextCursor = Some (f (xs ! (n - 1))) \<rparr>)"
proof (cases "length xs \<le> n")
  case False
  then have "last (take n xs) = xs ! (n - 1)" using assms by (subst last_conv_nth) (auto simp: min_def)
  then show ?thesis using False by (simp add: pageItems_def Let_def min_def)
qed (simp add: pageItems_def)

text \<open>
  The contract of a listing: for every valid page request it gives the page of the rows that are
  selected, in the order of their keys, which are distinct and fit into a cursor.
\<close>

definition cursor_key :: "string \<times> int \<Rightarrow> bool" where
  "cursor_key k \<longleftrightarrow> fst k \<noteq> [] \<and> int (length (fst k)) \<le> maxAdminFilterBytes \<and> 0 \<le> snd k"

locale version_listing =
  fixes good :: "'db \<Rightarrow> bool"
    and fetch :: "'db \<Rightarrow> PageRequest \<Rightarrow> store_error + 'r Page"
    and rows :: "'db \<Rightarrow> 'r list"
    and key :: "'r \<Rightarrow> string \<times> int"
    and sel :: "'r \<Rightarrow> bool"
  assumes page: "good db \<Longrightarrow> NormalizePageRequest request = Inr p \<Longrightarrow> fetch db request = Inr (version_page key sel (rows db) p)"
    and cursor: "good db \<Longrightarrow> r \<in> set (rows db) \<Longrightarrow> sel r \<Longrightarrow> cursor_key (key r)"
    and distinct_keys: "good db \<Longrightarrow> keys_distinct key (filter sel (rows db))"
begin

definition after :: "'db \<Rightarrow> PageCursor \<Rightarrow> 'r list" where
  "after db c = sort_key key (filter (\<lambda>r. sel r \<and> (pc_ID c = [] \<or> (pc_ID c, pc_Version c) < key r)) (rows db))"

definition cursor_of :: "'r \<Rightarrow> PageCursor" where
  "cursor_of r = zero_cursor\<lparr> pc_ID := fst (key r), pc_Version := snd (key r) \<rparr>"

lemma after_strict:
  assumes "good db"
  shows "sorted_wrt (\<lambda>a b. key a < key b) (after db c)"
proof -
  have "keys_distinct key (filter (\<lambda>r. pc_ID c = [] \<or> (pc_ID c, pc_Version c) < key r) (filter sel (rows db)))"
    using distinct_keys [OF assms] unfolding keys_distinct_def by (rule distinct_map_filter)
  then show ?thesis unfolding after_def filter_filter by (rule sorted_strict)
qed

lemma after_next:
  assumes "good db" "0 < n" "n \<le> length (after db c)"
  shows "after db (cursor_of (after db c ! (n - 1))) = drop n (after db c)"
proof -
  define r where "r = after db c ! (n - 1)"
  have "r \<in> set (after db c)" using assms(2,3) by (simp add: r_def)
  then have r: "r \<in> set (rows db)" "sel r" "pc_ID c = [] \<or> (pc_ID c, pc_Version c) < key r" by (auto simp: after_def)
  have "fst (key r) \<noteq> []" using cursor [OF assms(1) r(1,2)] by (simp add: cursor_key_def)
  then have next_iff: "pc_ID (cursor_of r) = [] \<or> (pc_ID (cursor_of r), pc_Version (cursor_of r)) < k \<longleftrightarrow> key r < k" for k
    by (simp add: cursor_of_def zero_cursor_def)
  have "filter (\<lambda>x. key r < key x) (after db c) = after db (cursor_of r)"
    unfolding after_def filter_sort filter_filter next_iff
    by (rule arg_cong [where f = "sort_key key"], rule filter_cong [OF refl]) (use r(3) in \<open>blast intro: less_trans\<close>)
  then show ?thesis using strict_filter_drop [OF after_strict [OF assms(1)] assms(2,3)] by (simp add: r_def)
qed

lemma fetch_page:
  assumes "good db" "pq_Limit request = MaxAdminPageLimit"
    "int (length (pc_ID (pq_Cursor request))) \<le> maxAdminFilterBytes" "pc_SecondaryID (pq_Cursor request) = []" "0 \<le> pc_Version (pq_Cursor request)"
  shows "fetch db request = Inr (let found = after db (pq_Cursor request) in
    if length found \<le> 200 then \<lparr> pg_Items = found, pg_NextCursor = None \<rparr>
    else \<lparr> pg_Items = take 200 found, pg_NextCursor = Some (cursor_of (found ! 199)) \<rparr>)"
proof -
  have "NormalizePageRequest request = Inr request"
    using assms(2-5) by (simp add: NormalizePageRequest_def MaxAdminPageLimit_def maxAdminFilterBytes_def)
  from page [OF assms(1) this] have "fetch db request = Inr (pageItems (take (200 + 1) (after db (pq_Cursor request))) (int 200) cursor_of)"
    using assms(2) by (simp add: version_page_def after_def cursor_of_def [abs_def] MaxAdminPageLimit_def Let_def)
  then show ?thesis using pageItems_found [of 200 "after db (pq_Cursor request)" cursor_of] by (simp add: Let_def)
qed

text \<open>The loop over the pages ends, with every selected row exactly once, in order.\<close>

lemma list_pages_from:
  assumes "good db" "int (length (pc_ID c)) \<le> maxAdminFilterBytes" "pc_SecondaryID c = []" "0 \<le> pc_Version c"
  shows "list_pages (fetch db) out \<lparr> pq_Limit = MaxAdminPageLimit, pq_Cursor = c \<rparr> = Some (Inr (out @ after db c))"
  using assms(2-4)
proof (induction "length (after db c)" arbitrary: c out rule: less_induct)
  case less
  note page = fetch_page [OF assms(1), of "\<lparr> pq_Limit = MaxAdminPageLimit, pq_Cursor = c \<rparr>"]
  show ?case
  proof (cases "length (after db c) \<le> 200")
    case True
    then show ?thesis using page less.prems by (subst list_pages.simps) (simp add: Let_def)
  next
    case False
    define r where "r = after db c ! 199"
    have "r \<in> set (after db c)" using False by (simp add: r_def)
    then have "cursor_key (key r)" using cursor [OF assms(1), of r] by (auto simp: after_def)
    then have k: "int (length (pc_ID (cursor_of r))) \<le> maxAdminFilterBytes" "pc_SecondaryID (cursor_of r) = []" "0 \<le> pc_Version (cursor_of r)"
      by (simp_all add: cursor_key_def cursor_of_def zero_cursor_def)
    have rest: "after db (cursor_of r) = drop 200 (after db c)" using after_next [OF assms(1), of 200 c] False by (simp add: r_def)
    have "list_pages (fetch db) out \<lparr> pq_Limit = MaxAdminPageLimit, pq_Cursor = c \<rparr> =
        list_pages (fetch db) (out @ take 200 (after db c)) \<lparr> pq_Limit = MaxAdminPageLimit, pq_Cursor = cursor_of r \<rparr>"
      using page less.prems False by (subst list_pages.simps) (simp add: Let_def r_def)
    also have "\<dots> = Some (Inr ((out @ take 200 (after db c)) @ after db (cursor_of r)))"
      by (rule less.hyps [OF _ k]) (use False rest in simp)
    finally show ?thesis by (simp add: rest)
  qed
qed

lemma list_pages_all: "good db \<Longrightarrow> list_pages (fetch db) [] first_page = Some (Inr (sort_key key (filter sel (rows db))))"
  using list_pages_from [of db zero_cursor "[]"] by (simp add: first_page_def after_def zero_cursor_def maxAdminFilterBytes_def)

end

section \<open>Well-formed registries\<close>

definition trade_ok :: "RegistryService \<Rightarrow> TradeDefinition \<Rightarrow> bool" where
  "trade_ok service v \<longleftrightarrow> normalizeTrade v = v \<and> validateTrade v = ok \<and> store_validateTrade v \<and> rs_fits_trade service v \<and>
     td_ContentHash v = rs_hash_trade service (v\<lparr>td_ContentHash := []\<rparr>)"

definition worker_ok :: "RegistryService \<Rightarrow> TradeDefinition list \<Rightarrow> WorkerProfile \<Rightarrow> bool" where
  "worker_ok service trades v \<longleftrightarrow> normalizeWorker v = v \<and> validateWorker v = ok \<and> store_validateWorker v \<and> rs_fits_worker service v \<and>
     wp_ContentHash v = rs_hash_worker service (v\<lparr>wp_ContentHash := []\<rparr>) \<and>
     (\<exists>t\<in>set trades. trade_key t = (wp_TradeID v, wp_TradeVersion v) \<and> td_Lifecycle t \<noteq> RegistryDisabled)"

definition adaptation_ok :: "RegistryService \<Rightarrow> string list \<Rightarrow> TradeDefinition list \<Rightarrow> ProjectTradeAdaptation \<Rightarrow> bool" where
  "adaptation_ok service projects trades v \<longleftrightarrow> normalizeAdaptation v = v \<and> validateAdaptation v = ok \<and> store_validateAdaptation v \<and>
     rs_fits_adaptation service v \<and> pa_ContentHash v = rs_hash_adaptation service (v\<lparr>pa_ContentHash := []\<rparr>) \<and> pa_ProjectID v \<in> set projects \<and>
     (\<exists>t\<in>set trades. trade_key t = (pa_TradeID v, pa_TradeVersion v))"

definition rg_wf :: "RegistryService \<Rightarrow> RGDB \<Rightarrow> bool" where
  "rg_wf service db \<longleftrightarrow> keys_distinct trade_key (rg_trades db) \<and> keys_distinct worker_key (rg_workers db) \<and>
     keys_distinct adaptation_key (rg_adaptations db) \<and> (\<forall>v\<in>set (rg_trades db). trade_ok service v) \<and>
     (\<forall>v\<in>set (rg_workers db). worker_ok service (rg_trades db) v) \<and>
     (\<forall>v\<in>set (rg_adaptations db). adaptation_ok service (rg_projects db) (rg_trades db) v)"

definition same_rows :: "RGDB \<Rightarrow> RGDB \<Rightarrow> bool" where
  "same_rows db db' \<longleftrightarrow> rg_projects db' = rg_projects db \<and> rg_trades db' = rg_trades db \<and> rg_workers db' = rg_workers db \<and>
     rg_adaptations db' = rg_adaptations db"

lemma rg_wf_same: "same_rows db db' \<Longrightarrow> rg_wf service db' = rg_wf service db"
  by (simp add: same_rows_def rg_wf_def)

lemma insert_version_Inr:
  "insert_version key hash fits rows row = Inr (rows', present) \<Longrightarrow>
   rows' = rows \<and> present \<or> rows' = rows @ [row] \<and> \<not> present \<and> fits \<and> \<not> row_exists key (key row) rows"
  by (auto simp: insert_version_def row_exists_iff split: option.splits if_splits)

lemma registry_audit_rows: "registry_audit service db actor action kind i version p d = Inr db' \<Longrightarrow> same_rows db db'"
  by (auto simp: registry_audit_def RecordRegistryAudit_def same_rows_def split: if_splits)

lemma save_and_audit_rows:
  "save_and_audit service db actor kind i version p d written = (db', r) \<Longrightarrow>
   same_rows (case written of Inl _ \<Rightarrow> db | Inr (db1, _) \<Rightarrow> db1) db'"
  by (auto simp: save_and_audit_def Let_def same_rows_def split: sum.splits if_splits dest!: registry_audit_rows)

text \<open>Each save adds at most one row, well formed and with a new key, and leaves the other tables.\<close>

lemma sort_again [simp]: "sort (sort xs) = sort xs"
  by (simp add: sort_key_id_if_sorted)

lemma definition_normalize_again:
  "normalizeTrade (normalizeTrade t) = normalizeTrade t" "normalizeWorker (normalizeWorker w) = normalizeWorker w"
  "normalizeAdaptation (normalizeAdaptation a) = normalizeAdaptation a"
  by (simp_all add: normalizeTrade_def normalizeWorker_def normalizeAdaptation_def)

lemma stamp_simps [simp]:
  "normalizeTrade (t\<lparr>td_CreatedAt := x\<rparr>) = (normalizeTrade t)\<lparr>td_CreatedAt := x\<rparr>" "validateTrade (t\<lparr>td_CreatedAt := x\<rparr>) = validateTrade t"
  "normalizeTrade (t\<lparr>td_ContentHash := h\<rparr>) = (normalizeTrade t)\<lparr>td_ContentHash := h\<rparr>" "validateTrade (t\<lparr>td_ContentHash := h\<rparr>) = validateTrade t"
  "normalizeWorker (w\<lparr>wp_CreatedAt := x\<rparr>) = (normalizeWorker w)\<lparr>wp_CreatedAt := x\<rparr>" "validateWorker (w\<lparr>wp_CreatedAt := x\<rparr>) = validateWorker w"
  "normalizeWorker (w\<lparr>wp_ContentHash := h\<rparr>) = (normalizeWorker w)\<lparr>wp_ContentHash := h\<rparr>" "validateWorker (w\<lparr>wp_ContentHash := h\<rparr>) = validateWorker w"
  "normalizeAdaptation (a\<lparr>pa_CreatedAt := x\<rparr>) = (normalizeAdaptation a)\<lparr>pa_CreatedAt := x\<rparr>" "validateAdaptation (a\<lparr>pa_CreatedAt := x\<rparr>) = validateAdaptation a"
  "normalizeAdaptation (a\<lparr>pa_ContentHash := h\<rparr>) = (normalizeAdaptation a)\<lparr>pa_ContentHash := h\<rparr>" "validateAdaptation (a\<lparr>pa_ContentHash := h\<rparr>) = validateAdaptation a"
  by (simp_all add: normalizeTrade_def validateTrade_def normalizeWorker_def validateWorker_def normalizeAdaptation_def validateAdaptation_def)

lemma written_wf:
  assumes "save_and_audit service db actor kind i version p d written = (db', r)" "rg_wf service db"
    "\<And>db1 present. written = Inr (db1, present) \<Longrightarrow> rg_wf service db1"
  shows "rg_wf service db'"
  using save_and_audit_rows [OF assms(1)] rg_wf_same assms(2,3) by (cases written) auto

lemma SaveTrade_wf:
  assumes "SaveTrade service db actor value = (db', r)" "rg_wf service db"
  shows "rg_wf service db'"
proof -
  define v where "v = (let v = normalizeTrade value; v = (if td_CreatedAt v = 0 then v\<lparr>td_CreatedAt := rs_now service\<rparr> else v) in
    v\<lparr>td_ContentHash := rs_hash_trade service (v\<lparr>td_ContentHash := []\<rparr>)\<rparr>)"
  consider "db' = db"
    | "validateTrade (normalizeTrade value) = ok"
      "save_and_audit service db actor ''trade'' (td_TradeID v) (td_Version v) [] (td_ContentHash v)
        (SaveTradeDefinition (rs_fits_trade service) db v) = (db', r)"
    using assms(1) unfolding SaveTrade_def v_def Let_def by (auto split: if_splits sum.splits)
  then show ?thesis
  proof cases
    case 2
    have norm: "normalizeTrade v = v" "validateTrade v = ok" "td_ContentHash v = rs_hash_trade service (v\<lparr>td_ContentHash := []\<rparr>)"
      using 2(1) by (simp_all add: v_def Let_def definition_normalize_again)
    show ?thesis
    proof (rule written_wf [OF 2(2) assms(2)])
      fix db1 present
      assume "SaveTradeDefinition (rs_fits_trade service) db v = Inr (db1, present)"
      then obtain rows where ins: "insert_version trade_key td_ContentHash (rs_fits_trade service v) (rg_trades db) v = Inr (rows, present)"
        "db1 = db\<lparr>rg_trades := rows\<rparr>" "store_validateTrade v"
        by (auto simp: SaveTradeDefinition_def rbind_eq_Inr split: if_splits)
      from insert_version_Inr [OF ins(1)] show "rg_wf service db1"
        using assms(2) norm ins(3) keys_distinct_snoc [of trade_key "rg_trades db" v]
        by (auto simp: ins(2) rg_wf_def trade_ok_def worker_ok_def adaptation_ok_def)
    qed
  qed (use assms(2) in simp)
qed

lemma GetTrade_Inr: "GetTradeDefinition db i version = Inr t \<Longrightarrow> t \<in> set (rg_trades db) \<and> trade_key t = (i, version)"
  by (auto simp: GetTradeDefinition_def split: if_splits option.splits dest: row_lookup_SomeD)

lemma SaveWorker_wf:
  assumes "SaveWorker service db actor value = (db', r)" "rg_wf service db"
  shows "rg_wf service db'"
proof -
  define v where "v = (let v = normalizeWorker value; v = (if wp_CreatedAt v = 0 then v\<lparr>wp_CreatedAt := rs_now service\<rparr> else v) in
    v\<lparr>wp_ContentHash := rs_hash_worker service (v\<lparr>wp_ContentHash := []\<rparr>)\<rparr>)"
  have ref: "wp_TradeID v = wp_TradeID (normalizeWorker value)" "wp_TradeVersion v = wp_TradeVersion (normalizeWorker value)"
    by (simp_all add: v_def Let_def)
  consider "db' = db"
    | t where "GetTradeDefinition db (wp_TradeID v) (wp_TradeVersion v) = Inr t" "td_Lifecycle t \<noteq> RegistryDisabled"
      "validateWorker (normalizeWorker value) = ok"
      "save_and_audit service db actor ''worker'' (wp_WorkerID v) (wp_Version v) [] (wp_ContentHash v)
        (SaveWorkerProfile (rs_fits_worker service) db v) = (db', r)"
    using assms(1) unfolding SaveWorker_def ref unfolding v_def Let_def by (auto split: if_splits sum.splits)
  then show ?thesis
  proof cases
    case (2 t)
    have norm: "normalizeWorker v = v" "validateWorker v = ok" "wp_ContentHash v = rs_hash_worker service (v\<lparr>wp_ContentHash := []\<rparr>)"
      using 2(3) by (simp_all add: v_def Let_def definition_normalize_again)
    note trade = GetTrade_Inr [OF 2(1)] 2(2)
    show ?thesis
    proof (rule written_wf [OF 2(4) assms(2)])
      fix db1 present
      assume "SaveWorkerProfile (rs_fits_worker service) db v = Inr (db1, present)"
      then obtain rows where ins: "insert_version worker_key wp_ContentHash (rs_fits_worker service v) (rg_workers db) v = Inr (rows, present)"
        "db1 = db\<lparr>rg_workers := rows\<rparr>" "store_validateWorker v"
        by (auto simp: SaveWorkerProfile_def rbind_eq_Inr split: if_splits)
      from insert_version_Inr [OF ins(1)] show "rg_wf service db1"
        using assms(2) norm ins(3) trade keys_distinct_snoc [of worker_key "rg_workers db" v]
        by (auto simp: ins(2) rg_wf_def worker_ok_def)
    qed
  qed (use assms(2) in simp)
qed

lemma SaveProjectAdaptation_wf:
  assumes "SaveProjectAdaptation service db actor project value = (db', r)" "rg_wf service db"
  shows "rg_wf service db'"
proof -
  define v where "v = (let v = normalizeAdaptation value; v = (if pa_CreatedAt v = 0 then v\<lparr>pa_CreatedAt := rs_now service\<rparr> else v) in
    v\<lparr>pa_ContentHash := rs_hash_adaptation service (v\<lparr>pa_ContentHash := []\<rparr>)\<rparr>)"
  have ref: "pa_TradeID v = pa_TradeID (normalizeAdaptation value)" "pa_TradeVersion v = pa_TradeVersion (normalizeAdaptation value)"
    "pa_ProjectID v = pa_ProjectID value"
    by (simp_all add: v_def Let_def normalizeAdaptation_def)
  consider "db' = db"
    | t where "GetTradeDefinition db (pa_TradeID v) (pa_TradeVersion v) = Inr t" "pa_ProjectID v \<in> set (rg_projects db)"
      "validateAdaptation (normalizeAdaptation value) = ok"
      "save_and_audit service db actor ''project_trade_adaptation'' (pa_AdaptationID v) (pa_Version v) (pa_ProjectID v) (pa_ContentHash v)
        (SaveProjectTradeAdaptation (rs_fits_adaptation service) db v) = (db', r)"
    using assms(1) unfolding SaveProjectAdaptation_def ref(1,2) unfolding ref(3) unfolding v_def Let_def
    by (auto simp: normalizeAdaptation_def split: if_splits sum.splits)
  then show ?thesis
  proof cases
    case (2 t)
    have norm: "normalizeAdaptation v = v" "validateAdaptation v = ok" "pa_ContentHash v = rs_hash_adaptation service (v\<lparr>pa_ContentHash := []\<rparr>)"
      using 2(3) by (simp_all add: v_def Let_def definition_normalize_again)
    note trade = GetTrade_Inr [OF 2(1)] 2(2)
    show ?thesis
    proof (rule written_wf [OF 2(4) assms(2)])
      fix db1 present
      assume "SaveProjectTradeAdaptation (rs_fits_adaptation service) db v = Inr (db1, present)"
      then obtain rows where ins: "insert_version adaptation_key pa_ContentHash (rs_fits_adaptation service v) (rg_adaptations db) v = Inr (rows, present)"
        "db1 = db\<lparr>rg_adaptations := rows\<rparr>" "store_validateAdaptation v"
        by (auto simp: SaveProjectTradeAdaptation_def rbind_eq_Inr split: if_splits)
      from insert_version_Inr [OF ins(1)] show "rg_wf service db1"
        using assms(2) norm ins(3) trade keys_distinct_snoc [of adaptation_key "rg_adaptations db" v]
        by (auto simp: ins(2) rg_wf_def adaptation_ok_def)
    qed
  qed (use assms(2) in simp)
qed

lemma save_each_wf:
  "save_each save db vs = (db', r) \<Longrightarrow> rg_wf service db \<Longrightarrow> (\<And>db v db' r. save db v = (db', r) \<Longrightarrow> rg_wf service db \<Longrightarrow> rg_wf service db') \<Longrightarrow>
   rg_wf service db'"
  by (induction save db vs rule: save_each.induct) (auto split: prod.splits sum.splits)

lemma Import_wf:
  assumes "Import service db actor project bundle = (db', r)" "rg_wf service db"
  shows "rg_wf service db'"
proof -
  have trades: "save_each (\<lambda>db. SaveTrade service db actor) db1 vs = (db2, r2) \<Longrightarrow> rg_wf service db1 \<Longrightarrow> rg_wf service db2" for db1 vs db2 r2
    by (erule save_each_wf) (assumption, rule SaveTrade_wf)
  have workers: "save_each (\<lambda>db. SaveWorker service db actor) db1 vs = (db2, r2) \<Longrightarrow> rg_wf service db1 \<Longrightarrow> rg_wf service db2" for db1 vs db2 r2
    by (erule save_each_wf) (assumption, rule SaveWorker_wf)
  have adaptations: "save_each (\<lambda>db. SaveProjectAdaptation service db actor project) db1 vs = (db2, r2) \<Longrightarrow> rg_wf service db1 \<Longrightarrow> rg_wf service db2"
    for db1 vs db2 r2 by (erule save_each_wf) (assumption, rule SaveProjectAdaptation_wf)
  show ?thesis
    using assms unfolding Import_def by (auto split: if_splits prod.splits sum.splits dest!: trades workers adaptations)
qed

text \<open>The calls of the service, at any time; the hashes and limits stay the same.\<close>

inductive registry_step :: "RegistryService \<Rightarrow> RGDB \<Rightarrow> RGDB \<Rightarrow> bool" for service where
  step_trade: "SaveTrade (service\<lparr>rs_now := t\<rparr>) db actor v = (db', r) \<Longrightarrow> registry_step service db db'"
| step_worker: "SaveWorker (service\<lparr>rs_now := t\<rparr>) db actor v = (db', r) \<Longrightarrow> registry_step service db db'"
| step_adaptation: "SaveProjectAdaptation (service\<lparr>rs_now := t\<rparr>) db actor project v = (db', r) \<Longrightarrow> registry_step service db db'"
| step_import: "Import (service\<lparr>rs_now := t\<rparr>) db actor project bundle = (db', r) \<Longrightarrow> registry_step service db db'"

definition empty_registry :: "string list \<Rightarrow> RGDB" where
  "empty_registry projects = \<lparr> rg_projects = projects, rg_trades = [], rg_workers = [], rg_adaptations = [], rg_audit = [] \<rparr>"

lemma rg_wf_now [simp]: "rg_wf (service\<lparr>rs_now := t\<rparr>) db = rg_wf service db"
  by (simp add: rg_wf_def trade_ok_def worker_ok_def adaptation_ok_def)

lemma registry_run_wf:
  assumes "(registry_step service)\<^sup>*\<^sup>* (empty_registry projects) db"
  shows "rg_wf service db"
  using assms
proof induction
  case base
  then show ?case by (simp add: empty_registry_def rg_wf_def keys_distinct_def)
next
  case (step db1 db2)
  from step(2) show ?case
  proof cases
    case (step_trade t actor v r)
    then show ?thesis using SaveTrade_wf [OF step_trade] step(3) by simp
  next
    case (step_worker t actor v r)
    then show ?thesis using SaveWorker_wf [OF step_worker] step(3) by simp
  next
    case (step_adaptation t actor project v r)
    then show ?thesis using SaveProjectAdaptation_wf [OF step_adaptation] step(3) by simp
  next
    case (step_import t actor project b r)
    then show ?thesis using Import_wf [OF step_import] step(3) by simp
  qed
qed

section \<open>The listings\<close>

definition keys_ok :: "RGDB \<Rightarrow> bool" where
  "keys_ok db \<longleftrightarrow> keys_distinct trade_key (rg_trades db) \<and> keys_distinct worker_key (rg_workers db) \<and>
     keys_distinct adaptation_key (rg_adaptations db) \<and> (\<forall>v\<in>set (rg_trades db). cursor_key (trade_key v)) \<and>
     (\<forall>v\<in>set (rg_workers db). cursor_key (worker_key v)) \<and> (\<forall>v\<in>set (rg_adaptations db). cursor_key (pa_AdaptationID v, pa_Version v))"

lemma validID_cursor: "validID i \<Longrightarrow> 1 \<le> version \<Longrightarrow> cursor_key (i, version)"
  by (auto simp: validID_def cursor_key_def maxAdminFilterBytes_def split: list.splits)

lemma rg_wf_keys:
  assumes "rg_wf service db"
  shows "keys_ok db"
proof -
  have "cursor_key (trade_key v)" if "v \<in> set (rg_trades db)" for v
    using assms that validID_cursor
    by (auto simp: rg_wf_def trade_ok_def validateTrade_def registry_namespaced_def trade_key_def if_Inl_eq_Inr)
  moreover have "cursor_key (worker_key v)" if "v \<in> set (rg_workers db)" for v
    using assms that validID_cursor
    by (auto simp: rg_wf_def worker_ok_def validateWorker_def registry_namespaced_def worker_key_def if_Inl_eq_Inr)
  moreover have "cursor_key (pa_AdaptationID v, pa_Version v)" if "v \<in> set (rg_adaptations db)" for v
    using assms that validID_cursor
    by (auto simp: rg_wf_def adaptation_ok_def validateAdaptation_def registry_namespaced_def if_Inl_eq_Inr)
  ultimately show ?thesis using assms by (simp add: keys_ok_def rg_wf_def)
qed

interpretation trades: version_listing keys_ok "\<lambda>db. ListTradeDefinitions db [] (RegistryLifecycleOther [])" rg_trades trade_key "\<lambda>_. True"
  by unfold_locales (auto simp: ListTradeDefinitions_def ValidateAdminFilter_def maxAdminFilterBytes_def keys_ok_def)

interpretation workers: version_listing keys_ok "\<lambda>db. ListWorkerProfiles db [] [] (RegistryLifecycleOther [])" rg_workers worker_key "\<lambda>_. True"
  by unfold_locales (auto simp: ListWorkerProfiles_def ValidateAdminFilter_def maxAdminFilterBytes_def keys_ok_def)

interpretation adaptations: version_listing "\<lambda>db. keys_ok db \<and> validID p" "\<lambda>db. ListProjectTradeAdaptations db p []" rg_adaptations
  "\<lambda>v. (pa_AdaptationID v, pa_Version v)" "\<lambda>v. pa_ProjectID v = p" for p
proof
  fix db request page
  assume "keys_ok db \<and> validID p" "NormalizePageRequest request = Inr page"
  then show "ListProjectTradeAdaptations db p [] request =
      Inr (version_page (\<lambda>v. (pa_AdaptationID v, pa_Version v)) (\<lambda>v. pa_ProjectID v = p) (rg_adaptations db) page)"
    by (auto simp: ListProjectTradeAdaptations_def ValidateAdminFilter_def maxAdminFilterBytes_def validID_def split: list.splits)
next
  fix db r
  assume "keys_ok db \<and> validID p" "r \<in> set (rg_adaptations db)"
  then show "cursor_key (pa_AdaptationID r, pa_Version r)" by (simp add: keys_ok_def)
next
  fix db
  assume "keys_ok db \<and> validID p"
  then have "keys_distinct adaptation_key (filter (\<lambda>v. pa_ProjectID v = p) (rg_adaptations db))"
    by (simp add: keys_ok_def keys_distinct_def distinct_map_filter)
  then show "keys_distinct (\<lambda>v. (pa_AdaptationID v, pa_Version v)) (filter (\<lambda>v. pa_ProjectID v = p) (rg_adaptations db))"
    by (auto simp: keys_distinct_def distinct_map inj_on_def adaptation_key_def)
qed

text \<open>What an export should hold.\<close>

definition bundle_of :: "RGDB \<Rightarrow> string \<Rightarrow> Bundle" where
  "bundle_of db p = \<lparr> bu_Schema = bundleSchema, bu_Trades = sort_key trade_key (rg_trades db), bu_Workers = sort_key worker_key (rg_workers db),
     bu_Adaptations = (if p = [] then [] else
       sort_key (\<lambda>v. (pa_AdaptationID v, pa_Version v)) (filter (\<lambda>v. pa_ProjectID v = p) (rg_adaptations db))) \<rparr>"

lemma Export_all:
  assumes "keys_ok db" "p = [] \<or> p \<in> set (rg_projects db) \<and> validID p"
  shows "Export db p = Some (Inr (bundle_of db p))"
  using assms trades.list_pages_all workers.list_pages_all adaptations.list_pages_all [of db p]
  by (auto simp: Export_def listAllTrades_def listAllWorkers_def listAllAdaptations_def bundle_of_def)

section \<open>Importing an export\<close>

definition audit_id :: "RegistryService \<Rightarrow> string \<Rightarrow> string \<Rightarrow> int \<Rightarrow> string \<Rightarrow> string \<Rightarrow> string" where
  "audit_id service kind i version p digest =
     ''registry-audit:'' @ take 32 (rs_hash_strings service [''create'', kind, i, rs_int_text service version, p, digest])"

definition audit_event :: "RegistryService \<Rightarrow> string \<Rightarrow> string \<Rightarrow> string \<Rightarrow> int \<Rightarrow> string \<Rightarrow> string \<Rightarrow> RegistryAuditEvent" where
  "audit_event service actor kind i version p digest =
     \<lparr> ra_AuditID = audit_id service kind i version p digest, ra_Action = ''create'', ra_SubjectKind = kind, ra_SubjectID = i,
       ra_SubjectVer = version, ra_ProjectID = p, ra_ActorID = actor, ra_ContentHash = digest, ra_OccurredAt = rs_now service \<rparr>"

definition trade_event :: "RegistryService \<Rightarrow> string \<Rightarrow> TradeDefinition \<Rightarrow> RegistryAuditEvent" where
  "trade_event service actor v = audit_event service actor ''trade'' (td_TradeID v) (td_Version v) [] (td_ContentHash v)"

definition worker_event :: "RegistryService \<Rightarrow> string \<Rightarrow> WorkerProfile \<Rightarrow> RegistryAuditEvent" where
  "worker_event service actor v = audit_event service actor ''worker'' (wp_WorkerID v) (wp_Version v) [] (wp_ContentHash v)"

definition adaptation_event :: "RegistryService \<Rightarrow> string \<Rightarrow> ProjectTradeAdaptation \<Rightarrow> RegistryAuditEvent" where
  "adaptation_event service actor v =
     audit_event service actor ''project_trade_adaptation'' (pa_AdaptationID v) (pa_Version v) (pa_ProjectID v) (pa_ContentHash v)"

text \<open>A clock that is set, a valid actor, and a hash that gives 64 hexadecimal digits.\<close>

definition auditable :: "RegistryService \<Rightarrow> string \<Rightarrow> bool" where
  "auditable service actor \<longleftrightarrow> validID actor \<and> rs_now service \<noteq> 0 \<and> (\<forall>xs. validHash (rs_hash_strings service xs))"

lemma audit_id_valid:
  assumes "validHash (rs_hash_strings service [''create'', kind, i, rs_int_text service version, p, digest])"
  shows "validateRegistryKey (audit_id service kind i version p digest) 1"
proof -
  define h where "h = rs_hash_strings service [''create'', kind, i, rs_int_text service version, p, digest]"
  have h: "length h = 64" "\<forall>c\<in>set h. c \<in> set ''0123456789abcdef''" using assms by (auto simp: validHash_def list_all_iff h_def)
  have "h \<noteq> []" using h(1) by auto
  then have last: "last (audit_id service kind i version p digest) = h ! 31"
    using h(1) by (simp add: audit_id_def h_def [symmetric] last_conv_nth)
  have "h ! 31 \<in> set ''0123456789abcdef''" by (rule bspec [OF h(2)], rule nth_mem) (simp add: h(1))
  then have "graphic (h ! 31)" by (auto simp: graphic_def)
  then have "TrimSpace (audit_id service kind i version p digest) = audit_id service kind i version p digest"
    by (intro TrimSpace_graphic) (simp_all add: last, simp_all add: audit_id_def graphic_def)
  then show ?thesis using h(1)
    by (simp add: validateRegistryKey_def ValidateProjectProjectionID_def Let_def) (simp add: audit_id_def h_def [symmetric])
qed

lemma registry_audit_fresh:
  assumes "auditable service actor" "validateRegistryKey i version" "validHash digest" "kind \<noteq> []"
    "audit_id service kind i version p digest \<notin> ra_AuditID ` set (rg_audit db)"
  shows "registry_audit service db actor ''create'' kind i version p digest =
    Inr (db\<lparr>rg_audit := rg_audit db @ [audit_event service actor kind i version p digest]\<rparr>)"
proof -
  have "actor \<noteq> []" using assms(1) by (auto simp: auditable_def validID_def)
  then have "validateAudit (audit_event service actor kind i version p digest)"
    using assms(1-4) audit_id_valid [of service kind i version p digest] by (simp add: validateAudit_def audit_event_def auditable_def)
  then show ?thesis
    using assms(5) by (simp add: registry_audit_def RecordRegistryAudit_def audit_event_def audit_id_def row_exists_mem)
qed

lemma insert_version_fresh:
  "fits \<Longrightarrow> key row \<notin> key ` set rows \<Longrightarrow> insert_version key hash fits rows row = Inr (rows @ [row], False)"
  using row_exists_mem [of key "key row" rows] by (auto simp: insert_version_def row_exists_iff)

lemma SaveTrade_fresh:
  assumes "auditable service actor" "trade_ok service v" "trade_key v \<notin> trade_key ` set (rg_trades db)"
    "ra_AuditID (trade_event service actor v) \<notin> ra_AuditID ` set (rg_audit db)"
  shows "\<exists>ref. SaveTrade service db actor v =
    (db\<lparr>rg_trades := rg_trades db @ [v], rg_audit := rg_audit db @ [trade_event service actor v]\<rparr>, Inr ref)"
proof -
  have v: "normalizeTrade v = v" "validateTrade v = ok" "td_CreatedAt v \<noteq> 0" "v\<lparr>td_ContentHash := rs_hash_trade service (v\<lparr>td_ContentHash := []\<rparr>)\<rparr> = v"
    "SaveTradeDefinition (rs_fits_trade service) db v = Inr (db\<lparr>rg_trades := rg_trades db @ [v]\<rparr>, False)"
    "validateRegistryKey (td_TradeID v) (td_Version v)" "validHash (td_ContentHash v)"
    using assms(2,3) by (auto simp: trade_ok_def store_validateTrade_def SaveTradeDefinition_def insert_version_fresh)
  show ?thesis
    using registry_audit_fresh [OF assms(1) v(6,7), of "''trade''" "[]" "db\<lparr>rg_trades := rg_trades db @ [v]\<rparr>"] assms(1,4) v(1-5)
    by (simp add: SaveTrade_def save_and_audit_def Let_def auditable_def trade_event_def audit_event_def)
qed

lemma GetTrade_found:
  assumes "keys_distinct trade_key (rg_trades db)" "t \<in> set (rg_trades db)" "trade_key t = (i, version)" "validateRegistryKey i version"
  shows "GetTradeDefinition db i version = Inr t" "trade_exists db i version"
proof -
  have "row_lookup trade_key (i, version) (rg_trades db) = Some t" using assms(1-3) by (simp add: row_lookup_eq_Some)
  then show "GetTradeDefinition db i version = Inr t" "trade_exists db i version"
    using assms(4) by (simp_all add: GetTradeDefinition_def trade_exists_def row_exists_iff)
qed

lemma SaveWorker_fresh:
  assumes "auditable service actor" "worker_ok service (rg_trades db) v" "keys_distinct trade_key (rg_trades db)"
    "worker_key v \<notin> worker_key ` set (rg_workers db)" "ra_AuditID (worker_event service actor v) \<notin> ra_AuditID ` set (rg_audit db)"
  shows "\<exists>ref. SaveWorker service db actor v =
    (db\<lparr>rg_workers := rg_workers db @ [v], rg_audit := rg_audit db @ [worker_event service actor v]\<rparr>, Inr ref)"
proof -
  obtain t where t: "t \<in> set (rg_trades db)" "trade_key t = (wp_TradeID v, wp_TradeVersion v)" "td_Lifecycle t \<noteq> RegistryDisabled"
    using assms(2) by (auto simp: worker_ok_def)
  have key: "validateRegistryKey (wp_TradeID v) (wp_TradeVersion v)" using assms(2) by (simp add: worker_ok_def store_validateWorker_def)
  note trade = GetTrade_found [OF assms(3) t(1,2) key]
  have v: "normalizeWorker v = v" "validateWorker v = ok" "wp_CreatedAt v \<noteq> 0" "v\<lparr>wp_ContentHash := rs_hash_worker service (v\<lparr>wp_ContentHash := []\<rparr>)\<rparr> = v"
    "SaveWorkerProfile (rs_fits_worker service) db v = Inr (db\<lparr>rg_workers := rg_workers db @ [v]\<rparr>, False)"
    "validateRegistryKey (wp_WorkerID v) (wp_Version v)" "validHash (wp_ContentHash v)"
    using assms(2,4) trade(2) by (auto simp: worker_ok_def store_validateWorker_def SaveWorkerProfile_def insert_version_fresh)
  show ?thesis
    using registry_audit_fresh [OF assms(1) v(6,7), of "''worker''" "[]" "db\<lparr>rg_workers := rg_workers db @ [v]\<rparr>"] assms(1,5) v(1-5) trade(1) t(3)
    by (simp add: SaveWorker_def save_and_audit_def Let_def auditable_def worker_event_def audit_event_def)
qed

lemma SaveProjectAdaptation_fresh:
  assumes "auditable service actor" "adaptation_ok service (rg_projects db) (rg_trades db) v" "keys_distinct trade_key (rg_trades db)"
    "adaptation_key v \<notin> adaptation_key ` set (rg_adaptations db)" "ra_AuditID (adaptation_event service actor v) \<notin> ra_AuditID ` set (rg_audit db)"
  shows "\<exists>ref. SaveProjectAdaptation service db actor (pa_ProjectID v) v =
    (db\<lparr>rg_adaptations := rg_adaptations db @ [v], rg_audit := rg_audit db @ [adaptation_event service actor v]\<rparr>, Inr ref)"
proof -
  obtain t where t: "t \<in> set (rg_trades db)" "trade_key t = (pa_TradeID v, pa_TradeVersion v)"
    using assms(2) by (auto simp: adaptation_ok_def)
  have key: "validateRegistryKey (pa_TradeID v) (pa_TradeVersion v)" using assms(2) by (simp add: adaptation_ok_def store_validateAdaptation_def)
  note trade = GetTrade_found [OF assms(3) t key]
  have v: "normalizeAdaptation v = v" "validateAdaptation v = ok" "pa_CreatedAt v \<noteq> 0"
    "v\<lparr>pa_ContentHash := rs_hash_adaptation service (v\<lparr>pa_ContentHash := []\<rparr>)\<rparr> = v"
    "SaveProjectTradeAdaptation (rs_fits_adaptation service) db v = Inr (db\<lparr>rg_adaptations := rg_adaptations db @ [v]\<rparr>, False)"
    "validateRegistryKey (pa_AdaptationID v) (pa_Version v)" "validHash (pa_ContentHash v)"
    using assms(2,4) trade(2) by (auto simp: adaptation_ok_def store_validateAdaptation_def SaveProjectTradeAdaptation_def insert_version_fresh)
  have "pa_ProjectID v \<noteq> []" "pa_ProjectID v \<in> set (rg_projects db)"
    using assms(2) by (auto simp: adaptation_ok_def validateAdaptation_def validID_def if_Inl_eq_Inr)
  then show ?thesis
    using registry_audit_fresh [OF assms(1) v(6,7), of "''project_trade_adaptation''" "pa_ProjectID v" "db\<lparr>rg_adaptations := rg_adaptations db @ [v]\<rparr>"]
      assms(1,5) v(1-5) trade(1)
    by (simp add: SaveProjectAdaptation_def save_and_audit_def Let_def auditable_def adaptation_event_def audit_event_def)
qed

lemma save_each_run:
  assumes "\<And>pre v post. vs = pre @ v # post \<Longrightarrow> \<exists>ref. save (state pre) v = (state (pre @ [v]), Inr ref)"
  shows "save_each save (state []) vs = (state vs, ok)"
proof -
  have "vs = pre @ post \<Longrightarrow> save_each save (state pre) post = (state vs, ok)" for pre post
  proof (induction post arbitrary: pre)
    case (Cons v post)
    from assms [OF Cons.prems] obtain ref where "save (state pre) v = (state (pre @ [v]), Inr ref)" by blast
    then show ?case using Cons.IH [of "pre @ [v]"] Cons.prems by simp
  qed simp
  then show ?thesis by simp
qed

text \<open>The three loops of an import into an empty registry.\<close>

lemma import_trades:
  assumes "auditable service actor" "\<forall>v\<in>set ts. trade_ok service v" "keys_distinct trade_key ts"
    "distinct (map ra_AuditID (map (trade_event service actor) ts))"
  shows "save_each (\<lambda>db. SaveTrade service db actor) (empty_registry projects) ts =
    ((empty_registry projects)\<lparr>rg_trades := ts, rg_audit := map (trade_event service actor) ts\<rparr>, ok)"
proof -
  define state where "state xs = (empty_registry projects)\<lparr>rg_trades := xs, rg_audit := map (trade_event service actor) xs\<rparr>" for xs
  have "save_each (\<lambda>db. SaveTrade service db actor) (state []) ts = (state ts, ok)"
  proof (rule save_each_run)
    fix pre v post
    assume ts: "ts = pre @ v # post"
    have "\<exists>ref. SaveTrade service (state pre) actor v =
      ((state pre)\<lparr>rg_trades := rg_trades (state pre) @ [v], rg_audit := rg_audit (state pre) @ [trade_event service actor v]\<rparr>, Inr ref)"
      using assms(2-4) by (intro SaveTrade_fresh [OF assms(1)]) (auto simp: ts state_def keys_distinct_def)
    then show "\<exists>ref. SaveTrade service (state pre) actor v = (state (pre @ [v]), Inr ref)" by (simp add: state_def)
  qed
  then show ?thesis by (simp add: state_def empty_registry_def)
qed

lemma import_workers:
  assumes "auditable service actor" "\<forall>v\<in>set ws. worker_ok service (rg_trades db) v" "keys_distinct trade_key (rg_trades db)" "keys_distinct worker_key ws"
    "rg_workers db = []" "distinct (map ra_AuditID (rg_audit db @ map (worker_event service actor) ws))"
  shows "save_each (\<lambda>db. SaveWorker service db actor) db ws =
    (db\<lparr>rg_workers := ws, rg_audit := rg_audit db @ map (worker_event service actor) ws\<rparr>, ok)"
proof -
  define state where "state xs = db\<lparr>rg_workers := xs, rg_audit := rg_audit db @ map (worker_event service actor) xs\<rparr>" for xs
  have "save_each (\<lambda>db. SaveWorker service db actor) (state []) ws = (state ws, ok)"
  proof (rule save_each_run)
    fix pre v post
    assume ws: "ws = pre @ v # post"
    have "\<exists>ref. SaveWorker service (state pre) actor v =
      ((state pre)\<lparr>rg_workers := rg_workers (state pre) @ [v], rg_audit := rg_audit (state pre) @ [worker_event service actor v]\<rparr>, Inr ref)"
      using assms(2-4,6) by (intro SaveWorker_fresh [OF assms(1)]) (auto simp: ws state_def keys_distinct_def)
    then show "\<exists>ref. SaveWorker service (state pre) actor v = (state (pre @ [v]), Inr ref)" by (simp add: state_def)
  qed
  then show ?thesis using assms(5) by (cases db) (simp add: state_def)
qed

lemma import_adaptations:
  assumes "auditable service actor" "\<forall>v\<in>set as. adaptation_ok service (rg_projects db) (rg_trades db) v \<and> pa_ProjectID v = p"
    "keys_distinct trade_key (rg_trades db)" "keys_distinct adaptation_key as"
    "rg_adaptations db = []" "distinct (map ra_AuditID (rg_audit db @ map (adaptation_event service actor) as))"
  shows "save_each (\<lambda>db. SaveProjectAdaptation service db actor p) db as =
    (db\<lparr>rg_adaptations := as, rg_audit := rg_audit db @ map (adaptation_event service actor) as\<rparr>, ok)"
proof -
  define state where "state xs = db\<lparr>rg_adaptations := xs, rg_audit := rg_audit db @ map (adaptation_event service actor) xs\<rparr>" for xs
  have "save_each (\<lambda>db. SaveProjectAdaptation service db actor p) (state []) as = (state as, ok)"
  proof (rule save_each_run)
    fix pre v post
    assume as: "as = pre @ v # post"
    have "\<exists>ref. SaveProjectAdaptation service (state pre) actor (pa_ProjectID v) v =
      ((state pre)\<lparr>rg_adaptations := rg_adaptations (state pre) @ [v], rg_audit := rg_audit (state pre) @ [adaptation_event service actor v]\<rparr>, Inr ref)"
      using assms(2-4,6) by (intro SaveProjectAdaptation_fresh [OF assms(1)]) (auto simp: as state_def keys_distinct_def)
    moreover have "pa_ProjectID v = p" using assms(2) by (simp add: as)
    ultimately show "\<exists>ref. SaveProjectAdaptation service (state pre) actor p v = (state (pre @ [v]), Inr ref)" by (simp add: state_def)
  qed
  then show ?thesis using assms(5) by (cases db) (simp add: state_def)
qed

definition bundle_events :: "RegistryService \<Rightarrow> string \<Rightarrow> Bundle \<Rightarrow> RegistryAuditEvent list" where
  "bundle_events service actor b = map (trade_event service actor) (bu_Trades b) @ map (worker_event service actor) (bu_Workers b) @
     map (adaptation_event service actor) (bu_Adaptations b)"

definition imported :: "RegistryService \<Rightarrow> string \<Rightarrow> string list \<Rightarrow> Bundle \<Rightarrow> RGDB" where
  "imported service actor projects b = \<lparr> rg_projects = projects, rg_trades = bu_Trades b, rg_workers = bu_Workers b,
     rg_adaptations = bu_Adaptations b, rg_audit = bundle_events service actor b \<rparr>"

lemma keys_distinct_sort: "keys_distinct key xs \<Longrightarrow> keys_distinct key (sort_key f xs)"
  by (simp add: keys_distinct_def distinct_map)

lemma worker_ok_set: "set ts = set ts' \<Longrightarrow> worker_ok service ts = worker_ok service ts'"
  by (simp add: worker_ok_def fun_eq_iff)

lemma adaptation_ok_set: "set ts = set ts' \<Longrightarrow> adaptation_ok service ps ts = adaptation_ok service ps ts'"
  by (simp add: adaptation_ok_def fun_eq_iff)

lemma adaptations_sorted:
  assumes "\<forall>v\<in>set xs. pa_ProjectID v = p"
  shows "sort_key adaptation_key (sort_key (\<lambda>v. (pa_AdaptationID v, pa_Version v)) xs) = sort_key (\<lambda>v. (pa_AdaptationID v, pa_Version v)) xs"
proof (rule sort_key_id_if_sorted)
  let ?ys = "sort_key (\<lambda>v. (pa_AdaptationID v, pa_Version v)) xs"
  have "sorted (map (\<lambda>v. (pa_AdaptationID v, pa_Version v)) ?ys)" by simp
  then have "sorted_wrt (\<lambda>v w. (pa_AdaptationID v, pa_Version v) \<le> (pa_AdaptationID w, pa_Version w)) ?ys" unfolding sorted_wrt_map .
  then have "sorted_wrt (\<lambda>v w. adaptation_key v \<le> adaptation_key w) ?ys"
    by (rule sorted_wrt_mono_rel [rotated]) (use assms in \<open>auto simp: adaptation_key_def less_eq_prod_def\<close>)
  then show "sorted (map adaptation_key ?ys)" unfolding sorted_wrt_map .
qed

lemma Import_bundle:
  assumes "rg_wf service db" "auditable service actor" "distinct (map ra_AuditID (bundle_events service actor (bundle_of db p)))"
  shows "Import service (empty_registry (rg_projects db)) actor p (bundle_of db p) = (imported service actor (rg_projects db) (bundle_of db p), ok)"
proof -
  define b where "b = bundle_of db p"
  have sets: "set (bu_Trades b) = set (rg_trades db)" "set (bu_Workers b) = set (rg_workers db)"
    "set (bu_Adaptations b) \<subseteq> {v \<in> set (rg_adaptations db). pa_ProjectID v = p}"
    by (auto simp: b_def bundle_of_def)
  have keys: "keys_distinct trade_key (bu_Trades b)" "keys_distinct worker_key (bu_Workers b)" "keys_distinct adaptation_key (bu_Adaptations b)"
    using assms(1) by (auto simp: b_def bundle_of_def rg_wf_def intro!: keys_distinct_sort) (auto simp: keys_distinct_def distinct_map_filter)
  have sorted: "sort_key trade_key (bu_Trades b) = bu_Trades b" "sort_key worker_key (bu_Workers b) = bu_Workers b"
    "sort_key adaptation_key (bu_Adaptations b) = bu_Adaptations b"
    by (simp_all add: b_def bundle_of_def sort_key_id_if_sorted adaptations_sorted [of _ p])
  have ids: "distinct (map ra_AuditID (bundle_events service actor b))" using assms(3) by (simp add: b_def)
  have ok: "\<forall>v\<in>set (bu_Trades b). trade_ok service v" "\<forall>v\<in>set (bu_Workers b). worker_ok service (bu_Trades b) v"
    "\<forall>v\<in>set (bu_Adaptations b). adaptation_ok service (rg_projects db) (bu_Trades b) v \<and> pa_ProjectID v = p"
    using assms(1) sets worker_ok_set [OF sets(1)] adaptation_ok_set [OF sets(1)] by (auto simp: rg_wf_def)
  have valid: "validID actor" "bu_Schema b = bundleSchema" using assms(2) by (simp_all add: auditable_def b_def bundle_of_def)
  let ?t = "(empty_registry (rg_projects db))\<lparr>rg_trades := bu_Trades b, rg_audit := map (trade_event service actor) (bu_Trades b)\<rparr>"
  let ?w = "(empty_registry (rg_projects db))\<lparr>rg_trades := bu_Trades b, rg_workers := bu_Workers b,
       rg_audit := map (trade_event service actor) (bu_Trades b) @ map (worker_event service actor) (bu_Workers b)\<rparr>"
  have t: "save_each (\<lambda>db. SaveTrade service db actor) (empty_registry (rg_projects db)) (bu_Trades b) = (?t, ok)"
    using ids by (intro import_trades [OF assms(2) ok(1) keys(1)]) (simp add: bundle_events_def)
  have w: "save_each (\<lambda>db. SaveWorker service db actor) ?t (bu_Workers b) = (?w, ok)"
    using import_workers [OF assms(2), of "bu_Workers b" ?t] ids ok(2) keys by (simp add: bundle_events_def empty_registry_def Int_Un_distrib)
  have a: "save_each (\<lambda>db. SaveProjectAdaptation service db actor p) ?w (bu_Adaptations b) = (imported service actor (rg_projects db) b, ok)"
    using import_adaptations [OF assms(2), of "bu_Adaptations b" ?w p] ids ok(3) keys
    by (simp add: bundle_events_def empty_registry_def imported_def Int_Un_distrib Int_Un_distrib2)
  show ?thesis
    unfolding b_def [symmetric] by (simp add: Import_def valid sorted t w a)
qed

lemma bundle_of_imported: "bundle_of (imported service actor projects (bundle_of db p)) p = bundle_of db p"
proof -
  have "filter (\<lambda>v. pa_ProjectID v = p) (bu_Adaptations (bundle_of db p)) = bu_Adaptations (bundle_of db p)"
    by (rule filter_True) (auto simp: bundle_of_def)
  then show ?thesis
    by (cases "p = []") (simp_all add: bundle_of_def [of "imported _ _ _ _"] imported_def, simp_all add: bundle_of_def sort_key_id_if_sorted)
qed

section \<open>Property\<close>


text \<open>A registry with a trade, a worker of the trade and an adaptation for the project A.\<close>

definition example_registry_service :: RegistryService where
  "example_registry_service = (let h = (\<lambda>c. c # replicate 63 CHR ''0'') in
     \<lparr> rs_now = 1, rs_hash_trade = (\<lambda>_. h CHR ''0''), rs_hash_worker = (\<lambda>_. h CHR ''0''), rs_hash_adaptation = (\<lambda>_. h CHR ''0''),
       rs_hash_strings = (\<lambda>xs. h (if ''trade'' \<in> set xs then CHR ''1'' else if ''worker'' \<in> set xs then CHR ''2'' else CHR ''3'')),
       rs_int_text = (\<lambda>_. ''1''), rs_fits_trade = (\<lambda>_. True), rs_fits_worker = (\<lambda>_. True), rs_fits_adaptation = (\<lambda>_. True) \<rparr>)"

definition example_trade :: TradeDefinition where
  "example_trade = \<lparr> td_TradeID = ''trade:A'', td_Version = 1, td_Name = ''A'', td_Lifecycle = RegistryActive, td_CapabilityTags = [''A''],
     td_RequiredCapabilities = [], td_OptionalCapabilities = [], td_Description = [],
     td_Evidence = \<lparr> rev_Source = [], rev_ObservedAt = 1, rev_Score = None, rev_SampleCount = 0, rev_EvidenceNote = [] \<rparr>,
     td_ContentHash = [], td_CreatedAt = 0 \<rparr>"

definition example_worker :: WorkerProfile where
  "example_worker = \<lparr> wp_WorkerID = ''worker:A'', wp_Version = 1, wp_Name = ''A'', wp_Lifecycle = RegistryActive, wp_TradeID = ''trade:A'',
     wp_TradeVersion = 1, wp_InstructionID = ''instruction:A'', wp_InstructionVer = 1, wp_RuntimeID = ''runtime:A'', wp_RuntimeVersion = 1,
     wp_Provider = ''A'', wp_Model = ''A'', wp_ModelVersion = ''A'', wp_ToolPolicyID = ''tool-policy:A'', wp_ToolPolicyVer = 1,
     wp_CapabilityTags = [], wp_Evidence = td_Evidence example_trade, wp_ContentHash = [], wp_CreatedAt = 0 \<rparr>"

definition example_adaptation :: ProjectTradeAdaptation where
  "example_adaptation = \<lparr> pa_ProjectID = ''A'', pa_AdaptationID = ''adaptation:A'', pa_Version = 1, pa_TradeID = ''trade:A'', pa_TradeVersion = 1,
     pa_Lifecycle = RegistryActive, pa_RequiredCapabilities = [], pa_OptionalCapabilities = [], pa_Notes = [], pa_ContentHash = [], pa_CreatedAt = 0 \<rparr>"

definition example_registry1 :: RGDB where
  "example_registry1 = fst (SaveTrade example_registry_service (empty_registry [''A'']) ''A'' example_trade)"

definition example_registry2 :: RGDB where
  "example_registry2 = fst (SaveWorker example_registry_service example_registry1 ''A'' example_worker)"

definition example_registry :: RGDB where
  "example_registry = fst (SaveProjectAdaptation example_registry_service example_registry2 ''A'' ''A'' example_adaptation)"

lemma example_registry_run: "(registry_step example_registry_service)\<^sup>*\<^sup>* (empty_registry [''A'']) example_registry"
proof -
  have now: "example_registry_service\<lparr>rs_now := 1\<rparr> = example_registry_service" by (simp add: example_registry_service_def Let_def)
  have "registry_step example_registry_service (empty_registry [''A'']) example_registry1"
    by (rule step_trade [where t = 1 and actor = "''A''" and v = example_trade and r = "snd (SaveTrade example_registry_service (empty_registry [''A'']) ''A'' example_trade)"])
      (simp add: now example_registry1_def)
  moreover have "registry_step example_registry_service example_registry1 example_registry2"
    by (rule step_worker [where t = 1 and actor = "''A''" and v = example_worker and r = "snd (SaveWorker example_registry_service example_registry1 ''A'' example_worker)"])
      (simp add: now example_registry2_def)
  moreover have "registry_step example_registry_service example_registry2 example_registry"
    by (rule step_adaptation [where t = 1 and actor = "''A''" and project = "''A''" and v = example_adaptation and
          r = "snd (SaveProjectAdaptation example_registry_service example_registry2 ''A'' ''A'' example_adaptation)"])
      (simp add: now example_registry_def)
  ultimately show ?thesis by (meson rtranclp.rtrancl_refl rtranclp.rtrancl_into_rtrancl)
qed


end
