(* ===== verification/Contract_Policy.thy ===== *)
theory Contract_Policy
  imports Task_Graph Tables Paths
begin

text \<open>
  The policy of execution contracts, src/internal/executioncontract/policy.go with the types of
  contract.go: what a contract may do is what was requested, cut down by seven policy layers. The
  hash is an argument; \<open>sort.Slice\<close> is a stable sort, which differs from it only on equal keys.
\<close>

section \<open>Types\<close>

datatype contract_error =
  ErrInvalidContract string | ErrPrivilegeEscalation string | ErrAmendmentConflict | ErrRequiredGates string

type_synonym ExecutionCapability = string

definition CapabilityInspect :: ExecutionCapability where "CapabilityInspect = ''inspect''"
definition CapabilityWrite :: ExecutionCapability where "CapabilityWrite = ''write''"
definition CapabilitySecret :: ExecutionCapability where "CapabilitySecret = ''secret''"
definition CapabilityBranch :: ExecutionCapability where "CapabilityBranch = ''branch''"
definition CapabilityMerge :: ExecutionCapability where "CapabilityMerge = ''merge''"
definition CapabilityDeployment :: ExecutionCapability where "CapabilityDeployment = ''deployment''"
definition CapabilityInfrastructure :: ExecutionCapability where "CapabilityInfrastructure = ''infrastructure''"

lemmas capability_defs = CapabilityInspect_def CapabilityWrite_def CapabilitySecret_def CapabilityBranch_def CapabilityMerge_def
  CapabilityDeployment_def CapabilityInfrastructure_def

definition knownCapability :: "ExecutionCapability \<Rightarrow> bool" where
  "knownCapability value \<longleftrightarrow> value \<in> set [CapabilityInspect, CapabilityWrite, ''shell'', ''test'', ''dependency_install'', ''network'',
     CapabilitySecret, ''database'', CapabilityBranch, CapabilityMerge, CapabilityDeployment, CapabilityInfrastructure]"

definition policyLayerNames :: "string list" where
  "policyLayerNames = [''project'', ''runtime'', ''task'', ''trade'', ''user'', ''work_package'', ''worker'']"

record BudgetLimits =
  bl_MaxTokens :: int
  bl_MaxCostMicros :: int
  bl_MaxWallClockSeconds :: int
  bl_MaxRetries :: int
  bl_MaxToolCalls :: int
  bl_MaxConcurrentWorkers :: int

record PolicyLayer =
  ly_Name :: string
  ly_AllowedCapabilities :: "ExecutionCapability list"
  ly_DeniedCapabilities :: "ExecutionCapability list"
  ly_InspectPaths :: "string list"
  ly_WritePaths :: "string list"
  ly_ForbiddenPaths :: "string list"
  ly_AllowedSecretIDs :: "string list"
  ly_BudgetCeiling :: BudgetLimits

record EffectivePermissions =
  ep_Capabilities :: "ExecutionCapability list"
  ep_InspectPaths :: "string list"
  ep_WritePaths :: "string list"
  ep_Forbidden :: "string list"
  ep_SecretIDs :: "string list"

record GateRequirement =
  gr_GateID :: string
  gr_Version :: int
  gr_Digest :: string
  gr_Rationale :: string

section \<open>Sorted lists\<close>

text \<open>\<open>sort.Search\<close>: the binary search for the first index at which a monotone predicate holds.\<close>

function search_between :: "(nat \<Rightarrow> bool) \<Rightarrow> nat \<Rightarrow> nat \<Rightarrow> nat" where
  "search_between f i j =
     (if i < j then
        let h = (i + j) div 2 in if \<not> f h then search_between f (h + 1) j else search_between f i h
      else i)"
  by pat_completeness auto
termination
  by (relation "measure (\<lambda>(f, i, j). j - i)") (auto simp: Let_def)

declare search_between.simps [simp del]

definition sort_Search :: "nat \<Rightarrow> (nat \<Rightarrow> bool) \<Rightarrow> nat" where
  "sort_Search n f = search_between f 0 n"

definition containsString :: "string list \<Rightarrow> string \<Rightarrow> bool" where
  "containsString values value =
     (let index = sort_Search (length values) (\<lambda>i. value \<le> values ! i) in
      index < length values \<and> values ! index = value)"

definition containsCapability :: "ExecutionCapability list \<Rightarrow> ExecutionCapability \<Rightarrow> bool" where
  "containsCapability values value =
     (let index = sort_Search (length values) (\<lambda>i. value \<le> values ! i) in
      index < length values \<and> values ! index = value)"

definition uniqueAdjacent :: "string list \<Rightarrow> string list" where
  "uniqueAdjacent values = foldl (\<lambda>result value. if result = [] \<or> last result \<noteq> value then result @ [value] else result) [] values"

definition sortedStrings :: "string list \<Rightarrow> string list" where
  "sortedStrings values = uniqueAdjacent (sort values)"

definition sortedCapabilities :: "ExecutionCapability list \<Rightarrow> ExecutionCapability list" where
  "sortedCapabilities values = uniqueAdjacent (sort values)"

section \<open>Sets of paths\<close>

definition TrimSuffix :: "string \<Rightarrow> string \<Rightarrow> string" where
  "TrimSuffix s suf = (if HasSuffix s suf then take (length s - length suf) s else s)"

definition within :: "string \<Rightarrow> string \<Rightarrow> bool" where
  "within path parent = (if parent = ''.'' then True else path = parent \<or> HasPrefix path (TrimSuffix parent ''/'' @ ''/''))"

definition canonicalPaths :: "string list \<Rightarrow> string list" where
  "canonicalPaths values =
     foldl (\<lambda>result value. if list_ex (within value) result then result else result @ [value]) [] (sortedStrings values)"

definition intersect_pair :: "string \<Rightarrow> string \<Rightarrow> string list" where
  "intersect_pair a b = (if within a b then [a] else if within b a then [b] else [])"

definition intersectPaths :: "string list \<Rightarrow> string list \<Rightarrow> string list" where
  "intersectPaths left right =
     (if left = [] \<or> right = [] then []
      else canonicalPaths (concat (map (\<lambda>a. concat (map (intersect_pair a) right)) left)))"

definition removeFullyForbidden :: "string list \<Rightarrow> string list \<Rightarrow> string list" where
  "removeFullyForbidden paths forbidden = canonicalPaths (filter (\<lambda>path. \<not> list_ex (within path) forbidden) paths)"

definition MaxRelativePathBytes :: int where
  "MaxRelativePathBytes = 4096"

text \<open>\<open>project.ValidateProjectRelativePath\<close>.\<close>

definition ValidateProjectRelativePath :: "string \<Rightarrow> bool" where
  "ValidateProjectRelativePath p =
     (if int (length p) > MaxRelativePathBytes then False
      else case NormalizeRelativePath p of Inl _ \<Rightarrow> False | Inr normalized \<Rightarrow> normalized = p)"

section \<open>Layers\<close>

definition normalizePolicyLayer :: "PolicyLayer \<Rightarrow> PolicyLayer" where
  "normalizePolicyLayer layer = layer\<lparr>
     ly_AllowedCapabilities := sortedCapabilities (ly_AllowedCapabilities layer),
     ly_DeniedCapabilities := sortedCapabilities (ly_DeniedCapabilities layer),
     ly_InspectPaths := canonicalPaths (ly_InspectPaths layer),
     ly_WritePaths := canonicalPaths (ly_WritePaths layer),
     ly_ForbiddenPaths := canonicalPaths (ly_ForbiddenPaths layer),
     ly_AllowedSecretIDs := sortedStrings (ly_AllowedSecretIDs layer) \<rparr>"

definition policy_path :: "string \<Rightarrow> bool" where
  "policy_path path \<longleftrightarrow> path = ''.'' \<or> ValidateProjectRelativePath path"

definition validatePolicyLayer :: "PolicyLayer \<Rightarrow> contract_error + unit" where
  "validatePolicyLayer layer =
     (if ly_Name layer = [] then Inl (ErrInvalidContract [])
      else if \<not> list_all knownCapability (ly_AllowedCapabilities layer @ ly_DeniedCapabilities layer)
      then Inl (ErrInvalidContract ''unknown policy capability'')
      else if \<not> list_all (list_all policy_path) [ly_InspectPaths layer, ly_WritePaths layer, ly_ForbiddenPaths layer]
      then Inl (ErrInvalidContract ''policy path'')
      else ok)"

fun check_layers :: "string list \<Rightarrow> PolicyLayer list \<Rightarrow> contract_error + unit" where
  "check_layers (name # names) (layer # layers) =
     (if ly_Name layer \<noteq> name then Inl (ErrInvalidContract (''missing policy layer '' @ name))
      else rbind (validatePolicyLayer layer) (\<lambda>_. check_layers names layers))"
| "check_layers _ _ = ok"

definition validateLayers :: "PolicyLayer list \<Rightarrow> contract_error + unit" where
  "validateLayers layers =
     (if length layers \<noteq> length policyLayerNames then Inl (ErrInvalidContract ''every policy layer is required'')
      else check_layers policyLayerNames layers)"

section \<open>Budgets\<close>

definition maxDurationSeconds :: int where
  "maxDurationSeconds = 9223372036854775807 div 1000000000"

definition validateBudget :: "BudgetLimits \<Rightarrow> contract_error + unit" where
  "validateBudget b =
     (if bl_MaxTokens b < 1 \<or> bl_MaxCostMicros b < 1 \<or> bl_MaxWallClockSeconds b < 1 \<or> bl_MaxWallClockSeconds b > maxDurationSeconds \<or>
         bl_MaxRetries b < 0 \<or> bl_MaxToolCalls b < 1 \<or> bl_MaxConcurrentWorkers b < 1
      then Inl (ErrInvalidContract []) else ok)"

definition cap_budget :: "BudgetLimits \<Rightarrow> BudgetLimits \<Rightarrow> BudgetLimits" where
  "cap_budget result ceiling = \<lparr>
     bl_MaxTokens = min (bl_MaxTokens result) (bl_MaxTokens ceiling),
     bl_MaxCostMicros = min (bl_MaxCostMicros result) (bl_MaxCostMicros ceiling),
     bl_MaxWallClockSeconds = min (bl_MaxWallClockSeconds result) (bl_MaxWallClockSeconds ceiling),
     bl_MaxRetries = min (bl_MaxRetries result) (bl_MaxRetries ceiling),
     bl_MaxToolCalls = min (bl_MaxToolCalls result) (bl_MaxToolCalls ceiling),
     bl_MaxConcurrentWorkers = min (bl_MaxConcurrentWorkers result) (bl_MaxConcurrentWorkers ceiling) \<rparr>"

fun cap_layers :: "BudgetLimits \<Rightarrow> PolicyLayer list \<Rightarrow> contract_error + BudgetLimits" where
  "cap_layers result [] = Inr result"
| "cap_layers result (layer # layers) =
     (case validateBudget (ly_BudgetCeiling layer) of
        Inl _ \<Rightarrow> Inl (ErrInvalidContract (ly_Name layer @ '' budget''))
      | Inr _ \<Rightarrow> cap_layers (cap_budget result (ly_BudgetCeiling layer)) layers)"

definition effectiveBudget :: "BudgetLimits \<Rightarrow> PolicyLayer list \<Rightarrow> contract_error + BudgetLimits" where
  "effectiveBudget requested layers = rbind (validateBudget requested) (\<lambda>_. cap_layers requested layers)"

section \<open>Evaluating the policy\<close>

definition namespaced :: "string \<Rightarrow> string \<Rightarrow> bool" where
  "namespaced value pre \<longleftrightarrow> HasPrefix value pre \<and> length pre < length value \<and> int (length value) \<le> 128"

definition layer_denies :: "ExecutionCapability \<Rightarrow> PolicyLayer \<Rightarrow> bool" where
  "layer_denies capability layer \<longleftrightarrow>
     containsCapability (ly_DeniedCapabilities layer) capability \<or> \<not> containsCapability (ly_AllowedCapabilities layer) capability"

definition check_capability :: "PolicyLayer list \<Rightarrow> ExecutionCapability \<Rightarrow> contract_error + unit" where
  "check_capability layers capability =
     (if \<not> knownCapability capability then Inl (ErrPrivilegeEscalation ''unknown capability'')
      else check_all (\<lambda>layer. if layer_denies capability layer
        then Inl (ErrPrivilegeEscalation (capability @ '' denied by '' @ ly_Name layer)) else ok) layers)"

definition check_secret :: "PolicyLayer list \<Rightarrow> string \<Rightarrow> contract_error + unit" where
  "check_secret layers secretID =
     (if \<not> namespaced secretID ''secret:'' then Inl (ErrPrivilegeEscalation [])
      else check_all (\<lambda>layer. if \<not> containsString (ly_AllowedSecretIDs layer) secretID
        then Inl (ErrPrivilegeEscalation (''secret '' @ secretID @ '' denied by '' @ ly_Name layer)) else ok) layers)"

text \<open>The paths that all the layers leave of the given ones.\<close>

definition granted_paths :: "(PolicyLayer \<Rightarrow> string list) \<Rightarrow> PolicyLayer list \<Rightarrow> string list \<Rightarrow> string list \<Rightarrow> string list" where
  "granted_paths sel layers forbidden paths =
     removeFullyForbidden (foldl (\<lambda>ps layer. intersectPaths ps (sel layer)) paths layers) forbidden"

definition evaluatePolicy ::
  "ExecutionCapability list \<Rightarrow> string list \<Rightarrow> PolicyLayer list \<Rightarrow> BudgetLimits \<Rightarrow> WorkScope \<Rightarrow>
   contract_error + EffectivePermissions \<times> BudgetLimits" where
  "evaluatePolicy capabilities secretIDs layers requestedBudget scope =
     rbind (validateLayers layers) (\<lambda>_.
     rbind (check_all (check_capability layers) capabilities) (\<lambda>_.
     let forbidden = canonicalPaths (ws_Forbidden scope @ concat (map ly_ForbiddenPaths layers));
         inspect = (if containsCapability capabilities CapabilityInspect
           then granted_paths ly_InspectPaths layers forbidden (ws_Allowed scope @ ws_Inspect scope) else []);
         write = (if containsCapability capabilities CapabilityWrite
           then granted_paths ly_WritePaths layers forbidden (ws_Allowed scope) else []) in
     if containsCapability capabilities CapabilityInspect \<and> inspect = [] then Inl (ErrPrivilegeEscalation ''inspect path intersection is empty'')
     else if containsCapability capabilities CapabilityWrite \<and> write = [] then Inl (ErrPrivilegeEscalation ''write path intersection is empty'')
     else
       rbind (if secretIDs = [] then ok
              else if \<not> containsCapability capabilities CapabilitySecret
              then Inl (ErrPrivilegeEscalation ''secret IDs requested without secret capability'')
              else check_all (check_secret layers) secretIDs) (\<lambda>_.
       rbind (effectiveBudget requestedBudget layers) (\<lambda>budget.
       Inr (\<lparr> ep_Capabilities = capabilities, ep_InspectPaths = inspect, ep_WritePaths = write, ep_Forbidden = forbidden,
              ep_SecretIDs = secretIDs \<rparr>, budget)))))"

section \<open>Using the permissions\<close>

definition AuthorizePath :: "EffectivePermissions \<Rightarrow> ExecutionCapability \<Rightarrow> string \<Rightarrow> contract_error + unit" where
  "AuthorizePath permissions capability path =
     (if \<not> containsCapability (ep_Capabilities permissions) capability then Inl (ErrPrivilegeEscalation [])
      else if \<not> ValidateProjectRelativePath path then Inl (ErrPrivilegeEscalation [])
      else if list_ex (within path) (ep_Forbidden permissions) then Inl (ErrPrivilegeEscalation [])
      else if capability \<noteq> CapabilityWrite \<and> capability \<noteq> CapabilityInspect then Inl (ErrPrivilegeEscalation [])
      else if list_ex (within path) (if capability = CapabilityWrite then ep_WritePaths permissions else ep_InspectPaths permissions)
      then ok else Inl (ErrPrivilegeEscalation []))"

section \<open>Gates\<close>

type_synonym gate_map = "(string \<times> GateRequirement) list"

definition addBuiltinGate :: "(string \<Rightarrow> string) \<Rightarrow> string \<Rightarrow> string \<Rightarrow> gate_map \<Rightarrow> contract_error + gate_map" where
  "addBuiltinGate digest gid rationale gates =
     (let builtinDigest = digest (gid @ '':v1'') in
      case map_of gates gid of
        Some existing \<Rightarrow>
          if gr_Version existing \<noteq> 1 \<or> gr_Digest existing \<noteq> builtinDigest
          then Inl (ErrRequiredGates (''gate '' @ gid @ '' does not match the required built-in version''))
          else Inr (if rationale < gr_Rationale existing then go_put gid (existing\<lparr>gr_Rationale := rationale\<rparr>) gates else gates)
      | None \<Rightarrow> Inr (go_put gid \<lparr> gr_GateID = gid, gr_Version = 1, gr_Digest = builtinDigest, gr_Rationale = rationale \<rparr> gates))"

definition add_declared_gate :: "gate_map \<Rightarrow> QualityGateReference \<Rightarrow> contract_error + gate_map" where
  "add_declared_gate gates gate =
     (if \<not> qg_Required gate then Inr gates
      else case map_of gates (qg_GateID gate) of
        Some existing \<Rightarrow>
          if gr_Version existing \<noteq> qg_Version gate \<or> gr_Digest existing \<noteq> qg_Digest gate
          then Inl (ErrRequiredGates (''conflicting work-package gate '' @ qg_GateID gate))
          else Inr (go_put (qg_GateID gate) \<lparr> gr_GateID = qg_GateID gate, gr_Version = qg_Version gate, gr_Digest = qg_Digest gate,
                      gr_Rationale = ''work_package'' \<rparr> gates)
      | None \<Rightarrow> Inr (go_put (qg_GateID gate) \<lparr> gr_GateID = qg_GateID gate, gr_Version = qg_Version gate, gr_Digest = qg_Digest gate,
                      gr_Rationale = ''work_package'' \<rparr> gates))"

definition add_risk_gates :: "(string \<Rightarrow> string) \<Rightarrow> gate_map \<Rightarrow> RiskDimension \<Rightarrow> contract_error + gate_map" where
  "add_risk_gates digest gates risk =
     (if rd_Level risk \<noteq> RiskHigh \<and> rd_Level risk \<noteq> RiskCritical then Inr gates
      else
        rbind (addBuiltinGate digest ''gate:human-review'' ''high_risk'' gates) (\<lambda>gates.
        if rd_Name risk = ''security'' \<or> rd_Name risk = ''secret'' then addBuiltinGate digest ''gate:security-review'' ''security_risk'' gates
        else if rd_Name risk = ''data'' \<or> rd_Name risk = ''database'' then addBuiltinGate digest ''gate:data-review'' ''data_risk'' gates
        else if rd_Name risk = ''deployment'' \<or> rd_Name risk = ''infrastructure''
        then addBuiltinGate digest ''gate:operations-approval'' ''operations_risk'' gates
        else Inr gates))"

definition add_capability_gates :: "(string \<Rightarrow> string) \<Rightarrow> gate_map \<Rightarrow> ExecutionCapability \<Rightarrow> contract_error + gate_map" where
  "add_capability_gates digest gates capability =
     (if capability = CapabilitySecret then addBuiltinGate digest ''gate:security-review'' ''secret_capability'' gates
      else if capability = CapabilityMerge then addBuiltinGate digest ''gate:human-review'' ''merge_capability'' gates
      else if capability = CapabilityDeployment \<or> capability = CapabilityInfrastructure
      then addBuiltinGate digest ''gate:operations-approval'' ''operations_capability'' gates
      else Inr gates)"

definition requiredGates ::
  "(string \<Rightarrow> string) \<Rightarrow> TaskRevision \<Rightarrow> WorkPackageDefinition \<Rightarrow> ExecutionCapability list \<Rightarrow> contract_error + GateRequirement list" where
  "requiredGates digest task work capabilities =
     rbind (fold_result add_declared_gate [] (task_QualityGates task @ wpd_QualityGates work)) (\<lambda>gates.
     rbind (if wpd_ReviewRequired work then addBuiltinGate digest ''gate:human-review'' ''work_package_review'' gates else Inr gates) (\<lambda>gates.
     rbind (fold_result (add_risk_gates digest) gates (task_Risk task @ wpd_Risk work)) (\<lambda>gates.
     rbind (fold_result (add_capability_gates digest) gates capabilities) (\<lambda>gates.
     Inr (sort_key gr_GateID (map snd gates))))))"

record GateEvidence =
  ge_GateID :: string
  ge_Version :: int
  ge_Digest :: string
  ge_Satisfied :: bool

record CompletionDecision =
  cd_Accepted :: bool
  cd_Code :: string
  cd_MissingGates :: "string list"

definition satisfied_map :: "GateEvidence list \<Rightarrow> (string \<times> GateEvidence) list" where
  "satisfied_map evidence = foldl (\<lambda>m item. if ge_Satisfied item then go_put (ge_GateID item) item m else m) [] evidence"

definition gate_missing :: "(string \<times> GateEvidence) list \<Rightarrow> GateRequirement \<Rightarrow> bool" where
  "gate_missing satisfied gate =
     (case map_of satisfied (gr_GateID gate) of
        None \<Rightarrow> True
      | Some item \<Rightarrow> ge_Version item \<noteq> gr_Version gate \<or> ge_Digest item \<noteq> gr_Digest gate)"

definition EvaluateCompletion :: "GateRequirement list \<Rightarrow> GateEvidence list \<Rightarrow> bool \<Rightarrow> CompletionDecision" where
  "EvaluateCompletion required evidence workerClaimedSuccess =
     (let missing = filter (gate_missing (satisfied_map evidence)) required in
      if missing = [] then \<lparr> cd_Accepted = True, cd_Code = ''gates_satisfied'', cd_MissingGates = [] \<rparr>
      else \<lparr> cd_Accepted = False, cd_Code = ''required_gates_missing'', cd_MissingGates = sort (map gr_GateID missing) \<rparr>)"

section \<open>Usage\<close>

record Usage =
  us_Tokens :: int
  us_CostMicros :: int
  us_WallClockSeconds :: int
  us_Retries :: int
  us_ToolCalls :: int
  us_ConcurrentWorkers :: int
  us_Canceled :: bool
  us_Failure :: bool

record RuntimeDecision =
  rt_State :: string
  rt_Code :: string
  rt_Terminal :: bool
  rt_Recoverable :: bool

definition decide :: "string \<Rightarrow> string \<Rightarrow> bool \<Rightarrow> bool \<Rightarrow> RuntimeDecision" where
  "decide state code terminal recoverable = \<lparr> rt_State = state, rt_Code = code, rt_Terminal = terminal, rt_Recoverable = recoverable \<rparr>"

definition EvaluateUsage :: "BudgetLimits \<Rightarrow> Usage \<Rightarrow> RuntimeDecision" where
  "EvaluateUsage b u =
     (if us_Canceled u then decide ''canceled'' ''canceled_by_authority'' True False
      else if us_Tokens u < 0 \<or> us_CostMicros u < 0 \<or> us_WallClockSeconds u < 0 \<or> us_Retries u < 0 \<or> us_ToolCalls u < 0 \<or> us_ConcurrentWorkers u < 0
      then decide ''failed'' ''invalid_usage'' True False
      else if us_Tokens u > bl_MaxTokens b then decide ''budget_exhausted'' ''token_budget_exhausted'' True False
      else if us_CostMicros u > bl_MaxCostMicros b then decide ''budget_exhausted'' ''cost_budget_exhausted'' True False
      else if us_WallClockSeconds u > bl_MaxWallClockSeconds b then decide ''budget_exhausted'' ''wall_clock_budget_exhausted'' True False
      else if us_ToolCalls u > bl_MaxToolCalls b then decide ''budget_exhausted'' ''tool_call_budget_exhausted'' True False
      else if us_ConcurrentWorkers u > bl_MaxConcurrentWorkers b then decide ''budget_exhausted'' ''concurrency_budget_exhausted'' True False
      else if us_Retries u > bl_MaxRetries b then decide ''failed'' ''retry_budget_exhausted'' True False
      else if us_Failure u then decide ''retry_wait'' ''recoverable_failure'' False True
      else decide ''within_budget'' ''within_budget'' False True)"

section \<open>Searching sorted lists\<close>

lemma search_between_correct:
  assumes "\<And>x y. i \<le> x \<Longrightarrow> x \<le> y \<Longrightarrow> y < j \<Longrightarrow> f x \<Longrightarrow> f y" "i \<le> j"
  shows "i \<le> search_between f i j \<and> search_between f i j \<le> j \<and> (\<forall>x. i \<le> x \<and> x < search_between f i j \<longrightarrow> \<not> f x) \<and>
    (search_between f i j < j \<longrightarrow> f (search_between f i j))"
  using assms
proof (induction f i j rule: search_between.induct)
  case (1 f i j)
  show ?case
  proof (cases "i < j")
    case False
    then show ?thesis using 1(4) by (auto simp: search_between.simps)
  next
    case True
    define h where "h = (i + j) div 2"
    have h: "i \<le> h" "h < j" using True by (auto simp: h_def)
    show ?thesis
    proof (cases "f h")
      case f: True
      have step: "search_between f i j = search_between f i h" using True f by (simp add: search_between.simps [of f i j] Let_def h_def)
      have "i \<le> search_between f i h \<and> search_between f i h \<le> h \<and> (\<forall>x. i \<le> x \<and> x < search_between f i h \<longrightarrow> \<not> f x) \<and>
          (search_between f i h < h \<longrightarrow> f (search_between f i h))"
      proof (rule 1(2) [OF True h_def])
        show "f y" if "i \<le> x" "x \<le> y" "y < h" "f x" for x y using 1(3) [OF that(1,2) _ that(4)] that(3) h by simp
      qed (use f h in simp_all)
      then show ?thesis unfolding step using f h by (metis le_neq_implies_less less_imp_le order_trans)
    next
      case nf: False
      have step: "search_between f i j = search_between f (h + 1) j" using True nf by (simp add: search_between.simps [of f i j] Let_def h_def)
      have IH: "h + 1 \<le> search_between f (h + 1) j \<and> search_between f (h + 1) j \<le> j \<and>
          (\<forall>x. h + 1 \<le> x \<and> x < search_between f (h + 1) j \<longrightarrow> \<not> f x) \<and> (search_between f (h + 1) j < j \<longrightarrow> f (search_between f (h + 1) j))"
      proof (rule 1(1) [OF True h_def])
        show "f y" if "h + 1 \<le> x" "x \<le> y" "y < j" "f x" for x y using 1(3) [OF _ that(2-4)] that(1) h by simp
      qed (use nf h in simp_all)
      have low: "\<not> f x" if "i \<le> x" "x \<le> h" for x using 1(3) [OF that h(2)] nf by blast
      have "\<not> f x" if "i \<le> x" "x < search_between f (h + 1) j" for x using IH low [of x] that by (cases "x \<le> h") auto
      then show ?thesis unfolding step using IH h by auto
    qed
  qed
qed

lemma containsString_iff:
  assumes "sorted values"
  shows "containsString values value \<longleftrightarrow> value \<in> set values"
proof -
  let ?f = "\<lambda>i. value \<le> values ! i"
  let ?k = "search_between ?f 0 (length values)"
  have mono: "?f y" if "x \<le> y" "y < length values" "?f x" for x y
    using sorted_nth_mono [OF assms that(1,2)] that(3) by simp
  then have k: "?k \<le> length values" "\<forall>x < ?k. \<not> ?f x" "?k < length values \<longrightarrow> ?f ?k"
    using search_between_correct [of 0 "length values" ?f] by auto
  have "values ! ?k = value" if "i < length values" "values ! i = value" for i
  proof -
    have "?k \<le> i" using k(2) that by (metis not_le order_refl)
    then show ?thesis using sorted_nth_mono [OF assms] that k(3) by (metis antisym le_less_trans)
  qed
  moreover have "?k < length values" if "i < length values" "values ! i = value" for i using k(2) that by (metis leI order_refl le_less_trans)
  ultimately show ?thesis unfolding containsString_def sort_Search_def Let_def in_set_conv_nth by auto
qed

lemma containsCapability_eq: "containsCapability = containsString"
  by (simp add: fun_eq_iff containsCapability_def containsString_def)

lemma uniqueAdjacent_snoc:
  "uniqueAdjacent (xs @ [x]) = (if uniqueAdjacent xs = [] \<or> last (uniqueAdjacent xs) \<noteq> x then uniqueAdjacent xs @ [x] else uniqueAdjacent xs)"
  by (simp add: uniqueAdjacent_def)

lemma set_uniqueAdjacent [simp]: "set (uniqueAdjacent xs) = set xs"
proof (induction xs rule: rev_induct)
  case (snoc x xs)
  have "last (uniqueAdjacent xs) \<in> set xs" if "uniqueAdjacent xs \<noteq> []" using last_in_set [OF that] snoc by simp
  then show ?case using snoc by (auto simp: uniqueAdjacent_snoc)
qed (simp add: uniqueAdjacent_def)

lemma sorted_uniqueAdjacent: "sorted xs \<Longrightarrow> sorted (uniqueAdjacent xs)"
proof (induction xs rule: rev_induct)
  case (snoc x xs)
  then show ?case by (auto simp: uniqueAdjacent_snoc sorted_append)
qed (simp add: uniqueAdjacent_def)

lemma sortedStrings [simp]: "set (sortedStrings xs) = set xs" "sorted (sortedStrings xs)"
  by (simp_all add: sortedStrings_def sorted_uniqueAdjacent)

lemma sortedCapabilities [simp]: "set (sortedCapabilities xs) = set xs" "sorted (sortedCapabilities xs)"
  by (simp_all add: sortedCapabilities_def sorted_uniqueAdjacent)

section \<open>What paths cover\<close>

lemma TrimSuffix_slash: "TrimSuffix p ''/'' = (if p \<noteq> [] \<and> last p = CHR ''/'' then butlast p else p)"
  by (cases p rule: rev_cases) (auto simp: TrimSuffix_def HasSuffix_suffix)

definition dir :: "string \<Rightarrow> string" where
  "dir p = TrimSuffix p ''/'' @ ''/''"

lemma within_iff: "within path parent \<longleftrightarrow> parent = ''.'' \<or> path = parent \<or> prefix (dir parent) path"
  by (simp add: within_def HasPrefix_prefix dir_def)

lemma dir_cases: "dir p = p \<or> dir p = p @ ''/''"
  by (cases p rule: rev_cases) (auto simp: dir_def TrimSuffix_slash)

lemma dir_ends: "\<exists>q. dir p = q @ ''/''"
  by (simp add: dir_def)

text \<open>A directory below another one, its own directory included.\<close>

lemma prefix_dir:
  assumes "prefix (dir b) a"
  shows "prefix (dir b) (dir a)"
  using assms dir_cases [of a] by (auto intro: prefix_order.trans)

lemma dot_not_below: "\<not> prefix (dir b) ''.''"
  using dir_ends [of b] by (auto simp: prefix_def Cons_eq_append_conv)

lemma within_refl [simp]: "within p p"
  by (simp add: within_iff)

lemma within_trans:
  assumes "within p a" "within a b"
  shows "within p b"
proof (cases "b = ''.'' \<or> a = b \<or> p = a")
  case True
  then show ?thesis using assms by (auto simp: within_iff)
next
  case False
  then have below: "prefix (dir b) a" using assms(2) by (auto simp: within_iff)
  then have "a \<noteq> ''.''" using dot_not_below by auto
  then have "prefix (dir a) p" using assms(1) False by (auto simp: within_iff)
  then show ?thesis using prefix_dir [OF below] by (auto simp: within_iff intro: prefix_order.trans)
qed

lemma dir_inj_cases: "dir a = dir b \<Longrightarrow> a = b \<or> prefix (dir b) a \<or> prefix (dir a) b"
  using dir_cases [of a] dir_cases [of b] by auto

lemma prefix_dirs:
  assumes "prefix (dir a) (dir b)"
  shows "dir a = dir b \<or> prefix (dir a) b"
  using assms dir_cases [of b] by (auto simp: prefix_snoc)

lemma within_comparable:
  assumes "within p a" "within p b"
  shows "within a b \<or> within b a"
proof (cases "a = ''.'' \<or> b = ''.'' \<or> p = a \<or> p = b")
  case True
  then show ?thesis using assms by (auto simp: within_iff)
next
  case False
  then have "prefix (dir a) p" "prefix (dir b) p" using assms by (auto simp: within_iff)
  then have "prefix (dir a) (dir b) \<or> prefix (dir b) (dir a)" by (rule prefix_same_cases)
  then show ?thesis
    using prefix_dirs [of a b] prefix_dirs [of b a] dir_inj_cases [of a b] by (auto simp: within_iff)
qed

definition covers :: "string list \<Rightarrow> string \<Rightarrow> bool" where
  "covers paths p \<longleftrightarrow> (\<exists>q\<in>set paths. within p q)"

lemma covers_list_ex: "list_ex (within p) paths = covers paths p"
  by (auto simp: covers_def list_ex_iff)

lemma covers_Nil [simp]: "\<not> covers [] p"
  by (simp add: covers_def)

lemma covers_append [simp]: "covers (xs @ ys) p \<longleftrightarrow> covers xs p \<or> covers ys p"
  by (auto simp: covers_def)

lemma covers_concat: "covers (concat (map f xs)) p \<longleftrightarrow> (\<exists>x\<in>set xs. covers (f x) p)"
  by (auto simp: covers_def)

lemma covers_canonicalPaths [simp]: "covers (canonicalPaths xs) p = covers xs p"
proof -
  have "covers (foldl (\<lambda>result value. if list_ex (within value) result then result else result @ [value]) [] ys) p = covers ys p" for ys
  proof (induction ys rule: rev_induct)
    case (snoc y ys)
    then show ?case using within_trans [of p y] by (auto simp: covers_list_ex covers_def)
  qed (simp add: covers_def)
  then show ?thesis by (simp add: canonicalPaths_def covers_def)
qed

lemma covers_intersectPaths [simp]: "covers (intersectPaths xs ys) p \<longleftrightarrow> covers xs p \<and> covers ys p"
proof -
  have pair: "(\<exists>q\<in>set (intersect_pair a b). within p q) \<longleftrightarrow> within p a \<and> within p b" for a b
    using within_trans [of p a b] within_trans [of p b a] within_comparable [of p a b] by (auto simp: intersect_pair_def)
  have "covers (concat (map (\<lambda>a. concat (map (intersect_pair a) ys)) xs)) p \<longleftrightarrow> (\<exists>a\<in>set xs. \<exists>b\<in>set ys. \<exists>q\<in>set (intersect_pair a b). within p q)"
    by (auto simp: covers_def)
  then have "covers (concat (map (\<lambda>a. concat (map (intersect_pair a) ys)) xs)) p \<longleftrightarrow> covers xs p \<and> covers ys p"
    by (simp only: pair) (auto simp: covers_def)
  then show ?thesis by (cases "xs = [] \<or> ys = []") (auto simp: intersectPaths_def)
qed

lemma covers_removeFullyForbidden:
  "\<not> covers forbidden p \<Longrightarrow> covers (removeFullyForbidden xs forbidden) p = covers xs p"
  using within_trans [of p] by (auto simp: removeFullyForbidden_def covers_list_ex) (auto simp: covers_def)

lemma covers_granted:
  assumes "\<not> covers forbidden p"
  shows "covers (granted_paths sel layers forbidden paths) p \<longleftrightarrow> covers paths p \<and> (\<forall>layer\<in>set layers. covers (sel layer) p)"
proof -
  have "covers (foldl (\<lambda>ps layer. intersectPaths ps (sel layer)) paths layers) p \<longleftrightarrow> covers paths p \<and> (\<forall>layer\<in>set layers. covers (sel layer) p)"
    by (induction layers arbitrary: paths) auto
  then show ?thesis by (simp add: granted_paths_def covers_removeFullyForbidden [OF assms])
qed

end
