(* ===== verification/Execution_Contract.thy ===== *)
theory Execution_Contract
  imports Contract_Policy Registry_Store
begin

text \<open>
  Execution contracts, src/internal/executioncontract/contract.go, and their table,
  src/internal/storage/sqlite/execution\_contract.go. The JSON encoder and decoder and the hash are arguments.
  A time is an instant in UTC, so the check that a time has no zone offset holds of every time.
\<close>

section \<open>Types\<close>

record BindingReference =
  bd_ID :: string
  bd_Version :: int
  bd_Digest :: string

record ContractReference =
  ctr_ContractID :: string
  ctr_Version :: int
  ctr_Digest :: string

record Contract =
  ct_Schema :: string
  ct_ContractID :: string
  ct_Version :: int
  ct_Predecessor :: "ContractReference option"
  ct_ProjectID :: string
  ct_ProjectRevision :: string
  ct_TaskID :: string
  ct_TaskRecordID :: string
  ct_TaskRevision :: int
  ct_TaskDigest :: string
  ct_GraphRecordID :: string
  ct_GraphRevision :: int
  ct_GraphDigest :: string
  ct_WorkPackageID :: string
  ct_WorkPackageRecordID :: string
  ct_WorkPackageDigest :: string
  ct_ExecutionID :: string
  ct_Trade :: RegistryReference
  ct_Worker :: RegistryReference
  ct_Instruction :: BindingReference
  ct_ContextDigest :: string
  ct_Runtime :: BindingReference
  ct_Provider :: BindingReference
  ct_Model :: BindingReference
  ct_Node :: BindingReference
  ct_Permissions :: EffectivePermissions
  ct_Budget :: BudgetLimits
  ct_NotBefore :: time
  ct_Deadline :: time
  ct_Deliverables :: "string list"
  ct_AcceptanceCriteria :: "string list"
  ct_ReviewRequired :: bool
  ct_RequiredGates :: "GateRequirement list"
  ct_CreatedAt :: time
  ct_CreatedBy :: string
  ct_Digest :: string

record BuildRequest =
  bq_ContractID :: string
  bq_Version :: int
  bq_Predecessor :: "ContractReference option"
  bq_Task :: TaskRevision
  bq_TaskDigest :: string
  bq_Graph :: DependencyGraphRevision
  bq_GraphDigest :: string
  bq_WorkPackage :: WorkPackageDefinition
  bq_WorkPackageDigest :: string
  bq_ExecutionID :: string
  bq_ProjectRevision :: string
  bq_Trade :: RegistryReference
  bq_Worker :: RegistryReference
  bq_WorkerProfile :: WorkerProfile
  bq_Instruction :: BindingReference
  bq_ContextDigest :: string
  bq_Runtime :: BindingReference
  bq_Provider :: BindingReference
  bq_Model :: BindingReference
  bq_Node :: BindingReference
  bq_RequestedCapabilities :: "ExecutionCapability list"
  bq_RequestedSecretIDs :: "string list"
  bq_PolicyLayers :: "PolicyLayer list"
  bq_RequestedBudget :: BudgetLimits
  bq_NotBefore :: time
  bq_Deadline :: time
  bq_CreatedAt :: time
  bq_CreatedBy :: string

definition ContractSchema :: string where
  "ContractSchema = ''syncgate.execution-contract.v1''"

definition HashAlgorithmSHA256 :: string where
  "HashAlgorithmSHA256 = ''sha256''"

section \<open>Checks\<close>

text \<open>\<open>strings.Trim\<close> with the hexadecimal digits leaves nothing exactly when all bytes are such digits.\<close>

definition contract_validDigest :: "string \<Rightarrow> bool" where
  "contract_validDigest value \<longleftrightarrow> int (length value) = 64 \<and> list_all (\<lambda>c. c \<in> set ''0123456789abcdef'') value"

definition validateVersion :: "int \<Rightarrow> ContractReference option \<Rightarrow> string \<Rightarrow> contract_error + unit" where
  "validateVersion version predecessor contractID =
     (if version = 1 then (if predecessor \<noteq> None then Inl ErrAmendmentConflict else ok)
      else case predecessor of
        None \<Rightarrow> Inl ErrAmendmentConflict
      | Some p \<Rightarrow>
          if ctr_ContractID p \<noteq> contractID \<or> ctr_Version p \<noteq> version - 1 \<or> \<not> contract_validDigest (ctr_Digest p)
          then Inl ErrAmendmentConflict else ok)"

definition validateBindingReference :: "BindingReference \<Rightarrow> string \<Rightarrow> contract_error + unit" where
  "validateBindingReference value pre =
     (if \<not> namespaced (bd_ID value) pre \<or> bd_Version value < 1 \<or> \<not> contract_validDigest (bd_Digest value)
      then Inl (ErrInvalidContract (''invalid '' @ pre @ '' binding'')) else ok)"

definition validateProjectReference :: "RegistryReference \<Rightarrow> string \<Rightarrow> contract_error + unit" where
  "validateProjectReference value pre =
     validateBindingReference \<lparr> bd_ID = rref_ID value, bd_Version = rref_Version value, bd_Digest = rref_Digest value \<rparr> pre"

definition knownRiskLevel :: "ProjectRiskLevel \<Rightarrow> bool" where
  "knownRiskLevel level \<longleftrightarrow> level = RiskLow \<or> level = RiskMedium \<or> level = RiskHigh \<or> level = RiskCritical"

definition identity_mismatch :: "BuildRequest \<Rightarrow> bool" where
  "identity_mismatch r =
     (let task = bq_Task r; graph = bq_Graph r; work = bq_WorkPackage r; project = hdr_ProjectID (task_Header task) in
      project = [] \<or> project \<noteq> hdr_ProjectID (dgr_Header graph) \<or> project \<noteq> hdr_ProjectID (wpd_Header work) \<or>
      task_TaskID task \<noteq> dgr_TaskID graph \<or> task_Revision task \<noteq> dgr_TaskRevision graph \<or> task_GraphRevision task \<noteq> dgr_Revision graph \<or>
      wpd_TaskID work \<noteq> task_TaskID task \<or> wpd_TaskRevision work \<noteq> task_Revision task \<or> wpd_GraphRevision work \<noteq> dgr_Revision graph)"

definition member_found :: "BuildRequest \<Rightarrow> bool" where
  "member_found r = list_ex (\<lambda>m. dgm_WorkPackageID m = wpd_WorkPackageID (bq_WorkPackage r) \<and>
     dgm_DefinitionRecordID m = hdr_RecordID (wpd_Header (bq_WorkPackage r)) \<and> dgm_DefinitionDigest m = bq_WorkPackageDigest r)
     (dgr_Members (bq_Graph r))"

definition sealed :: "RecordHeader \<Rightarrow> string \<Rightarrow> bool" where
  "sealed header digest \<longleftrightarrow> int_Algorithm (hdr_Integrity header) = HashAlgorithmSHA256 \<and> int_Digest (hdr_Integrity header) = digest"

definition worker_mismatch :: "BuildRequest \<Rightarrow> bool" where
  "worker_mismatch r =
     (let p = bq_WorkerProfile r in
      wp_WorkerID p \<noteq> rref_ID (bq_Worker r) \<or> wp_Version p \<noteq> rref_Version (bq_Worker r) \<or> wp_ContentHash p \<noteq> rref_Digest (bq_Worker r) \<or>
      wp_TradeID p \<noteq> rref_ID (bq_Trade r) \<or> wp_TradeVersion p \<noteq> rref_Version (bq_Trade r) \<or> wp_Lifecycle p \<noteq> RegistryActive)"

definition validateBindings :: "BuildRequest \<Rightarrow> contract_error + unit" where
  "validateBindings r =
     (if \<not> namespaced (bq_ContractID r) ''contract:'' \<or> bq_Version r < 1 \<or> \<not> namespaced (bq_ExecutionID r) ''execution:'' \<or>
         \<not> namespaced (bq_CreatedBy r) ''actor:''
      then Inl (ErrInvalidContract [])
      else
        rbind (validateVersion (bq_Version r) (bq_Predecessor r) (bq_ContractID r)) (\<lambda>_.
        if identity_mismatch r then Inl (ErrInvalidContract ''task graph and work package identity mismatch'')
        else if \<not> member_found r \<or> \<not> list_all contract_validDigest [bq_TaskDigest r, bq_GraphDigest r, bq_WorkPackageDigest r,
               bq_ProjectRevision r, bq_ContextDigest r] \<or> \<not> sealed (task_Header (bq_Task r)) (bq_TaskDigest r) \<or>
             \<not> sealed (dgr_Header (bq_Graph r)) (bq_GraphDigest r) \<or> \<not> sealed (wpd_Header (bq_WorkPackage r)) (bq_WorkPackageDigest r)
        then Inl (ErrInvalidContract ''immutable project binding mismatch'')
        else if wpd_TradeReference (bq_WorkPackage r) \<noteq> Some (bq_Trade r) then Inl (ErrInvalidContract ''work package trade binding mismatch'')
        else
          rbind (validateProjectReference (bq_Trade r) ''trade:'') (\<lambda>_.
          rbind (validateProjectReference (bq_Worker r) ''worker:'') (\<lambda>_.
          if worker_mismatch r then Inl (ErrInvalidContract ''worker profile binding mismatch'')
          else
            rbind (check_all (\<lambda>(value, pre). validateBindingReference value pre)
              [(bq_Instruction r, ''instruction:''), (bq_Runtime r, ''runtime:''), (bq_Provider r, ''provider:''), (bq_Model r, ''model:''),
               (bq_Node r, ''node:'')]) (\<lambda>_.
            if bq_CreatedAt r = 0 \<or> bq_NotBefore r = 0 \<or> bq_Deadline r = 0 \<or> bq_NotBefore r < bq_CreatedAt r
            then Inl (ErrInvalidContract ''contract times must be ordered UTC values'')
            else if list_ex (\<lambda>g. \<not> namespaced (qg_GateID g) ''gate:'' \<or> qg_Version g < 1 \<or> \<not> contract_validDigest (qg_Digest g))
                 (task_QualityGates (bq_Task r) @ wpd_QualityGates (bq_WorkPackage r))
            then Inl (ErrInvalidContract ''invalid work-package gate'')
            else if list_ex (\<lambda>k. TrimSpace (rd_Name k) = [] \<or> \<not> knownRiskLevel (rd_Level k)) (task_Risk (bq_Task r) @ wpd_Risk (bq_WorkPackage r))
            then Inl (ErrInvalidContract ''invalid risk dimension'')
            else ok)))))"

definition normalizeBuildRequest :: "BuildRequest \<Rightarrow> BuildRequest" where
  "normalizeBuildRequest r = r\<lparr>
     bq_RequestedCapabilities := sortedCapabilities (bq_RequestedCapabilities r),
     bq_RequestedSecretIDs := sortedStrings (bq_RequestedSecretIDs r),
     bq_PolicyLayers := sort_key ly_Name (map normalizePolicyLayer (bq_PolicyLayers r)) \<rparr>"

section \<open>Building a contract\<close>

text \<open>The difference of two times, \<open>time.Time.Sub\<close>, saturates at the largest durations.\<close>

definition time_Sub :: "time \<Rightarrow> time \<Rightarrow> duration" where
  "time_Sub t u = max (-9223372036854775808) (min 9223372036854775807 (t - u))"

definition contract_of :: "BuildRequest \<Rightarrow> EffectivePermissions \<Rightarrow> BudgetLimits \<Rightarrow> GateRequirement list \<Rightarrow> Contract" where
  "contract_of r permissions budget gates =
     \<lparr> ct_Schema = ContractSchema, ct_ContractID = bq_ContractID r, ct_Version = bq_Version r, ct_Predecessor = bq_Predecessor r,
       ct_ProjectID = hdr_ProjectID (task_Header (bq_Task r)), ct_ProjectRevision = bq_ProjectRevision r, ct_TaskID = task_TaskID (bq_Task r),
       ct_TaskRecordID = hdr_RecordID (task_Header (bq_Task r)), ct_TaskRevision = task_Revision (bq_Task r), ct_TaskDigest = bq_TaskDigest r,
       ct_GraphRecordID = hdr_RecordID (dgr_Header (bq_Graph r)), ct_GraphRevision = dgr_Revision (bq_Graph r), ct_GraphDigest = bq_GraphDigest r,
       ct_WorkPackageID = wpd_WorkPackageID (bq_WorkPackage r), ct_WorkPackageRecordID = hdr_RecordID (wpd_Header (bq_WorkPackage r)),
       ct_WorkPackageDigest = bq_WorkPackageDigest r, ct_ExecutionID = bq_ExecutionID r, ct_Trade = bq_Trade r, ct_Worker = bq_Worker r,
       ct_Instruction = bq_Instruction r, ct_ContextDigest = bq_ContextDigest r, ct_Runtime = bq_Runtime r, ct_Provider = bq_Provider r,
       ct_Model = bq_Model r, ct_Node = bq_Node r, ct_Permissions = permissions, ct_Budget = budget, ct_NotBefore = bq_NotBefore r,
       ct_Deadline = bq_Deadline r, ct_Deliverables = wpd_Deliverables (bq_WorkPackage r),
       ct_AcceptanceCriteria = wpd_AcceptanceCriteria (bq_WorkPackage r), ct_ReviewRequired = wpd_ReviewRequired (bq_WorkPackage r),
       ct_RequiredGates = gates, ct_CreatedAt = bq_CreatedAt r, ct_CreatedBy = bq_CreatedBy r, ct_Digest = [] \<rparr>"

record codec =
  cdc_digest :: "string \<Rightarrow> string"
  cdc_marshal :: "Contract \<Rightarrow> string"
  cdc_unmarshal :: "string \<Rightarrow> Contract option"

definition Build :: "codec \<Rightarrow> BuildRequest \<Rightarrow> contract_error + Contract \<times> string" where
  "Build codec request =
     (let r = normalizeBuildRequest request in
      rbind (validateBindings r) (\<lambda>_.
      rbind (evaluatePolicy (bq_RequestedCapabilities r) (bq_RequestedSecretIDs r) (bq_PolicyLayers r) (bq_RequestedBudget r)
               (wpd_Scope (bq_WorkPackage r))) (\<lambda>(permissions, budget).
      if bq_Deadline r < bq_NotBefore r \<or>
         time_Sub (bq_Deadline r) (bq_NotBefore r) > wrap64 (bl_MaxWallClockSeconds budget * 1000000000)
      then Inl (ErrInvalidContract ''deadline exceeds wall-clock ceiling'')
      else
        rbind (requiredGates (cdc_digest codec) (bq_Task r) (bq_WorkPackage r) (ep_Capabilities permissions)) (\<lambda>gates.
        let unsigned = contract_of r permissions budget gates;
            contract = unsigned\<lparr>ct_Digest := cdc_digest codec (cdc_marshal codec unsigned)\<rparr> in
        Inr (contract, cdc_marshal codec contract)))))"

definition VerifyDigest :: "codec \<Rightarrow> Contract \<Rightarrow> contract_error + unit" where
  "VerifyDigest codec contract =
     (if ct_Schema contract \<noteq> ContractSchema \<or> \<not> contract_validDigest (ct_Digest contract) then Inl (ErrInvalidContract [])
      else if cdc_digest codec (cdc_marshal codec (contract\<lparr>ct_Digest := []\<rparr>)) \<noteq> ct_Digest contract
      then Inl (ErrInvalidContract ''execution contract digest mismatch'') else ok)"

definition sameExecutionIdentity :: "Contract \<Rightarrow> Contract \<Rightarrow> bool" where
  "sameExecutionIdentity left right \<longleftrightarrow>
     ct_ContractID left = ct_ContractID right \<and> ct_ProjectID left = ct_ProjectID right \<and> ct_ProjectRevision left = ct_ProjectRevision right \<and>
     ct_TaskID left = ct_TaskID right \<and> ct_TaskRecordID left = ct_TaskRecordID right \<and> ct_TaskRevision left = ct_TaskRevision right \<and>
     ct_TaskDigest left = ct_TaskDigest right \<and> ct_GraphRecordID left = ct_GraphRecordID right \<and> ct_GraphRevision left = ct_GraphRevision right \<and>
     ct_GraphDigest left = ct_GraphDigest right \<and> ct_WorkPackageID left = ct_WorkPackageID right \<and>
     ct_WorkPackageRecordID left = ct_WorkPackageRecordID right \<and> ct_WorkPackageDigest left = ct_WorkPackageDigest right \<and>
     ct_ExecutionID left = ct_ExecutionID right"

section \<open>The table of contracts\<close>

record ExecutionContractRecord =
  ec_ContractID :: string
  ec_Version :: int
  ec_ProjectID :: string
  ec_TaskID :: string
  ec_TaskRevision :: int
  ec_GraphRevision :: int
  ec_WorkPackageID :: string
  ec_ExecutionID :: string
  ec_Digest :: string
  ec_PredecessorDigest :: string
  ec_ContractJSON :: string
  ec_CreatedAt :: time

record ECDB =
  ecdb_projects :: "string list"
  ecdb_contracts :: "ExecutionContractRecord list"

definition contract_key :: "ExecutionContractRecord \<Rightarrow> string \<times> int" where
  "contract_key r = (ec_ContractID r, ec_Version r)"

definition execution_key :: "ExecutionContractRecord \<Rightarrow> string \<times> string \<times> int" where
  "execution_key r = (ec_ProjectID r, ec_ExecutionID r, ec_Version r)"

definition projectPayloadLimit :: int where
  "projectPayloadLimit = 1048576"

definition validateExecutionContractRecord :: "ExecutionContractRecord \<Rightarrow> bool" where
  "validateExecutionContractRecord r \<longleftrightarrow>
     list_all (\<lambda>v. validateRegistryKey v 1) [ec_ContractID r, ec_ProjectID r, ec_TaskID r, ec_WorkPackageID r, ec_ExecutionID r] \<and>
     1 \<le> ec_Version r \<and> 1 \<le> ec_TaskRevision r \<and> 1 \<le> ec_GraphRevision r \<and> ec_CreatedAt r \<noteq> 0 \<and> validProjectionHash (ec_Digest r) \<and>
     ec_ContractJSON r \<noteq> [] \<and> int (length (ec_ContractJSON r)) \<le> projectPayloadLimit \<and>
     (ec_PredecessorDigest r = [] \<or> validProjectionHash (ec_PredecessorDigest r))"

definition SaveExecutionContract :: "ECDB \<Rightarrow> ExecutionContractRecord \<Rightarrow> store_error + ECDB \<times> bool" where
  "SaveExecutionContract db r =
     (if \<not> validateExecutionContractRecord r then Inl (StoreInvalid ''execution contract record is incomplete'')
      else if \<not> row_exists contract_key (contract_key r) (ecdb_contracts db) \<and> \<not> row_exists execution_key (execution_key r) (ecdb_contracts db)
      then (if ec_ProjectID r \<in> set (ecdb_projects db) then Inr (db\<lparr>ecdb_contracts := ecdb_contracts db @ [r]\<rparr>, False)
            else Inl (StoreConstraint ''execution_contract_versions''))
      else case row_lookup contract_key (contract_key r) (ecdb_contracts db) of
        None \<Rightarrow> Inl (StoreConflict ''execution already has contract version'')
      | Some existing \<Rightarrow> if ec_Digest existing \<noteq> ec_Digest r then Inl (StoreConflict ''execution contract'') else Inr (db, True))"

definition GetExecutionContract :: "ECDB \<Rightarrow> string \<Rightarrow> int \<Rightarrow> store_error + ExecutionContractRecord" where
  "GetExecutionContract db contractID version =
     (if \<not> validateRegistryKey contractID version then Inl (StoreInvalid ''positive version is required'')
      else case row_lookup contract_key (contractID, version) (ecdb_contracts db) of
        None \<Rightarrow> Inl (StoreNotFound ''execution contract'') | Some r \<Rightarrow> Inr r)"

definition ListExecutionContracts ::
  "ECDB \<Rightarrow> string \<Rightarrow> string \<Rightarrow> string \<Rightarrow> PageRequest \<Rightarrow> store_error + ExecutionContractRecord Page" where
  "ListExecutionContracts db projectID workPackageID executionID request =
     rbind (NormalizePageRequest request) (\<lambda>page.
     if \<not> list_all ValidateAdminFilter [projectID, workPackageID, executionID] then Inl (StoreInvalid ''administration query filter is too long'')
     else if projectID = [] then Inl (StoreInvalid ''project id is required'')
     else Inr (version_page contract_key (\<lambda>r. ec_ProjectID r = projectID \<and> (workPackageID = [] \<or> ec_WorkPackageID r = workPackageID) \<and>
       (executionID = [] \<or> ec_ExecutionID r = executionID)) (ecdb_contracts db) page))"

section \<open>Creating a contract\<close>

datatype create_error = CreateContract contract_error | CreateStore store_error

definition predecessorDigest :: "ContractReference option \<Rightarrow> string" where
  "predecessorDigest value = (case value of None \<Rightarrow> [] | Some p \<Rightarrow> ctr_Digest p)"

definition amends :: "codec \<Rightarrow> ECDB \<Rightarrow> Contract \<Rightarrow> bool" where
  "amends codec db contract =
     (case GetExecutionContract db (ct_ContractID contract) (ct_Version contract - 1) of
        Inl _ \<Rightarrow> False
      | Inr prior \<Rightarrow>
          ct_Predecessor contract \<noteq> None \<and> ec_Digest prior = predecessorDigest (ct_Predecessor contract) \<and>
          (case cdc_unmarshal codec (ec_ContractJSON prior) of
             None \<Rightarrow> False
           | Some previous \<Rightarrow> ct_Digest previous = ec_Digest prior \<and> is_ok (VerifyDigest codec previous) \<and>
               sameExecutionIdentity previous contract))"

definition record_of :: "Contract \<Rightarrow> string \<Rightarrow> ExecutionContractRecord" where
  "record_of contract raw =
     \<lparr> ec_ContractID = ct_ContractID contract, ec_Version = ct_Version contract, ec_ProjectID = ct_ProjectID contract,
       ec_TaskID = ct_TaskID contract, ec_TaskRevision = ct_TaskRevision contract, ec_GraphRevision = ct_GraphRevision contract,
       ec_WorkPackageID = ct_WorkPackageID contract, ec_ExecutionID = ct_ExecutionID contract, ec_Digest = ct_Digest contract,
       ec_PredecessorDigest = predecessorDigest (ct_Predecessor contract), ec_ContractJSON = raw, ec_CreatedAt = ct_CreatedAt contract \<rparr>"

definition Create :: "codec \<Rightarrow> ECDB \<Rightarrow> BuildRequest \<Rightarrow> create_error + ECDB \<times> Contract \<times> bool" where
  "Create codec db request =
     (case Build codec request of
        Inl e \<Rightarrow> Inl (CreateContract e)
      | Inr (contract, raw) \<Rightarrow>
          if ct_Version contract > 1 \<and> \<not> amends codec db contract then Inl (CreateContract ErrAmendmentConflict)
          else (case SaveExecutionContract db (record_of contract raw) of
                  Inl e \<Rightarrow> Inl (CreateStore e)
                | Inr (db, present) \<Rightarrow> Inr (db, contract, present)))"

section \<open>What a contract grants\<close>

lemma is_ok_if [simp]: "is_ok (if b then ok else Inl e) \<longleftrightarrow> b" "is_ok (if b then Inl e else x) \<longleftrightarrow> \<not> b \<and> is_ok x"
  by (simp_all add: is_ok_def)

lemma Build_Inr:
  assumes "Build codec r = Inr (c, raw)"
  defines "n \<equiv> normalizeBuildRequest r"
  shows "evaluatePolicy (bq_RequestedCapabilities n) (bq_RequestedSecretIDs n) (bq_PolicyLayers n) (bq_RequestedBudget r)
      (wpd_Scope (bq_WorkPackage r)) = Inr (ct_Permissions c, ct_Budget c)"
    "requiredGates (cdc_digest codec) (bq_Task r) (bq_WorkPackage r) (ep_Capabilities (ct_Permissions c)) = Inr (ct_RequiredGates c)"
    "ct_NotBefore c = bq_NotBefore r" "ct_Deadline c = bq_Deadline r" "bq_NotBefore r \<le> bq_Deadline r"
    "time_Sub (bq_Deadline r) (bq_NotBefore r) \<le> wrap64 (bl_MaxWallClockSeconds (ct_Budget c) * 1000000000)"
    "validateBindings n = ok"
    "raw = cdc_marshal codec c" "ct_Digest c = cdc_digest codec (cdc_marshal codec (c\<lparr>ct_Digest := []\<rparr>))"
    "c\<lparr>ct_Digest := []\<rparr> = contract_of n (ct_Permissions c) (ct_Budget c) (ct_RequiredGates c)"
  using assms
  by (auto simp: Build_def Let_def rbind_eq_Inr if_Inl_eq_Inr contract_of_def normalizeBuildRequest_def split: prod.splits)

lemma layers_of_request:
  "set (bq_PolicyLayers (normalizeBuildRequest r)) = normalizePolicyLayer ` set (bq_PolicyLayers r)"
  by (simp add: normalizeBuildRequest_def)

lemma normalized_layer:
  "containsCapability (ly_AllowedCapabilities (normalizePolicyLayer l)) c \<longleftrightarrow> c \<in> set (ly_AllowedCapabilities l)"
  "containsCapability (ly_DeniedCapabilities (normalizePolicyLayer l)) c \<longleftrightarrow> c \<in> set (ly_DeniedCapabilities l)"
  "containsString (ly_AllowedSecretIDs (normalizePolicyLayer l)) s \<longleftrightarrow> s \<in> set (ly_AllowedSecretIDs l)"
  "covers (ly_InspectPaths (normalizePolicyLayer l)) p = covers (ly_InspectPaths l) p"
  "covers (ly_WritePaths (normalizePolicyLayer l)) p = covers (ly_WritePaths l) p"
  "covers (ly_ForbiddenPaths (normalizePolicyLayer l)) p = covers (ly_ForbiddenPaths l) p"
  "ly_BudgetCeiling (normalizePolicyLayer l) = ly_BudgetCeiling l"
  by (simp_all add: normalizePolicyLayer_def containsCapability_eq containsString_iff)

lemma requested_capabilities:
  "containsCapability (bq_RequestedCapabilities (normalizeBuildRequest r)) c \<longleftrightarrow> c \<in> set (bq_RequestedCapabilities r)"
  by (simp add: normalizeBuildRequest_def containsCapability_eq containsString_iff)

lemma evaluatePolicy_Inr:
  assumes "evaluatePolicy caps secrets layers requested scope = Inr (perms, budget)"
  shows "ep_Capabilities perms = caps" "ep_SecretIDs perms = secrets" "\<forall>p. covers (ep_Forbidden perms) p \<longleftrightarrow> covers (ws_Forbidden scope) p \<or> (\<exists>l\<in>set layers. covers (ly_ForbiddenPaths l) p)"
    "containsCapability caps CapabilityInspect \<Longrightarrow> ep_InspectPaths perms = granted_paths ly_InspectPaths layers (ep_Forbidden perms) (ws_Allowed scope @ ws_Inspect scope)"
    "containsCapability caps CapabilityWrite \<Longrightarrow> ep_WritePaths perms = granted_paths ly_WritePaths layers (ep_Forbidden perms) (ws_Allowed scope)"
    "\<forall>c\<in>set caps. knownCapability c \<and> (\<forall>l\<in>set layers. \<not> layer_denies c l)"
    "\<forall>s\<in>set secrets. containsCapability caps CapabilitySecret \<and> namespaced s ''secret:'' \<and> (\<forall>l\<in>set layers. containsString (ly_AllowedSecretIDs l) s)"
    "effectiveBudget requested layers = Inr budget"
proof -
  let ?forbidden = "canonicalPaths (ws_Forbidden scope @ concat (map ly_ForbiddenPaths layers))"
  have perms: "perms = \<lparr> ep_Capabilities = caps,
      ep_InspectPaths = (if containsCapability caps CapabilityInspect then granted_paths ly_InspectPaths layers ?forbidden (ws_Allowed scope @ ws_Inspect scope) else []),
      ep_WritePaths = (if containsCapability caps CapabilityWrite then granted_paths ly_WritePaths layers ?forbidden (ws_Allowed scope) else []),
      ep_Forbidden = ?forbidden, ep_SecretIDs = secrets \<rparr>"
    and checks: "check_all (check_capability layers) caps = ok" "effectiveBudget requested layers = Inr budget"
      "(if secrets = [] then ok else if \<not> containsCapability caps CapabilitySecret
        then Inl (ErrPrivilegeEscalation ''secret IDs requested without secret capability'') else check_all (check_secret layers) secrets) = ok"
    using assms unfolding evaluatePolicy_def Let_def rbind_eq_Inr if_Inl_eq_Inr by (elim exE conjE, simp)+
  show "ep_Capabilities perms = caps" "ep_SecretIDs perms = secrets" by (simp_all add: perms)
  show "\<forall>p. covers (ep_Forbidden perms) p \<longleftrightarrow> covers (ws_Forbidden scope) p \<or> (\<exists>l\<in>set layers. covers (ly_ForbiddenPaths l) p)"
    by (simp add: perms covers_concat)
  show "containsCapability caps CapabilityInspect \<Longrightarrow> ep_InspectPaths perms = granted_paths ly_InspectPaths layers (ep_Forbidden perms) (ws_Allowed scope @ ws_Inspect scope)"
    "containsCapability caps CapabilityWrite \<Longrightarrow> ep_WritePaths perms = granted_paths ly_WritePaths layers (ep_Forbidden perms) (ws_Allowed scope)"
    by (simp_all add: perms)
  show "\<forall>c\<in>set caps. knownCapability c \<and> (\<forall>l\<in>set layers. \<not> layer_denies c l)"
    using checks(1) by (simp add: check_all_ok check_capability_def if_Inl_eq_Inr)
  show "\<forall>s\<in>set secrets. containsCapability caps CapabilitySecret \<and> namespaced s ''secret:'' \<and> (\<forall>l\<in>set layers. containsString (ly_AllowedSecretIDs l) s)"
    using checks(3) by (cases "secrets = []") (simp_all add: check_all_ok check_secret_def if_Inl_eq_Inr)
  show "effectiveBudget requested layers = Inr budget" by (fact checks(2))
qed

section \<open>Gates\<close>

text \<open>A gate that is required stays required, with its version and digest.\<close>

definition requires :: "gate_map \<Rightarrow> string \<Rightarrow> int \<Rightarrow> string \<Rightarrow> bool" where
  "requires gates gid version digest \<longleftrightarrow> (\<exists>g. map_of gates gid = Some g \<and> gr_GateID g = gid \<and> gr_Version g = version \<and> gr_Digest g = digest)"

definition gates_wf :: "gate_map \<Rightarrow> bool" where
  "gates_wf gates \<longleftrightarrow> (\<forall>gid g. map_of gates gid = Some g \<longrightarrow> gr_GateID g = gid)"

definition extends :: "gate_map \<Rightarrow> gate_map \<Rightarrow> bool" where
  "extends gates gates' \<longleftrightarrow> gates_wf gates' \<and> (\<forall>gid version digest. requires gates gid version digest \<longrightarrow> requires gates' gid version digest)"

definition builtin :: "(string \<Rightarrow> string) \<Rightarrow> gate_map \<Rightarrow> string \<Rightarrow> bool" where
  "builtin digest gates gid \<longleftrightarrow> requires gates gid 1 (digest (gid @ '':v1''))"

lemma map_of_go_put: "map_of (go_put k v m) x = (if x = k then Some v else map_of m x)"
  by (simp add: go_put_def update_conv')

lemma extends_refl: "gates_wf gates \<Longrightarrow> extends gates gates"
  by (simp add: extends_def)

lemma extends_trans: "extends a b \<Longrightarrow> extends b c \<Longrightarrow> extends a c"
  by (simp add: extends_def)

lemma extends_builtin: "extends a b \<Longrightarrow> builtin digest a gid \<Longrightarrow> builtin digest b gid"
  by (simp add: extends_def builtin_def)

lemma extends_wf: "extends a b \<Longrightarrow> gates_wf b"
  by (simp add: extends_def)

lemma put_gate:
  assumes "gates_wf gates" "gr_GateID g = gid"
    "\<And>g'. map_of gates gid = Some g' \<Longrightarrow> gr_Version g' = gr_Version g \<and> gr_Digest g' = gr_Digest g"
  shows "extends gates (go_put gid g gates)"
  using assms unfolding extends_def gates_wf_def requires_def by (simp add: map_of_go_put) metis

lemma addBuiltinGate_Inr:
  assumes "addBuiltinGate digest gid rationale gates = Inr gates'" "gates_wf gates"
  shows "extends gates gates' \<and> builtin digest gates' gid"
proof (cases "map_of gates gid")
  case None
  then have gates': "gates' = go_put gid \<lparr> gr_GateID = gid, gr_Version = 1, gr_Digest = digest (gid @ '':v1''), gr_Rationale = rationale \<rparr> gates"
    using assms(1) by (simp add: addBuiltinGate_def Let_def)
  show ?thesis using put_gate [OF assms(2), of _ gid] None by (simp add: gates' builtin_def requires_def map_of_go_put)
next
  case (Some g)
  then have g: "gr_Version g = 1" "gr_Digest g = digest (gid @ '':v1'')" "gr_GateID g = gid"
      "gates' = (if rationale < gr_Rationale g then go_put gid (g\<lparr>gr_Rationale := rationale\<rparr>) gates else gates)"
    using assms by (auto simp: addBuiltinGate_def Let_def gates_wf_def split: if_splits)
  show ?thesis
    using put_gate [OF assms(2), of "g\<lparr>gr_Rationale := rationale\<rparr>" gid] extends_refl [OF assms(2)] Some g
    by (simp add: builtin_def requires_def map_of_go_put)
qed

lemma add_declared_gate_Inr:
  assumes "add_declared_gate gates gate = Inr gates'" "gates_wf gates"
  shows "extends gates gates' \<and> (qg_Required gate \<longrightarrow> requires gates' (qg_GateID gate) (qg_Version gate) (qg_Digest gate))"
proof (cases "qg_Required gate")
  case False
  then show ?thesis using assms by (simp add: add_declared_gate_def extends_refl)
next
  case True
  let ?g = "\<lparr> gr_GateID = qg_GateID gate, gr_Version = qg_Version gate, gr_Digest = qg_Digest gate, gr_Rationale = ''work_package'' \<rparr>"
  have g: "gates' = go_put (qg_GateID gate) ?g gates"
      "\<And>g'. map_of gates (qg_GateID gate) = Some g' \<Longrightarrow> gr_Version g' = qg_Version gate \<and> gr_Digest g' = qg_Digest gate"
    using assms(1) True by (auto simp: add_declared_gate_def split: option.splits if_splits)
  show ?thesis using put_gate [OF assms(2), of ?g "qg_GateID gate"] g by (simp add: requires_def map_of_go_put)
qed

lemma add_risk_gates_Inr:
  assumes run: "add_risk_gates digest gates risk = Inr gates'" and wf: "gates_wf gates"
  shows "extends gates gates' \<and> (rd_Level risk \<in> {RiskHigh, RiskCritical} \<longrightarrow> builtin digest gates' ''gate:human-review'' \<and>
    (rd_Name risk \<in> {''security'', ''secret''} \<longrightarrow> builtin digest gates' ''gate:security-review'') \<and>
    (rd_Name risk \<in> {''data'', ''database''} \<longrightarrow> builtin digest gates' ''gate:data-review'') \<and>
    (rd_Name risk \<in> {''deployment'', ''infrastructure''} \<longrightarrow> builtin digest gates' ''gate:operations-approval''))"
proof (cases "rd_Level risk \<in> {RiskHigh, RiskCritical}")
  case False
  then show ?thesis using run wf by (simp add: add_risk_gates_def extends_refl)
next
  case True
  then obtain g1 where g1: "addBuiltinGate digest ''gate:human-review'' ''high_risk'' gates = Inr g1"
    using run by (auto simp: add_risk_gates_def rbind_eq_Inr)
  note human = addBuiltinGate_Inr [OF g1 wf]
  have rest: "(if rd_Name risk = ''security'' \<or> rd_Name risk = ''secret'' then addBuiltinGate digest ''gate:security-review'' ''security_risk'' g1
      else if rd_Name risk = ''data'' \<or> rd_Name risk = ''database'' then addBuiltinGate digest ''gate:data-review'' ''data_risk'' g1
      else if rd_Name risk = ''deployment'' \<or> rd_Name risk = ''infrastructure''
      then addBuiltinGate digest ''gate:operations-approval'' ''operations_risk'' g1 else Inr g1) = Inr gates'"
    using run True g1 by (auto simp: add_risk_gates_def)
  have wf1: "gates_wf g1" using human extends_wf by blast
  have more: "extends gates gates' \<and> builtin digest gates' gid \<and> builtin digest gates' ''gate:human-review''"
    if "addBuiltinGate digest gid rationale g1 = Inr gates'" for gid rationale
    using addBuiltinGate_Inr [OF that wf1] human extends_trans extends_builtin by blast
  show ?thesis using rest human True by (auto split: if_splits dest!: more)
qed

lemma add_capability_gates_Inr:
  assumes "add_capability_gates digest gates cap = Inr gates'" "gates_wf gates"
  shows "extends gates gates' \<and> (cap = CapabilitySecret \<longrightarrow> builtin digest gates' ''gate:security-review'') \<and>
    (cap = CapabilityMerge \<longrightarrow> builtin digest gates' ''gate:human-review'') \<and>
    (cap \<in> {CapabilityDeployment, CapabilityInfrastructure} \<longrightarrow> builtin digest gates' ''gate:operations-approval'')"
proof -
  have distinct: "CapabilitySecret \<noteq> CapabilityMerge" "CapabilitySecret \<noteq> CapabilityDeployment" "CapabilitySecret \<noteq> CapabilityInfrastructure"
    "CapabilityMerge \<noteq> CapabilityDeployment" "CapabilityMerge \<noteq> CapabilityInfrastructure"
    by (simp_all add: capability_defs)
  consider "cap = CapabilitySecret" | "cap = CapabilityMerge" | "cap \<in> {CapabilityDeployment, CapabilityInfrastructure}"
    | "cap \<noteq> CapabilitySecret" "cap \<noteq> CapabilityMerge" "cap \<notin> {CapabilityDeployment, CapabilityInfrastructure}" by blast
  then show ?thesis
  proof cases
    case 1
    then have "addBuiltinGate digest ''gate:security-review'' ''secret_capability'' gates = Inr gates'" using assms(1) by (simp add: add_capability_gates_def)
    from addBuiltinGate_Inr [OF this assms(2)] 1 distinct show ?thesis by auto
  next
    case 2
    then have "addBuiltinGate digest ''gate:human-review'' ''merge_capability'' gates = Inr gates'" using assms(1) distinct by (simp add: add_capability_gates_def)
    from addBuiltinGate_Inr [OF this assms(2)] 2 distinct show ?thesis by auto
  next
    case 3
    then have "addBuiltinGate digest ''gate:operations-approval'' ''operations_capability'' gates = Inr gates'" using assms(1) distinct by (auto simp: add_capability_gates_def)
    from addBuiltinGate_Inr [OF this assms(2)] 3 distinct show ?thesis by auto
  next
    case 4
    then have "gates' = gates" using assms(1) by (simp add: add_capability_gates_def)
    then show ?thesis using 4 extends_refl [OF assms(2)] by simp
  qed
qed

lemma fold_gates:
  assumes "fold_result step gates xs = Inr gates'" "gates_wf gates"
    and step: "\<And>gates x gates'. x \<in> set xs \<Longrightarrow> step gates x = Inr gates' \<Longrightarrow> gates_wf gates \<Longrightarrow> extends gates gates' \<and> P gates' x"
    and mono: "\<And>a b x. extends a b \<Longrightarrow> P a x \<Longrightarrow> P b x"
  shows "extends gates gates' \<and> (\<forall>x\<in>set xs. P gates' x)"
  using assms(1-3)
proof (induction xs arbitrary: gates)
  case (Cons x xs)
  then obtain g1 where g1: "step gates x = Inr g1" "fold_result step g1 xs = Inr gates'" by (auto simp: rbind_eq_Inr)
  have first: "extends gates g1 \<and> P g1 x" using Cons.prems(3) [OF _ g1(1) Cons.prems(2)] by simp
  have rest: "extends g1 gates' \<and> (\<forall>x\<in>set xs. P gates' x)"
  proof (rule Cons.IH [OF g1(2)])
    show "gates_wf g1" using first extends_wf by blast
    show "extends a b \<and> P b y" if "y \<in> set xs" "step a y = Inr b" "gates_wf a" for a y b
      using Cons.prems(3) [OF _ that(2,3)] that(1) by simp
  qed
  show ?case using first rest mono [of g1 gates' x] extends_trans [of gates g1 gates'] by simp
qed (simp add: extends_refl)

lemma requiredGates_Inr:
  assumes "requiredGates digest task work caps = Inr gates"
  obtains m where "gates = sort_key gr_GateID (map snd m)" "gates_wf m"
    "\<forall>g\<in>set (task_QualityGates task @ wpd_QualityGates work). qg_Required g \<longrightarrow> requires m (qg_GateID g) (qg_Version g) (qg_Digest g)"
    "wpd_ReviewRequired work \<longrightarrow> builtin digest m ''gate:human-review''"
    "\<forall>k\<in>set (task_Risk task @ wpd_Risk work). rd_Level k \<in> {RiskHigh, RiskCritical} \<longrightarrow> builtin digest m ''gate:human-review'' \<and>
       (rd_Name k \<in> {''security'', ''secret''} \<longrightarrow> builtin digest m ''gate:security-review'') \<and>
       (rd_Name k \<in> {''data'', ''database''} \<longrightarrow> builtin digest m ''gate:data-review'') \<and>
       (rd_Name k \<in> {''deployment'', ''infrastructure''} \<longrightarrow> builtin digest m ''gate:operations-approval'')"
    "\<forall>c\<in>set caps. (c = CapabilitySecret \<longrightarrow> builtin digest m ''gate:security-review'') \<and> (c = CapabilityMerge \<longrightarrow> builtin digest m ''gate:human-review'') \<and>
       (c \<in> {CapabilityDeployment, CapabilityInfrastructure} \<longrightarrow> builtin digest m ''gate:operations-approval'')"
proof -
  obtain m1 m2 m3 m4 where run: "fold_result add_declared_gate [] (task_QualityGates task @ wpd_QualityGates work) = Inr m1"
      "(if wpd_ReviewRequired work then addBuiltinGate digest ''gate:human-review'' ''work_package_review'' m1 else Inr m1) = Inr m2"
      "fold_result (add_risk_gates digest) m2 (task_Risk task @ wpd_Risk work) = Inr m3"
      "fold_result (add_capability_gates digest) m3 caps = Inr m4" "sort_key gr_GateID (map snd m4) = gates"
    using assms unfolding requiredGates_def rbind_eq_Inr sum.inject by (elim exE conjE) (rule that; assumption)
  have wf0: "gates_wf []" by (simp add: gates_wf_def)
  let ?P1 = "\<lambda>m g. qg_Required g \<longrightarrow> requires m (qg_GateID g) (qg_Version g) (qg_Digest g)"
  let ?P3 = "\<lambda>m k. rd_Level k \<in> {RiskHigh, RiskCritical} \<longrightarrow> builtin digest m ''gate:human-review'' \<and>
       (rd_Name k \<in> {''security'', ''secret''} \<longrightarrow> builtin digest m ''gate:security-review'') \<and>
       (rd_Name k \<in> {''data'', ''database''} \<longrightarrow> builtin digest m ''gate:data-review'') \<and>
       (rd_Name k \<in> {''deployment'', ''infrastructure''} \<longrightarrow> builtin digest m ''gate:operations-approval'')"
  let ?P4 = "\<lambda>m c. (c = CapabilitySecret \<longrightarrow> builtin digest m ''gate:security-review'') \<and> (c = CapabilityMerge \<longrightarrow> builtin digest m ''gate:human-review'') \<and>
       (c \<in> {CapabilityDeployment, CapabilityInfrastructure} \<longrightarrow> builtin digest m ''gate:operations-approval'')"
  have s1: "extends [] m1 \<and> (\<forall>g\<in>set (task_QualityGates task @ wpd_QualityGates work). ?P1 m1 g)"
    by (rule fold_gates [OF run(1) wf0, where P = ?P1], rule add_declared_gate_Inr) (auto simp: extends_def)
  have wf1: "gates_wf m1" using s1 extends_wf by blast
  have s2: "extends m1 m2 \<and> (wpd_ReviewRequired work \<longrightarrow> builtin digest m2 ''gate:human-review'')"
    using run(2) addBuiltinGate_Inr [of digest "''gate:human-review''" "''work_package_review''" m1 m2] wf1 extends_refl [OF wf1]
    by (cases "wpd_ReviewRequired work") simp_all
  note wf2 = extends_wf [OF conjunct1 [OF s2]]
  have mono3: "?P3 b k" if "extends a b" "?P3 a k" for a b k using extends_builtin [OF that(1), of digest] that(2) by simp
  have mono4: "?P4 b k" if "extends a b" "?P4 a k" for a b k using extends_builtin [OF that(1), of digest] that(2) by simp
  have s3: "extends m2 m3 \<and> (\<forall>k\<in>set (task_Risk task @ wpd_Risk work). ?P3 m3 k)"
    by (rule fold_gates [OF run(3) wf2, where P = ?P3], rule add_risk_gates_Inr) (assumption | rule mono3)+
  note wf3 = extends_wf [OF conjunct1 [OF s3]]
  have s4: "extends m3 m4 \<and> (\<forall>c\<in>set caps. ?P4 m4 c)"
    by (rule fold_gates [OF run(4) wf3, where P = ?P4], rule add_capability_gates_Inr) (assumption | rule mono4)+
  note e34 = conjunct1 [OF s4]
  note e24 = extends_trans [OF conjunct1 [OF s3] e34]
  note e14 = extends_trans [OF conjunct1 [OF s2] e24]
  show thesis
  proof (rule that [OF run(5) [symmetric]])
    show "gates_wf m4" by (rule extends_wf [OF e34])
    show "\<forall>g\<in>set (task_QualityGates task @ wpd_QualityGates work). ?P1 m4 g" using s1 e14 by (simp add: extends_def)
    show "wpd_ReviewRequired work \<longrightarrow> builtin digest m4 ''gate:human-review''" using s2 extends_builtin [OF e24] by simp
    show "\<forall>k\<in>set (task_Risk task @ wpd_Risk work). ?P3 m4 k" by (intro ballI mono3 [OF e34]) (rule bspec [OF conjunct2 [OF s3]])
    show "\<forall>c\<in>set caps. ?P4 m4 c" by (rule conjunct2 [OF s4])
  qed
qed

end
