(* ===== verification/Compute_Node.thy ===== *)
theory Compute_Node
  imports Execution_Contract
begin

text \<open>
  Compute nodes, src/internal/computenode/node.go: definitions with their digest and the check whether a
  node, as last observed, can take work. The hash of the JSON encoding of a definition is an argument.
\<close>

section \<open>Types\<close>

definition DefinitionSchema :: string where
  "DefinitionSchema = ''syncgate.compute-node.v1''"

datatype node_error = ErrInvalidNode string

datatype Lifecycle = LifecycleActive | LifecycleDisabled | LifecycleOther string
datatype RepositoryAccess = RepositoryNone | RepositoryRead | RepositoryWrite | RepositoryAccessOther string
datatype Health = HealthUnknown | HealthHealthy | HealthDegraded | HealthUnhealthy | HealthOther string

record Capacity =
  cp_CPUMillis :: int
  cp_MemoryBytes :: int
  cp_DiskBytes :: int

record Tool =
  tl_Name :: string
  tl_Version :: string
  tl_Digest :: string

record Definition =
  nd_Schema :: string
  nd_NodeID :: string
  nd_Version :: int
  nd_Lifecycle :: Lifecycle
  nd_OS :: string
  nd_Architecture :: string
  nd_Capacity :: Capacity
  nd_Tools :: "Tool list"
  nd_RepositoryAccess :: RepositoryAccess
  nd_Runtimes :: "BindingReference list"
  nd_MaxActiveLeases :: int
  nd_DefinitionDigest :: string

record Observation =
  ob_Node :: BindingReference
  ob_Health :: Health
  ob_Available :: Capacity
  ob_AvailableTools :: "Tool list"
  ob_AvailableRuntimes :: "BindingReference list"
  ob_ActiveLeases :: int
  ob_ObservedAt :: time
  ob_ExpiresAt :: time

record Requirements =
  rq_OS :: string
  rq_Architecture :: string
  rq_Minimum :: Capacity
  rq_Tools :: "Tool list"
  rq_RepositoryAccess :: RepositoryAccess
  rq_Runtime :: BindingReference

record Eligibility =
  el_Eligible :: bool
  el_Reasons :: "string list"

section \<open>Definitions\<close>

definition validCapacity :: "Capacity \<Rightarrow> bool" where
  "validCapacity c \<longleftrightarrow> 0 \<le> cp_CPUMillis c \<and> 0 \<le> cp_MemoryBytes c \<and> 0 \<le> cp_DiskBytes c"

text \<open>Both normal forms sort by all the fields, so entries with equal keys are equal.\<close>

definition unique_adjacent :: "'a list \<Rightarrow> 'a list" where
  "unique_adjacent values = foldl (\<lambda>result value. if result = [] \<or> last result \<noteq> value then result @ [value] else result) [] values"

definition tool_key :: "Tool \<Rightarrow> string \<times> string \<times> string" where
  "tool_key t = (tl_Name t, tl_Version t, tl_Digest t)"

definition normalizeTools :: "Tool list \<Rightarrow> Tool list" where
  "normalizeTools values = unique_adjacent (sort_key tool_key values)"

definition binding_key :: "BindingReference \<Rightarrow> string \<times> int \<times> string" where
  "binding_key b = (bd_ID b, bd_Version b, bd_Digest b)"

definition normalizeBindings :: "BindingReference list \<Rightarrow> BindingReference list" where
  "normalizeBindings values = unique_adjacent (sort_key binding_key values)"

definition accessRank :: "RepositoryAccess \<Rightarrow> int" where
  "accessRank access = (case access of RepositoryNone \<Rightarrow> 0 | RepositoryRead \<Rightarrow> 1 | RepositoryWrite \<Rightarrow> 2 | _ \<Rightarrow> -1)"

definition node_validBinding :: "BindingReference \<Rightarrow> string \<Rightarrow> bool" where
  "node_validBinding value pre \<longleftrightarrow> namespaced (bd_ID value) pre \<and> 0 < bd_Version value \<and> contract_validDigest (bd_Digest value)"

fun adjacent_names :: "Tool list \<Rightarrow> bool" where
  "adjacent_names (a # b # tools) = (tl_Name a = tl_Name b \<or> adjacent_names (b # tools))"
| "adjacent_names _ = False"

definition validateDefinition :: "Definition \<Rightarrow> node_error + unit" where
  "validateDefinition d =
     (if nd_Schema d \<noteq> DefinitionSchema \<or> \<not> namespaced (nd_NodeID d) ''node:'' \<or> nd_Version d < 1 \<or>
         (nd_Lifecycle d \<noteq> LifecycleActive \<and> nd_Lifecycle d \<noteq> LifecycleDisabled) \<or> TrimSpace (nd_OS d) = [] \<or>
         TrimSpace (nd_Architecture d) = [] \<or> \<not> validCapacity (nd_Capacity d) \<or> nd_MaxActiveLeases d < 1 \<or>
         accessRank (nd_RepositoryAccess d) < 0 \<or> int (length (nd_Tools d)) > 256 \<or> nd_Runtimes d = [] \<or> int (length (nd_Runtimes d)) > 256
      then Inl (ErrInvalidNode [])
      else if list_ex (\<lambda>t. TrimSpace (tl_Name t) = [] \<or> TrimSpace (tl_Version t) = [] \<or> \<not> contract_validDigest (tl_Digest t)) (nd_Tools d)
      then Inl (ErrInvalidNode [])
      else if adjacent_names (nd_Tools d) then Inl (ErrInvalidNode [])
      else if \<not> list_all (\<lambda>r. node_validBinding r ''runtime:'') (nd_Runtimes d) then Inl (ErrInvalidNode [])
      else ok)"

definition BuildDefinition :: "(Definition \<Rightarrow> string) \<Rightarrow> Definition \<Rightarrow> node_error + Definition" where
  "BuildDefinition hash d =
     (let d = d\<lparr> nd_Schema := DefinitionSchema, nd_Tools := normalizeTools (nd_Tools d), nd_Runtimes := normalizeBindings (nd_Runtimes d),
                 nd_DefinitionDigest := [] \<rparr> in
      rbind (validateDefinition d) (\<lambda>_. Inr (d\<lparr>nd_DefinitionDigest := hash d\<rparr>)))"

definition VerifyDefinition :: "(Definition \<Rightarrow> string) \<Rightarrow> Definition \<Rightarrow> node_error + unit" where
  "VerifyDefinition hash d =
     (if \<not> contract_validDigest (nd_DefinitionDigest d) then Inl (ErrInvalidNode [])
      else case BuildDefinition hash (d\<lparr>nd_DefinitionDigest := []\<rparr>) of
        Inl _ \<Rightarrow> Inl (ErrInvalidNode ''definition digest mismatch'')
      | Inr normalized \<Rightarrow>
          if nd_DefinitionDigest normalized \<noteq> nd_DefinitionDigest d then Inl (ErrInvalidNode ''definition digest mismatch'') else ok)"

section \<open>Eligibility\<close>

definition node_reference :: "Definition \<Rightarrow> BindingReference" where
  "node_reference d = \<lparr> bd_ID = nd_NodeID d, bd_Version = nd_Version d, bd_Digest = nd_DefinitionDigest d \<rparr>"

definition reason :: "bool \<Rightarrow> string \<Rightarrow> string list" where
  "reason b text = (if b then [text] else [])"

definition uniqueStrings :: "string list \<Rightarrow> string list" where
  "uniqueStrings values = unique_adjacent (sort values)"

definition Evaluate :: "(Definition \<Rightarrow> string) \<Rightarrow> Definition \<Rightarrow> Observation \<Rightarrow> Requirements \<Rightarrow> time \<Rightarrow> Eligibility" where
  "Evaluate hash d ob rq now =
     (let reasons =
        reason (\<not> is_ok (VerifyDefinition hash d) \<or> nd_Lifecycle d \<noteq> LifecycleActive) ''node_definition_unavailable'' @
        reason (ob_Node ob \<noteq> node_reference d) ''node_observation_identity_mismatch'' @
        reason (\<not> validCapacity (ob_Available ob) \<or> cp_CPUMillis (ob_Available ob) > cp_CPUMillis (nd_Capacity d) \<or>
          cp_MemoryBytes (ob_Available ob) > cp_MemoryBytes (nd_Capacity d) \<or> cp_DiskBytes (ob_Available ob) > cp_DiskBytes (nd_Capacity d))
          ''node_observation_capacity_invalid'' @
        concat (map (\<lambda>tool. reason (tool \<notin> set (nd_Tools d)) ''node_observation_tool_drift'') (ob_AvailableTools ob)) @
        concat (map (\<lambda>r. reason (r \<notin> set (nd_Runtimes d)) ''node_observation_runtime_drift'') (ob_AvailableRuntimes ob)) @
        reason (ob_Health ob \<noteq> HealthHealthy) ''node_health_unavailable'' @
        reason (now = 0 \<or> ob_ObservedAt ob = 0 \<or> ob_ExpiresAt ob = 0 \<or> now < ob_ObservedAt ob \<or> \<not> now < ob_ExpiresAt ob) ''node_observation_stale'' @
        reason (rq_OS rq \<noteq> [] \<and> nd_OS d \<noteq> rq_OS rq) ''os_mismatch'' @
        reason (rq_Architecture rq \<noteq> [] \<and> nd_Architecture d \<noteq> rq_Architecture rq) ''architecture_mismatch'' @
        reason (cp_CPUMillis (ob_Available ob) < cp_CPUMillis (rq_Minimum rq) \<or> cp_MemoryBytes (ob_Available ob) < cp_MemoryBytes (rq_Minimum rq) \<or>
          cp_DiskBytes (ob_Available ob) < cp_DiskBytes (rq_Minimum rq)) ''capacity_unavailable'' @
        concat (map (\<lambda>tool. reason (tool \<notin> set (ob_AvailableTools ob)) (''tool_unavailable:'' @ tl_Name tool)) (normalizeTools (rq_Tools rq))) @
        reason (accessRank (nd_RepositoryAccess d) < accessRank (rq_RepositoryAccess rq)) ''repository_access_unavailable'' @
        reason (bd_ID (rq_Runtime rq) \<noteq> [] \<and> rq_Runtime rq \<notin> set (ob_AvailableRuntimes ob)) ''runtime_unavailable'' @
        reason (ob_ActiveLeases ob \<ge> nd_MaxActiveLeases d) ''lease_limit_reached'';
        reasons = uniqueStrings reasons in
      \<lparr> el_Eligible = (reasons = []), el_Reasons = reasons \<rparr>)"

section \<open>What eligibility means\<close>

lemma reason_Nil [simp]: "reason b text = [] \<longleftrightarrow> \<not> b"
  by (simp add: reason_def)

lemma foldl_unique_nonempty:
  "acc \<noteq> [] \<Longrightarrow> foldl (\<lambda>result value. if result = [] \<or> last result \<noteq> value then result @ [value] else result) acc vs \<noteq> []"
  by (induction vs arbitrary: acc) auto

lemma unique_adjacent_Nil [simp]: "unique_adjacent vs = [] \<longleftrightarrow> vs = []"
  using foldl_unique_nonempty [of "[hd vs]" "tl vs"] by (cases vs) (auto simp: unique_adjacent_def)

lemma set_unique_adjacent [simp]: "set (unique_adjacent vs) = set vs"
proof -
  have "set (foldl (\<lambda>result value. if result = [] \<or> last result \<noteq> value then result @ [value] else result) acc vs) = set acc \<union> set vs" for acc
  proof (induction vs arbitrary: acc)
    case (Cons v vs)
    have "v \<in> set acc" if "acc \<noteq> []" "last acc = v" using last_in_set [OF that(1)] that(2) by simp
    then show ?case using Cons.IH by auto
  qed simp
  then show ?thesis by (simp add: unique_adjacent_def)
qed

text \<open>The node can take work now: verified, active, freshly and healthily observed as defined, with room for the requirements.\<close>

definition node_ready :: "(Definition \<Rightarrow> string) \<Rightarrow> Definition \<Rightarrow> Observation \<Rightarrow> Requirements \<Rightarrow> time \<Rightarrow> bool" where
  "node_ready hash d ob rq now \<longleftrightarrow>
     is_ok (VerifyDefinition hash d) \<and> nd_Lifecycle d = LifecycleActive \<and> ob_Node ob = node_reference d \<and> validCapacity (ob_Available ob) \<and>
     (\<forall>f\<in>{cp_CPUMillis, cp_MemoryBytes, cp_DiskBytes}. f (rq_Minimum rq) \<le> f (ob_Available ob) \<and> f (ob_Available ob) \<le> f (nd_Capacity d)) \<and>
     set (rq_Tools rq) \<subseteq> set (ob_AvailableTools ob) \<and> set (ob_AvailableTools ob) \<subseteq> set (nd_Tools d) \<and>
     set (ob_AvailableRuntimes ob) \<subseteq> set (nd_Runtimes d) \<and> (bd_ID (rq_Runtime rq) = [] \<or> rq_Runtime rq \<in> set (ob_AvailableRuntimes ob)) \<and>
     ob_Health ob = HealthHealthy \<and> now \<noteq> 0 \<and> ob_ObservedAt ob \<noteq> 0 \<and> ob_ExpiresAt ob \<noteq> 0 \<and> ob_ObservedAt ob \<le> now \<and> now < ob_ExpiresAt ob \<and>
     rq_OS rq \<in> {[], nd_OS d} \<and> rq_Architecture rq \<in> {[], nd_Architecture d} \<and>
     accessRank (rq_RepositoryAccess rq) \<le> accessRank (nd_RepositoryAccess d) \<and> ob_ActiveLeases ob < nd_MaxActiveLeases d"

lemma sort_Nil_iff: "sort_key f xs = [] \<longleftrightarrow> xs = []"
  by (metis length_0_conv length_sort)

lemma Evaluate_ready: "el_Eligible (Evaluate hash d ob rq now) \<longleftrightarrow> node_ready hash d ob rq now"
  unfolding Evaluate_def node_ready_def Let_def uniqueStrings_def
  by (simp add: sort_Nil_iff normalizeTools_def subset_iff not_less not_le) (auto simp: not_le)

lemma Evaluate_reasons: "el_Reasons (Evaluate hash d ob rq now) = [] \<longleftrightarrow> node_ready hash d ob rq now"
  unfolding Evaluate_ready [symmetric] by (simp add: Evaluate_def Let_def)

end
