(* ===== verification/Dispatch_Selection.thy ===== *)
theory Dispatch_Selection
  imports Compute_Node Registry_Service Assignment_Control "HOL-Library.Multiset"
begin

text \<open>
  The choice of a worker and a node for a work package, src/internal/orchestration/selection.go: every
  candidate is accepted or gets the reasons of its rejection, in a fixed order of checks, and the first
  of the accepted candidates is selected, or the one that an operator names. The projections of tasks are
  those of src/internal/storage/task\_projection.go.
\<close>

section \<open>Types\<close>

datatype selection_error = ErrInvalidSelection string

datatype RiskLevel = SelectRiskLow | SelectRiskModerate | SelectRiskHigh | SelectRiskCritical | SelectRiskOther string

record DispatchBudget =
  db_MaxTokens :: int
  db_MaxCostMicros :: int
  db_MaxWallClock :: duration
  db_MaxConcurrentWorker :: int

record PreflightEvidence =
  pe_GateID :: string
  pe_Version :: int
  pe_Digest :: string
  pe_EvidenceID :: string
  pe_EvidenceDigest :: string

record WorkerNodePreference =
  pf_WorkerID :: string
  pf_NodeID :: string

record SelectionPolicy =
  sp_AllowedCapabilities :: "ExecutionCapability list"
  sp_MaximumRisk :: RiskLevel
  sp_MaximumBudget :: DispatchBudget
  sp_ActiveAssignments :: int
  sp_GateEvidence :: "PreflightEvidence list"
  sp_PreferredWorkerNodePair :: "WorkerNodePreference list"

record OperatorOverride =
  ov_WorkerID :: string
  ov_NodeID :: string
  ov_ActorID :: string
  ov_ReasonCode :: string

record Candidate =
  ca_Worker :: WorkerProfile
  ca_Trade :: TradeDefinition
  ca_Runtime :: BindingReference
  ca_RuntimeAvailable :: bool
  ca_RuntimeCapabilities :: "ExecutionCapability list"
  ca_Node :: Definition
  ca_Observation :: Observation

record ProjectTaskProjection =
  tp_ProjectID :: string
  tp_TaskID :: string
  tp_TaskRevision :: int
  tp_GraphRevision :: int
  tp_TaskRecordID :: string
  tp_TaskRecordHash :: string
  tp_TaskRecordPath :: string
  tp_GraphRecordID :: string
  tp_GraphRecordHash :: string
  tp_GraphRecordPath :: string
  tp_Objective :: string
  tp_Priority :: string
  tp_State :: string
  tp_ExplanationCode :: string
  tp_EventWatermark :: string
  tp_ParallelReady :: "string list"
  tp_CreatedAt :: time

record ProjectTaskNodeProjection =
  tn_ProjectID :: string
  tn_TaskID :: string
  tn_TaskRevision :: int
  tn_GraphRevision :: int
  tn_WorkPackageID :: string
  tn_DefinitionRecordID :: string
  tn_DefinitionHash :: string
  tn_DefinitionPath :: string
  tn_CanonicalState :: string
  tn_Readiness :: string
  tn_ExplanationCode :: string
  tn_Dependencies :: "string list"
  tn_Barrier :: bool

record SelectionRequest =
  sq_Task :: ProjectTaskProjection
  sq_Node :: ProjectTaskNodeProjection
  sq_WorkPackage :: WorkPackageDefinition
  sq_WorkPackageDigest :: string
  sq_Adaptation :: "ProjectTradeAdaptation option"
  sq_Risk :: RiskLevel
  sq_RequestedBudget :: DispatchBudget
  sq_RequiredRuntime :: "ExecutionCapability list"
  sq_RequiredGates :: "GateRequirement list"
  sq_Policy :: SelectionPolicy
  sq_Candidates :: "Candidate list"
  sq_Override :: "OperatorOverride option"
  sq_Now :: time

record CandidateIdentity =
  ci_WorkerID :: string
  ci_WorkerVersion :: int
  ci_NodeID :: string
  ci_NodeVersion :: int
  ci_RuntimeID :: string
  ci_RuntimeVer :: int
  ci_Provider :: string
  ci_Model :: string
  ci_ModelVersion :: string

record CandidateExplanation =
  ce_Candidate :: CandidateIdentity
  ce_Accepted :: bool
  ce_Reasons :: "string list"

record SelectionResult =
  sr_Selected :: "CandidateIdentity option"
  sr_Explanations :: "CandidateExplanation list"
  sr_Blocked :: bool
  sr_BlockReasons :: "string list"
  sr_Override :: "OperatorOverride option"
  sr_AssignmentAuditReason :: string

definition MaxSelectionCandidates :: int where
  "MaxSelectionCandidates = 256"

definition ReadinessReady_text :: string where
  "ReadinessReady_text = ''ready''"

section \<open>Checks on the request\<close>

definition validDispatchBudget :: "DispatchBudget \<Rightarrow> bool" where
  "validDispatchBudget b \<longleftrightarrow> 0 < db_MaxTokens b \<and> 0 < db_MaxCostMicros b \<and> 0 < db_MaxWallClock b \<and> 0 < db_MaxConcurrentWorker b"

definition validRisk :: "RiskLevel \<Rightarrow> bool" where
  "validRisk r \<longleftrightarrow> r = SelectRiskLow \<or> r = SelectRiskModerate \<or> r = SelectRiskHigh \<or> r = SelectRiskCritical"

definition riskRank :: "RiskLevel \<Rightarrow> int" where
  "riskRank r = (case r of SelectRiskLow \<Rightarrow> 0 | SelectRiskModerate \<Rightarrow> 1 | SelectRiskHigh \<Rightarrow> 2 | SelectRiskCritical \<Rightarrow> 3 | _ \<Rightarrow> -1)"

definition validRegistryReference :: "RegistryReference \<Rightarrow> bool" where
  "validRegistryReference v \<longleftrightarrow> validID (rref_ID v) \<and> 0 < rref_Version v \<and> validDigest (rref_Digest v)"

definition select_validBinding :: "BindingReference \<Rightarrow> string \<Rightarrow> bool" where
  "select_validBinding v pre \<longleftrightarrow> validID (bd_ID v) \<and> HasPrefix (bd_ID v) pre \<and> 0 < bd_Version v \<and> validDigest (bd_Digest v)"

definition validCapabilities :: "ExecutionCapability list \<Rightarrow> bool" where
  "validCapabilities vs = list_all knownCapability vs"

text \<open>\<open>fmt.Sprint\<close> of an integer.\<close>

fun nat_text :: "nat \<Rightarrow> string" where
  "nat_text n = (if n < 10 then [char_of (48 + n)] else nat_text (n div 10) @ [char_of (48 + n mod 10)])"

declare nat_text.simps [simp del]

definition Sprint :: "int \<Rightarrow> string" where
  "Sprint i = (if i < 0 then CHR ''-'' # nat_text (nat (- i)) else nat_text (nat i))"

definition gate_text :: "string \<Rightarrow> int \<Rightarrow> string \<Rightarrow> string" where
  "gate_text gid version digest = gid @ [char_of (0 :: nat)] @ Sprint version @ [char_of (0 :: nat)] @ digest"

definition validateGateEvidence :: "PreflightEvidence list \<Rightarrow> selection_error + unit" where
  "validateGateEvidence vs =
     rbind (distinct_loop (\<lambda>v. if \<not> validID (pe_GateID v) \<or> pe_Version v < 1 \<or> \<not> validDigest (pe_Digest v) \<or> \<not> validID (pe_EvidenceID v) \<or>
         \<not> validDigest (pe_EvidenceDigest v) then Inl (ErrInvalidSelection []) else ok)
       (\<lambda>v. gate_text (pe_GateID v) (pe_Version v) (pe_Digest v)) (ErrInvalidSelection []) [] vs) (\<lambda>_. ok)"

definition validGateRequirements :: "GateRequirement list \<Rightarrow> bool" where
  "validGateRequirements vs =
     is_ok (distinct_loop (\<lambda>v. if \<not> validID (gr_GateID v) \<or> gr_Version v < 1 \<or> \<not> validDigest (gr_Digest v) then Inl (ErrInvalidSelection []) else ok)
       (\<lambda>v. gate_text (gr_GateID v) (gr_Version v) (gr_Digest v)) (ErrInvalidSelection []) [] vs)"

definition candidateIdentity :: "Candidate \<Rightarrow> CandidateIdentity" where
  "candidateIdentity c =
     \<lparr> ci_WorkerID = wp_WorkerID (ca_Worker c), ci_WorkerVersion = wp_Version (ca_Worker c), ci_NodeID = nd_NodeID (ca_Node c),
       ci_NodeVersion = nd_Version (ca_Node c), ci_RuntimeID = bd_ID (ca_Runtime c), ci_RuntimeVer = bd_Version (ca_Runtime c),
       ci_Provider = wp_Provider (ca_Worker c), ci_Model = wp_Model (ca_Worker c), ci_ModelVersion = wp_ModelVersion (ca_Worker c) \<rparr>"

definition identity_text :: "CandidateIdentity \<Rightarrow> string" where
  "identity_text i = (let z = [char_of (0 :: nat)] in
     ci_WorkerID i @ z @ Sprint (ci_WorkerVersion i) @ z @ ci_NodeID i @ z @ Sprint (ci_NodeVersion i) @ z @ ci_RuntimeID i @ z @ Sprint (ci_RuntimeVer i))"

definition adaptation_invalid :: "ProjectTradeAdaptation \<Rightarrow> bool" where
  "adaptation_invalid a \<longleftrightarrow> \<not> validID (pa_ProjectID a) \<or> \<not> validID (pa_AdaptationID a) \<or> pa_Version a < 1 \<or> \<not> validLifecycle (pa_Lifecycle a) \<or>
     \<not> validID (pa_TradeID a) \<or> pa_TradeVersion a < 1 \<or> \<not> list_all validID (pa_RequiredCapabilities a)"

definition validateSelectionRequest :: "SelectionRequest \<Rightarrow> selection_error + unit" where
  "validateSelectionRequest r =
     (let policy = sq_Policy r; invalid = Inl (ErrInvalidSelection []) in
      if sq_Now r = 0 \<or> \<not> validRisk (sq_Risk r) \<or> \<not> validRisk (sp_MaximumRisk policy) \<or> \<not> validDispatchBudget (sq_RequestedBudget r) \<or>
         \<not> validDispatchBudget (sp_MaximumBudget policy) \<or> db_MaxConcurrentWorker (sp_MaximumBudget policy) > 2 \<or> sp_ActiveAssignments policy < 0 \<or>
         int (length (sq_Candidates r)) > MaxSelectionCandidates \<or> \<not> validCapabilities (sq_RequiredRuntime r) \<or>
         \<not> validCapabilities (sp_AllowedCapabilities policy) \<or> \<not> validGateRequirements (sq_RequiredGates r)
      then invalid
      else if (case wpd_TradeReference (sq_WorkPackage r) of None \<Rightarrow> True | Some t \<Rightarrow> \<not> validRegistryReference t) \<or> \<not> validDigest (sq_WorkPackageDigest r)
      then invalid
      else if (case sq_Adaptation r of None \<Rightarrow> False | Some a \<Rightarrow> adaptation_invalid a) then invalid
      else
        rbind (validateGateEvidence (sp_GateEvidence policy)) (\<lambda>_.
        rbind (distinct_loop (\<lambda>p. if \<not> validID (pf_WorkerID p) \<or> \<not> validID (pf_NodeID p) then invalid else ok)
                (\<lambda>p. pf_WorkerID p @ [char_of (0 :: nat)] @ pf_NodeID p) (ErrInvalidSelection []) [] (sp_PreferredWorkerNodePair policy)) (\<lambda>_.
        if (case sq_Override r of None \<Rightarrow> False
            | Some ov \<Rightarrow> \<not> validID (ov_WorkerID ov) \<or> \<not> validID (ov_NodeID ov) \<or> \<not> validID (ov_ActorID ov) \<or> \<not> validID (ov_ReasonCode ov))
        then invalid
        else rbind (distinct_loop (\<lambda>_. ok) (\<lambda>c. identity_text (candidateIdentity c)) (ErrInvalidSelection []) [] (sq_Candidates r)) (\<lambda>_. ok))))"

section \<open>Reasons\<close>

definition authorityReasons :: "SelectionRequest \<Rightarrow> string list" where
  "authorityReasons r =
     (let work = sq_WorkPackage r; task = sq_Task r; node = sq_Node r; project = hdr_ProjectID (wpd_Header work) in
      if tp_ProjectID task \<noteq> project \<or> tn_ProjectID node \<noteq> project \<or> tp_TaskID task \<noteq> wpd_TaskID work \<or> tn_TaskID node \<noteq> wpd_TaskID work \<or>
         tp_TaskRevision task \<noteq> wpd_TaskRevision work \<or> tn_TaskRevision node \<noteq> wpd_TaskRevision work \<or>
         tp_GraphRevision task \<noteq> wpd_GraphRevision work \<or> tn_GraphRevision node \<noteq> wpd_GraphRevision work \<or>
         tn_WorkPackageID node \<noteq> wpd_WorkPackageID work \<or> tn_DefinitionRecordID node \<noteq> hdr_RecordID (wpd_Header work) \<or>
         tn_DefinitionHash node \<noteq> sq_WorkPackageDigest r
      then [''work_package_authority_mismatch'']
      else if tn_Readiness node \<noteq> ReadinessReady_text then [''work_package_not_ready'']
      else if tp_State task \<noteq> ReadinessReady_text then [''task_not_dispatchable'']
      else case (sq_Adaptation r, wpd_TradeReference work) of
        (Some a, Some t) \<Rightarrow>
          if pa_ProjectID a \<noteq> project \<or> pa_TradeID a \<noteq> rref_ID t \<or> pa_TradeVersion a \<noteq> rref_Version t \<or> pa_Lifecycle a \<noteq> RegistryActive
          then [''project_trade_authority_mismatch''] else []
      | _ \<Rightarrow> [])"

definition required_capabilities :: "Candidate \<Rightarrow> SelectionRequest \<Rightarrow> string list" where
  "required_capabilities c r = td_RequiredCapabilities (ca_Trade c) @ (case sq_Adaptation r of None \<Rightarrow> [] | Some a \<Rightarrow> pa_RequiredCapabilities a)"

text \<open>The trade reference of the work package is present once the request has been validated.\<close>

definition tradeAndCapabilityReasons :: "Candidate \<Rightarrow> SelectionRequest \<Rightarrow> string list" where
  "tradeAndCapabilityReasons c r =
     (case wpd_TradeReference (sq_WorkPackage r) of
        None \<Rightarrow> [''trade_authority_mismatch'']
      | Some reference \<Rightarrow>
          if td_TradeID (ca_Trade c) \<noteq> rref_ID reference \<or> td_Version (ca_Trade c) \<noteq> rref_Version reference \<or>
             td_ContentHash (ca_Trade c) \<noteq> rref_Digest reference then [''trade_authority_mismatch'']
          else if td_Lifecycle (ca_Trade c) \<noteq> RegistryActive then [''trade_unavailable'']
          else if wp_Lifecycle (ca_Worker c) \<noteq> RegistryActive then [''worker_unavailable'']
          else if wp_TradeID (ca_Worker c) \<noteq> rref_ID reference \<or> wp_TradeVersion (ca_Worker c) \<noteq> rref_Version reference then [''worker_trade_mismatch'']
          else map (\<lambda>capability. ''missing_capability:'' @ capability)
                 (cm_MissingRequired (MatchCapabilities (wp_CapabilityTags (ca_Worker c)) (required_capabilities c r) [])))"

definition no_capacity :: Capacity where
  "no_capacity = \<lparr> cp_CPUMillis = 0, cp_MemoryBytes = 0, cp_DiskBytes = 0 \<rparr>"

definition node_requirements :: "Candidate \<Rightarrow> SelectionRequest \<Rightarrow> Requirements" where
  "node_requirements c r = \<lparr> rq_OS = [], rq_Architecture = [], rq_Minimum = no_capacity, rq_Tools = [],
     rq_RepositoryAccess = (if CapabilityWrite \<in> set (sq_RequiredRuntime r) \<or> CapabilityBranch \<in> set (sq_RequiredRuntime r)
       then RepositoryWrite else RepositoryRead), rq_Runtime = ca_Runtime c \<rparr>"

definition runtimeAndNodeReasons :: "(Definition \<Rightarrow> string) \<Rightarrow> Candidate \<Rightarrow> SelectionRequest \<Rightarrow> string list" where
  "runtimeAndNodeReasons hash c r =
     (if wp_RuntimeID (ca_Worker c) \<noteq> bd_ID (ca_Runtime c) \<or> wp_RuntimeVersion (ca_Worker c) \<noteq> bd_Version (ca_Runtime c) \<or>
         \<not> select_validBinding (ca_Runtime c) ''runtime:'' then [''runtime_worker_mismatch'']
      else if \<not> ca_RuntimeAvailable c then [''runtime_unavailable'']
      else el_Reasons (Evaluate hash (ca_Node c) (ca_Observation c) (node_requirements c r) (sq_Now r)))"

definition permissionReasons :: "Candidate \<Rightarrow> SelectionRequest \<Rightarrow> string list" where
  "permissionReasons c r = concat (map (\<lambda>capability.
     reason (capability \<notin> set (sp_AllowedCapabilities (sq_Policy r))) (''capability_denied_by_policy:'' @ capability) @
     reason (capability \<notin> set (ca_RuntimeCapabilities c)) (''runtime_capability_unavailable:'' @ capability)) (sort (sq_RequiredRuntime r)))"

definition gateEvidenceAvailable :: "GateRequirement \<Rightarrow> PreflightEvidence list \<Rightarrow> bool" where
  "gateEvidenceAvailable g evidence =
     list_ex (\<lambda>v. pe_GateID v = gr_GateID g \<and> pe_Version v = gr_Version g \<and> pe_Digest v = gr_Digest g) evidence"

definition riskAndGateReasons :: "SelectionRequest \<Rightarrow> string list" where
  "riskAndGateReasons r =
     (if riskRank (sq_Risk r) > riskRank (sp_MaximumRisk (sq_Policy r)) then [''risk_limit_exceeded'']
      else case find (\<lambda>g. \<not> gateEvidenceAvailable g (sp_GateEvidence (sq_Policy r))) (sq_RequiredGates r) of
        Some g \<Rightarrow> [''missing_gate_evidence:'' @ gr_GateID g] | None \<Rightarrow> [])"

definition budgetReasons :: "SelectionRequest \<Rightarrow> string list" where
  "budgetReasons r =
     (let requested = sq_RequestedBudget r; maximum = sp_MaximumBudget (sq_Policy r) in
      if db_MaxTokens requested > db_MaxTokens maximum then [''budget_tokens_exceeded'']
      else if db_MaxCostMicros requested > db_MaxCostMicros maximum then [''budget_cost_exceeded'']
      else if db_MaxWallClock requested > db_MaxWallClock maximum then [''budget_timeout_exceeded'']
      else if db_MaxConcurrentWorker requested > db_MaxConcurrentWorker maximum then [''budget_concurrency_exceeded'']
      else if sp_ActiveAssignments (sq_Policy r) \<ge> db_MaxConcurrentWorker maximum then [''concurrency_limit_reached'']
      else [])"

fun first_reasons :: "string list list \<Rightarrow> string list" where
  "first_reasons [] = []"
| "first_reasons (rs # rest) = (if rs \<noteq> [] then rs else first_reasons rest)"

definition candidateReasons :: "(Definition \<Rightarrow> string) \<Rightarrow> Candidate \<Rightarrow> SelectionRequest \<Rightarrow> string list" where
  "candidateReasons hash c r =
     first_reasons [tradeAndCapabilityReasons c r, runtimeAndNodeReasons hash c r, permissionReasons c r, riskAndGateReasons r, budgetReasons r]"

section \<open>Selection\<close>

definition identity_key :: "CandidateIdentity \<Rightarrow> string \<times> int \<times> string \<times> int \<times> string \<times> int" where
  "identity_key i = (ci_WorkerID i, ci_WorkerVersion i, ci_NodeID i, ci_NodeVersion i, ci_RuntimeID i, ci_RuntimeVer i)"

definition normalizedCandidates :: "Candidate list \<Rightarrow> Candidate list" where
  "normalizedCandidates vs = sort_key (\<lambda>c. identity_key (candidateIdentity c)) vs"

fun preferenceRank :: "CandidateIdentity \<Rightarrow> WorkerNodePreference list \<Rightarrow> nat" where
  "preferenceRank i [] = 0"
| "preferenceRank i (p # ps) = (if pf_WorkerID p = ci_WorkerID i \<and> pf_NodeID p = ci_NodeID i then 0 else Suc (preferenceRank i ps))"

definition preference_key :: "WorkerNodePreference list \<Rightarrow> CandidateIdentity \<Rightarrow> nat \<times> string \<times> int \<times> string \<times> int \<times> string \<times> int" where
  "preference_key ps i = (preferenceRank i ps, identity_key i)"

definition explanation :: "(Definition \<Rightarrow> string) \<Rightarrow> SelectionRequest \<Rightarrow> Candidate \<Rightarrow> CandidateExplanation" where
  "explanation hash r c =
     (let reasons = (if authorityReasons r = [] then candidateReasons hash c r else authorityReasons r) in
      \<lparr> ce_Candidate = candidateIdentity c, ce_Accepted = (reasons = []), ce_Reasons = reasons \<rparr>)"

definition acceptedCandidates :: "CandidateExplanation list \<Rightarrow> CandidateExplanation list" where
  "acceptedCandidates es = filter ce_Accepted es"

definition findOverride :: "CandidateExplanation list \<Rightarrow> OperatorOverride \<Rightarrow> CandidateExplanation option" where
  "findOverride es ov = find (\<lambda>e. ci_WorkerID (ce_Candidate e) = ov_WorkerID ov \<and> ci_NodeID (ce_Candidate e) = ov_NodeID ov) es"

definition selectionBlockReasons :: "string list \<Rightarrow> CandidateExplanation list \<Rightarrow> string list" where
  "selectionBlockReasons global es =
     (if global \<noteq> [] then global
      else let reasons = concat (map ce_Reasons es) in if reasons = [] then [''no_registered_candidates''] else uniqueStrings reasons)"

definition candidate_explanations :: "(Definition \<Rightarrow> string) \<Rightarrow> SelectionRequest \<Rightarrow> CandidateExplanation list" where
  "candidate_explanations hash r =
     sort_key (identity_key \<circ> ce_Candidate) (map (explanation hash r) (normalizedCandidates (sq_Candidates r)))"

text \<open>The accepted explanations, most preferred first, and the choice among them.\<close>

definition ranked :: "WorkerNodePreference list \<Rightarrow> CandidateExplanation list \<Rightarrow> CandidateExplanation list" where
  "ranked preferences accepted = sort_key (preference_key preferences \<circ> ce_Candidate) accepted"

definition choose_accepted :: "SelectionResult \<Rightarrow> OperatorOverride option \<Rightarrow> CandidateExplanation list \<Rightarrow> SelectionResult" where
  "choose_accepted result override accepted =
     (case override of
        None \<Rightarrow> result\<lparr> sr_Selected := Some (ce_Candidate (hd accepted)) \<rparr>
      | Some ov \<Rightarrow>
          (case findOverride accepted ov of
             None \<Rightarrow> result\<lparr> sr_Blocked := True, sr_BlockReasons := [''operator_override_not_eligible''] \<rparr>
           | Some e \<Rightarrow> result\<lparr> sr_Selected := Some (ce_Candidate e), sr_Override := Some ov,
               sr_AssignmentAuditReason := ''operator_override'' \<rparr>))"

definition Select :: "(Definition \<Rightarrow> string) \<Rightarrow> SelectionRequest \<Rightarrow> selection_error + SelectionResult" where
  "Select hash r =
     rbind (validateSelectionRequest r) (\<lambda>_.
     let explanations = candidate_explanations hash r;
         accepted = acceptedCandidates explanations;
         result = \<lparr> sr_Selected = None, sr_Explanations = explanations, sr_Blocked = False, sr_BlockReasons = [], sr_Override = None,
           sr_AssignmentAuditReason = ''deterministic_selection'' \<rparr> in
     if accepted = [] then Inr (result\<lparr> sr_Blocked := True, sr_BlockReasons := selectionBlockReasons (authorityReasons r) explanations \<rparr>)
     else Inr (choose_accepted result (sq_Override r) (ranked (sp_PreferredWorkerNodePair (sq_Policy r)) accepted)))"

definition ApplySelectionToPlan :: "SelectionResult \<Rightarrow> PlanRequest \<Rightarrow> selection_error + PlanRequest" where
  "ApplySelectionToPlan result plan =
     (case sr_Selected result of
        None \<Rightarrow> Inl (ErrInvalidSelection [])
      | Some i \<Rightarrow>
          if sr_Blocked result \<or> \<not> validID (ci_WorkerID i) \<or> \<not> validID (ci_NodeID i) then Inl (ErrInvalidSelection [])
          else if pl_WorkerID plan \<noteq> ci_WorkerID i \<or> pl_NodeID plan \<noteq> ci_NodeID i
          then Inl (ErrInvalidSelection ''selected worker/node does not match assignment'')
          else case sr_Override result of
            None \<Rightarrow> Inr (plan\<lparr> pl_AssignmentReason := sr_AssignmentAuditReason result \<rparr>)
          | Some ov \<Rightarrow>
              if pl_ActorID plan \<noteq> [] \<and> pl_ActorID plan \<noteq> ov_ActorID ov
              then Inl (ErrInvalidSelection ''override actor does not match assignment audit'')
              else Inr (plan\<lparr> pl_ActorID := ov_ActorID ov, pl_AssignmentReason := sr_AssignmentAuditReason result \<rparr>))"

end
