(* ===== verification/Contract_Safety.thy ===== *)
theory Contract_Safety
  imports Execution_Contract
begin

text \<open>
  What execution contracts promise over their life: no completion without the gates, and a chain of
  amendments in which only terms change. An example contract shows that the hypotheses can hold.
\<close>

section \<open>Evidence\<close>

definition passed :: "GateEvidence list \<Rightarrow> string \<Rightarrow> int \<Rightarrow> string \<Rightarrow> bool" where
  "passed evidence gid version digest \<longleftrightarrow>
     (\<exists>e\<in>set evidence. ge_Satisfied e \<and> ge_GateID e = gid \<and> ge_Version e = version \<and> ge_Digest e = digest)"

lemma satisfied_map_Some:
  "map_of (satisfied_map evidence) gid = Some e \<Longrightarrow> e \<in> set evidence \<and> ge_Satisfied e \<and> ge_GateID e = gid"
proof (induction evidence rule: rev_induct)
  case (snoc x xs)
  have "satisfied_map (xs @ [x]) = (if ge_Satisfied x then go_put (ge_GateID x) x (satisfied_map xs) else satisfied_map xs)"
    by (simp add: satisfied_map_def)
  then show ?case using snoc by (auto simp: map_of_go_put split: if_splits)
qed (simp add: satisfied_map_def)

lemma accepted_passed:
  assumes "cd_Accepted (EvaluateCompletion gates evidence claim)" "g \<in> set gates"
  shows "passed evidence (gr_GateID g) (gr_Version g) (gr_Digest g)"
proof -
  have "\<not> gate_missing (satisfied_map evidence) g"
    using assms by (auto simp: EvaluateCompletion_def Let_def filter_empty_conv split: if_splits)
  then obtain e where "map_of (satisfied_map evidence) (gr_GateID g) = Some e" "ge_Version e = gr_Version g" "ge_Digest e = gr_Digest g"
    by (auto simp: gate_missing_def split: option.splits)
  then show ?thesis using satisfied_map_Some [of evidence "gr_GateID g" e] by (auto simp: passed_def)
qed

lemma required_passed:
  assumes accepted: "cd_Accepted (EvaluateCompletion gates evidence claim)" and gates: "gates = sort_key gr_GateID (map snd m)"
    and req: "requires m gid version digest"
  shows "passed evidence gid version digest"
proof -
  obtain g where g: "map_of m gid = Some g" "gr_GateID g = gid" "gr_Version g = version" "gr_Digest g = digest"
    using req by (auto simp: requires_def)
  have "g \<in> set gates" using map_of_SomeD [OF g(1)] by (force simp: gates)
  then show ?thesis using accepted_passed [OF accepted] g(2-4) by auto
qed

text \<open>The built-in gates that a request calls for.\<close>

definition high_risk :: "BuildRequest \<Rightarrow> string set \<Rightarrow> bool" where
  "high_risk r names \<longleftrightarrow> (\<exists>k\<in>set (task_Risk (bq_Task r) @ wpd_Risk (bq_WorkPackage r)). rd_Level k \<in> {RiskHigh, RiskCritical} \<and> rd_Name k \<in> names)"

definition builtin_passed :: "codec \<Rightarrow> GateEvidence list \<Rightarrow> string \<Rightarrow> bool" where
  "builtin_passed codec evidence gid = passed evidence gid 1 (cdc_digest codec (gid @ '':v1''))"

definition budget_fields :: "(BudgetLimits \<Rightarrow> int) list" where
  "budget_fields = [bl_MaxTokens, bl_MaxCostMicros, bl_MaxWallClockSeconds, bl_MaxRetries, bl_MaxToolCalls, bl_MaxConcurrentWorkers]"

lemma Min_insert_min: "finite S \<Longrightarrow> Min (insert (min x y) S) = Min (insert x (insert y S))"
  by (cases "S = {}") (auto simp: min.assoc)

lemma cap_layers_Inr:
  assumes "cap_layers b layers = Inr b'" "field \<in> set budget_fields"
  shows "field b' = Min (field ` insert b (ly_BudgetCeiling ` set layers))"
  using assms(1)
proof (induction layers arbitrary: b)
  case (Cons l layers)
  have "field (cap_budget b (ly_BudgetCeiling l)) = min (field b) (field (ly_BudgetCeiling l))"
    using assms(2) by (auto simp: budget_fields_def cap_budget_def)
  moreover have "cap_layers (cap_budget b (ly_BudgetCeiling l)) layers = Inr b'" using Cons.prems by (simp split: sum.splits)
  ultimately show ?case using Cons.IH by (simp add: Min_insert_min)
qed simp

lemma validateBudget_cap: "validateBudget a = ok \<Longrightarrow> validateBudget b = ok \<Longrightarrow> validateBudget (cap_budget a b) = ok"
  by (auto simp: validateBudget_def cap_budget_def split: if_splits)

lemma effectiveBudget_seconds:
  assumes "effectiveBudget b layers = Inr b'"
  shows "bl_MaxWallClockSeconds b' \<le> bl_MaxWallClockSeconds b" "bl_MaxWallClockSeconds b \<le> maxDurationSeconds" "1 \<le> bl_MaxWallClockSeconds b'"
proof -
  have valid: "validateBudget b = ok" and cap: "cap_layers b layers = Inr b'" using assms by (auto simp: effectiveBudget_def rbind_eq_Inr)
  show "bl_MaxWallClockSeconds b \<le> maxDurationSeconds" using valid by (simp add: validateBudget_def split: if_splits)
  show "bl_MaxWallClockSeconds b' \<le> bl_MaxWallClockSeconds b"
    using cap_layers_Inr [OF cap, of bl_MaxWallClockSeconds] by (simp add: budget_fields_def)
  show "1 \<le> bl_MaxWallClockSeconds b'"
    using cap valid
  proof (induction layers arbitrary: b)
    case Nil
    then show ?case by (simp add: validateBudget_def split: if_splits)
  next
    case (Cons l layers)
    have "validateBudget (ly_BudgetCeiling l) = ok" "cap_layers (cap_budget b (ly_BudgetCeiling l)) layers = Inr b'"
      using Cons.prems(1) by (auto split: sum.splits)
    then show ?case using Cons.IH validateBudget_cap [OF Cons.prems(2)] by blast
  qed
qed

section \<open>An example\<close>

definition example_digest :: string where
  "example_digest = replicate 64 CHR ''0''"

definition example_budget :: BudgetLimits where
  "example_budget = \<lparr> bl_MaxTokens = 9, bl_MaxCostMicros = 9, bl_MaxWallClockSeconds = 9, bl_MaxRetries = 1, bl_MaxToolCalls = 9,
     bl_MaxConcurrentWorkers = 1 \<rparr>"

text \<open>Every layer allows to inspect and write under A; the layer of the user forbids A/0.\<close>

definition example_layer :: "string \<Rightarrow> PolicyLayer" where
  "example_layer name = \<lparr> ly_Name = name, ly_AllowedCapabilities = [CapabilityInspect, CapabilityWrite], ly_DeniedCapabilities = [],
     ly_InspectPaths = [''.''], ly_WritePaths = [''A''], ly_ForbiddenPaths = (if name = ''user'' then [''A/0''] else []),
     ly_AllowedSecretIDs = [], ly_BudgetCeiling = example_budget \<rparr>"

definition example_header :: RecordHeader where
  "example_header = \<lparr> hdr_Schema = \<lparr> sv_Family = [], sv_Major = 1, sv_Minor = 0 \<rparr>, hdr_RecordKind = RecordTaskRevision, hdr_RecordID = ''A'',
     hdr_ProjectID = ''A'', hdr_Integrity = \<lparr> int_Algorithm = HashAlgorithmSHA256, int_Digest = example_digest \<rparr> \<rparr>"

definition example_provenance :: Provenance where
  "example_provenance = \<lparr> prov_Producer = \<lparr> prod_WorkerID = [], prod_DeviceID = [], prod_Trade = [], prod_Specialization = [], prod_Provider = [],
       prod_Model = [], prod_ModelVersion = [] \<rparr>, prov_WorkPackageID = [], prov_ExecutionID = [], prov_SourceArtifactIDs = [], prov_ProjectVersion = [],
     prov_ContextVersion = [], prov_InstructionVersion = [], prov_CreatedAt = 1 \<rparr>"

definition example_binding :: "string \<Rightarrow> BindingReference" where
  "example_binding pre = \<lparr> bd_ID = pre @ ''A'', bd_Version = 1, bd_Digest = example_digest \<rparr>"

definition example_reference :: "string \<Rightarrow> RegistryReference" where
  "example_reference pre = \<lparr> rref_ID = pre @ ''A'', rref_Version = 1, rref_Digest = example_digest \<rparr>"

definition example_request :: BuildRequest where
  "example_request = \<lparr> bq_ContractID = ''contract:A'', bq_Version = 1, bq_Predecessor = None,
     bq_Task = \<lparr> task_Header = example_header, task_TaskID = ''A'', task_Revision = 1, task_Predecessor = None, task_Objective = [],
       task_Priority = TaskPriorityLow, task_Risk = [\<lparr> rd_Name = ''data'', rd_Level = RiskHigh \<rparr>], task_Resources = None, task_GraphRevision = 1,
       task_QualityGates = [], task_CreatedAt = 1, task_Provenance = example_provenance \<rparr>,
     bq_TaskDigest = example_digest,
     bq_Graph = \<lparr> dgr_Header = example_header, dgr_TaskID = ''A'', dgr_TaskRevision = 1, dgr_Revision = 1, dgr_Predecessor = None,
       dgr_Members = [\<lparr> dgm_WorkPackageID = ''A'', dgm_DefinitionRecordID = ''A'', dgm_DefinitionDigest = example_digest \<rparr>],
       dgr_DependencySetDigest = [], dgr_Barriers = [], dgr_CreatedAt = 1, dgr_Provenance = example_provenance \<rparr>,
     bq_GraphDigest = example_digest,
     bq_WorkPackage = \<lparr> wpd_Header = example_header, wpd_WorkPackageID = ''A'', wpd_Objective = [], wpd_Trade = [], wpd_Specialization = [],
       wpd_Scope = \<lparr> ws_Allowed = [''A''], ws_Inspect = [], ws_Forbidden = [] \<rparr>, wpd_Dependencies = [], wpd_Deliverables = [],
       wpd_AcceptanceCriteria = [], wpd_ReviewRequired = True, wpd_TaskID = ''A'', wpd_TaskRevision = 1, wpd_GraphRevision = 1,
       wpd_Priority = TaskPriorityLow, wpd_Risk = [], wpd_Resources = None, wpd_QualityGates = [],
       wpd_TradeReference = Some (example_reference ''trade:''), wpd_CreatedAt = 1, wpd_Provenance = example_provenance \<rparr>,
     bq_WorkPackageDigest = example_digest, bq_ExecutionID = ''execution:A'', bq_ProjectRevision = example_digest,
     bq_Trade = example_reference ''trade:'', bq_Worker = example_reference ''worker:'',
     bq_WorkerProfile = \<lparr> wp_WorkerID = ''worker:A'', wp_Version = 1, wp_Name = [], wp_Lifecycle = RegistryActive, wp_TradeID = ''trade:A'',
       wp_TradeVersion = 1, wp_InstructionID = [], wp_InstructionVer = 1, wp_RuntimeID = [], wp_RuntimeVersion = 1, wp_Provider = [], wp_Model = [],
       wp_ModelVersion = [], wp_ToolPolicyID = [], wp_ToolPolicyVer = 1, wp_CapabilityTags = [], wp_Evidence = \<lparr> rev_Source = [], rev_ObservedAt = 1, rev_Score = None, rev_SampleCount = 0, rev_EvidenceNote = [] \<rparr>,
       wp_ContentHash = example_digest, wp_CreatedAt = 1 \<rparr>,
     bq_Instruction = example_binding ''instruction:'', bq_ContextDigest = example_digest, bq_Runtime = example_binding ''runtime:'',
     bq_Provider = example_binding ''provider:'', bq_Model = example_binding ''model:'', bq_Node = example_binding ''node:'',
     bq_RequestedCapabilities = [CapabilityWrite, CapabilityInspect], bq_RequestedSecretIDs = [],
     bq_PolicyLayers = map example_layer policyLayerNames, bq_RequestedBudget = example_budget, bq_NotBefore = 1, bq_Deadline = 2,
     bq_CreatedAt = 1, bq_CreatedBy = ''actor:A'' \<rparr>"

definition example_codec :: codec where
  "example_codec = \<lparr> cdc_digest = (\<lambda>_. example_digest), cdc_marshal = ct_ContractID, cdc_unmarshal = (\<lambda>_. None) \<rparr>"

definition example_contract :: Contract where
  "example_contract = (case Build example_codec example_request of Inr (c, _) \<Rightarrow> c | Inl _ \<Rightarrow> contract_of example_request
     \<lparr> ep_Capabilities = [], ep_InspectPaths = [], ep_WritePaths = [], ep_Forbidden = [], ep_SecretIDs = [] \<rparr> example_budget [])"

lemma example_build: "\<exists>raw. Build example_codec example_request = Inr (example_contract, raw)"
proof -
  have "is_ok (Build example_codec example_request)" by code_simp
  then show ?thesis by (auto simp: example_contract_def is_ok_def split: sum.splits)
qed

section \<open>Properties\<close>

text \<open>
  C4. A contract opens exactly the paths that everybody allows: inspecting or writing a path is authorised if and only if
  the capability was requested, the path is a canonical project path in the scope of the work package, every one of the
  policy layers covers it, and neither the work package nor any layer forbids it.
\<close>

theorem AuthorizePath_exact:
  assumes build: "Build codec r = Inr (c, raw)"
  shows "is_ok (AuthorizePath (ct_Permissions c) capability path) \<longleftrightarrow>
    ValidateProjectRelativePath path \<and> capability \<in> set (bq_RequestedCapabilities r) \<and>
    \<not> covers (ws_Forbidden (wpd_Scope (bq_WorkPackage r))) path \<and> (\<forall>l\<in>set (bq_PolicyLayers r). \<not> covers (ly_ForbiddenPaths l) path) \<and>
    (capability = CapabilityWrite \<and> covers (ws_Allowed (wpd_Scope (bq_WorkPackage r))) path \<and>
       (\<forall>l\<in>set (bq_PolicyLayers r). covers (ly_WritePaths l) path) \<or>
     capability = CapabilityInspect \<and> covers (ws_Allowed (wpd_Scope (bq_WorkPackage r)) @ ws_Inspect (wpd_Scope (bq_WorkPackage r))) path \<and>
       (\<forall>l\<in>set (bq_PolicyLayers r). covers (ly_InspectPaths l) path))"
proof -
  note policy = evaluatePolicy_Inr [OF Build_Inr(1) [OF build]]
  have forbidden: "covers (ep_Forbidden (ct_Permissions c)) path \<longleftrightarrow>
      covers (ws_Forbidden (wpd_Scope (bq_WorkPackage r))) path \<or> (\<exists>l\<in>set (bq_PolicyLayers r). covers (ly_ForbiddenPaths l) path)"
    using policy(3) by (simp add: layers_of_request normalized_layer)
  have writable: "covers (ep_WritePaths (ct_Permissions c)) path \<longleftrightarrow> covers (ws_Allowed (wpd_Scope (bq_WorkPackage r))) path \<and>
      (\<forall>l\<in>set (bq_PolicyLayers r). covers (ly_WritePaths l) path)"
    if "CapabilityWrite \<in> set (bq_RequestedCapabilities r)" "\<not> covers (ep_Forbidden (ct_Permissions c)) path"
    using policy(5) covers_granted [OF that(2)] that(1) by (simp add: requested_capabilities layers_of_request normalized_layer)
  have inspectable: "covers (ep_InspectPaths (ct_Permissions c)) path \<longleftrightarrow>
      covers (ws_Allowed (wpd_Scope (bq_WorkPackage r)) @ ws_Inspect (wpd_Scope (bq_WorkPackage r))) path \<and>
      (\<forall>l\<in>set (bq_PolicyLayers r). covers (ly_InspectPaths l) path)"
    if "CapabilityInspect \<in> set (bq_RequestedCapabilities r)" "\<not> covers (ep_Forbidden (ct_Permissions c)) path"
    using policy(4) covers_granted [OF that(2)] that(1) by (simp add: requested_capabilities layers_of_request normalized_layer)
  have "CapabilityInspect \<noteq> CapabilityWrite" by (simp add: capability_defs)
  then show ?thesis
    using writable inspectable forbidden
    by (auto simp: AuthorizePath_def policy(1) requested_capabilities covers_list_ex simp del: covers_append)
qed

theorem AuthorizePath_exact_witness:
  "is_ok (AuthorizePath (ct_Permissions example_contract) CapabilityWrite ''A/1'') \<and>
   \<not> is_ok (AuthorizePath (ct_Permissions example_contract) CapabilityWrite ''A/0'')"
  using example_build
proof (elim exE)
  fix raw
  assume build: "Build example_codec example_request = Inr (example_contract, raw)"
  have "ValidateProjectRelativePath ''A/1'' \<and> CapabilityWrite \<in> set (bq_RequestedCapabilities example_request)"
    "\<not> covers (ws_Forbidden (wpd_Scope (bq_WorkPackage example_request))) ''A/1''" "covers (ws_Allowed (wpd_Scope (bq_WorkPackage example_request))) ''A/1''"
    "\<forall>l\<in>set (bq_PolicyLayers example_request). \<not> covers (ly_ForbiddenPaths l) ''A/1'' \<and> covers (ly_WritePaths l) ''A/1''"
    "\<not> (\<forall>l\<in>set (bq_PolicyLayers example_request). \<not> covers (ly_ForbiddenPaths l) ''A/0'')"
    by code_simp+
  then show ?thesis
    unfolding AuthorizePath_exact [OF build] by blast
qed

text \<open>
  C19. A contract never exceeds the policy: it holds exactly the requested capabilities and secrets, and every layer allows
  each of them and denies none; every limit of its budget is the smallest of the requested one and the ceilings of the
  layers; and the time from its start to its deadline is at most its wall-clock limit.
\<close>

theorem Build_within_policy:
  assumes build: "Build codec r = Inr (c, raw)"
  shows "set (ep_Capabilities (ct_Permissions c)) = set (bq_RequestedCapabilities r) \<and>
    set (ep_SecretIDs (ct_Permissions c)) = set (bq_RequestedSecretIDs r) \<and>
    (\<forall>l\<in>set (bq_PolicyLayers r). set (bq_RequestedCapabilities r) \<subseteq> set (ly_AllowedCapabilities l) - set (ly_DeniedCapabilities l) \<and>
       set (bq_RequestedSecretIDs r) \<subseteq> set (ly_AllowedSecretIDs l)) \<and>
    (\<forall>field\<in>set budget_fields. field (ct_Budget c) = Min (field ` insert (bq_RequestedBudget r) (ly_BudgetCeiling ` set (bq_PolicyLayers r)))) \<and>
    0 \<le> ct_Deadline c - ct_NotBefore c \<and> ct_Deadline c - ct_NotBefore c \<le> bl_MaxWallClockSeconds (ct_Budget c) * 1000000000"
proof -
  note b = Build_Inr [OF build]
  note policy = evaluatePolicy_Inr [OF b(1)]
  have caps: "set (ep_Capabilities (ct_Permissions c)) = set (bq_RequestedCapabilities r)"
    "set (ep_SecretIDs (ct_Permissions c)) = set (bq_RequestedSecretIDs r)"
    using policy(1,2) by (simp_all add: normalizeBuildRequest_def)
  have layers: "set (bq_RequestedCapabilities r) \<subseteq> set (ly_AllowedCapabilities l) - set (ly_DeniedCapabilities l) \<and>
      set (bq_RequestedSecretIDs r) \<subseteq> set (ly_AllowedSecretIDs l)" if "l \<in> set (bq_PolicyLayers r)" for l
    using policy(6,7) caps policy(1,2) that by (auto simp: layers_of_request layer_denies_def normalized_layer)
  have cap: "cap_layers (bq_RequestedBudget r) (bq_PolicyLayers (normalizeBuildRequest r)) = Inr (ct_Budget c)"
    using policy(8) by (auto simp: effectiveBudget_def rbind_eq_Inr)
  have budget: "field (ct_Budget c) = Min (field ` insert (bq_RequestedBudget r) (ly_BudgetCeiling ` set (bq_PolicyLayers r)))"
    if "field \<in> set budget_fields" for field
    using cap_layers_Inr [OF cap that] by (simp add: layers_of_request image_image normalized_layer(7))
  note seconds = effectiveBudget_seconds [OF policy(8)]
  have small: "bl_MaxWallClockSeconds (ct_Budget c) * 1000000000 < 9223372036854775807"
    using seconds by (simp add: maxDurationSeconds_def)
  have "wrap64 (bl_MaxWallClockSeconds (ct_Budget c) * 1000000000) = bl_MaxWallClockSeconds (ct_Budget c) * 1000000000"
    by (rule wrap64_id) (use small seconds(3) in \<open>simp add: int64_range_def\<close>)
  then have "ct_Deadline c - ct_NotBefore c \<le> bl_MaxWallClockSeconds (ct_Budget c) * 1000000000"
    using b(3-6) small by (auto simp: time_Sub_def)
  then show ?thesis using caps layers budget b(3-5) by simp
qed

theorem Build_within_policy_witness: "bl_MaxTokens (ct_Budget example_contract) = 9"
  using example_build
proof (elim exE)
  fix raw
  assume build: "Build example_codec example_request = Inr (example_contract, raw)"
  have "bl_MaxTokens (ct_Budget example_contract) =
      Min (bl_MaxTokens ` insert (bq_RequestedBudget example_request) (ly_BudgetCeiling ` set (bq_PolicyLayers example_request)))"
    using Build_within_policy [OF build] by (simp add: budget_fields_def)
  also have "\<dots> = 9" by (simp add: example_request_def example_budget_def example_layer_def policyLayerNames_def)
  finally show ?thesis .
qed

text \<open>
  C9. Work is never complete on the word of a worker: when completion of a contract is accepted, there is satisfied
  evidence, with the version and digest that the contract asks for, of every required gate of the task and of the work
  package, and of the built-in reviews that the request calls for: human review if the work package asks for it, on any
  high risk and for merging; security review for secrets and security risks; data review for data risks; operations
  approval for deployment and infrastructure.
\<close>

theorem completion_is_gated:
  assumes build: "Build codec r = Inr (c, raw)" and accepted: "cd_Accepted (EvaluateCompletion (ct_RequiredGates c) evidence claim)"
  shows "(\<forall>g\<in>set (task_QualityGates (bq_Task r) @ wpd_QualityGates (bq_WorkPackage r)). qg_Required g \<longrightarrow>
        passed evidence (qg_GateID g) (qg_Version g) (qg_Digest g)) \<and>
    (wpd_ReviewRequired (bq_WorkPackage r) \<or> high_risk r UNIV \<or> CapabilityMerge \<in> set (bq_RequestedCapabilities r) \<longrightarrow>
        builtin_passed codec evidence ''gate:human-review'') \<and>
    (high_risk r {''security'', ''secret''} \<or> CapabilitySecret \<in> set (bq_RequestedCapabilities r) \<longrightarrow>
        builtin_passed codec evidence ''gate:security-review'') \<and>
    (high_risk r {''data'', ''database''} \<longrightarrow> builtin_passed codec evidence ''gate:data-review'') \<and>
    (high_risk r {''deployment'', ''infrastructure''} \<or> CapabilityDeployment \<in> set (bq_RequestedCapabilities r) \<or>
        CapabilityInfrastructure \<in> set (bq_RequestedCapabilities r) \<longrightarrow> builtin_passed codec evidence ''gate:operations-approval'')"
proof -
  have caps: "set (ep_Capabilities (ct_Permissions c)) = set (bq_RequestedCapabilities r)"
    using evaluatePolicy_Inr(1) [OF Build_Inr(1) [OF build]] by (simp add: normalizeBuildRequest_def)
  obtain m where gates: "ct_RequiredGates c = sort_key gr_GateID (map snd m)"
    and declared: "\<forall>g\<in>set (task_QualityGates (bq_Task r) @ wpd_QualityGates (bq_WorkPackage r)). qg_Required g \<longrightarrow>
        requires m (qg_GateID g) (qg_Version g) (qg_Digest g)"
    and review: "wpd_ReviewRequired (bq_WorkPackage r) \<longrightarrow> builtin (cdc_digest codec) m ''gate:human-review''"
    and risk: "\<forall>k\<in>set (task_Risk (bq_Task r) @ wpd_Risk (bq_WorkPackage r)). rd_Level k \<in> {RiskHigh, RiskCritical} \<longrightarrow>
        builtin (cdc_digest codec) m ''gate:human-review'' \<and>
        (rd_Name k \<in> {''security'', ''secret''} \<longrightarrow> builtin (cdc_digest codec) m ''gate:security-review'') \<and>
        (rd_Name k \<in> {''data'', ''database''} \<longrightarrow> builtin (cdc_digest codec) m ''gate:data-review'') \<and>
        (rd_Name k \<in> {''deployment'', ''infrastructure''} \<longrightarrow> builtin (cdc_digest codec) m ''gate:operations-approval'')"
    and cap: "\<forall>k\<in>set (ep_Capabilities (ct_Permissions c)). (k = CapabilitySecret \<longrightarrow> builtin (cdc_digest codec) m ''gate:security-review'') \<and>
        (k = CapabilityMerge \<longrightarrow> builtin (cdc_digest codec) m ''gate:human-review'') \<and>
        (k \<in> {CapabilityDeployment, CapabilityInfrastructure} \<longrightarrow> builtin (cdc_digest codec) m ''gate:operations-approval'')"
    using requiredGates_Inr [OF Build_Inr(2) [OF build]] by this
  have seen: "builtin (cdc_digest codec) m gid \<Longrightarrow> builtin_passed codec evidence gid" for gid
    using required_passed [OF accepted gates] by (simp add: builtin_def builtin_passed_def)
  have cap': "(k = CapabilitySecret \<longrightarrow> builtin (cdc_digest codec) m ''gate:security-review'') \<and>
      (k = CapabilityMerge \<longrightarrow> builtin (cdc_digest codec) m ''gate:human-review'') \<and>
      (k \<in> {CapabilityDeployment, CapabilityInfrastructure} \<longrightarrow> builtin (cdc_digest codec) m ''gate:operations-approval'')"
    if "k \<in> set (bq_RequestedCapabilities r)" for k by (rule bspec [OF cap]) (use that caps in simp)
  have risk': "builtin (cdc_digest codec) m ''gate:human-review'' \<and>
      (names = {''security'', ''secret''} \<longrightarrow> builtin (cdc_digest codec) m ''gate:security-review'') \<and>
      (names = {''data'', ''database''} \<longrightarrow> builtin (cdc_digest codec) m ''gate:data-review'') \<and>
      (names = {''deployment'', ''infrastructure''} \<longrightarrow> builtin (cdc_digest codec) m ''gate:operations-approval'')" if high: "high_risk r names" for names
  proof -
    obtain k where k: "k \<in> set (task_Risk (bq_Task r) @ wpd_Risk (bq_WorkPackage r))" "rd_Level k \<in> {RiskHigh, RiskCritical}" "rd_Name k \<in> names"
      using high unfolding high_risk_def by (elim bexE conjE) (rule that)
    show ?thesis using mp [OF bspec [OF risk k(1)] k(2)] k(3) by (intro conjI impI) (simp_all only: simp_thms)
  qed
  have human: "builtin (cdc_digest codec) m ''gate:human-review''" if "CapabilityMerge \<in> set (bq_RequestedCapabilities r)" using cap' [OF that] by blast
  have sec: "builtin (cdc_digest codec) m ''gate:security-review''" if "CapabilitySecret \<in> set (bq_RequestedCapabilities r)" using cap' [OF that] by blast
  have ops: "builtin (cdc_digest codec) m ''gate:operations-approval''"
    if "k \<in> set (bq_RequestedCapabilities r)" "k \<in> {CapabilityDeployment, CapabilityInfrastructure}" for k using cap' [OF that(1)] that(2) by blast
  show ?thesis
  proof (intro conjI impI ballI)
    show "passed evidence (qg_GateID g) (qg_Version g) (qg_Digest g)"
      if "g \<in> set (task_QualityGates (bq_Task r) @ wpd_QualityGates (bq_WorkPackage r))" "qg_Required g" for g
      by (rule required_passed [OF accepted gates mp [OF bspec [OF declared that(1)] that(2)]])
    show "builtin_passed codec evidence ''gate:human-review''"
      if "wpd_ReviewRequired (bq_WorkPackage r) \<or> high_risk r UNIV \<or> CapabilityMerge \<in> set (bq_RequestedCapabilities r)"
      using that by (elim disjE) (rule seen, erule mp [OF review], rule seen, rule conjunct1, erule risk', rule seen, erule human)
    show "builtin_passed codec evidence ''gate:security-review''"
      if "high_risk r {''security'', ''secret''} \<or> CapabilitySecret \<in> set (bq_RequestedCapabilities r)"
      using that by (elim disjE) (rule seen, frule risk', blast, rule seen, erule sec)
    show "builtin_passed codec evidence ''gate:data-review''" if "high_risk r {''data'', ''database''}"
      by (rule seen) (use risk' [OF that] in blast)
    show "builtin_passed codec evidence ''gate:operations-approval''"
      if "high_risk r {''deployment'', ''infrastructure''} \<or> CapabilityDeployment \<in> set (bq_RequestedCapabilities r) \<or>
        CapabilityInfrastructure \<in> set (bq_RequestedCapabilities r)"
      using that
    proof (elim disjE)
      assume high: "high_risk r {''deployment'', ''infrastructure''}"
      show ?thesis by (rule seen [OF mp [OF conjunct2 [OF conjunct2 [OF conjunct2 [OF risk' [OF high]]]] refl]])
    next
      assume asked: "CapabilityDeployment \<in> set (bq_RequestedCapabilities r)"
      show ?thesis by (rule seen [OF ops [OF asked insertI1]])
    next
      assume asked: "CapabilityInfrastructure \<in> set (bq_RequestedCapabilities r)"
      show ?thesis by (rule seen [OF ops [OF asked insertI2 [OF singletonI]]])
    qed
  qed
qed

text \<open>Evidence of the human review and of the review of the data risk.\<close>

definition example_evidence :: "GateEvidence list" where
  "example_evidence = map (\<lambda>gid. \<lparr> ge_GateID = gid, ge_Version = 1, ge_Digest = example_digest, ge_Satisfied = True \<rparr>)
     [''gate:human-review'', ''gate:data-review'']"

theorem completion_is_gated_witness: "builtin_passed example_codec example_evidence ''gate:data-review''"
  using example_build
proof (elim exE)
  fix raw
  assume build: "Build example_codec example_request = Inr (example_contract, raw)"
  have accepted: "cd_Accepted (EvaluateCompletion (ct_RequiredGates example_contract) example_evidence True)" by code_simp
  have risk: "high_risk example_request {''data'', ''database''}" by (simp add: high_risk_def example_request_def)
  show ?thesis
    by (rule mp [OF conjunct1 [OF conjunct2 [OF conjunct2 [OF conjunct2 [OF completion_is_gated [OF build accepted]]]]] risk])
qed

end
