(* ===== verification/Selection_Safety.thy ===== *)
theory Selection_Safety
  imports Dispatch_Selection Contract_Safety
begin

text \<open>
  What selection promises: only eligible candidates are selected, the most preferred of them unless an
  operator names another eligible one, and the order in which the candidates are listed plays no part.
\<close>

section \<open>Eligible candidates\<close>

definition dispatchable :: "SelectionRequest \<Rightarrow> bool" where
  "dispatchable r \<longleftrightarrow> (let w = sq_WorkPackage r; t = sq_Task r; n = sq_Node r in
     {tp_ProjectID t, tn_ProjectID n} = {hdr_ProjectID (wpd_Header w)} \<and> {tp_TaskID t, tn_TaskID n} = {wpd_TaskID w} \<and>
     {tp_TaskRevision t, tn_TaskRevision n} = {wpd_TaskRevision w} \<and> {tp_GraphRevision t, tn_GraphRevision n} = {wpd_GraphRevision w} \<and>
     tn_WorkPackageID n = wpd_WorkPackageID w \<and> tn_DefinitionRecordID n = hdr_RecordID (wpd_Header w) \<and> tn_DefinitionHash n = sq_WorkPackageDigest r \<and>
     tn_Readiness n = ''ready'' \<and> tp_State t = ''ready'' \<and>
     (\<forall>a tr. sq_Adaptation r = Some a \<and> wpd_TradeReference w = Some tr \<longrightarrow>
        pa_ProjectID a = hdr_ProjectID (wpd_Header w) \<and> pa_TradeID a = rref_ID tr \<and> pa_TradeVersion a = rref_Version tr \<and> pa_Lifecycle a = RegistryActive))"

definition is_qualified :: "SelectionRequest \<Rightarrow> Candidate \<Rightarrow> bool" where
  "is_qualified r c \<longleftrightarrow> (\<exists>tr. wpd_TradeReference (sq_WorkPackage r) = Some tr \<and>
     td_TradeID (ca_Trade c) = rref_ID tr \<and> td_Version (ca_Trade c) = rref_Version tr \<and> td_ContentHash (ca_Trade c) = rref_Digest tr \<and>
     wp_TradeID (ca_Worker c) = rref_ID tr \<and> wp_TradeVersion (ca_Worker c) = rref_Version tr) \<and>
     td_Lifecycle (ca_Trade c) = RegistryActive \<and> wp_Lifecycle (ca_Worker c) = RegistryActive \<and>
     set (td_RequiredCapabilities (ca_Trade c)) \<subseteq> set (wp_CapabilityTags (ca_Worker c)) \<and>
     (\<forall>a. sq_Adaptation r = Some a \<longrightarrow> set (pa_RequiredCapabilities a) \<subseteq> set (wp_CapabilityTags (ca_Worker c)))"

definition runnable :: "(Definition \<Rightarrow> string) \<Rightarrow> SelectionRequest \<Rightarrow> Candidate \<Rightarrow> bool" where
  "runnable hash r c \<longleftrightarrow> wp_RuntimeID (ca_Worker c) = bd_ID (ca_Runtime c) \<and> wp_RuntimeVersion (ca_Worker c) = bd_Version (ca_Runtime c) \<and>
     select_validBinding (ca_Runtime c) ''runtime:'' \<and> ca_RuntimeAvailable c \<and>
     node_ready hash (ca_Node c) (ca_Observation c) (node_requirements c r) (sq_Now r)"

definition permitted :: "SelectionRequest \<Rightarrow> Candidate \<Rightarrow> bool" where
  "permitted r c \<longleftrightarrow> set (sq_RequiredRuntime r) \<subseteq> set (sp_AllowedCapabilities (sq_Policy r)) \<inter> set (ca_RuntimeCapabilities c) \<and>
     riskRank (sq_Risk r) \<le> riskRank (sp_MaximumRisk (sq_Policy r)) \<and>
     (\<forall>g\<in>set (sq_RequiredGates r). \<exists>e\<in>set (sp_GateEvidence (sq_Policy r)).
        pe_GateID e = gr_GateID g \<and> pe_Version e = gr_Version g \<and> pe_Digest e = gr_Digest g)"

definition affordable :: "SelectionRequest \<Rightarrow> bool" where
  "affordable r \<longleftrightarrow> (\<forall>f\<in>{db_MaxTokens, db_MaxCostMicros, db_MaxWallClock, db_MaxConcurrentWorker}.
       f (sq_RequestedBudget r) \<le> f (sp_MaximumBudget (sq_Policy r))) \<and>
     sp_ActiveAssignments (sq_Policy r) < db_MaxConcurrentWorker (sp_MaximumBudget (sq_Policy r))"

definition eligible :: "(Definition \<Rightarrow> string) \<Rightarrow> SelectionRequest \<Rightarrow> Candidate \<Rightarrow> bool" where
  "eligible hash r c \<longleftrightarrow> dispatchable r \<and> is_qualified r c \<and> runnable hash r c \<and> permitted r c \<and> affordable r"

lemma authorityReasons_Nil: "authorityReasons r = [] \<longleftrightarrow> dispatchable r"
  unfolding authorityReasons_def dispatchable_def Let_def ReadinessReady_text_def by (auto split: option.splits)

lemma tradeReasons_Nil: "tradeAndCapabilityReasons c r = [] \<longleftrightarrow> is_qualified r c"
  unfolding tradeAndCapabilityReasons_def is_qualified_def MatchCapabilities_def required_capabilities_def Let_def
  by (cases "sq_Adaptation r") (auto simp: filter_empty_conv split: option.splits)

lemma runtimeReasons_Nil: "runtimeAndNodeReasons hash c r = [] \<longleftrightarrow> runnable hash r c"
  by (auto simp: runtimeAndNodeReasons_def runnable_def Evaluate_reasons)

lemma policyReasons_Nil: "permissionReasons c r = [] \<and> riskAndGateReasons r = [] \<longleftrightarrow> permitted r c"
  unfolding permissionReasons_def riskAndGateReasons_def permitted_def gateEvidenceAvailable_def
  by (auto simp: find_None_iff list_ex_iff not_less subset_iff split: option.splits dest!: find_Some_iff [THEN iffD1])

lemma budgetReasons_Nil: "budgetReasons r = [] \<longleftrightarrow> affordable r"
  by (auto simp: budgetReasons_def affordable_def Let_def)

lemma first_reasons_Nil: "first_reasons rss = [] \<longleftrightarrow> (\<forall>rs\<in>set rss. rs = [])"
  by (induction rss) auto

lemma explanation_accepted: "ce_Accepted (explanation hash r c) \<longleftrightarrow> eligible hash r c"
  using policyReasons_Nil [of c r]
  by (auto simp: explanation_def Let_def candidateReasons_def first_reasons_Nil eligible_def authorityReasons_Nil tradeReasons_Nil
      runtimeReasons_Nil budgetReasons_Nil)

lemma explanation_candidate [simp]: "ce_Candidate (explanation hash r c) = candidateIdentity c"
  by (simp add: explanation_def Let_def)

section \<open>The selected candidate\<close>

lemma hd_sort_key:
  assumes "xs \<noteq> []"
  shows "hd (sort_key f xs) \<in> set xs \<and> (\<forall>x\<in>set xs. f (hd (sort_key f xs)) \<le> (f x :: 'k :: linorder))"
proof -
  obtain y ys where y: "sort_key f xs = y # ys" using assms by (metis length_0_conv length_sort list.exhaust)
  then have "set (y # ys) = set xs" "sorted (map f (y # ys))" by (metis set_sort, metis sorted_sort_key)
  then show ?thesis by (auto simp: y)
qed

lemma accepted_set:
  "set (acceptedCandidates (candidate_explanations hash r)) = explanation hash r ` {c \<in> set (sq_Candidates r). eligible hash r c}"
  by (auto simp: acceptedCandidates_def candidate_explanations_def normalizedCandidates_def explanation_accepted)

lemma candidates_distinct:
  assumes "validateSelectionRequest r = ok"
  shows "keys_distinct (\<lambda>c. identity_text (candidateIdentity c)) (sq_Candidates r)"
  using assms unfolding validateSelectionRequest_def Let_def rbind_eq_Inr if_Inl_eq_Inr distinct_loop_Inr by blast

text \<open>Equal keys of the order are equal texts, so the candidates of a valid request differ in their keys.\<close>

lemma identity_key_inj:
  assumes "keys_distinct (\<lambda>c. identity_text (candidateIdentity c)) cs"
  shows "inj_on (\<lambda>c. identity_key (candidateIdentity c)) (set cs)"
proof (rule inj_onI)
  fix c c'
  assume c: "c \<in> set cs" "c' \<in> set cs" "identity_key (candidateIdentity c) = identity_key (candidateIdentity c')"
  then have "identity_text (candidateIdentity c) = identity_text (candidateIdentity c')" by (simp add: identity_key_def identity_text_def)
  then show "c = c'" using assms c(1,2) by (simp add: keys_distinct_def distinct_map inj_on_def)
qed

lemma normalized_perm:
  assumes "mset cs = mset cs'" "keys_distinct (\<lambda>c. identity_text (candidateIdentity c)) cs"
  shows "normalizedCandidates cs = normalizedCandidates cs'"
  unfolding normalizedCandidates_def
  by (rule sort_key_inj_key_eq [OF _ identity_key_inj [OF assms(2)]]) (simp_all add: assms(1))

lemma validate_perm:
  assumes "mset cs = mset (sq_Candidates r)" "validateSelectionRequest r = ok"
  shows "validateSelectionRequest (r\<lparr>sq_Candidates := cs\<rparr>) = ok"
proof -
  have "length cs = length (sq_Candidates r)" using mset_eq_length [OF assms(1)] .
  moreover have "keys_distinct key cs = keys_distinct key (sq_Candidates r)" for key :: "Candidate \<Rightarrow> string"
    using mset_eq_imp_distinct_iff [of "map key cs" "map key (sq_Candidates r)"] assms(1) by (simp add: keys_distinct_def)
  ultimately show ?thesis
    using assms(2) unfolding validateSelectionRequest_def Let_def rbind_eq_Inr if_Inl_eq_Inr distinct_loop_Inr by simp
qed

lemma authorityReasons_candidates [simp]: "authorityReasons (r\<lparr>sq_Candidates := cs\<rparr>) = authorityReasons r"
  unfolding authorityReasons_def Let_def by (cases "sq_Adaptation r"; cases "wpd_TradeReference (sq_WorkPackage r)") simp_all

lemma tradeReasons_candidates: "tradeAndCapabilityReasons c (r\<lparr>sq_Candidates := cs\<rparr>) = tradeAndCapabilityReasons c r"
proof -
  have "required_capabilities c (r\<lparr>sq_Candidates := cs\<rparr>) = required_capabilities c r" by (simp add: required_capabilities_def)
  then show ?thesis by (cases "wpd_TradeReference (sq_WorkPackage r)") (simp_all add: tradeAndCapabilityReasons_def)
qed

lemma runtimeReasons_candidates: "runtimeAndNodeReasons hash c (r\<lparr>sq_Candidates := cs\<rparr>) = runtimeAndNodeReasons hash c r"
proof -
  have "node_requirements c (r\<lparr>sq_Candidates := cs\<rparr>) = node_requirements c r" by (simp add: node_requirements_def)
  then show ?thesis by (simp add: runtimeAndNodeReasons_def)
qed

lemma policyReasons_candidates:
  "permissionReasons c (r\<lparr>sq_Candidates := cs\<rparr>) = permissionReasons c r" "riskAndGateReasons (r\<lparr>sq_Candidates := cs\<rparr>) = riskAndGateReasons r"
  "budgetReasons (r\<lparr>sq_Candidates := cs\<rparr>) = budgetReasons r"
  by (simp add: permissionReasons_def, simp add: riskAndGateReasons_def, simp add: budgetReasons_def Let_def)

lemma explanation_candidates [simp]: "explanation hash (r\<lparr>sq_Candidates := cs\<rparr>) c = explanation hash r c"
  by (simp add: explanation_def candidateReasons_def tradeReasons_candidates runtimeReasons_candidates policyReasons_candidates)

lemma Select_perm:
  assumes "mset cs = mset (sq_Candidates r)" "Select hash r = Inr result"
  shows "Select hash (r\<lparr>sq_Candidates := cs\<rparr>) = Inr result"
proof -
  have ok: "validateSelectionRequest r = ok" using assms(2) by (auto simp: Select_def rbind_eq_Inr)
  have ok': "validateSelectionRequest (r\<lparr>sq_Candidates := cs\<rparr>) = ok" by (rule validate_perm [OF assms(1) ok])
  have "normalizedCandidates (sq_Candidates r) = normalizedCandidates cs"
    by (rule normalized_perm [OF assms(1) [symmetric] candidates_distinct [OF ok]])
  moreover have "explanation hash (r\<lparr>sq_Candidates := cs\<rparr>) = explanation hash r" by (rule ext) simp
  ultimately have "candidate_explanations hash (r\<lparr>sq_Candidates := cs\<rparr>) = candidate_explanations hash r"
    by (simp add: candidate_explanations_def)
  then show ?thesis using assms(2) by (simp add: Select_def ok ok' Let_def split: if_splits)
qed

text \<open>The result in terms of the ranked accepted explanations.\<close>

lemma Select_cases:
  assumes "Select hash r = Inr result"
  defines "accepted \<equiv> ranked (sp_PreferredWorkerNodePair (sq_Policy r)) (acceptedCandidates (candidate_explanations hash r))"
  shows "set accepted = explanation hash r ` {c \<in> set (sq_Candidates r). eligible hash r c}"
    and "sr_Blocked result \<longleftrightarrow> sr_Selected result = None"
    and "sq_Override r = None \<Longrightarrow> sr_Selected result = (if accepted = [] then None else Some (ce_Candidate (hd accepted)))"
    and "sq_Override r = Some ov \<Longrightarrow> sr_Selected result = map_option ce_Candidate (findOverride accepted ov)"
    and "sr_AssignmentAuditReason result = ''operator_override'' \<longleftrightarrow> sq_Override r \<noteq> None \<and> sr_Selected result \<noteq> None"
proof -
  show "set accepted = explanation hash r ` {c \<in> set (sq_Candidates r). eligible hash r c}" by (simp add: accepted_def ranked_def accepted_set)
  have nil: "acceptedCandidates (candidate_explanations hash r) = [] \<longleftrightarrow> accepted = []" by (simp add: accepted_def ranked_def sort_Nil_iff)
  have none: "findOverride [] ov = None" for ov by (simp add: findOverride_def)
  consider "accepted = []" "sr_Blocked result" "sr_Selected result = None" "sr_AssignmentAuditReason result = ''deterministic_selection''"
    | base where "accepted \<noteq> []" "result = choose_accepted base (sq_Override r) accepted" "sr_Selected base = None" "\<not> sr_Blocked base"
      "sr_AssignmentAuditReason base = ''deterministic_selection''"
    using assms(1) unfolding Select_def Let_def rbind_eq_Inr nil by (auto simp: accepted_def split: if_splits)
  note result = this
  show "sr_Blocked result \<longleftrightarrow> sr_Selected result = None"
    "sr_AssignmentAuditReason result = ''operator_override'' \<longleftrightarrow> sq_Override r \<noteq> None \<and> sr_Selected result \<noteq> None"
    using result by (cases; auto simp: choose_accepted_def split: option.splits)+
  show "sr_Selected result = (if accepted = [] then None else Some (ce_Candidate (hd accepted)))" if "sq_Override r = None"
    using result by cases (simp_all add: choose_accepted_def that)
  show "sr_Selected result = map_option ce_Candidate (findOverride accepted ov)" if "sq_Override r = Some ov"
    using result by cases (simp_all add: choose_accepted_def that none split: option.splits)
qed

section \<open>Property\<close>

text \<open>
  C10. Selection is exact: it selects nothing, and is blocked, only if no candidate is eligible, or none with the worker and
  the node that the operator names; otherwise it selects an eligible candidate. Eligible is a candidate if the
  work package may be dispatched, worker and trade are active, match its trade and offer every required
  capability, the runtime and the verified, healthy and freshly observed node can take it, the policy allows the
  capabilities, the risk and the budget, and every gate has evidence. Without an override no eligible candidate is preferred to the
  selected one; with an override the audit reason says so. The order of the candidates does not matter.
\<close>

theorem Select_exact:
  assumes select: "Select hash r = Inr result"
  shows "(sr_Blocked result \<longleftrightarrow> sr_Selected result = None) \<and>
    (sr_Selected result = None \<longleftrightarrow> \<not> (\<exists>c\<in>set (sq_Candidates r). eligible hash r c \<and>
       (\<forall>ov. sq_Override r = Some ov \<longrightarrow> wp_WorkerID (ca_Worker c) = ov_WorkerID ov \<and> nd_NodeID (ca_Node c) = ov_NodeID ov))) \<and>
    (\<forall>i. sr_Selected result = Some i \<longrightarrow> (\<exists>c\<in>set (sq_Candidates r). eligible hash r c \<and> i = candidateIdentity c \<and>
       (case sq_Override r of
          None \<Rightarrow> sr_AssignmentAuditReason result \<noteq> ''operator_override'' \<and> (\<forall>c'\<in>set (sq_Candidates r). eligible hash r c' \<longrightarrow>
            preferenceRank i (sp_PreferredWorkerNodePair (sq_Policy r)) \<le> preferenceRank (candidateIdentity c') (sp_PreferredWorkerNodePair (sq_Policy r)))
        | Some ov \<Rightarrow> sr_AssignmentAuditReason result = ''operator_override'' \<and> ci_WorkerID i = ov_WorkerID ov \<and> ci_NodeID i = ov_NodeID ov))) \<and>
    (\<forall>cs. mset cs = mset (sq_Candidates r) \<longrightarrow> Select hash (r\<lparr>sq_Candidates := cs\<rparr>) = Inr result)"
proof -
  define accepted where "accepted = ranked (sp_PreferredWorkerNodePair (sq_Policy r)) (acceptedCandidates (candidate_explanations hash r))"
  note sel = Select_cases [OF select, folded accepted_def]
  have pair: "ci_WorkerID (candidateIdentity c) = wp_WorkerID (ca_Worker c)" "ci_NodeID (candidateIdentity c) = nd_NodeID (ca_Node c)" for c
    by (simp_all add: candidateIdentity_def)
  show ?thesis
  proof (cases "sq_Override r")
    case None
    have least: "hd accepted \<in> set accepted \<and> (\<forall>e\<in>set accepted. preferenceRank (ce_Candidate (hd accepted)) (sp_PreferredWorkerNodePair (sq_Policy r))
        \<le> preferenceRank (ce_Candidate e) (sp_PreferredWorkerNodePair (sq_Policy r)))" if "accepted \<noteq> []"
      using hd_sort_key [of _ "preference_key (sp_PreferredWorkerNodePair (sq_Policy r)) \<circ> ce_Candidate"] that
      by (fastforce simp: accepted_def ranked_def sort_Nil_iff preference_key_def less_eq_prod_def)
    show ?thesis
      using None sel(1,2,5) sel(3) [OF None] least Select_perm [OF _ select] by (cases "accepted = []") (auto simp: image_iff)
  next
    case (Some ov)
    have found: "findOverride accepted ov = None \<longleftrightarrow> \<not> (\<exists>e\<in>set accepted. ci_WorkerID (ce_Candidate e) = ov_WorkerID ov \<and> ci_NodeID (ce_Candidate e) = ov_NodeID ov)"
      "\<And>e. findOverride accepted ov = Some e \<Longrightarrow> e \<in> set accepted \<and> ci_WorkerID (ce_Candidate e) = ov_WorkerID ov \<and> ci_NodeID (ce_Candidate e) = ov_NodeID ov"
      by (auto simp: findOverride_def find_None_iff find_Some_iff)
    show ?thesis
      using Some sel(1,2,5) sel(4) [OF Some] found Select_perm [OF _ select] by (cases "findOverride accepted ov") (auto simp: pair)
  qed
qed

text \<open>Two nodes that could take the example work package, the second of which is preferred.\<close>

definition example_node :: "string \<Rightarrow> Definition" where
  "example_node i = \<lparr> nd_Schema = DefinitionSchema, nd_NodeID = i, nd_Version = 1, nd_Lifecycle = LifecycleActive, nd_OS = ''A'',
     nd_Architecture = ''A'', nd_Capacity = no_capacity, nd_Tools = [], nd_RepositoryAccess = RepositoryWrite,
     nd_Runtimes = [example_binding ''runtime:''], nd_MaxActiveLeases = 1, nd_DefinitionDigest = example_digest \<rparr>"

definition example_candidate :: "string \<Rightarrow> Candidate" where
  "example_candidate i = \<lparr> ca_Worker = (bq_WorkerProfile example_request)\<lparr>wp_RuntimeID := ''runtime:A''\<rparr>,
     ca_Trade = \<lparr> td_TradeID = ''trade:A'', td_Version = 1, td_Name = ''A'', td_Lifecycle = RegistryActive, td_CapabilityTags = [],
       td_RequiredCapabilities = [], td_OptionalCapabilities = [], td_Description = [], td_Evidence = wp_Evidence (bq_WorkerProfile example_request),
       td_ContentHash = example_digest, td_CreatedAt = 1 \<rparr>,
     ca_Runtime = example_binding ''runtime:'', ca_RuntimeAvailable = True, ca_RuntimeCapabilities = [CapabilityWrite], ca_Node = example_node i,
     ca_Observation = \<lparr> ob_Node = node_reference (example_node i), ob_Health = HealthHealthy, ob_Available = no_capacity, ob_AvailableTools = [],
       ob_AvailableRuntimes = [example_binding ''runtime:''], ob_ActiveLeases = 0, ob_ObservedAt = 1, ob_ExpiresAt = 9 \<rparr> \<rparr>"

definition example_selection :: SelectionRequest where
  "example_selection = (let b = \<lparr> db_MaxTokens = 1, db_MaxCostMicros = 1, db_MaxWallClock = 1, db_MaxConcurrentWorker = 1 \<rparr> in
     \<lparr> sq_Task = \<lparr> tp_ProjectID = ''A'', tp_TaskID = ''A'', tp_TaskRevision = 1, tp_GraphRevision = 1, tp_TaskRecordID = [], tp_TaskRecordHash = [],
         tp_TaskRecordPath = [], tp_GraphRecordID = [], tp_GraphRecordHash = [], tp_GraphRecordPath = [], tp_Objective = [], tp_Priority = [],
         tp_State = ''ready'', tp_ExplanationCode = [], tp_EventWatermark = [], tp_ParallelReady = [], tp_CreatedAt = 1 \<rparr>,
       sq_Node = \<lparr> tn_ProjectID = ''A'', tn_TaskID = ''A'', tn_TaskRevision = 1, tn_GraphRevision = 1, tn_WorkPackageID = ''A'', tn_DefinitionRecordID = ''A'',
         tn_DefinitionHash = example_digest, tn_DefinitionPath = [], tn_CanonicalState = [], tn_Readiness = ''ready'', tn_ExplanationCode = [],
         tn_Dependencies = [], tn_Barrier = False \<rparr>,
       sq_WorkPackage = bq_WorkPackage example_request, sq_WorkPackageDigest = example_digest, sq_Adaptation = None, sq_Risk = SelectRiskLow,
       sq_RequestedBudget = b, sq_RequiredRuntime = [CapabilityWrite], sq_RequiredGates = [],
       sq_Policy = \<lparr> sp_AllowedCapabilities = [CapabilityWrite], sp_MaximumRisk = SelectRiskLow, sp_MaximumBudget = b, sp_ActiveAssignments = 0,
         sp_GateEvidence = [], sp_PreferredWorkerNodePair = [\<lparr> pf_WorkerID = ''worker:A'', pf_NodeID = ''node:B'' \<rparr>] \<rparr>,
       sq_Candidates = [example_candidate ''node:A'', example_candidate ''node:B''], sq_Override = None, sq_Now = 2 \<rparr>)"

theorem Select_exact_witness:
  "\<exists>result i. Select (\<lambda>_. example_digest) example_selection = Inr result \<and> sr_Selected result = Some i \<and> ci_NodeID i = ''node:B'' \<and>
     Select (\<lambda>_. example_digest) (example_selection\<lparr>sq_Candidates := [example_candidate ''node:B'', example_candidate ''node:A'']\<rparr>) = Inr result"
proof -
  have "case Select (\<lambda>_. example_digest) example_selection of Inl _ \<Rightarrow> False
      | Inr result \<Rightarrow> (case sr_Selected result of None \<Rightarrow> False | Some i \<Rightarrow> ci_NodeID i = ''node:B'')" by code_simp
  then obtain result i where r: "Select (\<lambda>_. example_digest) example_selection = Inr result" "sr_Selected result = Some i" "ci_NodeID i = ''node:B''"
    by (auto split: sum.splits option.splits)
  have "mset [example_candidate ''node:B'', example_candidate ''node:A''] = mset (sq_Candidates example_selection)"
    by (simp add: example_selection_def Let_def)
  then show ?thesis using Select_exact [OF r(1)] r by blast
qed

end
