(* ===== verification/Project_Layout.thy ===== *)
theory Project_Layout
  imports Dispatch_Selection
begin

text \<open>
  Where the records of a project lie on disk, src/internal/project/layout.go, and how one of them is read,
  \<open>ReadPortableRecord\<close> of discovery.go. The remaining records of models.go stand here too. The decoder of a record,
  codec.go, is an argument; times are in UTC, so the check of the zone of a time is that it is set.
\<close>

section \<open>Records\<close>

record Authority =
  au_DeviceID :: string
  au_ShareID :: string

record ProjectManifest =
  pmf_Header :: RecordHeader
  pmf_Name :: string
  pmf_Authority :: Authority
  pmf_CreatedAt :: time

datatype ExecutionState =
  ExecutionPending | ExecutionRunning | ExecutionPaused | ExecutionFailed | ExecutionCompleted | ExecutionStateOther string

record ExecutionManifest =
  emf_Header :: RecordHeader
  emf_ExecutionID :: string
  emf_WorkPackageID :: string
  emf_State :: ExecutionState
  emf_Producer :: Producer
  emf_TradeReference :: "RegistryReference option"
  emf_WorkerReference :: "RegistryReference option"
  emf_ContractReference :: "RegistryReference option"
  emf_CreatedAt :: time
  emf_Provenance :: Provenance

datatype Confidence = ConfidenceLow | ConfidenceMedium | ConfidenceHigh | ConfidenceOther string

datatype TestOutcome = TestPassed | TestFailed | TestSkipped | TestOutcomeOther string

record TestResult =
  ttr_Name :: string
  ttr_Outcome :: TestOutcome

record Handoff =
  hof_Header :: RecordHeader
  hof_HandoffID :: string
  hof_WorkPackageID :: string
  hof_ExecutionID :: string
  hof_CompletedWork :: "string list"
  hof_ChangedFiles :: "string list"
  hof_Decisions :: "string list"
  hof_Tests :: "TestResult list"
  hof_Limitations :: "string list"
  hof_UnresolvedIssues :: "string list"
  hof_Assumptions :: "string list"
  hof_FollowUpWork :: "string list"
  hof_ReviewRequirements :: "string list"
  hof_IntegrationConsiderations :: "string list"
  hof_Confidence :: Confidence
  hof_FailureConditions :: "string list"
  hof_CreatedAt :: time
  hof_Provenance :: Provenance

record ArtifactManifest =
  amf_Header :: RecordHeader
  amf_ArtifactID :: string
  amf_Name :: string
  amf_MediaType :: string
  amf_Size :: int
  amf_HashAlgorithm :: string
  amf_ContentHash :: string
  amf_BlobRelativePath :: string
  amf_CreatedAt :: time
  amf_Provenance :: Provenance

text \<open>The dynamic type of a decoded record.\<close>

datatype PortableRecord =
  ManifestValue ProjectManifest
| TaskValue TaskRevision
| GraphValue DependencyGraphRevision
| WorkPackageValue WorkPackageDefinition
| ExecutionValue ExecutionManifest
| EventValue WorkEvent
| HandoffValue Handoff
| ArtifactValue ArtifactManifest

record DecodedRecord =
  dec_Value :: PortableRecord
  dec_Canonical :: string
  dec_Digest :: string

section \<open>Directories\<close>

definition WorkspaceDirectory :: string where "WorkspaceDirectory = ''workspace''"
definition ControlDirectory :: string where "ControlDirectory = ''.agent-project''"
definition ManifestRelativePath :: string where "ManifestRelativePath = ControlDirectory @ ''/manifest.json''"
definition HistoryEventsDirectory :: string where "HistoryEventsDirectory = ControlDirectory @ ''/history/events''"
definition TasksDirectory :: string where "TasksDirectory = ControlDirectory @ ''/tasks''"
definition WorkPackagesDirectory :: string where "WorkPackagesDirectory = ControlDirectory @ ''/work-packages''"
definition ExecutionsDirectory :: string where "ExecutionsDirectory = ControlDirectory @ ''/executions''"
definition ArtifactManifestsDirectory :: string where "ArtifactManifestsDirectory = ControlDirectory @ ''/artifacts/manifests''"
definition ArtifactBlobsDirectory :: string where "ArtifactBlobsDirectory = ControlDirectory @ ''/artifacts/blobs/sha256''"
definition LocalDirectory :: string where "LocalDirectory = ControlDirectory @ ''/local''"

lemmas directory_defs [go_eval] = WorkspaceDirectory_def ControlDirectory_def ManifestRelativePath_def HistoryEventsDirectory_def
  TasksDirectory_def WorkPackagesDirectory_def ExecutionsDirectory_def ArtifactManifestsDirectory_def ArtifactBlobsDirectory_def
  LocalDirectory_def

datatype project_error = ErrInvalidRoot | ErrUnsafePath | ErrRecordNotFound | ErrRecordIntegrity | ErrFilesystem

text \<open>A layout is the path of its root; the uninitialised layout has the empty path.\<close>

type_synonym Layout = string

definition isUnderDirectory :: "string \<Rightarrow> string \<Rightarrow> bool" where
  "isUnderDirectory relativePath directory \<longleftrightarrow> relativePath = directory \<or> HasPrefix relativePath (directory @ ''/'')"

definition layout_Resolve :: "Layout \<Rightarrow> string \<Rightarrow> project_error + string" where
  "layout_Resolve root relativePath =
     (if root = [] then Inl ErrInvalidRoot
      else if \<not> ValidateProjectRelativePath relativePath then Inl ErrUnsafePath
      else case ResolveInsideShare root relativePath of Inl _ \<Rightarrow> Inl ErrUnsafePath | Inr resolved \<Rightarrow> Inr resolved)"

definition ResolveManaged :: "Layout \<Rightarrow> string \<Rightarrow> project_error + string" where
  "ResolveManaged root relativePath =
     (if \<not> isUnderDirectory relativePath ControlDirectory then Inl ErrUnsafePath else layout_Resolve root relativePath)"

definition ResolvePortable :: "Layout \<Rightarrow> string \<Rightarrow> project_error + string" where
  "ResolvePortable root relativePath =
     (if isUnderDirectory relativePath LocalDirectory then Inl ErrUnsafePath else ResolveManaged root relativePath)"

definition InspectManaged :: "FS \<Rightarrow> Layout \<Rightarrow> string \<Rightarrow> project_error + string \<times> fnode option \<times> bool" where
  "InspectManaged fs root relativePath =
     rbind (ResolveManaged root relativePath) (\<lambda>_.
       case InspectInsideShare fs root relativePath of Inl _ \<Rightarrow> Inl ErrUnsafePath | Inr found \<Rightarrow> Inr found)"

section \<open>Paths of records\<close>

definition MaxIdentifierBytes :: int where "MaxIdentifierBytes = 128"
definition MaxAggregateRevision :: int where "MaxAggregateRevision = 1000000"
definition MaxRecordBytes :: int where "MaxRecordBytes = 1048576"

definition validateIdentifier :: "string \<Rightarrow> bool \<Rightarrow> bool" where
  "validateIdentifier value required =
     (case value of
        [] \<Rightarrow> \<not> required
      | c # cs \<Rightarrow> int (length value) \<le> MaxIdentifierBytes \<and> id_start c \<and> list_all (\<lambda>c. id_start c \<or> c \<in> set ''._:-'') cs)"

definition validateNamespacedIdentifier :: "string \<Rightarrow> string \<Rightarrow> bool" where
  "validateNamespacedIdentifier value pre \<longleftrightarrow> validateIdentifier value True \<and> HasPrefix value pre \<and> length value \<noteq> length pre"

definition validSHA256 :: "string \<Rightarrow> bool" where
  "validSHA256 value \<longleftrightarrow> length value = 64 \<and> map lower_byte value = value \<and> list_all is_hex value"

definition validateUTCTime :: "time \<Rightarrow> bool" where
  "validateUTCTime t \<longleftrightarrow> t \<noteq> 0"

text \<open>An identifier is ASCII, so lowering its case byte by byte is \<open>strings.ToLower\<close>.\<close>

definition pathKey :: "string \<Rightarrow> string" where
  "pathKey identifier = concat (map (\<lambda>c. if c = CHR '':'' then ''%3a'' else [c]) (map lower_byte identifier))"

definition taskPathKey :: "string \<Rightarrow> string" where
  "taskPathKey taskID = concat (map (\<lambda>c. if c = CHR '':'' then ''%3a'' else [c]) (pathKey taskID))"

definition validatedBuiltPath :: "string \<Rightarrow> project_error + string" where
  "validatedBuiltPath relativePath =
     (if \<not> ValidateProjectRelativePath relativePath then Inl ErrUnsafePath else Inr relativePath)"

definition revision_ok :: "int \<Rightarrow> bool" where
  "revision_ok revision \<longleftrightarrow> 1 \<le> revision \<and> revision \<le> MaxAggregateRevision"

definition WorkPackageDefinitionRelativePath :: "string \<Rightarrow> project_error + string" where
  "WorkPackageDefinitionRelativePath workPackageID =
     (if \<not> validateIdentifier workPackageID True then Inl ErrUnsafePath
      else validatedBuiltPath (WorkPackagesDirectory @ ''/'' @ pathKey workPackageID @ ''/definition.json''))"

definition TaskRevisionRelativePath :: "string \<Rightarrow> int \<Rightarrow> project_error + string" where
  "TaskRevisionRelativePath taskID revision =
     (if \<not> validateNamespacedIdentifier taskID ''task:'' then Inl ErrUnsafePath
      else if \<not> revision_ok revision then Inl ErrUnsafePath
      else validatedBuiltPath (TasksDirectory @ ''/'' @ taskPathKey taskID @ ''/revisions/'' @ Sprint revision @ ''/task.json''))"

definition DependencyGraphRevisionRelativePath :: "string \<Rightarrow> int \<Rightarrow> int \<Rightarrow> project_error + string" where
  "DependencyGraphRevisionRelativePath taskID taskRevision graphRevision =
     (if \<not> validateNamespacedIdentifier taskID ''task:'' then Inl ErrUnsafePath
      else if \<not> revision_ok taskRevision \<or> \<not> revision_ok graphRevision then Inl ErrUnsafePath
      else validatedBuiltPath (TasksDirectory @ ''/'' @ taskPathKey taskID @ ''/revisions/'' @ Sprint taskRevision @ ''/graphs/'' @
             Sprint graphRevision @ ''.json''))"

definition ExecutionManifestRelativePath :: "string \<Rightarrow> project_error + string" where
  "ExecutionManifestRelativePath executionID =
     (if \<not> validateIdentifier executionID True then Inl ErrUnsafePath
      else validatedBuiltPath (ExecutionsDirectory @ ''/'' @ pathKey executionID @ ''/manifest.json''))"

definition HandoffRelativePath :: "string \<Rightarrow> project_error + string" where
  "HandoffRelativePath executionID =
     (if \<not> validateIdentifier executionID True then Inl ErrUnsafePath
      else validatedBuiltPath (ExecutionsDirectory @ ''/'' @ pathKey executionID @ ''/handoff.json''))"

definition ExecutionResultRelativePath :: "string \<Rightarrow> string \<Rightarrow> project_error + string" where
  "ExecutionResultRelativePath executionID name =
     (if \<not> validateIdentifier executionID True then Inl ErrUnsafePath
      else if \<not> ValidateProjectRelativePath name then Inl ErrUnsafePath
      else validatedBuiltPath (ExecutionsDirectory @ ''/'' @ pathKey executionID @ ''/results/'' @ name))"

definition WorkEventRelativePath :: "string \<Rightarrow> time \<Rightarrow> project_error + string" where
  "WorkEventRelativePath eventID occurredAt =
     (if \<not> validateIdentifier eventID True then Inl ErrUnsafePath
      else if \<not> validateUTCTime occurredAt then Inl ErrUnsafePath
      else validatedBuiltPath (HistoryEventsDirectory @ ''/'' @ format_date ''/'' occurredAt @ ''/'' @ pathKey eventID @ ''.json''))"

definition ArtifactManifestRelativePath :: "string \<Rightarrow> project_error + string" where
  "ArtifactManifestRelativePath artifactID =
     (if \<not> validateIdentifier artifactID True then Inl ErrUnsafePath
      else validatedBuiltPath (ArtifactManifestsDirectory @ ''/'' @ pathKey artifactID @ ''.json''))"

definition ArtifactBlobRelativePath :: "string \<Rightarrow> project_error + string" where
  "ArtifactBlobRelativePath contentHash =
     (if \<not> validSHA256 contentHash then Inl ErrUnsafePath
      else validatedBuiltPath (ArtifactBlobsDirectory @ ''/'' @ contentHash))"

definition RecordRelativePath :: "PortableRecord \<Rightarrow> project_error + string" where
  "RecordRelativePath r =
     (case r of
        ManifestValue _ \<Rightarrow> Inr ManifestRelativePath
      | TaskValue v \<Rightarrow> TaskRevisionRelativePath (task_TaskID v) (task_Revision v)
      | GraphValue v \<Rightarrow> DependencyGraphRevisionRelativePath (dgr_TaskID v) (dgr_TaskRevision v) (dgr_Revision v)
      | WorkPackageValue v \<Rightarrow> WorkPackageDefinitionRelativePath (wpd_WorkPackageID v)
      | ExecutionValue v \<Rightarrow> ExecutionManifestRelativePath (emf_ExecutionID v)
      | EventValue v \<Rightarrow> WorkEventRelativePath (hdr_RecordID (we_Header v)) (we_OccurredAt v)
      | HandoffValue v \<Rightarrow> HandoffRelativePath (hof_ExecutionID v)
      | ArtifactValue v \<Rightarrow> ArtifactManifestRelativePath (amf_ArtifactID v))"

section \<open>Reading a record\<close>

text \<open>
  A record is inspected, opened and read; \<open>readable\<close> says whether opening and reading a file succeeds. Nothing changes
  the file in between, so the opened file is the inspected one and its size is the number of bytes read.
\<close>

definition ReadPortableRecord ::
  "(string \<Rightarrow> bool) \<Rightarrow> (string \<Rightarrow> DecodedRecord option) \<Rightarrow> FS \<Rightarrow> Layout \<Rightarrow> string \<Rightarrow> project_error + DecodedRecord" where
  "ReadPortableRecord readable decode fs root relativePath =
     rbind (ResolvePortable root relativePath) (\<lambda>_.
     rbind (InspectManaged fs root relativePath) (\<lambda>(resolved, info, exists).
       if \<not> exists then Inl ErrRecordNotFound
       else case info of
         Some (FFile raw _) \<Rightarrow>
           if int (length raw) > MaxRecordBytes then Inl ErrRecordIntegrity
           else if \<not> readable resolved then Inl ErrFilesystem
           else (case decode raw of
                   None \<Rightarrow> Inl ErrRecordIntegrity
                 | Some decoded \<Rightarrow> if raw \<noteq> dec_Canonical decoded then Inl ErrRecordIntegrity else Inr decoded)
       | _ \<Rightarrow> Inl ErrUnsafePath))"

end
