(* ===== verification/Context_Compiler.thy ===== *)
theory Context_Compiler
  imports Project_Layout "HOL-Library.Product_Lexorder"
begin

text \<open>
  The compiler of context bundles, src/internal/contextcompiler/compiler.go. The decoder of records, the encoding of a
  bundle and the hash are arguments; the regular expressions of the redaction are written out as matchers.
  \<open>sort.Slice\<close> is a stable sort, which differs from it only on equal keys.
\<close>

section \<open>What the compiler uses of the standard library\<close>

text \<open>
  \<open>os.Lstat\<close> of an absolute path, with the links among the directories on the way followed: the kernel walks the path
  from the root and starts again at the target of a link, forty times at most.
\<close>

function walk :: "FS \<Rightarrow> nat \<Rightarrow> string \<Rightarrow> string list \<Rightarrow> os_error + string" where
  "walk fs n cur [] = Inr cur"
| "walk fs n cur [part] = Inr (cur @ ''/'' @ part)"
| "walk fs n cur (part # q # parts) =
     (let p = cur @ ''/'' @ part in
      case fs_nodes fs p of
        None \<Rightarrow> Inl ErrNotExist
      | Some FDir \<Rightarrow> walk fs n p (q # parts)
      | Some (FSymlink target) \<Rightarrow>
          (case n of 0 \<Rightarrow> Inl ErrOther | Suc m \<Rightarrow> walk fs m [] (segs target @ q # parts))
      | Some _ \<Rightarrow> Inl ErrOther)"
  by pat_completeness auto
termination
  by (relation "measures [\<lambda>(fs, n, cur, parts). n, \<lambda>(fs, n, cur, parts). length parts]") auto

definition LstatPath :: "FS \<Rightarrow> string \<Rightarrow> os_error + fnode" where
  "LstatPath fs path = rbind (walk fs 40 [] (segs path)) (Lstat fs)"

text \<open>\<open>utf8.Valid\<close>.\<close>

definition cont_byte :: "char \<Rightarrow> bool" where
  "cont_byte = byte_in 0x80 0xBF"

definition three_bytes :: "char \<Rightarrow> char \<Rightarrow> bool" where
  "three_bytes a b \<longleftrightarrow>
     (byte_in 0xE0 0xE0 a \<and> byte_in 0xA0 0xBF b) \<or> (byte_in 0xE1 0xEC a \<or> byte_in 0xEE 0xEF a) \<and> cont_byte b \<or>
     byte_in 0xED 0xED a \<and> byte_in 0x80 0x9F b"

definition four_bytes :: "char \<Rightarrow> char \<Rightarrow> bool" where
  "four_bytes a b \<longleftrightarrow>
     byte_in 0xF0 0xF0 a \<and> byte_in 0x90 0xBF b \<or> byte_in 0xF1 0xF3 a \<and> cont_byte b \<or> byte_in 0xF4 0xF4 a \<and> byte_in 0x80 0x8F b"

fun utf8_Valid :: "string \<Rightarrow> bool" where
  "utf8_Valid [] = True"
| "utf8_Valid (a # s) =
     (if byte_in 0 0x7F a then utf8_Valid s
      else case s of
        [] \<Rightarrow> False
      | b # s \<Rightarrow>
          if byte_in 0xC2 0xDF a then cont_byte b \<and> utf8_Valid s
          else case s of
            [] \<Rightarrow> False
          | c # s \<Rightarrow>
              if three_bytes a b then cont_byte c \<and> utf8_Valid s
              else case s of [] \<Rightarrow> False | d # s \<Rightarrow> four_bytes a b \<and> cont_byte c \<and> cont_byte d \<and> utf8_Valid s)"

text \<open>
  \<open>ToUpper\<close> and \<open>ToLower\<close> as far as finding ASCII text in the result goes: the dotless and the long letter have the
  upper case \<open>I\<close> and \<open>S\<close>, the dotted letter and the Kelvin sign the lower case \<open>i\<close> and \<open>k\<close>, and no other rune outside
  ASCII has one in it.
\<close>

fun ToUpper_ascii :: "string \<Rightarrow> string" where
  "ToUpper_ascii (a # b # s) =
     (if a = CHR 0xC4 \<and> b = CHR 0xB1 then CHR ''I'' # ToUpper_ascii s
      else if a = CHR 0xC5 \<and> b = CHR 0xBF then CHR ''S'' # ToUpper_ascii s
      else upper_byte a # ToUpper_ascii (b # s))"
| "ToUpper_ascii s = map upper_byte s"

fun ToLower_ascii :: "string \<Rightarrow> string" where
  "ToLower_ascii (a # b # c # s) =
     (if a = CHR 0xC4 \<and> b = CHR 0xB0 then CHR ''i'' # ToLower_ascii (c # s)
      else if a = CHR 0xE2 \<and> b = CHR 0x84 \<and> c = CHR 0xAA then CHR ''k'' # ToLower_ascii s
      else lower_byte a # ToLower_ascii (b # c # s))"
| "ToLower_ascii [a, b] = (if a = CHR 0xC4 \<and> b = CHR 0xB0 then ''i'' else [lower_byte a, lower_byte b])"
| "ToLower_ascii s = map lower_byte s"

fun Contains :: "string \<Rightarrow> string \<Rightarrow> bool" where
  "Contains [] sub = (sub = [])"
| "Contains (c # s) sub = (HasPrefix (c # s) sub \<or> Contains s sub)"

section \<open>Redaction\<close>

text \<open>
  A matcher gets whether it stands at the start of the text and the text that follows, and gives the replacement and
  the length of the leftmost match there. \<open>ReplaceAllString\<close> replaces the matches from left to right; no match of the
  four expressions is empty.
\<close>

type_synonym matcher = "bool \<Rightarrow> string \<Rightarrow> (string \<times> nat) option"

fun replace_from :: "matcher \<Rightarrow> bool \<Rightarrow> nat \<Rightarrow> string \<Rightarrow> string" where
  "replace_from f start n [] = []"
| "replace_from f start (Suc n) (c # s) = replace_from f False n s"
| "replace_from f start 0 (c # s) =
     (case f start (c # s) of
        None \<Rightarrow> c # replace_from f False 0 s
      | Some (replacement, n) \<Rightarrow> replacement @ replace_from f False (n - 1) s)"

definition ReplaceAllString :: "matcher \<Rightarrow> string \<Rightarrow> string" where
  "ReplaceAllString f s = replace_from f True 0 s"

text \<open>
  The classes of the expressions: white space, what may stand in a value, and the spellings of a letter when case does
  not matter, which for \<open>s\<close> and \<open>k\<close> include the long letter and the Kelvin sign.
\<close>

definition regex_space :: "char \<Rightarrow> bool" where
  "regex_space c \<longleftrightarrow> c \<in> set [CHR 0x09, CHR 0x0A, CHR 0x0C, CHR 0x0D, CHR 0x20]"

definition value_char :: "char \<Rightarrow> bool" where
  "value_char c \<longleftrightarrow> \<not> regex_space c \<and> c \<noteq> CHR 0x22 \<and> c \<noteq> CHR 0x27"

definition value_run :: "string \<Rightarrow> string option" where
  "value_run s = (case s of [] \<Rightarrow> None | c # _ \<Rightarrow> if value_char c then Some (dropWhile value_char s) else None)"

definition long_s :: string where "long_s = [CHR 0xC5, CHR 0xBF]"
definition kelvin :: string where "kelvin = [CHR 0xE2, CHR 0x84, CHR 0xAA]"

definition spellings :: "char \<Rightarrow> string list" where
  "spellings c = [[c], [upper_byte c]] @ (if c = CHR ''s'' then [long_s] else if c = CHR ''k'' then [kelvin] else [])"

fun match_word :: "string \<Rightarrow> string \<Rightarrow> string option" where
  "match_word [] s = Some s"
| "match_word (c # w) s = (case strip_one (spellings c) s of None \<Rightarrow> None | Some s \<Rightarrow> match_word w s)"

fun first_match :: "(string \<Rightarrow> string option) list \<Rightarrow> string \<Rightarrow> string option" where
  "first_match [] s = None"
| "first_match (f # fs) s = (case f s of None \<Rightarrow> first_match fs s | Some r \<Rightarrow> Some r)"

definition api_key :: "string \<Rightarrow> string option" where
  "api_key s =
     (case match_word ''api'' s of
        None \<Rightarrow> None
      | Some r \<Rightarrow> match_word ''key'' (case strip_one [''_'', ''-''] r of None \<Rightarrow> r | Some r \<Rightarrow> r))"

definition word_chars :: "string list" where
  "word_chars = map (\<lambda>c. [c]) ''abcdefghijklmnopqrstuvwxyzABCDEFGHIJKLMNOPQRSTUVWXYZ0123456789_'' @ [long_s, kelvin]"

definition prefixed_name :: "string \<Rightarrow> string \<Rightarrow> string option" where
  "prefixed_name w s =
     (case match_word w s of
        None \<Rightarrow> None
      | Some r \<Rightarrow> let rest = trim_with word_chars r in if rest = r then None else Some rest)"

definition assignment :: "(string \<Rightarrow> string option) list \<Rightarrow> string list \<Rightarrow> matcher" where
  "assignment names seps start s =
     (case first_match names s of
        None \<Rightarrow> None
      | Some r \<Rightarrow>
          (case strip_one seps (dropWhile regex_space r) of
             None \<Rightarrow> None
           | Some v \<Rightarrow>
               (case value_run (dropWhile regex_space v) of
                  None \<Rightarrow> None
                | Some rest \<Rightarrow> Some (take (length s - length r) s @ ''=<redacted>'', length s - length rest))))"

definition secretAssignment :: matcher where
  "secretAssignment = assignment [match_word ''password'', match_word ''token'', api_key, match_word ''secret''] ['':'', ''='']"

definition environmentAssignment :: matcher where
  "environmentAssignment =
     assignment [match_word ''home'', match_word ''userprofile'', match_word ''shell'', prefixed_name ''aws_'', prefixed_name ''openai_'']
       [''='']"

definition windowsAbsolute :: matcher where
  "windowsAbsolute start s =
     (case s of
        c # d # e # r \<Rightarrow>
          if c \<in> set ''abcdefghijklmnopqrstuvwxyzABCDEFGHIJKLMNOPQRSTUVWXYZ'' \<and> d = CHR '':'' \<and> e = CHR 0x5C
          then map_option (\<lambda>rest. (''<absolute-path>'', length s - length rest)) (value_run r)
          else None
      | _ \<Rightarrow> None)"

definition unix_path :: "string \<Rightarrow> string option" where
  "unix_path s =
     (case strip_one [''/home/'', ''/users/'', ''/var/'', ''/tmp/'', ''/etc/''] s of None \<Rightarrow> None | Some r \<Rightarrow> value_run r)"

definition unixAbsolute :: matcher where
  "unixAbsolute start s =
     map_option (\<lambda>rest. ('' <absolute-path>'', length s - length rest))
       (case (if start then unix_path s else None) of
          Some rest \<Rightarrow> Some rest
        | None \<Rightarrow> (case s of [] \<Rightarrow> None | c # r \<Rightarrow> if regex_space c then unix_path r else None))"

definition redact :: "string \<Rightarrow> string \<times> bool" where
  "redact value =
     (let next = ReplaceAllString secretAssignment value;
          next = ReplaceAllString environmentAssignment next;
          next = ReplaceAllString windowsAbsolute next;
          next = ReplaceAllString unixAbsolute next in
      (next, next \<noteq> value))"

section \<open>Requests and bundles\<close>

definition CompilerVersion :: string where "CompilerVersion = ''context-compiler:v1''"
definition DefaultMaxSourceBytes :: int where "DefaultMaxSourceBytes = 262144"
definition DefaultMaxBundleBytes :: int where "DefaultMaxBundleBytes = 1048576"
definition DefaultMaxTokens :: int where "DefaultMaxTokens = 50000"
definition CacheDirectory :: string where "CacheDirectory = LocalDirectory @ ''/context-cache''"

datatype context_error = ContextInvalid | ContextScope string | ContextBudget | ContextRecord project_error

type_synonym SourceKind = string
type_synonym PrivacyClass = string

definition SourceProjectHistory :: SourceKind where "SourceProjectHistory = ''project_history''"
definition SourceTaskGraph :: SourceKind where "SourceTaskGraph = ''task_graph''"
definition PrivacyPublic :: PrivacyClass where "PrivacyPublic = ''public''"
definition PrivacyProject :: PrivacyClass where "PrivacyProject = ''project''"
definition PrivacySensitive :: PrivacyClass where "PrivacySensitive = ''sensitive''"
definition PrivacySecret :: PrivacyClass where "PrivacySecret = ''secret''"

lemmas class_defs [go_eval] = SourceProjectHistory_def SourceTaskGraph_def PrivacyPublic_def PrivacyProject_def PrivacySensitive_def
  PrivacySecret_def

record SourceSpec =
  src_RelativePath :: string
  src_Kind :: SourceKind
  src_Privacy :: PrivacyClass
  src_TradeIDs :: "string list"

record ContextRequest =
  crq_ProjectID :: string
  crq_WorkPackageID :: string
  crq_TradeReference :: RegistryReference
  crq_Sources :: "SourceSpec list"
  crq_MaxSourceBytes :: int
  crq_MaxBundleBytes :: int
  crq_MaxTokens :: int

record SourceIndexEntry =
  sie_RelativePath :: string
  sie_Kind :: SourceKind
  sie_Privacy :: PrivacyClass
  sie_Digest :: string
  sie_Bytes :: int
  sie_Redacted :: bool

record Notice =
  ntc_RelativePath :: string
  ntc_Code :: string

record ContextManifest =
  cmf_CompilerVersion :: string
  cmf_ProjectID :: string
  cmf_WorkPackageID :: string
  cmf_TradeReference :: RegistryReference
  cmf_Sources :: "SourceIndexEntry list"
  cmf_Omissions :: "Notice list"
  cmf_Warnings :: "Notice list"
  cmf_EstimatedTokens :: int
  cmf_ContextDigest :: string

record ContextBundle =
  cbn_Manifest :: ContextManifest
  cbn_Index :: "SourceIndexEntry list"
  cbn_Briefing :: string

record ContextResult =
  crs_Bundle :: ContextBundle
  crs_Bytes :: string

record compiledSource =
  cps_entry :: SourceIndexEntry
  cps_content :: string

text \<open>What lies outside: the file system, which of its files can be read, the codecs and the hash.\<close>

record context_env =
  cx_fs :: FS
  cx_readable :: "string \<Rightarrow> bool"
  cx_decode :: "string \<Rightarrow> DecodedRecord option"
  cx_marshal :: "ContextBundle \<Rightarrow> string"
  cx_unmarshal :: "string \<Rightarrow> ContextBundle option"
  cx_digest :: "string \<Rightarrow> string"

section \<open>Checks\<close>

definition context_defaults :: "ContextRequest \<Rightarrow> ContextRequest" where
  "context_defaults r =
     r\<lparr> crq_MaxSourceBytes := (if crq_MaxSourceBytes r = 0 then DefaultMaxSourceBytes else crq_MaxSourceBytes r),
       crq_MaxBundleBytes := (if crq_MaxBundleBytes r = 0 then DefaultMaxBundleBytes else crq_MaxBundleBytes r),
       crq_MaxTokens := (if crq_MaxTokens r = 0 then DefaultMaxTokens else crq_MaxTokens r) \<rparr>"

definition validateContextRequest :: "ContextRequest \<Rightarrow> bool" where
  "validateContextRequest r \<longleftrightarrow>
     \<not> (crq_ProjectID r = [] \<or> crq_WorkPackageID r = [] \<or> \<not> HasPrefix (rref_ID (crq_TradeReference r)) ''trade:'' \<or>
        rref_Version (crq_TradeReference r) < 1 \<or> length (rref_Digest (crq_TradeReference r)) \<noteq> 64 \<or>
        length (crq_Sources r) > MaxListItems \<or> crq_MaxSourceBytes r < 1 \<or> crq_MaxBundleBytes r < 1 \<or> crq_MaxTokens r < 1)"

definition validKind :: "SourceKind \<Rightarrow> bool" where
  "validKind v \<longleftrightarrow> v \<in> set [''repository_file'', ''repository_doc'', ''adr'', SourceProjectHistory, SourceTaskGraph, ''test_expectation'']"

definition validPrivacy :: "PrivacyClass \<Rightarrow> bool" where
  "validPrivacy v \<longleftrightarrow> v = PrivacyPublic \<or> v = PrivacyProject \<or> v = PrivacySensitive \<or> v = PrivacySecret"

definition tradeApplies :: "string list \<Rightarrow> string \<Rightarrow> bool" where
  "tradeApplies ids i = (if ids = [] then True else list_ex (\<lambda>candidate. candidate = i) (sort ids))"

definition scopeAllows :: "WorkScope \<Rightarrow> string \<Rightarrow> bool" where
  "scopeAllows scope path =
     (if list_ex (within path) (ws_Forbidden scope) then False else list_ex (within path) (ws_Allowed scope @ ws_Inspect scope))"

definition forbidden_parts :: "string list" where
  "forbidden_parts = [''.git/'', ''.env'', ''.secrets/'', LocalDirectory @ ''/'', ''prompt'', ''transcript'', ''terminal-output'', ''terminal_output'']"

definition forbiddenContextPath :: "string \<Rightarrow> bool" where
  "forbiddenContextPath path = list_ex (Contains path) forbidden_parts"

definition containsPrivateKey :: "string \<Rightarrow> bool" where
  "containsPrivateKey raw \<longleftrightarrow>
     Contains (ToUpper_ascii raw) ''BEGIN PRIVATE KEY'' \<or> Contains (ToUpper_ascii raw) ''BEGIN OPENSSH PRIVATE KEY''"

definition recordProjectID :: "PortableRecord \<Rightarrow> string" where
  "recordProjectID value =
     hdr_ProjectID (case value of
        ManifestValue v \<Rightarrow> pmf_Header v | TaskValue v \<Rightarrow> task_Header v | GraphValue v \<Rightarrow> dgr_Header v
      | WorkPackageValue v \<Rightarrow> wpd_Header v | ExecutionValue v \<Rightarrow> emf_Header v | EventValue v \<Rightarrow> we_Header v
      | HandoffValue v \<Rightarrow> hof_Header v | ArtifactValue v \<Rightarrow> amf_Header v)"

definition portableSourceAllowed :: "SourceKind \<Rightarrow> PortableRecord \<Rightarrow> WorkPackageDefinition \<Rightarrow> bool" where
  "portableSourceAllowed kind value d =
     (if kind = SourceTaskGraph then
        (case value of
           TaskValue v \<Rightarrow> wpd_TaskID d \<noteq> [] \<and> task_TaskID v = wpd_TaskID d \<and> task_Revision v = wpd_TaskRevision d
         | GraphValue v \<Rightarrow>
             wpd_TaskID d \<noteq> [] \<and> dgr_TaskID v = wpd_TaskID d \<and> dgr_TaskRevision v = wpd_TaskRevision d \<and> dgr_Revision v = wpd_GraphRevision d
         | _ \<Rightarrow> False)
      else if kind = SourceProjectHistory then
        (case value of
           EventValue v \<Rightarrow>
             we_WorkPackageID v = wpd_WorkPackageID d \<and>
             we_EventType v \<in> set [EventWorkPackageStateChanged, EventExecutionFailed, EventTestRecorded, EventReviewRecorded, EventWorkAccepted]
         | _ \<Rightarrow> False)
      else False)"

definition estimateTokens :: "int \<Rightarrow> int" where
  "estimateTokens n = go_div (n + 3) 4"

definition sortNotices :: "Notice list \<Rightarrow> Notice list" where
  "sortNotices ns = sort_key (\<lambda>n. (ntc_RelativePath n, ntc_Code n)) ns"

definition notice :: "string \<Rightarrow> string \<Rightarrow> Notice" where
  "notice path code = \<lparr> ntc_RelativePath = path, ntc_Code = code \<rparr>"

section \<open>Compiling\<close>

text \<open>
  What a source holds, as far as its path and kind allow: an error of the whole compilation, a notice of omission, or
  the bytes with their digest.
\<close>

definition read_portable ::
  "context_env \<Rightarrow> Layout \<Rightarrow> ContextRequest \<Rightarrow> WorkPackageDefinition \<Rightarrow> SourceSpec \<Rightarrow> context_error + (string + string \<times> string)" where
  "read_portable env root request d source =
     (if src_Kind source \<noteq> SourceProjectHistory \<and> src_Kind source \<noteq> SourceTaskGraph then Inl ContextInvalid
      else case ReadPortableRecord (cx_readable env) (cx_decode env) (cx_fs env) root (src_RelativePath source) of
        Inl e \<Rightarrow> Inr (Inl (if e = ErrRecordNotFound then ''source_missing'' else ''source_invalid''))
      | Inr decoded \<Rightarrow>
          if recordProjectID (dec_Value decoded) \<noteq> crq_ProjectID request then Inl ContextInvalid
          else if \<not> portableSourceAllowed (src_Kind source) (dec_Value decoded) d then Inr (Inl ''source_not_allowlisted'')
          else Inr (Inr (dec_Canonical decoded, dec_Digest decoded)))"

definition read_workspace ::
  "context_env \<Rightarrow> Layout \<Rightarrow> ContextRequest \<Rightarrow> WorkPackageDefinition \<Rightarrow> SourceSpec \<Rightarrow> context_error + (string + string \<times> string)" where
  "read_workspace env root request d source =
     (let path = src_RelativePath source in
      if \<not> HasPrefix path (WorkspaceDirectory @ ''/'') then Inr (Inl ''outside_workspace'')
      else if \<not> scopeAllows (wpd_Scope d) (drop (length WorkspaceDirectory + 1) path) then Inl (ContextScope path)
      else case layout_Resolve root path of
        Inl _ \<Rightarrow> Inr (Inl ''source_unsafe'')
      | Inr resolved \<Rightarrow>
          (case LstatPath (cx_fs env) resolved of
             Inl ErrNotExist \<Rightarrow> Inr (Inl ''source_missing'')
           | Inr (FFile raw _) \<Rightarrow>
               if int (length raw) > crq_MaxSourceBytes request then Inr (Inl ''source_oversized'')
               else if \<not> cx_readable env resolved then Inr (Inl ''source_unreadable'')
               else Inr (Inr (raw, cx_digest env raw))
           | _ \<Rightarrow> Inr (Inl ''source_unsafe'')))"

definition read_source ::
  "context_env \<Rightarrow> Layout \<Rightarrow> ContextRequest \<Rightarrow> WorkPackageDefinition \<Rightarrow> SourceSpec \<Rightarrow> context_error + (string + string \<times> string)" where
  "read_source env root request d source =
     (if HasPrefix (src_RelativePath source) (ControlDirectory @ ''/'') then read_portable env root request d source
      else read_workspace env root request d source)"

definition admit_content :: "ContextRequest \<Rightarrow> SourceSpec \<Rightarrow> string \<times> string \<Rightarrow> compiledSource option \<times> Notice list" where
  "admit_content request source = (\<lambda>(raw, sourceDigest).
     let path = src_RelativePath source; (content, redacted) = redact raw in
     if int (length raw) > crq_MaxSourceBytes request then (None, [notice path ''source_oversized''])
     else if CHR 0x00 \<in> set raw \<or> \<not> utf8_Valid raw then (None, [notice path ''source_binary''])
     else if containsPrivateKey raw then (None, [notice path ''secret_content''])
     else (Some \<lparr> cps_entry = \<lparr> sie_RelativePath = path, sie_Kind = src_Kind source, sie_Privacy = src_Privacy source,
                               sie_Digest = sourceDigest, sie_Bytes = int (length raw), sie_Redacted = redacted \<rparr>,
                  cps_content = content \<rparr>,
           if redacted then [notice path ''content_redacted''] else []))"

definition compileSource ::
  "context_env \<Rightarrow> Layout \<Rightarrow> ContextRequest \<Rightarrow> WorkPackageDefinition \<Rightarrow> SourceSpec \<Rightarrow> context_error + compiledSource option \<times> Notice list" where
  "compileSource env root request d source =
     (let path = src_RelativePath source; omit = (\<lambda>code. Inr (None, [notice path code])) in
      if \<not> ValidateProjectRelativePath path then Inl ContextInvalid
      else if \<not> validKind (src_Kind source) \<or> \<not> validPrivacy (src_Privacy source) then Inl ContextInvalid
      else if forbiddenContextPath (ToLower_ascii path) then omit ''forbidden_source''
      else if src_Privacy source = PrivacySecret then omit ''secret_source''
      else if src_Privacy source = PrivacySensitive then omit ''sensitive_source''
      else rbind (read_source env root request d source) (\<lambda>found.
        case found of Inl code \<Rightarrow> omit code | Inr content \<Rightarrow> Inr (admit_content request source content)))"

record collected =
  col_seen :: "string list"
  col_contents :: "compiledSource list"
  col_omissions :: "Notice list"
  col_warnings :: "Notice list"

definition collect_source ::
  "context_env \<Rightarrow> Layout \<Rightarrow> ContextRequest \<Rightarrow> WorkPackageDefinition \<Rightarrow> collected \<Rightarrow> SourceSpec \<Rightarrow> context_error + collected" where
  "collect_source env root request d st source =
     (let path = src_RelativePath source in
      if path \<in> set (col_seen st) then Inr (st\<lparr>col_omissions := col_omissions st @ [notice path ''duplicate_source'']\<rparr>)
      else let st = st\<lparr>col_seen := path # col_seen st\<rparr> in
      if \<not> tradeApplies (src_TradeIDs source) (rref_ID (crq_TradeReference request))
      then Inr (st\<lparr>col_omissions := col_omissions st @ [notice path ''trade_irrelevant'']\<rparr>)
      else rbind (compileSource env root request d source) (\<lambda>(compiled, notices).
        Inr (st\<lparr> col_warnings := col_warnings st @ filter (\<lambda>n. ntc_Code n = ''content_redacted'') notices,
                col_omissions := col_omissions st @ filter (\<lambda>n. ntc_Code n \<noteq> ''content_redacted'') notices,
                col_contents := col_contents st @ (case compiled of None \<Rightarrow> [] | Some c \<Rightarrow> [c]) \<rparr>)))"

text \<open>The sections that fit into the budget, in order of their paths. The sizes are those of strings in memory.\<close>

definition source_section :: "compiledSource \<Rightarrow> string" where
  "source_section c =
     [CHR 0x0A] @ ''## '' @ sie_Kind (cps_entry c) @ '': '' @ sie_RelativePath (cps_entry c) @ [CHR 0x0A, CHR 0x0A] @ cps_content c @ [CHR 0x0A]"

record fitted =
  fit_text :: string
  fit_sources :: "SourceIndexEntry list"
  fit_omissions :: "Notice list"

definition fit_source :: "ContextRequest \<Rightarrow> fitted \<Rightarrow> compiledSource \<Rightarrow> fitted" where
  "fit_source request st c =
     (let projected = int (length (fit_text st)) + int (length (source_section c)) in
      if projected > crq_MaxBundleBytes request \<or> estimateTokens projected > crq_MaxTokens request
      then st\<lparr>fit_omissions := fit_omissions st @ [notice (sie_RelativePath (cps_entry c)) ''bundle_budget'']\<rparr>
      else st\<lparr>fit_text := fit_text st @ source_section c, fit_sources := fit_sources st @ [cps_entry c]\<rparr>)"

definition briefing_head :: "ContextRequest \<Rightarrow> string" where
  "briefing_head r =
     ''# Project Context'' @ [CHR 0x0A, CHR 0x0A] @ ''Project: '' @ crq_ProjectID r @ [CHR 0x0A] @ ''Work package: '' @ crq_WorkPackageID r @
     [CHR 0x0A] @ ''Trade: '' @ rref_ID (crq_TradeReference r) @ ''@'' @ Sprint (rref_Version (crq_TradeReference r)) @ [CHR 0x0A]"

definition load_definition :: "context_env \<Rightarrow> Layout \<Rightarrow> ContextRequest \<Rightarrow> context_error + string \<times> DecodedRecord \<times> WorkPackageDefinition" where
  "load_definition env root request =
     (case WorkPackageDefinitionRelativePath (crq_WorkPackageID request) of
        Inl _ \<Rightarrow> Inl ContextInvalid
      | Inr definitionPath \<Rightarrow>
          (case ReadPortableRecord (cx_readable env) (cx_decode env) (cx_fs env) root definitionPath of
             Inl e \<Rightarrow> Inl (ContextRecord e)
           | Inr decoded \<Rightarrow>
               (case dec_Value decoded of
                  WorkPackageValue d \<Rightarrow>
                    if hdr_ProjectID (wpd_Header d) \<noteq> crq_ProjectID request then Inl ContextInvalid
                    else if wpd_TradeReference d \<noteq> None \<and> wpd_TradeReference d \<noteq> Some (crq_TradeReference request) then Inl ContextInvalid
                    else Inr (definitionPath, decoded, d)
                | _ \<Rightarrow> Inl ContextInvalid)))"

definition definition_source :: "string \<Rightarrow> DecodedRecord \<Rightarrow> compiledSource" where
  "definition_source path decoded =
     \<lparr> cps_entry = \<lparr> sie_RelativePath = path, sie_Kind = SourceProjectHistory, sie_Privacy = PrivacyProject, sie_Digest = dec_Digest decoded,
                    sie_Bytes = int (length (dec_Canonical decoded)), sie_Redacted = False \<rparr>,
       cps_content = dec_Canonical decoded \<rparr>"

definition sorted_sources :: "ContextRequest \<Rightarrow> SourceSpec list" where
  "sorted_sources r = sort_key (\<lambda>s. (src_RelativePath s, src_Kind s)) (crq_Sources r)"

definition assemble :: "ContextRequest \<Rightarrow> collected \<Rightarrow> ContextBundle" where
  "assemble request st =
     (let fit = foldl (fit_source request) \<lparr> fit_text = [], fit_sources = [], fit_omissions = sortNotices (col_omissions st) \<rparr>
                  (sort_key (\<lambda>c. sie_RelativePath (cps_entry c)) (col_contents st));
          briefing = briefing_head request @ fit_text fit in
      \<lparr> cbn_Manifest =
          \<lparr> cmf_CompilerVersion = CompilerVersion, cmf_ProjectID = crq_ProjectID request, cmf_WorkPackageID = crq_WorkPackageID request,
            cmf_TradeReference = crq_TradeReference request, cmf_Sources = fit_sources fit, cmf_Omissions = sortNotices (fit_omissions fit),
            cmf_Warnings = sortNotices (col_warnings st), cmf_EstimatedTokens = estimateTokens (int (length briefing)),
            cmf_ContextDigest = [] \<rparr>,
        cbn_Index = fit_sources fit, cbn_Briefing = briefing \<rparr>)"

definition set_digest :: "string \<Rightarrow> ContextBundle \<Rightarrow> ContextBundle" where
  "set_digest digest b = b\<lparr>cbn_Manifest := (cbn_Manifest b)\<lparr>cmf_ContextDigest := digest\<rparr>\<rparr>"

definition Compile :: "context_env \<Rightarrow> Layout \<Rightarrow> ContextRequest \<Rightarrow> context_error + ContextResult" where
  "Compile env root req =
     (let request = context_defaults req in
      if \<not> validateContextRequest request then Inl ContextInvalid
      else rbind (load_definition env root request) (\<lambda>(definitionPath, decoded, d).
        rbind (fold_result (collect_source env root request d)
                 \<lparr> col_seen = [definitionPath], col_contents = [definition_source definitionPath decoded], col_omissions = [], col_warnings = [] \<rparr>
                 (sorted_sources request)) (\<lambda>st.
          let bundle = assemble request st; unsigned = cx_marshal env bundle;
              bundle = set_digest (cx_digest env unsigned) bundle; raw = cx_marshal env bundle in
          if int (length unsigned) > crq_MaxBundleBytes request then Inl ContextBudget
          else if int (length raw) > crq_MaxBundleBytes request then Inl ContextBudget
          else Inr \<lparr> crs_Bundle = bundle, crs_Bytes = raw \<rparr>)))"

section \<open>Bundles on disk\<close>

definition digestWithoutContext :: "context_env \<Rightarrow> ContextBundle \<Rightarrow> string" where
  "digestWithoutContext env bundle = cx_digest env (cx_marshal env (set_digest [] bundle))"

definition validateResult :: "context_env \<Rightarrow> ContextResult \<Rightarrow> bool" where
  "validateResult env result \<longleftrightarrow>
     (let bundle = crs_Bundle result; digest = cmf_ContextDigest (cbn_Manifest bundle) in
      crs_Bytes result \<noteq> [] \<and> cx_marshal env bundle = crs_Bytes result \<and> digest \<noteq> [] \<and> digestWithoutContext env bundle = digest)"

definition VerifyBundleBytes :: "context_env \<Rightarrow> string \<Rightarrow> string \<Rightarrow> context_error + unit" where
  "VerifyBundleBytes env raw expectedDigest =
     (if raw = [] \<or> int (length raw) > DefaultMaxBundleBytes \<or> expectedDigest = [] then Inl ContextInvalid
      else case cx_unmarshal env raw of
        None \<Rightarrow> Inl ContextInvalid
      | Some bundle \<Rightarrow>
          if \<not> validateResult env \<lparr> crs_Bundle = bundle, crs_Bytes = raw \<rparr> \<or> cmf_ContextDigest (cbn_Manifest bundle) \<noteq> expectedDigest
          then Inl ContextInvalid else ok)"

text \<open>\<open>OpenFile(path, O_WRONLY|O_CREATE|O_EXCL)\<close>, which never follows a link, and \<open>Remove\<close> of a file.\<close>

definition OpenExcl :: "FS \<Rightarrow> string \<Rightarrow> FS \<times> (os_error + unit)" where
  "OpenExcl fs path =
     (if fs_nodes fs path \<noteq> None then (fs, Inl ErrExist)
      else if fs_refuse fs path then (fs, Inl ErrOther)
      else (set_node path (FFile [] (fs_now fs)) fs, ok))"

definition Remove :: "FS \<Rightarrow> string \<Rightarrow> FS" where
  "Remove fs path = fs\<lparr>fs_nodes := (fs_nodes fs)(path := None)\<rparr>"

datatype cache_error = CacheInvalid | CacheDirectoryError | CacheConflict | CacheIO

definition Cache :: "context_env \<Rightarrow> Layout \<Rightarrow> ContextResult \<Rightarrow> FS \<times> (cache_error + string)" where
  "Cache env root result =
     (let fs = cx_fs env; relative = CacheDirectory @ ''/'' @ cmf_ContextDigest (cbn_Manifest (crs_Bundle result)) @ ''.json'' in
      if \<not> validateResult env result then (fs, Inl CacheInvalid)
      else case EnsureParentDirectoriesInsideShare fs root relative of
        (fs, Inl _) \<Rightarrow> (fs, Inl CacheDirectoryError)
      | (fs, Inr destination) \<Rightarrow>
          (case OpenExcl fs destination of
             (fs, Inl ErrExist) \<Rightarrow>
               (case InspectManaged fs root relative of
                  Inr (resolved, Some (FFile existing _), True) \<Rightarrow>
                    if \<not> cx_readable env resolved then (fs, Inl CacheIO)
                    else if existing \<noteq> crs_Bytes result then (fs, Inl CacheConflict) else (fs, Inr relative)
                | _ \<Rightarrow> (fs, Inl CacheInvalid))
           | (fs, Inl _) \<Rightarrow> (fs, Inl CacheIO)
           | (fs, Inr _) \<Rightarrow>
               (case WriteAt_end fs destination (crs_Bytes result) of
                  (fs, _, Inl _) \<Rightarrow> (Remove fs destination, Inl CacheIO)
                | (fs, _, Inr _) \<Rightarrow>
                    if fs_sync_fails fs destination \<or> fs_close_fails fs destination then (Remove fs destination, Inl CacheIO)
                    else (fs, Inr relative))))"

end
