(* ===== verification/Context_Safety.thy ===== *)
theory Context_Safety
  imports Context_Compiler Contract_Safety
begin

text \<open>
  What a compiled context bundle holds: only sources that the work package and the request admit, within the budget,
  and every requested source is either in it or listed as left out. The bundle does not depend on the order of the sources.
\<close>

section \<open>What may be in a bundle\<close>

text \<open>
  The bytes of a source are those of a file of the workspace in the scope of the work package, or of a record of the
  same project that its kind admits.
\<close>

definition workspace_bytes :: "context_env \<Rightarrow> Layout \<Rightarrow> WorkPackageDefinition \<Rightarrow> string \<Rightarrow> string \<Rightarrow> string \<Rightarrow> bool" where
  "workspace_bytes env root d path raw digest \<longleftrightarrow>
     (\<exists>below resolved t. path = WorkspaceDirectory @ ''/'' @ below \<and>
        (\<exists>p\<in>set (ws_Allowed (wpd_Scope d) @ ws_Inspect (wpd_Scope d)). within below p) \<and>
        (\<forall>p\<in>set (ws_Forbidden (wpd_Scope d)). \<not> within below p) \<and>
        ResolveInsideShare root path = Inr resolved \<and> LstatPath (cx_fs env) resolved = Inr (FFile raw t) \<and> digest = cx_digest env raw)"

definition record_bytes :: "context_env \<Rightarrow> Layout \<Rightarrow> ContextRequest \<Rightarrow> WorkPackageDefinition \<Rightarrow> SourceSpec \<Rightarrow> string \<Rightarrow> string \<Rightarrow> bool" where
  "record_bytes env root request d source raw digest \<longleftrightarrow>
     (\<exists>decoded. ReadPortableRecord (cx_readable env) (cx_decode env) (cx_fs env) root (src_RelativePath source) = Inr decoded \<and>
        recordProjectID (dec_Value decoded) = crq_ProjectID request \<and> portableSourceAllowed (src_Kind source) (dec_Value decoded) d \<and>
        raw = dec_Canonical decoded \<and> digest = dec_Digest decoded)"

definition admissible :: "context_env \<Rightarrow> Layout \<Rightarrow> ContextRequest \<Rightarrow> WorkPackageDefinition \<Rightarrow> SourceSpec \<Rightarrow> string \<Rightarrow> string \<Rightarrow> bool" where
  "admissible env root request d source raw digest \<longleftrightarrow>
     source \<in> set (crq_Sources request) \<and> ValidateProjectRelativePath (src_RelativePath source) \<and>
     \<not> forbiddenContextPath (ToLower_ascii (src_RelativePath source)) \<and>
     (src_Privacy source = PrivacyPublic \<or> src_Privacy source = PrivacyProject) \<and>
     (src_TradeIDs source = [] \<or> rref_ID (crq_TradeReference request) \<in> set (src_TradeIDs source)) \<and>
     (workspace_bytes env root d (src_RelativePath source) raw digest \<or> record_bytes env root request d source raw digest) \<and>
     int (length raw) \<le> crq_MaxSourceBytes request \<and> CHR 0x00 \<notin> set raw \<and> utf8_Valid raw \<and> \<not> containsPrivateKey raw"

definition compiled_of :: "SourceSpec \<Rightarrow> string \<Rightarrow> string \<Rightarrow> compiledSource" where
  "compiled_of source raw digest =
     \<lparr> cps_entry = \<lparr> sie_RelativePath = src_RelativePath source, sie_Kind = src_Kind source, sie_Privacy = src_Privacy source,
                    sie_Digest = digest, sie_Bytes = int (length raw), sie_Redacted = fst (redact raw) \<noteq> raw \<rparr>,
       cps_content = fst (redact raw) \<rparr>"

definition admitted :: "context_env \<Rightarrow> Layout \<Rightarrow> ContextRequest \<Rightarrow> WorkPackageDefinition \<Rightarrow> compiledSource \<Rightarrow> bool" where
  "admitted env root request d c \<longleftrightarrow>
     (\<exists>source raw digest. admissible env root request d source raw digest \<and> c = compiled_of source raw digest)"

abbreviation cpath :: "compiledSource \<Rightarrow> string" where
  "cpath c \<equiv> sie_RelativePath (cps_entry c)"

section \<open>Collecting\<close>

lemma snd_redact: "snd (redact raw) = (fst (redact raw) \<noteq> raw)"
  by (simp add: redact_def Let_def)

lemma admit_content_Some:
  assumes "admit_content request source (raw, digest) = (Some c, ns)"
  shows "c = compiled_of source raw digest \<and> int (length raw) \<le> crq_MaxSourceBytes request \<and> CHR 0x00 \<notin> set raw \<and>
    utf8_Valid raw \<and> \<not> containsPrivateKey raw"
  using assms snd_redact [of raw]
  by (auto simp: admit_content_def compiled_of_def Let_def split: prod.splits if_splits)

lemma read_workspace_Inr:
  assumes "read_workspace env root request d source = Inr (Inr (raw, digest))"
  shows "workspace_bytes env root d (src_RelativePath source) raw digest"
proof -
  let ?p = "src_RelativePath source"
  have pre: "HasPrefix ?p (WorkspaceDirectory @ ''/'')" and scope: "scopeAllows (wpd_Scope d) (drop (length WorkspaceDirectory + 1) ?p)"
    using assms by (auto simp: read_workspace_def Let_def split: if_splits)
  obtain resolved t where res: "layout_Resolve root ?p = Inr resolved" and stat: "LstatPath (cx_fs env) resolved = Inr (FFile raw t)"
    and dig: "digest = cx_digest env raw"
    using assms pre scope
    by (auto simp: read_workspace_def Let_def split: if_splits sum.splits os_error.splits fnode.splits)
  have path: "?p = WorkspaceDirectory @ ''/'' @ drop (length WorkspaceDirectory + 1) ?p"
    using pre by (metis HasPrefix_def append.assoc append_take_drop_id length_append length_Cons list.size(3) One_nat_def)
  have "ResolveInsideShare root ?p = Inr resolved"
    using res by (auto simp: layout_Resolve_def split: if_splits sum.splits)
  then show ?thesis
    using path scope stat dig unfolding workspace_bytes_def scopeAllows_def list_ex_iff
    by (metis (no_types, lifting))
qed

lemma read_portable_Inr:
  assumes "read_portable env root request d source = Inr (Inr (raw, digest))"
  shows "record_bytes env root request d source raw digest"
  using assms by (auto simp: read_portable_def record_bytes_def split: if_splits sum.splits)

lemma read_source_Inr:
  assumes "read_source env root request d source = Inr (Inr (raw, digest))"
  shows "workspace_bytes env root d (src_RelativePath source) raw digest \<or> record_bytes env root request d source raw digest"
  using assms read_portable_Inr read_workspace_Inr unfolding read_source_def by (metis (full_types))

lemma read_source_code:
  assumes "read_source env root request d source = Inr (Inl code)"
  shows "code \<noteq> ''content_redacted''"
  using assms
  by (auto simp: read_source_def read_portable_def read_workspace_def Let_def
      split: if_splits sum.splits os_error.splits fnode.splits)

lemma compileSource_Inr:
  assumes "compileSource env root request d source = Inr (compiled, ns)"
  shows "(\<exists>code. compiled = None \<and> ns = [notice (src_RelativePath source) code] \<and> code \<noteq> ''content_redacted'') \<or>
    (\<exists>content. read_source env root request d source = Inr (Inr content) \<and> admit_content request source content = (compiled, ns) \<and>
       ValidateProjectRelativePath (src_RelativePath source) \<and> \<not> forbiddenContextPath (ToLower_ascii (src_RelativePath source)) \<and>
       (src_Privacy source = PrivacyPublic \<or> src_Privacy source = PrivacyProject))"
proof (cases "read_source env root request d source")
  case (Inl e)
  then show ?thesis
    using assms by (auto simp: compileSource_def validPrivacy_def Let_def split: if_splits)
next
  case (Inr found)
  then show ?thesis
    using assms read_source_code [of env root request d source]
    by (cases found) (auto simp: compileSource_def validPrivacy_def Let_def split: if_splits)
qed

lemma compileSource_Some:
  assumes "compileSource env root request d source = Inr (Some c, ns)"
    and "source \<in> set (crq_Sources request)" and "tradeApplies (src_TradeIDs source) (rref_ID (crq_TradeReference request))"
  shows "admitted env root request d c \<and> cpath c = src_RelativePath source"
proof -
  obtain raw digest where found: "read_source env root request d source = Inr (Inr (raw, digest))"
    and admit: "admit_content request source (raw, digest) = (Some c, ns)"
    and checks: "ValidateProjectRelativePath (src_RelativePath source)" "\<not> forbiddenContextPath (ToLower_ascii (src_RelativePath source))"
      "src_Privacy source = PrivacyPublic \<or> src_Privacy source = PrivacyProject"
    using compileSource_Inr [OF assms(1)] by (metis option.distinct(1) surj_pair)
  note content = admit_content_Some [OF admit]
  have "src_TradeIDs source = [] \<or> rref_ID (crq_TradeReference request) \<in> set (src_TradeIDs source)"
    using assms(3) by (auto simp: tradeApplies_def list_ex_iff split: if_splits)
  then have "admissible env root request d source raw digest"
    using assms(2) checks content read_source_Inr [OF found] by (simp add: admissible_def)
  then show ?thesis
    using content by (auto simp: admitted_def compiled_of_def)
qed

lemma compileSource_None:
  assumes "compileSource env root request d source = Inr (None, ns)"
  shows "\<exists>n\<in>set ns. ntc_RelativePath n = src_RelativePath source \<and> ntc_Code n \<noteq> ''content_redacted''"
proof -
  have "\<exists>n\<in>set ns. ntc_RelativePath n = src_RelativePath source \<and> ntc_Code n \<noteq> ''content_redacted''"
    if "admit_content request source content = (None, ns)" for content
    using that by (auto simp: admit_content_def notice_def Let_def split: prod.splits if_splits)
  then show ?thesis
    using compileSource_Inr [OF assms] by (auto simp: notice_def)
qed

definition collected_ok :: "context_env \<Rightarrow> Layout \<Rightarrow> ContextRequest \<Rightarrow> WorkPackageDefinition \<Rightarrow> compiledSource \<Rightarrow> collected \<Rightarrow> bool" where
  "collected_ok env root request d first st \<longleftrightarrow>
     (\<forall>c\<in>set (col_contents st). c = first \<or> admitted env root request d c) \<and> first \<in> set (col_contents st) \<and>
     distinct (map cpath (col_contents st)) \<and> (\<forall>c\<in>set (col_contents st). cpath c \<in> set (col_seen st)) \<and>
     (\<forall>p\<in>set (col_seen st). p \<in> cpath ` set (col_contents st) \<or> p \<in> ntc_RelativePath ` set (col_omissions st))"

lemma collect_source_ok:
  assumes "collect_source env root request d st source = Inr st'" and "collected_ok env root request d first st"
    and "source \<in> set (crq_Sources request)"
  shows "collected_ok env root request d first st' \<and> src_RelativePath source \<in> set (col_seen st') \<and> set (col_seen st) \<subseteq> set (col_seen st')"
proof (cases "src_RelativePath source \<in> set (col_seen st)")
  case True
  then show ?thesis
    using assms(1,2) by (auto simp: collect_source_def collected_ok_def Let_def)
next
  case new: False
  show ?thesis
  proof (cases "tradeApplies (src_TradeIDs source) (rref_ID (crq_TradeReference request))")
    case False
    then show ?thesis
      using new assms(1,2) by (auto simp: collect_source_def collected_ok_def notice_def Let_def)
  next
    case applies: True
    then obtain compiled ns where run: "compileSource env root request d source = Inr (compiled, ns)"
      and st': "st' = st\<lparr> col_seen := src_RelativePath source # col_seen st,
          col_warnings := col_warnings st @ filter (\<lambda>n. ntc_Code n = ''content_redacted'') ns,
          col_omissions := col_omissions st @ filter (\<lambda>n. ntc_Code n \<noteq> ''content_redacted'') ns,
          col_contents := col_contents st @ (case compiled of None \<Rightarrow> [] | Some c \<Rightarrow> [c]) \<rparr>"
      using new assms(1) by (auto simp: collect_source_def Let_def rbind_eq_Inr)
    show ?thesis
    proof (cases compiled)
      case None
      then obtain n where n: "n \<in> set ns" "ntc_RelativePath n = src_RelativePath source" "ntc_Code n \<noteq> ''content_redacted''"
        using compileSource_None run by blast
      then have "src_RelativePath source \<in> ntc_RelativePath ` set (col_omissions st')"
        by (auto simp: st' intro!: image_eqI [of _ _ n])
      then show ?thesis
        using assms(2) None by (auto simp: st' collected_ok_def)
    next
      case (Some c)
      then have "admitted env root request d c \<and> cpath c = src_RelativePath source"
        using compileSource_Some run assms(3) applies by blast
      then show ?thesis
        using new assms(2) Some by (auto simp: st' collected_ok_def)
    qed
  qed
qed

lemma collect_all_ok:
  "fold_result (collect_source env root request d) st xs = Inr st' \<Longrightarrow> collected_ok env root request d first st \<Longrightarrow>
   set xs \<subseteq> set (crq_Sources request) \<Longrightarrow>
   collected_ok env root request d first st' \<and> src_RelativePath ` set xs \<subseteq> set (col_seen st') \<and> set (col_seen st) \<subseteq> set (col_seen st')"
proof (induction xs arbitrary: st)
  case (Cons x xs)
  from Cons.prems(1) obtain st1 where step: "collect_source env root request d st x = Inr st1"
    and rest: "fold_result (collect_source env root request d) st1 xs = Inr st'"
    by (auto simp: rbind_eq_Inr)
  note one = collect_source_ok [OF step Cons.prems(2)]
  show ?case
    using Cons.IH [OF rest] one Cons.prems(3) by auto
qed simp

section \<open>Fitting\<close>

lemma fit_all:
  fixes r :: ContextRequest
  defines "fits \<equiv> \<lambda>t. int (length t) \<le> crq_MaxBundleBytes r \<and> estimateTokens (int (length t)) \<le> crq_MaxTokens r"
  shows "\<exists>kept. subseq kept cs \<and> fit_text (foldl (fit_source r) st cs) = fit_text st @ concat (map source_section kept) \<and>
    fit_sources (foldl (fit_source r) st cs) = fit_sources st @ map cps_entry kept \<and>
    set (fit_omissions st) \<subseteq> set (fit_omissions (foldl (fit_source r) st cs)) \<and>
    (\<forall>c\<in>set cs - set kept. notice (cpath c) ''bundle_budget'' \<in> set (fit_omissions (foldl (fit_source r) st cs))) \<and>
    (fits (fit_text st) \<longrightarrow> fits (fit_text (foldl (fit_source r) st cs)))"
proof (induction cs arbitrary: st)
  case (Cons c cs)
  let ?st = "fit_source r st c"
  obtain kept where IH: "subseq kept cs" "fit_text (foldl (fit_source r) ?st cs) = fit_text ?st @ concat (map source_section kept)"
      "fit_sources (foldl (fit_source r) ?st cs) = fit_sources ?st @ map cps_entry kept"
      "set (fit_omissions ?st) \<subseteq> set (fit_omissions (foldl (fit_source r) ?st cs))"
      "\<forall>c\<in>set cs - set kept. notice (cpath c) ''bundle_budget'' \<in> set (fit_omissions (foldl (fit_source r) ?st cs))"
      "fits (fit_text ?st) \<longrightarrow> fits (fit_text (foldl (fit_source r) ?st cs))"
    using Cons.IH [of ?st] by blast
  consider (skip) "fit_text ?st = fit_text st" "fit_sources ?st = fit_sources st"
      "fit_omissions ?st = fit_omissions st @ [notice (cpath c) ''bundle_budget'']"
    | (keep) "fit_text ?st = fit_text st @ source_section c" "fit_sources ?st = fit_sources st @ [cps_entry c]"
      "fit_omissions ?st = fit_omissions st" "fits (fit_text ?st)"
    by (cases "int (length (fit_text st)) + int (length (source_section c)) > crq_MaxBundleBytes r \<or>
          estimateTokens (int (length (fit_text st)) + int (length (source_section c))) > crq_MaxTokens r")
      (simp_all add: fit_source_def fits_def Let_def)
  then show ?case
  proof cases
    case skip
    then show ?thesis
      using IH by (intro exI [of _ kept]) auto
  next
    case keep
    then show ?thesis
      using IH by (intro exI [of _ "c # kept"]) auto
  qed
qed auto

section \<open>The whole bundle\<close>

lemma subseq_subset: "subseq xs ys \<Longrightarrow> set xs \<subseteq> set ys"
  by (induction rule: list_emb.induct) auto

lemma subseq_sorted: "subseq xs ys \<Longrightarrow> sorted_wrt P (map f ys) \<Longrightarrow> sorted_wrt P (map f xs)"
  by (induction rule: list_emb.induct) (use subseq_subset in fastforce)+

lemma sort_key_strict: "distinct (map f xs) \<Longrightarrow> sorted_wrt (<) (map f (sort_key f xs))" for f :: "'a \<Rightarrow> 'b :: linorder"
  by (metis distinct_map distinct_sort set_sort sorted_sort_key strict_sorted_iff)

lemma assemble_parts:
  assumes "collected_ok env root request d first st" and "0 \<le> crq_MaxBundleBytes request" and "0 \<le> crq_MaxTokens request"
  shows "\<exists>kept. set kept \<subseteq> set (col_contents st) \<and> cbn_Briefing (assemble request st) = briefing_head request @ concat (map source_section kept) \<and>
    cmf_Sources (cbn_Manifest (assemble request st)) = map cps_entry kept \<and> cbn_Index (assemble request st) = map cps_entry kept \<and>
    sorted_wrt (<) (map cpath kept) \<and>
    (\<forall>p\<in>set (col_seen st). p \<in> cpath ` set kept \<or> p \<in> ntc_RelativePath ` set (cmf_Omissions (cbn_Manifest (assemble request st)))) \<and>
    int (length (concat (map source_section kept))) \<le> crq_MaxBundleBytes request \<and>
    estimateTokens (int (length (concat (map source_section kept)))) \<le> crq_MaxTokens request"
proof -
  let ?cs = "sort_key cpath (col_contents st)"
  let ?st0 = "\<lparr> fit_text = [], fit_sources = [], fit_omissions = sortNotices (col_omissions st) \<rparr>"
  let ?om = "fit_omissions (foldl (fit_source request) ?st0 ?cs)"
  obtain kept where sub: "subseq kept ?cs"
    and fit: "fit_text (foldl (fit_source request) ?st0 ?cs) = concat (map source_section kept)"
      "fit_sources (foldl (fit_source request) ?st0 ?cs) = map cps_entry kept"
    and om: "set (sortNotices (col_omissions st)) \<subseteq> set ?om" "\<forall>c\<in>set ?cs - set kept. notice (cpath c) ''bundle_budget'' \<in> set ?om"
    and bound: "int (length (concat (map source_section kept))) \<le> crq_MaxBundleBytes request"
      "estimateTokens (int (length (concat (map source_section kept)))) \<le> crq_MaxTokens request"
    using fit_all [of ?cs request ?st0] assms(2,3) by (auto simp: estimateTokens_def go_div_nonneg)
  have set: "set kept \<subseteq> set (col_contents st)"
    using subseq_subset [OF sub] by simp
  have sorted: "sorted_wrt (<) (map cpath kept)"
    using sub sort_key_strict assms(1) by (auto simp: collected_ok_def intro: subseq_sorted)
  have listed: "p \<in> cpath ` set kept \<or> p \<in> ntc_RelativePath ` set ?om" if "p \<in> set (col_seen st)" for p
  proof (cases "p \<in> cpath ` set (col_contents st)")
    case True
    then obtain c where c: "c \<in> set (col_contents st)" "p = cpath c"
      by blast
    then have "c \<in> set kept \<or> notice (cpath c) ''bundle_budget'' \<in> set ?om"
      using om(2) by auto
    then show ?thesis
      using c image_eqI [of "cpath c" ntc_RelativePath "notice (cpath c) ''bundle_budget''"] by (auto simp: notice_def)
  next
    case False
    then have "p \<in> ntc_RelativePath ` set (sortNotices (col_omissions st))"
      using that assms(1) by (auto simp: collected_ok_def sortNotices_def)
    then show ?thesis
      using om(1) by blast
  qed
  show ?thesis
    using set sorted listed bound fit
    by (intro exI [of _ kept]) (simp add: assemble_def Let_def sortNotices_def)
qed

lemma collected_ok_init:
  "collected_ok env root request d (definition_source path decoded)
     \<lparr> col_seen = [path], col_contents = [definition_source path decoded], col_omissions = [], col_warnings = [] \<rparr>"
  by (simp add: collected_ok_def definition_source_def)

lemma set_digest_simps [simp]:
  "cbn_Briefing (set_digest h b) = cbn_Briefing b" "cbn_Index (set_digest h b) = cbn_Index b"
  "cmf_Sources (cbn_Manifest (set_digest h b)) = cmf_Sources (cbn_Manifest b)"
  "cmf_Omissions (cbn_Manifest (set_digest h b)) = cmf_Omissions (cbn_Manifest b)"
  "cmf_ProjectID (cbn_Manifest (set_digest h b)) = cmf_ProjectID (cbn_Manifest b)"
  "cmf_WorkPackageID (cbn_Manifest (set_digest h b)) = cmf_WorkPackageID (cbn_Manifest b)"
  "cmf_TradeReference (cbn_Manifest (set_digest h b)) = cmf_TradeReference (cbn_Manifest b)"
  "cmf_ContextDigest (cbn_Manifest (set_digest h b)) = h" "set_digest h (set_digest g b) = set_digest h b"
  by (simp_all add: set_digest_def)

lemma assemble_identity:
  "cmf_ProjectID (cbn_Manifest (assemble request st)) = crq_ProjectID request"
  "cmf_WorkPackageID (cbn_Manifest (assemble request st)) = crq_WorkPackageID request"
  "cmf_TradeReference (cbn_Manifest (assemble request st)) = crq_TradeReference request"
  "set_digest [] (assemble request st) = assemble request st"
  by (simp_all add: assemble_def set_digest_def Let_def)

lemma Compile_Inr:
  assumes "Compile env root req = Inr result"
  shows "\<exists>path decoded d st. validateContextRequest (context_defaults req) \<and> load_definition env root (context_defaults req) = Inr (path, decoded, d) \<and>
    fold_result (collect_source env root (context_defaults req) d)
      \<lparr> col_seen = [path], col_contents = [definition_source path decoded], col_omissions = [], col_warnings = [] \<rparr>
      (sorted_sources (context_defaults req)) = Inr st \<and>
    crs_Bundle result = set_digest (cx_digest env (cx_marshal env (assemble (context_defaults req) st))) (assemble (context_defaults req) st) \<and>
    crs_Bytes result = cx_marshal env (crs_Bundle result) \<and> int (length (crs_Bytes result)) \<le> crq_MaxBundleBytes (context_defaults req)"
  using assms by (auto simp: Compile_def Let_def rbind_eq_Inr split: if_splits)

lemma defaults_sources [simp]: "crq_Sources (context_defaults req) = crq_Sources req"
  by (simp add: context_defaults_def)


section \<open>The order of the sources\<close>

lemma compile_other_sources:
  fixes r :: ContextRequest
  shows "load_definition env root (r\<lparr>crq_Sources := xs\<rparr>) = load_definition env root r"
    and "collect_source env root (r\<lparr>crq_Sources := xs\<rparr>) = collect_source env root r"
    and "assemble (r\<lparr>crq_Sources := xs\<rparr>) = assemble r"
proof -
  have fit: "fit_source (r\<lparr>crq_Sources := xs\<rparr>) = fit_source r"
    by (intro ext) (simp add: fit_source_def)
  have portable: "read_portable env root (r\<lparr>crq_Sources := xs\<rparr>) d s = read_portable env root r d s" for d s
    by (simp add: read_portable_def split: sum.split)
  have workspace: "read_workspace env root (r\<lparr>crq_Sources := xs\<rparr>) d s = read_workspace env root r d s" for d s
    by (simp add: read_workspace_def Let_def split: sum.split os_error.split fnode.split)
  have admit: "admit_content (r\<lparr>crq_Sources := xs\<rparr>) s = admit_content r s" for s
    by (intro ext) (simp add: admit_content_def split: prod.split)
  have "compileSource env root (r\<lparr>crq_Sources := xs\<rparr>) = compileSource env root r"
    by (intro ext) (simp add: compileSource_def read_source_def portable workspace admit Let_def cong: if_cong)
  then show "collect_source env root (r\<lparr>crq_Sources := xs\<rparr>) = collect_source env root r"
    by (intro ext) (simp add: collect_source_def Let_def cong: if_cong)
  show "load_definition env root (r\<lparr>crq_Sources := xs\<rparr>) = load_definition env root r"
    by (simp add: load_definition_def split: sum.split PortableRecord.split)
  show "assemble (r\<lparr>crq_Sources := xs\<rparr>) = assemble r"
    by (intro ext) (simp add: assemble_def fit briefing_head_def)
qed

definition source_key :: "SourceSpec \<Rightarrow> string \<times> string" where
  "source_key s = (src_RelativePath s, src_Kind s)"

text \<open>
  C13. The bundle does not depend on the order in which the sources are listed, as long as no two of them have the same
  path and kind: any other order of the same sources gives the same result, byte for byte, errors included.
\<close>

theorem Compile_order:
  assumes "mset xs = mset ys" and "distinct (map source_key xs)"
  shows "Compile env root (r\<lparr>crq_Sources := xs\<rparr>) = Compile env root (r\<lparr>crq_Sources := ys\<rparr>)"
proof -
  have inj: "inj_on source_key (set xs)"
    using assms(2) by (simp add: distinct_map)
  have "sort_key source_key xs = sort_key source_key ys"
    by (rule sort_key_inj_key_eq [OF _ inj]) (simp_all add: assms(1))
  then have sorted: "sorted_sources (context_defaults (r\<lparr>crq_Sources := xs\<rparr>)) = sorted_sources (context_defaults (r\<lparr>crq_Sources := ys\<rparr>))"
    by (simp add: sorted_sources_def source_key_def [abs_def])
  have defaults: "context_defaults (r\<lparr>crq_Sources := zs\<rparr>) = (context_defaults r)\<lparr>crq_Sources := zs\<rparr>" for zs
    by (simp add: context_defaults_def)
  have "length xs = length ys"
    using assms(1) by (rule mset_eq_length)
  then have valid: "validateContextRequest ((context_defaults r)\<lparr>crq_Sources := xs\<rparr>) = validateContextRequest ((context_defaults r)\<lparr>crq_Sources := ys\<rparr>)"
    by (simp add: validateContextRequest_def)
  show ?thesis
    using sorted valid by (simp add: Compile_def defaults compile_other_sources Let_def cong: if_cong)
qed

section \<open>An example project\<close>

text \<open>
  A project at \<open>/p\<close> with the example work package, whose definition decodes from the letter \<open>D\<close>, and a workspace with
  a file and a link to a directory outside.
\<close>

definition example_work_package :: WorkPackageDefinition where
  "example_work_package = (bq_WorkPackage example_request)\<lparr>wpd_Scope := \<lparr> ws_Allowed = [''src''], ws_Inspect = [], ws_Forbidden = [''src/x''] \<rparr>\<rparr>"

definition example_nodes :: "(string \<times> fnode) list" where
  "example_nodes =
     [(''/p'', FDir), (''/p/.agent-project'', FDir), (''/p/.agent-project/work-packages'', FDir), (''/p/.agent-project/work-packages/a'', FDir),
      (''/p/.agent-project/work-packages/a/definition.json'', FFile ''D'' 0), (''/p/workspace'', FDir), (''/p/workspace/src'', FDir),
      (''/p/workspace/src/a'', FFile ''token = abc'' 0), (''/p/workspace/src/l'', FSymlink ''/k''),
      (''/k'', FDir), (''/k/id'', FFile ''outside'' 0)]"

definition example_decoded :: DecodedRecord where
  "example_decoded = \<lparr> dec_Value = WorkPackageValue example_work_package, dec_Canonical = ''D'', dec_Digest = ''d'' \<rparr>"

definition example_env :: "(string \<Rightarrow> string) \<Rightarrow> context_env" where
  "example_env digest =
     \<lparr> cx_fs = plain_fs (map_of example_nodes), cx_readable = (\<lambda>_. True), cx_decode = (\<lambda>raw. if raw = ''D'' then Some example_decoded else None),
       cx_marshal = cbn_Briefing, cx_unmarshal = (\<lambda>_. None), cx_digest = digest \<rparr>"

definition example_spec :: "string \<Rightarrow> PrivacyClass \<Rightarrow> SourceSpec" where
  "example_spec path privacy = \<lparr> src_RelativePath = path, src_Kind = ''repository_file'', src_Privacy = privacy, src_TradeIDs = [] \<rparr>"

definition example_context :: "SourceSpec list \<Rightarrow> ContextRequest" where
  "example_context sources =
     \<lparr> crq_ProjectID = ''A'', crq_WorkPackageID = ''A'', crq_TradeReference = example_reference ''trade:'', crq_Sources = sources,
       crq_MaxSourceBytes = 0, crq_MaxBundleBytes = 0, crq_MaxTokens = 0 \<rparr>"

abbreviation example_path :: string where
  "example_path \<equiv> ''.agent-project/work-packages/a/definition.json''"

lemma example_record:
  "ReadPortableRecord (\<lambda>_. True) (\<lambda>raw. if raw = ''D'' then Some example_decoded else None) (plain_fs (map_of example_nodes)) ''/p'' example_path =
   Inr example_decoded"
  by code_simp

lemma example_load:
  "load_definition (example_env h) ''/p'' (context_defaults (example_context xs)) = Inr (example_path, example_decoded, example_work_package)"
proof -
  have "WorkPackageDefinitionRelativePath ''A'' = Inr example_path"
    by code_simp
  moreover have "hdr_ProjectID (wpd_Header example_work_package) = ''A''" "wpd_TradeReference example_work_package = Some (example_reference ''trade:'')"
    by (simp_all add: example_work_package_def example_request_def example_header_def)
  ultimately show ?thesis
    by (simp add: load_definition_def example_env_def example_context_def context_defaults_def example_record)
      (simp add: example_decoded_def)
qed

lemmas example_compile = Compile_def Let_def example_load rbind_Inr prod.case

lemma example_compiles:
  "is_ok (Compile (example_env (\<lambda>_. example_digest)) ''/p'' (example_context [example_spec ''workspace/src/a'' PrivacyPublic]))"
  unfolding example_compile by code_simp


theorem Compile_order_witness:
  "Compile (example_env (\<lambda>_. example_digest)) ''/p'' ((example_context [])\<lparr>crq_Sources := [example_spec ''workspace/src/b'' PrivacyPublic, example_spec ''workspace/src/a'' PrivacyPublic]\<rparr>) =
   Compile (example_env (\<lambda>_. example_digest)) ''/p'' ((example_context [])\<lparr>crq_Sources := [example_spec ''workspace/src/a'' PrivacyPublic, example_spec ''workspace/src/b'' PrivacyPublic]\<rparr>)"
  by (rule Compile_order) (simp_all add: source_key_def example_spec_def)



text \<open>
  Two entries with one path and kind keep their order, and only the first of them is compiled: with equal keys the result depends
  on the order of the list.
\<close>

lemma duplicate_sources_keep_order:
  "sorted_sources (example_context [example_spec p a, example_spec p b]) = [example_spec p a, example_spec p b]"
  by (simp add: sorted_sources_def example_context_def example_spec_def)

end
