(* ===== verification/Dispatch_Binding.thy ===== *)
theory Dispatch_Binding
  imports Context_Safety Assignment_Replay
begin

text \<open>
  Binding a selection to an attempt, src/internal/dispatchbinding/binding.go: the context is compiled, the contract that
  names its digest is created, and the assignment is planned with an envelope of what was bound. The JSON codec of the
  envelope and the hash are arguments.
\<close>

section \<open>Types\<close>

definition attemptBindingSchema :: string where
  "attemptBindingSchema = ''syncgate.attempt-binding.v1''"

datatype binding_error =
  ErrInvalidAttemptBinding | BindSelection selection_error | BindContext context_error | BindContract create_error | BindControl control_error

record attemptBindingEnvelope =
  abe_Schema :: string
  abe_Contract :: ContractReference
  abe_ContextDigest :: string
  abe_ContextCompiler :: string
  abe_ProjectRevision :: string
  abe_TaskID :: string
  abe_TaskRevision :: int
  abe_TaskDigest :: string
  abe_GraphRevision :: int
  abe_GraphDigest :: string
  abe_WorkPackageID :: string
  abe_WorkPackageDigest :: string
  abe_Trade :: RegistryReference
  abe_Worker :: RegistryReference
  abe_Instruction :: BindingReference
  abe_Runtime :: BindingReference
  abe_Provider :: BindingReference
  abe_Model :: BindingReference
  abe_Node :: BindingReference
  abe_Permissions :: EffectivePermissions
  abe_Budget :: BudgetLimits
  abe_Deadline :: time
  abe_RetryLimit :: int
  abe_Deliverables :: "string list"
  abe_AcceptanceCriteria :: "string list"
  abe_RequiredGates :: "GateRequirement list"
  abe_OutputSchema :: string
  abe_SourceDigests :: "string list"
  abe_Omissions :: "Notice list"
  abe_Warnings :: "Notice list"

text \<open>The service: the stores are in the state, the clocks and codecs in the service.\<close>

record ContractBindingService =
  cbs_Contracts :: codec
  cbs_Control :: ControlService
  cbs_Now :: "time option"
  cbs_Context :: context_env
  cbs_marshal :: "attemptBindingEnvelope \<Rightarrow> string"
  cbs_unmarshal :: "string \<Rightarrow> attemptBindingEnvelope option"
  cbs_sha256 :: "string \<Rightarrow> string"

record BindAndPlanRequest =
  bpr_Layout :: Layout
  bpr_Selection :: SelectionResult
  bpr_Context :: ContextRequest
  bpr_Contract :: BuildRequest
  bpr_Plan :: PlanRequest

record BindAndPlanResult =
  bps_Context :: ContextResult
  bps_Contract :: Contract
  bps_Planned :: OrchestrationWriteResult

section \<open>Operations\<close>

definition validateBindingIdentity :: "BindAndPlanRequest \<Rightarrow> CandidateIdentity \<Rightarrow> bool" where
  "validateBindingIdentity request selected \<longleftrightarrow>
     (let c = bpr_Context request; q = bpr_Contract request; p = bpr_Plan request;
          project = hdr_ProjectID (task_Header (bq_Task q)); wp = wpd_WorkPackageID (bq_WorkPackage q) in
      \<not> (crq_ProjectID c \<noteq> project \<or> crq_WorkPackageID c \<noteq> wp \<or> crq_TradeReference c \<noteq> bq_Trade q \<or>
         pl_ProjectID p \<noteq> project \<or> pl_TaskID p \<noteq> task_TaskID (bq_Task q) \<or> pl_TaskRevision p \<noteq> task_Revision (bq_Task q) \<or>
         pl_GraphRevision p \<noteq> dgr_Revision (bq_Graph q) \<or> pl_WorkPackageID p \<noteq> wp \<or> pl_ExecutionID p \<noteq> bq_ExecutionID q \<or>
         pl_WorkerID p \<noteq> ci_WorkerID selected \<or> pl_NodeID p \<noteq> ci_NodeID selected \<or> rref_ID (bq_Worker q) \<noteq> ci_WorkerID selected \<or>
         bd_ID (bq_Node q) \<noteq> ci_NodeID selected))"

definition bindPlanContract :: "PlanRequest \<Rightarrow> Contract \<Rightarrow> binding_error + PlanRequest" where
  "bindPlanContract plan contract =
     (if pl_ContractID plan \<noteq> [] \<and> pl_ContractID plan \<noteq> ct_ContractID contract \<or>
         pl_ContractVersion plan \<noteq> 0 \<and> pl_ContractVersion plan \<noteq> ct_Version contract \<or>
         pl_ContractDigest plan \<noteq> [] \<and> pl_ContractDigest plan \<noteq> ct_Digest contract
      then Inl ErrInvalidAttemptBinding
      else Inr (plan\<lparr> pl_ContractID := ct_ContractID contract, pl_ContractVersion := ct_Version contract, pl_ContractDigest := ct_Digest contract \<rparr>))"

definition envelope_of :: "Contract \<Rightarrow> ContextManifest \<Rightarrow> attemptBindingEnvelope" where
  "envelope_of contract manifest =
     \<lparr> abe_Schema = attemptBindingSchema,
       abe_Contract = \<lparr> ctr_ContractID = ct_ContractID contract, ctr_Version = ct_Version contract, ctr_Digest = ct_Digest contract \<rparr>,
       abe_ContextDigest = ct_ContextDigest contract, abe_ContextCompiler = CompilerVersion, abe_ProjectRevision = ct_ProjectRevision contract,
       abe_TaskID = ct_TaskID contract, abe_TaskRevision = ct_TaskRevision contract, abe_TaskDigest = ct_TaskDigest contract,
       abe_GraphRevision = ct_GraphRevision contract, abe_GraphDigest = ct_GraphDigest contract, abe_WorkPackageID = ct_WorkPackageID contract,
       abe_WorkPackageDigest = ct_WorkPackageDigest contract, abe_Trade = ct_Trade contract, abe_Worker = ct_Worker contract,
       abe_Instruction = ct_Instruction contract, abe_Runtime = ct_Runtime contract, abe_Provider = ct_Provider contract,
       abe_Model = ct_Model contract, abe_Node = ct_Node contract, abe_Permissions = ct_Permissions contract, abe_Budget = ct_Budget contract,
       abe_Deadline = ct_Deadline contract, abe_RetryLimit = bl_MaxRetries (ct_Budget contract), abe_Deliverables = ct_Deliverables contract,
       abe_AcceptanceCriteria = ct_AcceptanceCriteria contract, abe_RequiredGates = ct_RequiredGates contract,
       abe_OutputSchema = ''syncgate.result-envelope.v1'', abe_SourceDigests = sort (map sie_Digest (cmf_Sources manifest)),
       abe_Omissions = cmf_Omissions manifest, abe_Warnings = cmf_Warnings manifest \<rparr>"

definition buildAttemptBinding ::
  "ContractBindingService \<Rightarrow> string \<Rightarrow> Contract \<Rightarrow> ContextManifest \<Rightarrow> time \<Rightarrow> binding_error + OrchestrationAttemptBinding" where
  "buildAttemptBinding service attemptID contract manifest createdAt =
     (let raw = cbs_marshal service (envelope_of contract manifest) in
      if \<not> validID attemptID \<or> \<not> is_ok (VerifyDigest (cbs_Contracts service) contract) \<or> cmf_ContextDigest manifest \<noteq> ct_ContextDigest contract \<or>
         createdAt = 0
      then Inl ErrInvalidAttemptBinding
      else if raw = [] \<or> int (length raw) > projectPayloadLimit then Inl ErrInvalidAttemptBinding
      else Inr \<lparr> oab_AttemptID = attemptID, oab_ContractID = ct_ContractID contract, oab_ContractVersion = ct_Version contract,
                 oab_ContractDigest = ct_Digest contract, oab_ContextDigest = ct_ContextDigest contract,
                 oab_ContextCompilerVersion = CompilerVersion, oab_BindingDigest = cbs_sha256 service raw, oab_BindingJSON = raw,
                 oab_CreatedAt = createdAt \<rparr>)"

definition DecodeAttemptBinding :: "ContractBindingService \<Rightarrow> OrchestrationAttemptBinding \<Rightarrow> binding_error + attemptBindingEnvelope" where
  "DecodeAttemptBinding service b =
     (if oab_AttemptID b = [] \<or> oab_BindingJSON b = [] \<or> int (length (oab_BindingJSON b)) > projectPayloadLimit \<or> \<not> validDigest (oab_BindingDigest b)
      then Inl ErrInvalidAttemptBinding
      else if cbs_sha256 service (oab_BindingJSON b) \<noteq> oab_BindingDigest b then Inl ErrInvalidAttemptBinding
      else case cbs_unmarshal service (oab_BindingJSON b) of
        None \<Rightarrow> Inl ErrInvalidAttemptBinding
      | Some v \<Rightarrow>
          if abe_Schema v \<noteq> attemptBindingSchema \<or> abe_ContextDigest v \<noteq> oab_ContextDigest b \<or>
             ctr_ContractID (abe_Contract v) \<noteq> oab_ContractID b \<or> ctr_Version (abe_Contract v) \<noteq> oab_ContractVersion b \<or>
             ctr_Digest (abe_Contract v) \<noteq> oab_ContractDigest b
          then Inl ErrInvalidAttemptBinding else Inr v)"

definition bound_plan ::
  "ContractBindingService \<Rightarrow> OCDB \<Rightarrow> PlanRequest \<Rightarrow> Contract \<Rightarrow> ContextResult \<Rightarrow> binding_error + OCDB \<times> BindAndPlanResult" where
  "bound_plan service db plan contract compiled =
     rbind (bindPlanContract plan contract) (\<lambda>plan.
     let createdAt = (case cbs_Now service of Some t \<Rightarrow> t | None \<Rightarrow> ct_CreatedAt contract) in
     rbind (buildAttemptBinding service (pl_AttemptID plan) contract (cbn_Manifest (crs_Bundle compiled)) createdAt) (\<lambda>binding.
     case Plan (cbs_Control service) db (plan\<lparr>pl_Binding := binding\<rparr>) of
       Inl e \<Rightarrow> Inl (BindControl e)
     | Inr (db, planned) \<Rightarrow> Inr (db, \<lparr> bps_Context = compiled, bps_Contract = contract, bps_Planned = planned \<rparr>)))"

definition compile_bound ::
  "ContractBindingService \<Rightarrow> BindAndPlanRequest \<Rightarrow> binding_error + PlanRequest \<times> ContextResult" where
  "compile_bound service request =
     (case sr_Selected (bpr_Selection request) of
        None \<Rightarrow> Inl ErrInvalidAttemptBinding
      | Some selected \<Rightarrow>
          if sr_Blocked (bpr_Selection request) \<or> bpr_Layout request = [] then Inl ErrInvalidAttemptBinding
          else (case ApplySelectionToPlan (bpr_Selection request) (bpr_Plan request) of
                  Inl e \<Rightarrow> Inl (BindSelection e)
                | Inr plan \<Rightarrow>
                    if \<not> validateBindingIdentity (request\<lparr>bpr_Plan := plan\<rparr>) selected then Inl ErrInvalidAttemptBinding
                    else (case Compile (cbs_Context service) (bpr_Layout request) (bpr_Context request) of
                            Inl e \<Rightarrow> Inl (BindContext e)
                          | Inr compiled \<Rightarrow>
                              let m = cbn_Manifest (crs_Bundle compiled); q = bpr_Contract request in
                              if cmf_ProjectID m \<noteq> hdr_ProjectID (task_Header (bq_Task q)) \<or>
                                 cmf_WorkPackageID m \<noteq> wpd_WorkPackageID (bq_WorkPackage q) \<or> cmf_TradeReference m \<noteq> bq_Trade q
                              then Inl ErrInvalidAttemptBinding else Inr (plan, compiled))))"

text \<open>A contract that was created stays in its table when the planning fails afterwards.\<close>

definition BindAndPlan ::
  "ContractBindingService \<Rightarrow> ECDB \<times> OCDB \<Rightarrow> BindAndPlanRequest \<Rightarrow> (ECDB \<times> OCDB) \<times> (binding_error + BindAndPlanResult)" where
  "BindAndPlan service = (\<lambda>(contracts, control) request.
     case compile_bound service request of
       Inl e \<Rightarrow> ((contracts, control), Inl e)
     | Inr (plan, compiled) \<Rightarrow>
         (case Create (cbs_Contracts service) contracts
                 ((bpr_Contract request)\<lparr>bq_ContextDigest := cmf_ContextDigest (cbn_Manifest (crs_Bundle compiled))\<rparr>) of
            Inl e \<Rightarrow> ((contracts, control), Inl (BindContract e))
          | Inr (contracts, contract, _) \<Rightarrow>
              (case bound_plan service control plan contract compiled of
                 Inl e \<Rightarrow> ((contracts, control), Inl e)
               | Inr (control, result) \<Rightarrow> ((contracts, control), Inr result))))"

section \<open>What a bound attempt is\<close>

lemma finish_tables:
  assumes "finish now db i d aid tid st at e = Inr (db', res)"
  shows "oc_assignments db' = oc_assignments db" "oc_attempts db' = oc_attempts db" "oc_bindings db' = oc_bindings db"
    "orchestrationSnapshot db' aid = Inr (ow_Snapshot res)"
  using assms
  by (auto simp: finish_def rbind_eq_Inr recordOrchestrationOperation_def recordOrchestrationAudit_def constrained_def Let_def split: if_splits)

lemma lookup_snoc: "keys_distinct f (xs @ [x]) \<Longrightarrow> row_lookup f (f x) (xs @ [x]) = Some x"
  by (simp add: row_lookup_eq_Some)

lemma PlanAssignment_new:
  assumes "PlanAssignment j now db r = Inr (db', res)" and "\<not> ow_AlreadyPresent res"
    and "oa_CurrentAttemptID (opr_Assignment r) = ot_AttemptID (opr_Attempt r)" and "oab_AttemptID (opr_Binding r) = ot_AttemptID (opr_Attempt r)"
  shows "os_Assignment (ow_Snapshot res) = (opr_Assignment r)\<lparr>oa_CreatedAt := stored_time now (oa_CreatedAt (opr_Assignment r)),
      oa_UpdatedAt := stored_time now (oa_UpdatedAt (opr_Assignment r))\<rparr>"
    and "os_Binding (ow_Snapshot res) = Some (opr_Binding r)"
proof -
  let ?a = "(opr_Assignment r)\<lparr>oa_CreatedAt := stored_time now (oa_CreatedAt (opr_Assignment r)),
    oa_UpdatedAt := stored_time now (oa_UpdatedAt (opr_Assignment r))\<rparr>"
  let ?t = "(opr_Attempt r)\<lparr>ot_CreatedAt := stored_time now (ot_CreatedAt (opr_Attempt r)),
    ot_UpdatedAt := stored_time now (ot_UpdatedAt (opr_Attempt r))\<rparr>"
  have ok1: "assignments_ok (oc_assignments db @ [?a])"
    using with_replay_Inr [OF assms(1) [unfolded PlanAssignment_def]] assms(2) by (auto simp: Let_def split: if_splits sum.splits)
  obtain db1 db2 db3 where steps: "constrained (oa_ProjectID (opr_Assignment r) \<in> set (oc_projects db)) ''orchestration_assignments''
        (db\<lparr>oc_assignments := oc_assignments db @ [?a]\<rparr>) = Inr db1"
      "insertOrchestrationAttempt now db1 (opr_Attempt r) = Inr db2" "insertOrchestrationAttemptBinding j db2 (opr_Binding r) = Inr db3"
    and fin: "finish now db3 (opr_OperationID r) (opr_OperationDigest r) (oa_AssignmentID (opr_Assignment r)) (ot_AttemptID (opr_Attempt r))
      (oa_State (opr_Assignment r)) (oa_CreatedAt (opr_Assignment r)) (opr_Audit r) = Inr (db', res)"
    using with_replay_Inr [OF assms(1) [unfolded PlanAssignment_def]] assms(2) ok1 by (auto simp: Let_def rbind_eq_Inr)
  have db1: "db1 = db\<lparr>oc_assignments := oc_assignments db @ [?a]\<rparr>"
    using steps(1) by (auto simp: constrained_def split: if_splits)
  have db2: "attempts_ok db1 (oc_attempts db @ [?t])" "db2 = db1\<lparr>oc_attempts := oc_attempts db @ [?t]\<rparr>"
    using steps(2) by (auto simp: insertOrchestrationAttempt_def constrained_def Let_def db1 split: if_splits)
  have db3: "bindings_ok db2 (oc_bindings db @ [opr_Binding r])" "db3 = db2\<lparr>oc_bindings := oc_bindings db @ [opr_Binding r]\<rparr>"
    using steps(3) by (auto simp: insertOrchestrationAttemptBinding_def constrained_def db1 db2(2) split: if_splits)
  note tables = finish_tables [OF fin]
  have "row_lookup oa_AssignmentID (oa_AssignmentID (opr_Assignment r)) (oc_assignments db') = Some ?a"
    using ok1 lookup_snoc [of oa_AssignmentID "oc_assignments db" ?a] by (simp add: tables db3(2) db2(2) db1 assignments_ok_def)
  moreover have "row_lookup ot_AttemptID (ot_AttemptID (opr_Attempt r)) (oc_attempts db') = Some ?t"
    using db2(1) lookup_snoc [of ot_AttemptID "oc_attempts db" ?t] by (simp add: tables db3(2) db2(2) db1 attempts_ok_def)
  moreover have "row_lookup oab_AttemptID (ot_AttemptID (opr_Attempt r)) (oc_bindings db') = Some (opr_Binding r)"
    using db3(1) lookup_snoc [of oab_AttemptID "oc_bindings db" "opr_Binding r"] assms(4) by (simp add: tables db3(2) db2(2) db1 bindings_ok_def)
  ultimately show "os_Assignment (ow_Snapshot res) = ?a" "os_Binding (ow_Snapshot res) = Some (opr_Binding r)"
    using tables(4) assms(3) by (auto simp: orchestrationSnapshot_def dest!: sym [of _ "ow_Snapshot res"])
qed

lemma validatePlan_binding:
  assumes "validatePlan plan = ok"
  shows "oab_AttemptID (pl_Binding plan) = pl_AttemptID plan" "validDigest (oab_BindingDigest (pl_Binding plan))"
proof -
  have "validAttemptBinding (pl_Binding plan) (pl_AttemptID plan) (pl_ContractID plan) (pl_ContractVersion plan) (pl_ContractDigest plan)"
    using assms unfolding validatePlan_def by (metis (no_types, lifting) Inl_Inr_False)
  then show "oab_AttemptID (pl_Binding plan) = pl_AttemptID plan" "validDigest (oab_BindingDigest (pl_Binding plan))"
    by (simp_all add: validAttemptBinding_def)
qed

lemma Plan_valid:
  assumes "Plan service db plan = Inr (db', res)"
  shows "validatePlan plan = ok"
  using assms by (auto simp: Plan_def rbind_eq_Inr Let_def)

lemma Plan_new:
  assumes "Plan service db plan = Inr (db', res)" and "\<not> ow_AlreadyPresent res"
  defines "a \<equiv> os_Assignment (ow_Snapshot res)"
  shows "os_Binding (ow_Snapshot res) = Some (pl_Binding plan)"
    "oa_AssignmentID a = pl_AssignmentID plan" "oa_ProjectID a = pl_ProjectID plan" "oa_TaskID a = pl_TaskID plan" "oa_TaskRevision a = pl_TaskRevision plan"
    "oa_GraphRevision a = pl_GraphRevision plan" "oa_WorkPackageID a = pl_WorkPackageID plan" "oa_ExecutionID a = pl_ExecutionID plan"
    "oa_ContractID a = pl_ContractID plan" "oa_ContractVersion a = pl_ContractVersion plan" "oa_ContractDigest a = pl_ContractDigest plan"
    "oa_WorkerID a = pl_WorkerID plan" "oa_NodeID a = pl_NodeID plan" "oa_State a = AssignmentPlanned"
proof -
  obtain r where run: "PlanAssignment (cs_json_valid service) (cs_store_clock service) db r = Inr (db', res)"
    and ids: "oa_CurrentAttemptID (opr_Assignment r) = ot_AttemptID (opr_Attempt r)" "ot_AttemptID (opr_Attempt r) = pl_AttemptID plan"
      "opr_Binding r = pl_Binding plan"
    and fields: "oa_AssignmentID (opr_Assignment r) = pl_AssignmentID plan" "oa_ProjectID (opr_Assignment r) = pl_ProjectID plan"
      "oa_TaskID (opr_Assignment r) = pl_TaskID plan" "oa_TaskRevision (opr_Assignment r) = pl_TaskRevision plan"
      "oa_GraphRevision (opr_Assignment r) = pl_GraphRevision plan" "oa_WorkPackageID (opr_Assignment r) = pl_WorkPackageID plan"
      "oa_ExecutionID (opr_Assignment r) = pl_ExecutionID plan" "oa_ContractID (opr_Assignment r) = pl_ContractID plan"
      "oa_ContractVersion (opr_Assignment r) = pl_ContractVersion plan" "oa_ContractDigest (opr_Assignment r) = pl_ContractDigest plan"
      "oa_WorkerID (opr_Assignment r) = pl_WorkerID plan" "oa_NodeID (opr_Assignment r) = pl_NodeID plan"
      "oa_State (opr_Assignment r) = AssignmentPlanned"
    using assms(1) by (auto simp: Plan_def Plan_valid [OF assms(1)] stored_def Let_def split: sum.splits)
  have "oab_AttemptID (opr_Binding r) = ot_AttemptID (opr_Attempt r)"
    using validatePlan_binding(1) [OF Plan_valid [OF assms(1)]] ids by simp
  note row = PlanAssignment_new [OF run assms(2) ids(1) this]
  show "os_Binding (ow_Snapshot res) = Some (pl_Binding plan)"
    using row(2) ids(3) by simp
  show "oa_AssignmentID a = pl_AssignmentID plan" "oa_ProjectID a = pl_ProjectID plan" "oa_TaskID a = pl_TaskID plan" "oa_TaskRevision a = pl_TaskRevision plan"
    "oa_GraphRevision a = pl_GraphRevision plan" "oa_WorkPackageID a = pl_WorkPackageID plan" "oa_ExecutionID a = pl_ExecutionID plan"
    "oa_ContractID a = pl_ContractID plan" "oa_ContractVersion a = pl_ContractVersion plan" "oa_ContractDigest a = pl_ContractDigest plan"
    "oa_WorkerID a = pl_WorkerID plan" "oa_NodeID a = pl_NodeID plan" "oa_State a = AssignmentPlanned"
    by (simp_all add: a_def row(1) fields)
qed

lemma compile_bound_Inr:
  assumes "compile_bound service request = Inr (plan, compiled)"
  shows "\<exists>selected. sr_Selected (bpr_Selection request) = Some selected \<and> \<not> sr_Blocked (bpr_Selection request) \<and>
    ApplySelectionToPlan (bpr_Selection request) (bpr_Plan request) = Inr plan \<and> validateBindingIdentity (request\<lparr>bpr_Plan := plan\<rparr>) selected \<and>
    Compile (cbs_Context service) (bpr_Layout request) (bpr_Context request) = Inr compiled"
  using assms by (auto simp: compile_bound_def Let_def split: option.splits if_splits sum.splits)

lemma contract_Create_Inr:
  assumes "Create codec db q = Inr (db', contract, present)"
  shows "\<exists>raw stored. Build codec q = Inr (contract, raw) \<and> row_lookup contract_key (ct_ContractID contract, ct_Version contract) (ecdb_contracts db') = Some stored \<and>
    ec_Digest stored = ct_Digest contract"
proof -
  obtain raw where build: "Build codec q = Inr (contract, raw)" and save: "SaveExecutionContract db (record_of contract raw) = Inr (db', present)"
    using assms by (auto simp: Create_def split: sum.splits if_splits)
  have key: "contract_key (record_of contract raw) = (ct_ContractID contract, ct_Version contract)" "ec_Digest (record_of contract raw) = ct_Digest contract"
    by (simp_all add: record_of_def contract_key_def)
  have "\<exists>stored. row_lookup contract_key (ct_ContractID contract, ct_Version contract) (ecdb_contracts db') = Some stored \<and> ec_Digest stored = ct_Digest contract"
    using save key by (auto simp: SaveExecutionContract_def row_lookup_append row_exists_iff split: if_splits option.splits)
  then show ?thesis
    using build by blast
qed

lemma Build_identity:
  assumes "Build codec q = Inr (contract, raw)"
  shows "ct_ProjectID contract = hdr_ProjectID (task_Header (bq_Task q))" "ct_TaskID contract = task_TaskID (bq_Task q)"
    "ct_TaskRevision contract = task_Revision (bq_Task q)" "ct_GraphRevision contract = dgr_Revision (bq_Graph q)"
    "ct_WorkPackageID contract = wpd_WorkPackageID (bq_WorkPackage q)" "ct_ExecutionID contract = bq_ExecutionID q"
    "ct_Worker contract = bq_Worker q" "ct_Node contract = bq_Node q" "ct_ContextDigest contract = bq_ContextDigest q"
  using assms by (auto simp: Build_def Let_def rbind_eq_Inr contract_of_def normalizeBuildRequest_def split: if_splits)

lemma binding_identity:
  assumes "validateBindingIdentity (request\<lparr>bpr_Plan := plan\<rparr>) selected"
  shows "pl_ProjectID plan = hdr_ProjectID (task_Header (bq_Task (bpr_Contract request)))" "pl_TaskID plan = task_TaskID (bq_Task (bpr_Contract request))"
    "pl_TaskRevision plan = task_Revision (bq_Task (bpr_Contract request))" "pl_GraphRevision plan = dgr_Revision (bq_Graph (bpr_Contract request))"
    "pl_WorkPackageID plan = wpd_WorkPackageID (bq_WorkPackage (bpr_Contract request))" "pl_ExecutionID plan = bq_ExecutionID (bpr_Contract request)"
    "pl_WorkerID plan = ci_WorkerID selected" "pl_NodeID plan = ci_NodeID selected" "rref_ID (bq_Worker (bpr_Contract request)) = ci_WorkerID selected"
    "bd_ID (bq_Node (bpr_Contract request)) = ci_NodeID selected"
  using assms by (auto simp: validateBindingIdentity_def Let_def)

lemma apply_selection_plan:
  assumes "ApplySelectionToPlan selection plan0 = Inr plan"
  shows "pl_AssignmentID plan = pl_AssignmentID plan0"
  using assms by (auto simp: ApplySelectionToPlan_def split: option.splits if_splits)

lemma bound_plan_Inr:
  assumes "bound_plan service db plan contract compiled = Inr (db', result)"
  shows "\<exists>b t. bps_Context result = compiled \<and> bps_Contract result = contract \<and>
    buildAttemptBinding service (pl_AttemptID plan) contract (cbn_Manifest (crs_Bundle compiled)) t = Inr b \<and>
    Plan (cbs_Control service) db (plan\<lparr> pl_ContractID := ct_ContractID contract, pl_ContractVersion := ct_Version contract,
      pl_ContractDigest := ct_Digest contract, pl_Binding := b \<rparr>) = Inr (db', bps_Planned result)"
proof -
  let ?p = "plan\<lparr> pl_ContractID := ct_ContractID contract, pl_ContractVersion := ct_Version contract, pl_ContractDigest := ct_Digest contract \<rparr>"
  let ?t = "case cbs_Now service of Some t \<Rightarrow> t | None \<Rightarrow> ct_CreatedAt contract"
  obtain p where "bindPlanContract plan contract = Inr p"
    using assms by (auto simp: bound_plan_def rbind_eq_Inr)
  then have p: "bindPlanContract plan contract = Inr ?p"
    by (simp add: bindPlanContract_def split: if_splits)
  obtain b where b: "buildAttemptBinding service (pl_AttemptID plan) contract (cbn_Manifest (crs_Bundle compiled)) ?t = Inr b"
    and rest: "(case Plan (cbs_Control service) db (?p\<lparr>pl_Binding := b\<rparr>) of
       Inl e \<Rightarrow> Inl (BindControl e)
     | Inr (db, planned) \<Rightarrow> Inr (db, \<lparr> bps_Context = compiled, bps_Contract = contract, bps_Planned = planned \<rparr>)) = Inr (db', result)"
    using assms by (auto simp: bound_plan_def p Let_def rbind_eq_Inr)
  show ?thesis
  proof (cases "Plan (cbs_Control service) db (?p\<lparr>pl_Binding := b\<rparr>)")
    case (Inr res)
    then have "res = (db', bps_Planned result)" "bps_Context result = compiled" "bps_Contract result = contract"
      using rest by (auto split: prod.splits)
    with Inr b show ?thesis
      by (intro exI [of _ b] exI [of _ ?t]) simp
  qed (use rest in simp)
qed

lemma binding_decodes:
  assumes "buildAttemptBinding service attempt contract manifest t = Inr b" and "validDigest (oab_BindingDigest b)"
    and "cbs_unmarshal service (cbs_marshal service (envelope_of contract manifest)) = Some (envelope_of contract manifest)"
  shows "DecodeAttemptBinding service b = Inr (envelope_of contract manifest) \<and> cmf_ContextDigest manifest = ct_ContextDigest contract"
proof -
  have "attempt \<noteq> []"
    using assms(1) by (auto simp: buildAttemptBinding_def validID_def Let_def split: if_splits)
  then show ?thesis
    using assms by (auto simp: buildAttemptBinding_def DecodeAttemptBinding_def envelope_of_def Let_def split: if_splits)
qed

section \<open>An example\<close>

definition example_identity :: CandidateIdentity where
  "example_identity = \<lparr> ci_WorkerID = ''worker:A'', ci_WorkerVersion = 1, ci_NodeID = ''node:A'', ci_NodeVersion = 1, ci_RuntimeID = ''runtime:A'',
     ci_RuntimeVer = 1, ci_Provider = [], ci_Model = [], ci_ModelVersion = [] \<rparr>"

definition example_bind :: BindAndPlanRequest where
  "example_bind =
     \<lparr> bpr_Layout = ''/p'',
       bpr_Selection = \<lparr> sr_Selected = Some example_identity, sr_Explanations = [], sr_Blocked = False, sr_BlockReasons = [], sr_Override = None,
         sr_AssignmentAuditReason = ''deterministic_selection'' \<rparr>,
       bpr_Context = example_context [example_spec ''workspace/src/a'' PrivacyPublic], bpr_Contract = example_request,
       bpr_Plan = example_plan\<lparr> pl_WorkPackageID := ''A'', pl_ExecutionID := ''execution:A'', pl_ContractID := [], pl_ContractVersion := 0,
         pl_ContractDigest := [], pl_WorkerID := ''worker:A'', pl_NodeID := ''node:A'' \<rparr> \<rparr>"

definition example_binder :: "attemptBindingEnvelope option \<Rightarrow> ContractBindingService" where
  "example_binder e =
     \<lparr> cbs_Contracts = example_codec, cbs_Control = example_service, cbs_Now = None, cbs_Context = example_env (\<lambda>_. example_digest),
       cbs_marshal = \<lambda>_. ''{}'', cbs_unmarshal = \<lambda>_. e, cbs_sha256 = \<lambda>_. example_digest \<rparr>"

definition example_bound :: "attemptBindingEnvelope option \<Rightarrow> (ECDB \<times> OCDB) \<times> (binding_error + BindAndPlanResult)" where
  "example_bound e = BindAndPlan (example_binder e) (\<lparr> ecdb_projects = [''A''], ecdb_contracts = [] \<rparr>, empty_ocdb [''A'']) example_bind"

lemma Compile_identity:
  assumes "Compile env root req = Inr compiled"
  shows "cmf_ProjectID (cbn_Manifest (crs_Bundle compiled)) = crq_ProjectID req" "cmf_WorkPackageID (cbn_Manifest (crs_Bundle compiled)) = crq_WorkPackageID req"
    "cmf_TradeReference (cbn_Manifest (crs_Bundle compiled)) = crq_TradeReference req"
    "\<exists>raw. cmf_ContextDigest (cbn_Manifest (crs_Bundle compiled)) = cx_digest env raw"
  using Compile_Inr [OF assms] by (auto simp: assemble_identity context_defaults_def)

lemma buildAttemptBinding_example:
  assumes "cmf_ContextDigest m = cmf_ContextDigest m'"
  shows "buildAttemptBinding (example_binder e) tid contract m t = buildAttemptBinding (example_binder e) tid contract m' t"
  using assms by (simp add: buildAttemptBinding_def example_binder_def)

lemma bound_plan_example:
  assumes "cmf_ContextDigest (cbn_Manifest (crs_Bundle c)) = cmf_ContextDigest (cbn_Manifest (crs_Bundle c'))"
    and "bound_plan (example_binder e) db plan contract c' = Inr (db', result)"
  shows "bound_plan (example_binder e) db plan contract c = Inr (db', result\<lparr>bps_Context := c\<rparr>)"
proof -
  obtain plan' where contract: "bindPlanContract plan contract = Inr plan'"
    using assms(2) by (auto simp: bound_plan_def rbind_eq_Inr)
  show ?thesis
    using assms(2) by (auto simp: bound_plan_def Let_def contract buildAttemptBinding_example [OF assms(1), of e] rbind_def split: sum.splits)
qed

definition example_compiled :: ContextResult where
  "example_compiled =
     \<lparr> crs_Bundle = \<lparr> cbn_Manifest = \<lparr> cmf_CompilerVersion = [], cmf_ProjectID = [], cmf_WorkPackageID = [], cmf_TradeReference = example_reference [],
         cmf_Sources = [], cmf_Omissions = [], cmf_Warnings = [], cmf_EstimatedTokens = 0, cmf_ContextDigest = example_digest \<rparr>,
       cbn_Index = [], cbn_Briefing = [] \<rparr>, crs_Bytes = [] \<rparr>"

definition example_applied :: PlanRequest where
  "example_applied = (bpr_Plan example_bind)\<lparr>pl_AssignmentReason := ''deterministic_selection''\<rparr>"

lemma example_applies: "ApplySelectionToPlan (bpr_Selection example_bind) (bpr_Plan example_bind) = Inr example_applied"
  by code_simp

lemma example_agrees: "validateBindingIdentity (example_bind\<lparr>bpr_Plan := example_applied\<rparr>) example_identity"
  by code_simp

lemma example_plans:
  "case Create example_codec \<lparr> ecdb_projects = [''A''], ecdb_contracts = [] \<rparr> example_request of
     Inl _ \<Rightarrow> False
   | Inr (_, contract, _) \<Rightarrow>
       (case bound_plan (example_binder None) (empty_ocdb [''A'']) example_applied contract example_compiled of
          Inl _ \<Rightarrow> False | Inr (_, result) \<Rightarrow> \<not> ow_AlreadyPresent (bps_Planned result))"
  by code_simp

lemma example_bound_new:
  "\<exists>contracts control result. example_bound None = ((contracts, control), Inr result) \<and> \<not> ow_AlreadyPresent (bps_Planned result)"
proof -
  obtain compiled where run: "Compile (example_env (\<lambda>_. example_digest)) ''/p'' (bpr_Context example_bind) = Inr compiled"
    using example_compiles unfolding is_ok_iff by (auto simp: example_bind_def)
  note same = Compile_identity [OF run]
  have digest: "cmf_ContextDigest (cbn_Manifest (crs_Bundle compiled)) = example_digest"
    using same(4) by (simp add: example_env_def)
  have bound: "compile_bound (example_binder None) example_bind = Inr (example_applied, compiled)"
  proof -
    have "sr_Selected (bpr_Selection example_bind) = Some example_identity" "\<not> sr_Blocked (bpr_Selection example_bind)" "bpr_Layout example_bind = ''/p''"
      by (simp_all add: example_bind_def)
    moreover have "cmf_ProjectID (cbn_Manifest (crs_Bundle compiled)) = hdr_ProjectID (task_Header (bq_Task (bpr_Contract example_bind)))"
      "cmf_WorkPackageID (cbn_Manifest (crs_Bundle compiled)) = wpd_WorkPackageID (bq_WorkPackage (bpr_Contract example_bind))"
      "cmf_TradeReference (cbn_Manifest (crs_Bundle compiled)) = bq_Trade (bpr_Contract example_bind)"
      using same(1-3) by (simp_all add: example_bind_def example_context_def example_request_def example_header_def)
    ultimately show ?thesis
      using run by (simp add: compile_bound_def example_applies example_agrees Let_def) (simp add: example_binder_def)
  qed
  have request: "(bpr_Contract example_bind)\<lparr>bq_ContextDigest := cmf_ContextDigest (cbn_Manifest (crs_Bundle compiled))\<rparr> = example_request"
    by (simp add: digest example_bind_def example_request_def)
  obtain contracts contract present control result where
      create: "Create example_codec \<lparr> ecdb_projects = [''A''], ecdb_contracts = [] \<rparr> example_request = Inr (contracts, contract, present)"
    and plan: "bound_plan (example_binder None) (empty_ocdb [''A'']) example_applied contract example_compiled = Inr (control, result)"
    and new: "\<not> ow_AlreadyPresent (bps_Planned result)"
    using example_plans by (auto split: sum.splits prod.splits)
  have plan': "bound_plan (example_binder None) (empty_ocdb [''A'']) example_applied contract compiled = Inr (control, result\<lparr>bps_Context := compiled\<rparr>)"
    by (rule bound_plan_example [OF _ plan]) (simp add: digest example_compiled_def)
  have "cbs_Contracts (example_binder None) = example_codec"
    by (simp add: example_binder_def)
  then have "example_bound None = ((contracts, control), Inr (result\<lparr>bps_Context := compiled\<rparr>))"
    by (simp add: example_bound_def BindAndPlan_def bound request create plan')
  with new show ?thesis
    by simp
qed

lemma BindAndPlan_unmarshal: "BindAndPlan (service\<lparr>cbs_unmarshal := u\<rparr>) dbs request = BindAndPlan service dbs request"
proof -
  have compiles: "compile_bound (service\<lparr>cbs_unmarshal := u\<rparr>) request = compile_bound service request"
    by (simp add: compile_bound_def split: option.split sum.split)
  have builds: "buildAttemptBinding (service\<lparr>cbs_unmarshal := u\<rparr>) tid contract manifest t = buildAttemptBinding service tid contract manifest t"
    for tid contract manifest t
    by (simp add: buildAttemptBinding_def Let_def cong: if_cong)
  have plans: "bound_plan (service\<lparr>cbs_unmarshal := u\<rparr>) db plan contract compiled = bound_plan service db plan contract compiled"
    for db plan contract compiled
    by (simp add: bound_plan_def builds Let_def)
  show ?thesis
    by (cases dbs) (simp add: BindAndPlan_def compiles plans split: sum.split prod.split)
qed

lemma example_bound_any: "example_bound e = example_bound None"
  using BindAndPlan_unmarshal [where service = "example_binder None" and u = "\<lambda>_. e"] by (simp add: example_bound_def example_binder_def)

text \<open>
  C12. When binding and planning succeeds for a new assignment, everything it names agrees: the context was compiled from
  the request, the contract was built from the request with the digest of that context and stands in its table, the planned
  assignment carries the identity and the digest of that contract and of its project, task, graph, work package, execution,
  worker and node, the last two being those selected, and the binding stored with the attempt decodes to the
  envelope of that contract and that context, provided that decoding that envelope gives back what was encoded.
\<close>

theorem BindAndPlan_bound:
  assumes "BindAndPlan service (contracts, control) request = ((contracts', control'), Inr result)"
    and "\<not> ow_AlreadyPresent (bps_Planned result)"
    and "cbs_unmarshal service (cbs_marshal service (envelope_of (bps_Contract result) (cbn_Manifest (crs_Bundle (bps_Context result))))) =
      Some (envelope_of (bps_Contract result) (cbn_Manifest (crs_Bundle (bps_Context result))))"
  shows "\<exists>selected raw stored b. sr_Selected (bpr_Selection request) = Some selected \<and>
    (let manifest = cbn_Manifest (crs_Bundle (bps_Context result)); contract = bps_Contract result;
         a = os_Assignment (ow_Snapshot (bps_Planned result)) in
     Compile (cbs_Context service) (bpr_Layout request) (bpr_Context request) = Inr (bps_Context result) \<and>
     Build (cbs_Contracts service) ((bpr_Contract request)\<lparr>bq_ContextDigest := cmf_ContextDigest manifest\<rparr>) = Inr (contract, raw) \<and>
     row_lookup contract_key (ct_ContractID contract, ct_Version contract) (ecdb_contracts contracts') = Some stored \<and> ec_Digest stored = ct_Digest contract \<and>
     ct_ContextDigest contract = cmf_ContextDigest manifest \<and>
     oa_AssignmentID a = pl_AssignmentID (bpr_Plan request) \<and> oa_State a = AssignmentPlanned \<and>
     oa_ContractID a = ct_ContractID contract \<and> oa_ContractVersion a = ct_Version contract \<and> oa_ContractDigest a = ct_Digest contract \<and>
     oa_ProjectID a = ct_ProjectID contract \<and> oa_TaskID a = ct_TaskID contract \<and> oa_TaskRevision a = ct_TaskRevision contract \<and>
     oa_GraphRevision a = ct_GraphRevision contract \<and> oa_WorkPackageID a = ct_WorkPackageID contract \<and> oa_ExecutionID a = ct_ExecutionID contract \<and>
     oa_WorkerID a = rref_ID (ct_Worker contract) \<and> oa_WorkerID a = ci_WorkerID selected \<and>
     oa_NodeID a = bd_ID (ct_Node contract) \<and> oa_NodeID a = ci_NodeID selected \<and>
     os_Binding (ow_Snapshot (bps_Planned result)) = Some b \<and> DecodeAttemptBinding service b = Inr (envelope_of contract manifest))"
proof -
  obtain plan compiled contract present where comp: "compile_bound service request = Inr (plan, compiled)"
    and create: "Create (cbs_Contracts service) contracts
      ((bpr_Contract request)\<lparr>bq_ContextDigest := cmf_ContextDigest (cbn_Manifest (crs_Bundle compiled))\<rparr>) = Inr (contracts', contract, present)"
    and bound: "bound_plan service control plan contract compiled = Inr (control', result)"
    using assms(1) by (auto simp: BindAndPlan_def split: sum.splits prod.splits)
  obtain selected where sel: "sr_Selected (bpr_Selection request) = Some selected"
    and app: "ApplySelectionToPlan (bpr_Selection request) (bpr_Plan request) = Inr plan"
    and ident: "validateBindingIdentity (request\<lparr>bpr_Plan := plan\<rparr>) selected"
    and run: "Compile (cbs_Context service) (bpr_Layout request) (bpr_Context request) = Inr compiled"
    using compile_bound_Inr [OF comp] by blast
  obtain raw stored where build: "Build (cbs_Contracts service)
      ((bpr_Contract request)\<lparr>bq_ContextDigest := cmf_ContextDigest (cbn_Manifest (crs_Bundle compiled))\<rparr>) = Inr (contract, raw)"
    and row: "row_lookup contract_key (ct_ContractID contract, ct_Version contract) (ecdb_contracts contracts') = Some stored" "ec_Digest stored = ct_Digest contract"
    using contract_Create_Inr [OF create] by blast
  note same = Build_identity [OF build, simplified]
  obtain b t where res: "bps_Context result = compiled" "bps_Contract result = contract"
    and binding: "buildAttemptBinding service (pl_AttemptID plan) contract (cbn_Manifest (crs_Bundle compiled)) t = Inr b"
    and planned: "Plan (cbs_Control service) control (plan\<lparr> pl_ContractID := ct_ContractID contract, pl_ContractVersion := ct_Version contract,
      pl_ContractDigest := ct_Digest contract, pl_Binding := b \<rparr>) = Inr (control', bps_Planned result)"
    using bound_plan_Inr [OF bound] by blast
  note new = Plan_new [OF planned assms(2), simplified]
  have digest: "validDigest (oab_BindingDigest b)"
    using validatePlan_binding(2) [OF Plan_valid [OF planned]] by simp
  note decodes = binding_decodes [OF binding digest assms(3) [unfolded res]]
  show ?thesis
    unfolding Let_def res
    by (intro exI conjI)
      (rule sel run build row new(1) decodes [THEN conjunct1] |
       simp only: same new binding_identity [OF ident] apply_selection_plan [OF app])+
qed

theorem BindAndPlan_bound_witness:
  "\<exists>e dbs result b. example_bound e = (dbs, Inr result) \<and> os_Binding (ow_Snapshot (bps_Planned result)) = Some b \<and>
     DecodeAttemptBinding (example_binder e) b = Inr (envelope_of (bps_Contract result) (cbn_Manifest (crs_Bundle (bps_Context result))))"
proof -
  obtain contracts control result where run: "example_bound None = ((contracts, control), Inr result)"
    and new: "\<not> ow_AlreadyPresent (bps_Planned result)"
    using example_bound_new by blast
  define e where "e = envelope_of (bps_Contract result) (cbn_Manifest (crs_Bundle (bps_Context result)))"
  have run': "BindAndPlan (example_binder (Some e)) (\<lparr> ecdb_projects = [''A''], ecdb_contracts = [] \<rparr>, empty_ocdb [''A'']) example_bind =
      ((contracts, control), Inr result)"
    using run example_bound_any [of "Some e"] by (simp add: example_bound_def)
  have decodes: "cbs_unmarshal (example_binder (Some e)) (cbs_marshal (example_binder (Some e))
      (envelope_of (bps_Contract result) (cbn_Manifest (crs_Bundle (bps_Context result))))) =
      Some (envelope_of (bps_Contract result) (cbn_Manifest (crs_Bundle (bps_Context result))))"
    by (simp add: example_binder_def e_def)
  from BindAndPlan_bound [OF run' new decodes] obtain b where "os_Binding (ow_Snapshot (bps_Planned result)) = Some b"
      "DecodeAttemptBinding (example_binder (Some e)) b = Inr (envelope_of (bps_Contract result) (cbn_Manifest (crs_Bundle (bps_Context result))))"
    unfolding Let_def by (elim exE conjE)
  with run' show ?thesis
    by (intro exI conjI) (simp add: example_bound_def, assumption+)
qed

end
