(* ===== verification/Spec2Isabelle.thy ===== *)
theory Spec2Isabelle
  imports Core_Model Paths Transfer_Plan Transfer_Wire Reconcile Sync_Store Index_Store Scan_Commit Store_Invariant One_Way_Jobs Task_Readiness Assignment_Control Assignment_Replay Registry_Safety Selection_Safety Dispatch_Binding
begin

text \<open>
  \<^bold>\<open>Private Sync Gate\<close>, the daemon under src/. It keeps shared folders in step between paired devices, and on top of that it
  orchestrates agent work on the projects in them. This development models the decisions of both halves as functions of explicit
  state and proves what they promise.

  \<^bold>\<open>The parts and how they meet.\<close> Paths that a peer or a scan names are normalised and resolved below the root of a share
  (src/internal/filesystem). A file travels as a manifest and a stream of chunks and is staged before it takes its place
  (src/internal/transfer). A scan is compared with the index and committed as revisions and tombstones (src/internal/sync,
  src/internal/storage/sqlite/store.go); peers are paired, granted rights per share and revoked in the same database; one-way jobs
  carry authorised work through a queue. The orchestrator reduces the events of a task to the readiness of its work packages
  (src/internal/orchestration/graph.go), selects a worker and a node (selection.go, with the registry of trades and workers and
  the compute nodes), compiles the context, builds a contract and plans an assignment (contextcompiler, executioncontract,
  dispatchbinding), and leases, fences and ends its attempts (control.go over storage/sqlite/orchestration\_control.go).

  \<^bold>\<open>Foundations.\<close> \<open>Go_Prelude\<close> has the results (\<open>'e + 'a\<close> with \<open>rbind\<close>, an error on the left), 64-bit wrap-around
  (\<open>wrap64\<close>), the string functions of Go on byte strings and the collection \<open>go_eval\<close> of evaluation rules. \<open>Go_OS\<close> is the file system: a map
  from clean paths to nodes together with the refusals of the operating system. \<open>Go_Time\<close> formats times, which are integers of
  nanoseconds since the zero time in UTC. \<open>Tables\<close> has rows with keys, look-up, update and upsert as the SQL statements use them.

  \<^bold>\<open>Sharing files.\<close>
  \<^item> \<open>Core_Model\<close>: the data of src/internal/core, one record or datatype per Go type.
  \<^item> \<open>Paths\<close>: paths.go and safe\_paths.go. Normal forms are relative and clean, resolution stays below the root, inspection passes
    real directories only, and creating parents adds directories only. Normalising is not idempotent, which lets an inspection
    return a path it did not inspect.
  \<^item> \<open>Transfer_Plan\<close>, \<open>Transfer_Wire\<close>: chunk planning, resumption, the state machine, the framed protocol, the receive writer
    and its commit. Receiving what was sent gives the file; whatever arrives, nothing else is touched or replaced.
  \<^item> \<open>Reconcile\<close>, \<open>Scan_Commit\<close>: reconcile.go, deletion\_guard.go, revisions.go, planner.go and commit.go. Replaying the changes gives
    the scan; an allowed run commits everything, a blocked one nothing.
  \<^item> \<open>Sync_Store\<close>, \<open>Index_Store\<close>, \<open>Job_Store\<close>, \<open>Store_Invariant\<close>: the tables of store.go as one record, an operation per method.
    Acceptance grants exactly what was offered, revocation denies everything, and every operation keeps the tables well formed.
  \<^item> \<open>One_Way_Jobs\<close>: the queue of jobs.go as a step relation over polls, completions, controls and restarts: no job has two
    workers when each control is one step; it can have two when a control interleaves with a claim.

  \<^bold>\<open>Orchestrating work.\<close>
  \<^item> \<open>Project_Model\<close>, \<open>Task_Graph\<close>, \<open>Task_Readiness\<close>: the records of a project, graph validation (accepted graphs are acyclic) and the
    reduction of events to readiness, with progress and the review before every acceptance.
  \<^item> \<open>Assignment_Store\<close>, \<open>Assignment_Control\<close>, \<open>Assignment_Invariant\<close>, \<open>Assignment_Safety\<close>, \<open>Assignment_Replay\<close>: tables and service of
    attempts, leases and fences. \<open>oc_inv\<close> is the invariant that every call keeps; from it follow one worker per package, the
    lock-out of ended attempts and the replay of repeated calls.
  \<^item> \<open>Registry_Store\<close>, \<open>Registry_Service\<close>, \<open>Registry_Safety\<close>: immutable versions of trades, workers and adaptations. The locale
    \<open>version_listing\<close> is the contract of a paged listing; it is interpreted for the three tables, and export and import are inverse.
  \<^item> \<open>Contract_Policy\<close>, \<open>Execution_Contract\<close>, \<open>Contract_Safety\<close>: what a contract may do. Paths are authorised exactly as the layers
    cover them, budgets are the least of all ceilings, and completion needs every gate.
  \<^item> \<open>Compute_Node\<close>, \<open>Dispatch_Selection\<close>, \<open>Selection_Safety\<close>: eligibility of nodes and the selection of a candidate, independent of the
    order of the candidates.
  \<^item> \<open>Project_Layout\<close>, \<open>Context_Compiler\<close>, \<open>Context_Safety\<close>: the paths of records and the context bundle. Only admitted sources are in
    a bundle, every other requested one is listed, and the order of the sources does not matter. Links among the
    directories are followed and quoted credentials are not redacted, which two theorems show.
  \<^item> \<open>Dispatch_Binding\<close>: binding.go, where context, contract and plan of an attempt are made to agree.

  \<^bold>\<open>Conventions.\<close> A Go map is an association list or a table of rows; a pointer that may be nil is an option; an enumeration of
  strings is a datatype with one constructor for every other string, or a string where the code only compares. A transaction
  gives the new tables or an error and then nothing has changed. Hashes, JSON codecs, clocks and sources of random
  identifiers are arguments; a hypothesis on one of them says what the library documents. Contexts are never canceled. Sizes
  and counters are integers and wrap with \<open>wrap64\<close> where the code can overflow. \<open>sort.Slice\<close> is modelled by a stable sort, which agrees with
  it whenever equal keys mean equal elements and for short lists always.

  \<^bold>\<open>Bounds and fuel.\<close> Loops are structural or end by a measure; there is no fuel except where the operating system has it: links are
  followed forty times (\<open>follow\<close>, \<open>walk\<close>), as Linux does. The traversal of a graph is shown to end for every valid graph. The paged
  listing of the registry ends because every page but the last advances the cursor.

  \<^bold>\<open>Not modelled.\<close> The scheduler (src/internal/scheduler) that drives runtimes, nodes and workspaces through their interfaces; result intake,
  the integration gate, work history, projection, telemetry and insights, which write and read portable records through the JSON codec;
  the codec and the validation of whole records in src/internal/project; pairing transcripts, identity keys and the TLS
  transport, which are cryptography; the file watcher, the scanner and the apply path of src/internal/sync beyond
  the commit of a one-way revision; the HTTP interface, the desktop shell, configuration, the Codex runtime and the Git
  worktrees, which are input and output around the parts above.
\<close>

end
